(* ===== verification/Prelude.thy ===== *)
theory Prelude
  imports Main "HOL-Library.Char_ord" "HOL-Library.List_Lexorder" "HOL-Library.Product_Lexorder"
begin

text \<open>
  Shared vocabulary of the development: the Python notions every component uses
  (truthiness of nullable text columns, the \<open>or\<close> operator, stable descending sorts,
  the ``best so far'' loop), the facts about them, and the two interfaces that several
  components provide: a \<^emph>\<open>ranked choice\<close> (the most specific matching row wins) and a
  \<^emph>\<open>write-once\<close> record (once decided, its decision never changes).
\<close>

named_theorems decide_simps "unfolding rules of the decision procedures of the model"

section \<open>Nullable text columns\<close>

type_synonym ident = string

text \<open>A nullable \<open>CharField\<close>: \<open>None\<close> and the empty string are both falsy.\<close>

definition truthy :: "string option \<Rightarrow> bool" where
  "truthy v = (case v of None \<Rightarrow> False | Some s \<Rightarrow> s \<noteq> [])"

lemma truthy_None [simp]: "\<not> truthy None"
  by (simp add: truthy_def)

lemma truthy_Some [simp]: "truthy (Some s) \<longleftrightarrow> s \<noteq> []"
  by (simp add: truthy_def)

lemma truthyE [elim]:
  assumes "truthy v" obtains s where "v = Some s" and "s \<noteq> []"
  using assms by (cases v) auto

text \<open>Python's \<open>a or b\<close> on nullable text.\<close>

definition py_or :: "string option \<Rightarrow> string option \<Rightarrow> string option" where
  "py_or a b = (if truthy a then a else b)"

text \<open>Python's \<open>a or None\<close>.\<close>

definition blank_to_none :: "string option \<Rightarrow> string option" where
  "blank_to_none v = (if truthy v then v else None)"

lemma blank_to_none_eq_Some [simp]: "blank_to_none v = Some s \<longleftrightarrow> v = Some s \<and> s \<noteq> []"
  by (cases v) (auto simp: blank_to_none_def)

lemma blank_to_none_eq_None [simp]: "blank_to_none v = None \<longleftrightarrow> \<not> truthy v"
  by (cases v) (auto simp: blank_to_none_def)

lemma truthy_blank_to_none [simp]: "truthy (blank_to_none v) = truthy v"
  by (simp add: blank_to_none_def)

section \<open>Choosing the best row\<close>

text \<open>
  The loop \<open>if best is None or key(x) > key(best): best = x\<close>: the first element of
  the largest key.
\<close>

fun best_by :: "('a \<Rightarrow> 'k::linorder) \<Rightarrow> 'a option \<Rightarrow> 'a list \<Rightarrow> 'a option" where
  "best_by key b [] = b"
| "best_by key b (x # xs) =
     best_by key (case b of None \<Rightarrow> Some x | Some y \<Rightarrow> if key y < key x then Some x else Some y) xs"

text \<open>\<open>list.sort(key=key, reverse=True)\<close>: a stable descending sort.\<close>

definition sort_desc :: "('a \<Rightarrow> 'k::linorder) \<Rightarrow> 'a list \<Rightarrow> 'a list" where
  "sort_desc key xs = rev (sort_key key (rev xs))"

text \<open>The relation both implement: \<open>r\<close> is the first element of maximal key.\<close>

definition first_max :: "('a \<Rightarrow> 'k::linorder) \<Rightarrow> 'a list \<Rightarrow> 'a \<Rightarrow> bool" where
  "first_max key xs r \<longleftrightarrow>
     (\<exists>ys zs. xs = ys @ r # zs \<and> (\<forall>y\<in>set ys. key y < key r) \<and> (\<forall>z\<in>set zs. key z \<le> key r))"

lemma first_max_in: "first_max key xs r \<Longrightarrow> r \<in> set xs"
  by (auto simp: first_max_def)

lemma first_max_ge: "first_max key xs r \<Longrightarrow> x \<in> set xs \<Longrightarrow> key x \<le> key r"
  by (auto simp: first_max_def less_imp_le)

lemma first_max_single [simp]: "first_max key [x] r \<longleftrightarrow> r = x"
  by (auto simp: first_max_def Cons_eq_append_conv)

lemma first_max_unique:
  assumes "first_max key xs a" and "first_max key xs b"
  shows "a = b"
proof -
  from assms obtain ys zs us vs
    where a: "xs = ys @ a # zs" "\<forall>y\<in>set ys. key y < key a" "\<forall>z\<in>set zs. key z \<le> key a"
      and b: "xs = us @ b # vs" "\<forall>y\<in>set us. key y < key b" "\<forall>z\<in>set vs. key z \<le> key b"
    unfolding first_max_def by blast
  from a(1) b(1) have "ys @ a # zs = us @ b # vs" by simp
  then have "\<exists>w. ys = us @ w \<and> w @ a # zs = b # vs \<or> ys @ w = us \<and> a # zs = w @ b # vs"
    by (simp only: append_eq_append_conv2)
  then obtain w where w: "ys = us @ w \<and> w @ a # zs = b # vs \<or> ys @ w = us \<and> a # zs = w @ b # vs"
    by (rule exE)
  consider (same) "a = b" | (left) "\<exists>ws. us = ys @ a # ws" | (right) "\<exists>ws. ys = us @ b # ws"
    using w by (cases w) auto
  then show ?thesis
  proof cases
    case left
    then have "key a < key b" using b(2) by auto
    moreover have "key b \<le> key a" using first_max_ge [OF assms(1) first_max_in [OF assms(2)]] .
    ultimately show ?thesis by simp
  next
    case right
    then have "key b < key a" using a(2) by auto
    moreover have "key a \<le> key b" using first_max_ge [OF assms(2) first_max_in [OF assms(1)]] .
    ultimately show ?thesis by simp
  qed simp
qed

lemma first_max_snoc:
  "first_max key (xs @ [x]) r \<longleftrightarrow>
     (first_max key xs r \<and> key x \<le> key r) \<or> (r = x \<and> (\<forall>y\<in>set xs. key y < key x))"
  (is "?l \<longleftrightarrow> ?r")
proof
  assume ?l
  then obtain ys zs where e: "xs @ [x] = ys @ r # zs"
    and y: "\<forall>y\<in>set ys. key y < key r" and z: "\<forall>z\<in>set zs. key z \<le> key r"
    by (auto simp: first_max_def)
  show ?r
  proof (cases zs rule: rev_cases)
    case Nil
    with e y show ?thesis by auto
  next
    case (snoc ws w)
    with e y z show ?thesis by (auto simp: first_max_def)
  qed
next
  assume ?r
  then show ?l
  proof
    assume "first_max key xs r \<and> key x \<le> key r"
    then obtain ys zs where "xs = ys @ r # zs" "\<forall>y\<in>set ys. key y < key r"
      "\<forall>z\<in>set (zs @ [x]). key z \<le> key r"
      by (auto simp: first_max_def)
    then have "xs @ [x] = ys @ r # (zs @ [x])" by simp
    then show ?thesis unfolding first_max_def
      using \<open>\<forall>y\<in>set ys. key y < key r\<close> \<open>\<forall>z\<in>set (zs @ [x]). key z \<le> key r\<close> by blast
  next
    assume "r = x \<and> (\<forall>y\<in>set xs. key y < key x)"
    then show ?thesis unfolding first_max_def
      by (intro exI [of _ xs] exI [of _ "[]"]) simp
  qed
qed

lemma best_by_append: "best_by key b (xs @ ys) = best_by key (best_by key b xs) ys"
  by (induction xs arbitrary: b) auto

lemma best_by_first_max: "xs \<noteq> [] \<Longrightarrow> \<exists>r. best_by key None xs = Some r \<and> first_max key xs r"
proof (induction xs rule: rev_induct)
  case Nil
  then show ?case by simp
next
  case (snoc x xs)
  show ?case
  proof (cases "xs = []")
    case True
    then show ?thesis by simp
  next
    case False
    with snoc.IH obtain r where r: "best_by key None xs = Some r" "first_max key xs r" by blast
    from r(2) have "\<forall>y\<in>set xs. key y \<le> key r" by (auto dest: first_max_ge)
    with r show ?thesis
      by (auto simp: best_by_append first_max_snoc intro: le_less_trans)
  qed
qed

lemma best_by_None_iff [simp]: "best_by key None xs = None \<longleftrightarrow> xs = []"
  using best_by_first_max [of xs key] by (cases "xs = []") auto

lemma best_by_eq_Some: "best_by key None xs = Some r \<longleftrightarrow> first_max key xs r"
proof
  assume "best_by key None xs = Some r"
  moreover from this have "xs \<noteq> []" by auto
  ultimately show "first_max key xs r" using best_by_first_max [of xs key] by auto
next
  assume r: "first_max key xs r"
  then have "xs \<noteq> []" by (auto simp: first_max_def)
  then obtain r' where "best_by key None xs = Some r'" "first_max key xs r'"
    using best_by_first_max by blast
  with r show "best_by key None xs = Some r" by (auto dest: first_max_unique)
qed

lemma set_sort_desc [simp]: "set (sort_desc key xs) = set xs"
  by (simp add: sort_desc_def)

lemma sort_desc_Nil_iff [simp]: "sort_desc key xs = [] \<longleftrightarrow> xs = []"
  by (metis set_sort_desc set_empty)

lemma last_insort_key:
  "ys \<noteq> [] \<Longrightarrow> sorted (map key ys) \<Longrightarrow>
     last (insort_key key x ys) = (if key (last ys) < key x then x else last ys)"
proof (induction ys)
  case Nil
  then show ?case by simp
next
  case (Cons y ys)
  show ?case
  proof (cases "ys = []")
    case True
    then show ?thesis by auto
  next
    case False
    with Cons.prems have y: "key y \<le> key (last ys)" by auto
    show ?thesis
    proof (cases "key x \<le> key y")
      case True
      with y have "\<not> key (last ys) < key x" by simp
      with True False show ?thesis by simp
    next
      case False
      with Cons \<open>ys \<noteq> []\<close> show ?thesis by simp
    qed
  qed
qed

lemma hd_sort_desc: "xs \<noteq> [] \<Longrightarrow> first_max key xs (hd (sort_desc key xs))"
proof (induction xs rule: rev_induct)
  case Nil
  then show ?case by simp
next
  case (snoc x xs)
  show ?case
  proof (cases "xs = []")
    case True
    then show ?thesis by (simp add: sort_desc_def)
  next
    case False
    let ?s = "sort_key key (rev xs)"
    from False have ne: "?s \<noteq> []" by (metis Nil_is_rev_conv set_empty set_sort)
    have IH: "first_max key xs (last ?s)"
      using snoc.IH [OF False] ne by (simp add: sort_desc_def hd_rev)
    have "hd (sort_desc key (xs @ [x])) = last (insort_key key x ?s)"
      by (simp add: sort_desc_def hd_rev)
    also have "\<dots> = (if key (last ?s) < key x then x else last ?s)"
      by (rule last_insort_key) (use ne in simp_all)
    finally show ?thesis using IH
      by (auto simp: first_max_snoc dest: first_max_ge [OF IH])
  qed
qed

section \<open>Iteration that comes back\<close>

lemma funpow_returns:
  fixes f :: "'a \<Rightarrow> 'a"
  assumes "(f ^^ k) x = (f ^^ j) x" and "j < k"
  shows "\<exists>i<k. (f ^^ n) x = (f ^^ i) x"
proof (induction n)
  case 0
  from assms(2) show ?case by (intro exI [of _ 0]) simp
next
  case (Suc n)
  then obtain i where i: "i < k" "(f ^^ n) x = (f ^^ i) x" by blast
  show ?case
  proof (cases "Suc i < k")
    case True
    with i show ?thesis by (intro exI [of _ "Suc i"]) simp
  next
    case False
    with i(1) have "Suc i = k" by simp
    with i(2) have "(f ^^ Suc n) x = (f ^^ k) x" by auto
    with assms show ?thesis by auto
  qed
qed

section \<open>Rows by key, decimal numbers\<close>

lemma find_distinct:
  "distinct (map g xs) \<Longrightarrow> x \<in> set xs \<Longrightarrow> find (\<lambda>y. g y = g x) xs = Some x"
  by (induction xs) force+

lemma find_append:
  "find P (xs @ ys) = (case find P xs of None \<Rightarrow> find P ys | Some x \<Rightarrow> Some x)"
  by (induction xs) auto

lemma distinct_map_eq: "distinct (map f xs) \<Longrightarrow> x \<in> set xs \<Longrightarrow> y \<in> set xs \<Longrightarrow> f x = f y \<Longrightarrow> x = y"
  by (auto simp: distinct_map inj_on_def)

lemma find_in: "find P xs = Some x \<Longrightarrow> x \<in> set xs \<and> P x"
  by (auto simp: find_Some_iff)

lemma filter_map_frame:
  "(\<And>x. Q (f x) = Q x) \<Longrightarrow> (\<And>x. Q x \<Longrightarrow> f x = x) \<Longrightarrow> filter Q (map f xs) = filter Q xs"
  by (induction xs) auto

lemma find_map_id:
  "(\<And>x. g (h x) = g x) \<Longrightarrow> find (\<lambda>x. g x = v) (map h xs) = map_option h (find (\<lambda>x. g x = v) xs)"
  by (induction xs) auto

fun show_nat :: "nat \<Rightarrow> string" where
  "show_nat n = (if n < 10 then [char_of (48 + n)] else show_nat (n div 10) @ [char_of (48 + n mod 10)])"

declare show_nat.simps [simp del]

section \<open>Stripped text\<close>

text \<open>\<open>str.strip()\<close> on the characters of the model.\<close>

definition is_space :: "char \<Rightarrow> bool" where
  "is_space c \<longleftrightarrow> (of_char c :: nat) \<in> {9..13} \<union> {28..32} \<union> {133, 160}"

definition py_strip :: "string \<Rightarrow> string" where
  "py_strip s = rev (dropWhile is_space (rev (dropWhile is_space s)))"

section \<open>Integers from text\<close>

text \<open>\<open>str.isdigit()\<close> and \<open>int()\<close> on ASCII text without digit separators.\<close>

definition is_digit :: "char \<Rightarrow> bool" where
  "is_digit c \<longleftrightarrow> (of_char c :: nat) \<in> {48..57}"

definition py_isdigit :: "string \<Rightarrow> bool" where
  "py_isdigit s \<longleftrightarrow> s \<noteq> [] \<and> list_all is_digit s"

definition digits_value :: "string \<Rightarrow> int" where
  "digits_value s = foldl (\<lambda>n c. 10 * n + (of_char c - 48)) 0 s"

definition py_int :: "string \<Rightarrow> int option" where
  "py_int s =
     (let t = py_strip s;
          negative = (t \<noteq> [] \<and> hd t = CHR ''-'');
          ds = (if t \<noteq> [] \<and> hd t \<in> {CHR ''-'', CHR ''+''} then tl t else t)
      in if py_isdigit ds then Some (if negative then - digits_value ds else digits_value ds) else None)"

text \<open>\<open>str.split\<close> on one character.\<close>

fun split_on :: "char \<Rightarrow> string \<Rightarrow> string list" where
  "split_on sep [] = [[]]"
| "split_on sep (c # cs) =
     (if c = sep then [] # split_on sep cs
      else case split_on sep cs of [] \<Rightarrow> [[c]] | p # ps \<Rightarrow> (c # p) # ps)"

text \<open>\<open>str.lower\<close> on ASCII text.\<close>

definition lower_char :: "char \<Rightarrow> char" where
  "lower_char c =
     (if CHR ''A'' \<le> c \<and> c \<le> CHR ''Z'' then char_of (of_char c + 32 :: nat) else c)"

definition lower :: "string \<Rightarrow> string" where
  "lower = map lower_char"

section \<open>Interface: a ranked choice among candidate rows\<close>

text \<open>
  The lookups of the program that resolve ``the most specific matching row''. The
  provider promises that nothing is returned only when no candidate matches, and that
  the returned candidate is the first of the largest rank among the matching ones.
\<close>

locale ranked_choice =
  fixes pick :: "'r list \<Rightarrow> 'r option"
    and ok :: "'r \<Rightarrow> bool"
    and rank :: "'r \<Rightarrow> 'k::linorder"
  assumes pick_None: "pick rs = None \<longleftrightarrow> (\<forall>r\<in>set rs. \<not> ok r)"
    and pick_Some: "pick rs = Some r \<Longrightarrow> first_max rank (filter ok rs) r"
begin

lemma pick_in: "pick rs = Some r \<Longrightarrow> r \<in> set rs"
  by (drule pick_Some) (auto dest: first_max_in)

lemma pick_ok: "pick rs = Some r \<Longrightarrow> ok r"
  by (drule pick_Some) (auto dest: first_max_in)

lemma pick_best: "pick rs = Some r \<Longrightarrow> x \<in> set rs \<Longrightarrow> ok x \<Longrightarrow> rank x \<le> rank r"
  by (drule pick_Some) (auto dest: first_max_ge)

lemma pick_total: "x \<in> set rs \<Longrightarrow> ok x \<Longrightarrow> \<exists>r. pick rs = Some r"
  using pick_None [of rs] by (cases "pick rs") auto

lemma pick_eq_Some: "pick rs = Some r \<longleftrightarrow> first_max rank (filter ok rs) r"
proof
  assume r: "first_max rank (filter ok rs) r"
  then have "r \<in> set rs" "ok r" by (auto dest: first_max_in)
  then obtain r' where r': "pick rs = Some r'" using pick_total by blast
  with r show "pick rs = Some r" by (auto dest: pick_Some first_max_unique)
qed (rule pick_Some)

lemma pick_only_matching: "pick (filter ok rs) = pick rs"
proof -
  have same: "pick (filter ok rs) = Some r \<longleftrightarrow> pick rs = Some r" for r
    by (simp add: pick_eq_Some)
  show ?thesis
  proof (cases "pick rs")
    case None
    then have "pick (filter ok rs) = None" unfolding pick_None by simp
    with None show ?thesis by simp
  next
    case (Some r)
    with same [of r] show ?thesis by simp
  qed
qed

lemma pick_same_matching: "filter ok rs = filter ok rs' \<Longrightarrow> pick rs = pick rs'"
  by (metis pick_only_matching)

lemma pick_override:
  "pick rs = Some r \<Longrightarrow> ok n \<Longrightarrow> rank r < rank n \<Longrightarrow> pick (rs @ [n]) = Some n"
  by (auto simp: pick_eq_Some first_max_snoc dest: first_max_ge)

lemma pick_keep:
  "pick rs = Some r \<Longrightarrow> ok n \<longrightarrow> rank n \<le> rank r \<Longrightarrow> pick (rs @ [n]) = Some r"
  by (auto simp: pick_eq_Some first_max_snoc dest: first_max_ge)

end

section \<open>Interface: a record that is decided once\<close>

text \<open>
  Sessions, background jobs and re-trip requests carry a decision (a logout stamp, an
  outcome, a review) that is written once. The provider promises that an operation on a
  decided record leaves it decided and its stamp unchanged; then no sequence of
  operations changes it.
\<close>

locale write_once =
  fixes act :: "'e \<Rightarrow> 's \<Rightarrow> 's"
    and decided :: "'s \<Rightarrow> bool"
    and stamp :: "'s \<Rightarrow> 'o"
  assumes act_decided: "decided s \<Longrightarrow> decided (act e s)"
    and act_stamp: "decided s \<Longrightarrow> stamp (act e s) = stamp s"
begin

lemma run_decided: "decided s \<Longrightarrow> decided (fold act es s)"
  by (induction es arbitrary: s) (auto simp: act_decided)

lemma run_stamp: "decided s \<Longrightarrow> stamp (fold act es s) = stamp s"
  by (induction es arbitrary: s) (auto simp: act_decided act_stamp)

lemma first_decision_wins:
  "decided (fold act es s) \<Longrightarrow> stamp (fold act (es @ es') s) = stamp (fold act es s)"
  by (simp add: run_stamp)

end

end
