(* ===== verification/Scope_Resolution.thy ===== *)
theory Scope_Resolution
  imports Prelude
begin

text \<open>
  Scope resolution for rows that may be tied to a place (\<open>app/utils/staff_hierarchy.py\<close>)
  and the validation of Staff Hierarchy writes
  (\<open>app/serializers/superadmin/role_management/staffhierarchy_serializer.py\<close>).

  A place is a dict from the nine scope columns to unique ids, here a partial map
  \<open>geo\<close>; the rows of the location masters are the table \<open>geo_db\<close>, an argument of the
  definitions that look a record up. A scope column of a row is nullable text, and blank
  text counts as unset.
\<close>

section \<open>Scope columns\<close>

datatype scope_field =
    CountryId | StateId | DistrictId | AreaTypeId
  | CorporationId | MunicipalityId | TownPanchayatId | PanchayatUnionId | PanchayatId

text \<open>The scope fields are finitely many, so geo records can be compared and evaluated.\<close>

instantiation scope_field :: enum
begin

definition enum_scope_field :: "scope_field list" where
  "enum_scope_field = [CountryId, StateId, DistrictId, AreaTypeId, CorporationId,
     MunicipalityId, TownPanchayatId, PanchayatUnionId, PanchayatId]"

definition enum_all_scope_field :: "(scope_field \<Rightarrow> bool) \<Rightarrow> bool" where
  "enum_all_scope_field P \<longleftrightarrow> list_all P enum_class.enum"

definition enum_ex_scope_field :: "(scope_field \<Rightarrow> bool) \<Rightarrow> bool" where
  "enum_ex_scope_field P \<longleftrightarrow> list_ex P enum_class.enum"

instance
proof
  show univ: "(UNIV :: scope_field set) = set enum_class.enum"
    by (auto simp: enum_scope_field_def intro: scope_field.exhaust)
  show "distinct (enum_class.enum :: scope_field list)" by (simp add: enum_scope_field_def)
  show "enum_class.enum_all P \<longleftrightarrow> Ball UNIV P" for P :: "scope_field \<Rightarrow> bool"
    by (simp add: enum_all_scope_field_def univ list_all_iff)
  show "enum_class.enum_ex P \<longleftrightarrow> Bex UNIV P" for P :: "scope_field \<Rightarrow> bool"
    by (simp add: enum_ex_scope_field_def univ list_ex_iff)
qed

end

type_synonym geo = "scope_field \<Rightarrow> string option"

definition LOCAL_BODY_SCOPE_FIELDS :: "scope_field list" where
  "LOCAL_BODY_SCOPE_FIELDS =
     [CorporationId, MunicipalityId, TownPanchayatId, PanchayatUnionId, PanchayatId]"

definition SCOPE_FIELDS :: "scope_field list" where
  "SCOPE_FIELDS = [CountryId, StateId, DistrictId, AreaTypeId] @ LOCAL_BODY_SCOPE_FIELDS"

fun SPECIFICITY :: "scope_field \<Rightarrow> nat" where
  "SPECIFICITY CountryId = 1"
| "SPECIFICITY StateId = 2"
| "SPECIFICITY DistrictId = 3"
| "SPECIFICITY AreaTypeId = 4"
| "SPECIFICITY _ = 5"

text \<open>\<open>PARENT_FIELDS.get(field)\<close>; the country has no entry.\<close>

fun PARENT_FIELDS :: "scope_field \<Rightarrow> scope_field list option" where
  "PARENT_FIELDS CountryId = None"
| "PARENT_FIELDS StateId = Some [CountryId]"
| "PARENT_FIELDS DistrictId = Some [CountryId, StateId]"
| "PARENT_FIELDS AreaTypeId = Some [StateId, DistrictId]"
| "PARENT_FIELDS _ = Some [StateId, DistrictId, AreaTypeId]"

fun SCOPE_LEVEL_LABELS :: "scope_field \<Rightarrow> string" where
  "SCOPE_LEVEL_LABELS CountryId = ''Country''"
| "SCOPE_LEVEL_LABELS StateId = ''State''"
| "SCOPE_LEVEL_LABELS DistrictId = ''District''"
| "SCOPE_LEVEL_LABELS AreaTypeId = ''Area Type''"
| "SCOPE_LEVEL_LABELS CorporationId = ''Corporation''"
| "SCOPE_LEVEL_LABELS MunicipalityId = ''Municipality''"
| "SCOPE_LEVEL_LABELS TownPanchayatId = ''Town Panchayat''"
| "SCOPE_LEVEL_LABELS PanchayatUnionId = ''Panchayat Union''"
| "SCOPE_LEVEL_LABELS PanchayatId = ''Panchayat''"

section \<open>Location masters\<close>

text \<open>One row of a location master: its own parent columns and its delete flag.\<close>

record geo_record =
  gr_columns :: geo
  gr_is_deleted :: bool

type_synonym geo_db = "scope_field \<Rightarrow> string \<Rightarrow> geo_record option"

text \<open>\<open>scope_record\<close> with \<open>ref_cache.get\<close> outside a cache scope: the row with that id.\<close>

definition scope_record :: "geo_db \<Rightarrow> scope_field \<Rightarrow> string option \<Rightarrow> geo_record option" where
  "scope_record db field value =
     (case value of None \<Rightarrow> None | Some v \<Rightarrow> if v = [] then None else db field v)"

text \<open>\<open>getattr(record, parent, None)\<close>, where the record itself may be \<open>None\<close>.\<close>

definition record_attr :: "geo_record option \<Rightarrow> scope_field \<Rightarrow> string option" where
  "record_attr rec field = (case rec of None \<Rightarrow> None | Some r \<Rightarrow> gr_columns r field)"

text \<open>The inner loop of \<open>complete_geo\<close>: copy the parents that are still blank.\<close>

fun fill_parents :: "geo_record option \<Rightarrow> scope_field list \<Rightarrow> geo \<Rightarrow> geo" where
  "fill_parents rec [] geo = geo"
| "fill_parents rec (p # ps) geo =
     fill_parents rec ps
       (if truthy (record_attr rec p) \<and> \<not> truthy (geo p)
        then geo(p := record_attr rec p) else geo)"

fun complete_geo_loop :: "geo_db \<Rightarrow> scope_field list \<Rightarrow> geo \<Rightarrow> geo" where
  "complete_geo_loop db [] geo = geo"
| "complete_geo_loop db (field # fs) geo =
     complete_geo_loop db fs
       (case PARENT_FIELDS field of
          None \<Rightarrow> geo
        | Some parents \<Rightarrow>
            if \<not> truthy (geo field) then geo
            else fill_parents (scope_record db field (geo field)) parents geo)"

definition complete_geo :: "geo_db \<Rightarrow> geo \<Rightarrow> geo" where
  "complete_geo db geo = complete_geo_loop db (rev SCOPE_FIELDS) (\<lambda>f. blank_to_none (geo f))"

section \<open>Scopes, coverage and the deciding row\<close>

definition row_scope :: "geo \<Rightarrow> geo" where
  "row_scope columns = (\<lambda>f. blank_to_none (columns f))"

text \<open>The keys of a scope dict, in the order of its comprehension.\<close>

definition scope_keys :: "geo \<Rightarrow> scope_field list" where
  "scope_keys scope = filter (\<lambda>f. scope f \<noteq> None) SCOPE_FIELDS"

definition specificity :: "geo \<Rightarrow> nat" where
  "specificity scope = fold max (map SPECIFICITY (scope_keys scope)) 0"

definition covers :: "geo \<Rightarrow> geo \<Rightarrow> bool" where
  "covers scope geo = list_all (\<lambda>f. geo f = scope f) (scope_keys scope)"

record hierarchy_row =
  hr_unique_id :: ident
  hr_governmentusertype_id :: ident
  hr_reports_to :: "ident option"
  hr_columns :: geo
  hr_level :: nat
  hr_escalation_enabled :: bool
  hr_is_active :: bool
  hr_is_deleted :: bool

definition scope_rank :: "geo \<Rightarrow> nat \<times> nat" where
  "scope_rank scope = (specificity scope, length (scope_keys scope))"

text \<open>The loop of \<open>resolve_entry\<close> with its accumulator \<open>best = (rank, row)\<close>.\<close>

fun resolve_entry_loop ::
  "ident \<Rightarrow> geo \<Rightarrow> ((nat \<times> nat) \<times> hierarchy_row) option \<Rightarrow> hierarchy_row list \<Rightarrow>
     ((nat \<times> nat) \<times> hierarchy_row) option" where
  "resolve_entry_loop role_id geo best [] = best"
| "resolve_entry_loop role_id geo best (row # rows) =
     (if hr_governmentusertype_id row \<noteq> role_id then resolve_entry_loop role_id geo best rows
      else let scope = row_scope (hr_columns row) in
        if \<not> covers scope geo then resolve_entry_loop role_id geo best rows
        else let rank = scope_rank scope in
          resolve_entry_loop role_id geo
            (case best of
               None \<Rightarrow> Some (rank, row)
             | Some (r, b) \<Rightarrow> if r < rank then Some (rank, row) else Some (r, b))
            rows)"

definition resolve_entry :: "hierarchy_row list \<Rightarrow> ident \<Rightarrow> geo \<Rightarrow> hierarchy_row option" where
  "resolve_entry rows role_id geo = map_option snd (resolve_entry_loop role_id geo None rows)"

definition scope_level :: "geo \<Rightarrow> string option" where
  "scope_level columns =
     map_option SCOPE_LEVEL_LABELS (best_by SPECIFICITY None (scope_keys (row_scope columns)))"

section \<open>Government levels\<close>






section \<open>Deciding row: specification\<close>

text \<open>A row is a candidate for a role in an area when it is that role's and covers the area.\<close>

definition entry_ok :: "ident \<Rightarrow> geo \<Rightarrow> hierarchy_row \<Rightarrow> bool" where
  "entry_ok role_id geo row \<longleftrightarrow>
     hr_governmentusertype_id row = role_id \<and> covers (row_scope (hr_columns row)) geo"

abbreviation row_rank :: "hierarchy_row \<Rightarrow> nat \<times> nat" where
  "row_rank row \<equiv> scope_rank (row_scope (hr_columns row))"

lemma resolve_entry_loop_best_by:
  "resolve_entry_loop role_id geo (map_option (\<lambda>b. (row_rank b, b)) best) rows =
     map_option (\<lambda>b. (row_rank b, b)) (best_by row_rank best (filter (entry_ok role_id geo) rows))"
proof (induction rows arbitrary: best)
  case Nil
  then show ?case by simp
next
  case (Cons row rows)
  show ?case
  proof (cases "entry_ok role_id geo row")
    case True
    then have ok: "hr_governmentusertype_id row = role_id" "covers (row_scope (hr_columns row)) geo"
      by (auto simp: entry_ok_def)
    show ?thesis
    proof (cases best)
      case None
      with True ok Cons.IH [of "Some row"] show ?thesis by (simp add: Let_def)
    next
      case (Some b)
      with True ok Cons.IH [of "Some row"] Cons.IH [of "Some b"] show ?thesis
        by (simp add: Let_def)
    qed
  next
    case False
    with Cons.IH [of best] show ?thesis by (auto simp: entry_ok_def Let_def)
  qed
qed

lemma resolve_entry_best_by:
  "resolve_entry rows role_id geo = best_by row_rank None (filter (entry_ok role_id geo) rows)"
proof -
  have "resolve_entry_loop role_id geo None rows =
      map_option (\<lambda>b. (row_rank b, b)) (best_by row_rank None (filter (entry_ok role_id geo) rows))"
    using resolve_entry_loop_best_by [of role_id geo None rows] by simp
  then show ?thesis by (simp add: resolve_entry_def option.map_comp comp_def option.map_ident)
qed

text \<open>\<open>resolve_entry\<close> is a ranked choice among the rows of the role that cover the area.\<close>

interpretation hier: ranked_choice "\<lambda>rows. resolve_entry rows role_id geo" "entry_ok role_id geo" row_rank
  for role_id geo
  by unfold_locales (auto simp: resolve_entry_best_by best_by_eq_Some filter_empty_conv)

section \<open>Scopes as dicts\<close>

lemma set_SCOPE_FIELDS [simp]: "set SCOPE_FIELDS = UNIV"
proof -
  have "f \<in> set SCOPE_FIELDS" for f
    by (cases f) (simp_all add: SCOPE_FIELDS_def LOCAL_BODY_SCOPE_FIELDS_def)
  then show ?thesis by auto
qed

lemma set_scope_keys [simp]: "set (scope_keys scope) = dom scope"
  by (auto simp: scope_keys_def)

lemma row_scope_Some [simp]: "row_scope c f = Some v \<longleftrightarrow> c f = Some v \<and> v \<noteq> []"
  by (simp add: row_scope_def)

lemma covers_iff: "covers scope geo \<longleftrightarrow> scope \<subseteq>\<^sub>m geo"
  by (simp add: covers_def list_all_iff map_le_def eq_commute)

lemma covers_refl [simp]: "covers s s"
  by (simp add: covers_iff)

lemma covers_trans: "covers a b \<Longrightarrow> covers b c \<Longrightarrow> covers a c"
  unfolding covers_iff by (rule map_le_trans)

lemma covers_row_scope_blank: "covers (row_scope (\<lambda>f. None)) geo"
  by (simp add: covers_iff row_scope_def map_le_def dom_def blank_to_none_def)

lemma specificity_Max: "specificity s = Max (insert 0 (SPECIFICITY ` dom s))"
proof -
  have "specificity s = Max (set (0 # map SPECIFICITY (scope_keys s)))"
    unfolding specificity_def by (rule Max.set_eq_fold [symmetric])
  then show ?thesis by simp
qed

lemma length_scope_keys: "length (scope_keys s) = card (dom s)"
proof -
  have "distinct (scope_keys s)"
    by (simp add: scope_keys_def SCOPE_FIELDS_def LOCAL_BODY_SCOPE_FIELDS_def)
  then show ?thesis by (metis distinct_card set_scope_keys)
qed

lemma covers_rank: "covers a b \<Longrightarrow> scope_rank a \<le> scope_rank b"
proof -
  assume "covers a b"
  then have sub: "set (scope_keys a) \<subseteq> set (scope_keys b)"
    by (auto simp: covers_iff map_le_implies_dom_le dest: map_le_implies_dom_le)
  have "specificity a \<le> specificity b"
    unfolding specificity_Max using image_mono [OF sub, of SPECIFICITY]
    by (intro Max_mono insert_mono) simp_all
  moreover have "length (scope_keys a) \<le> length (scope_keys b)"
    using sub by (simp add: length_scope_keys card_mono)
  ultimately show ?thesis by (simp add: scope_rank_def less_eq_prod_def le_less)
qed

section \<open>Completing a place with its parents\<close>

lemma fill_parents_keep: "truthy (geo f) \<Longrightarrow> fill_parents rec ps geo f = geo f"
  by (induction ps arbitrary: geo) auto

lemma fill_parents_other: "f \<notin> set ps \<Longrightarrow> fill_parents rec ps geo f = geo f"
  by (induction ps arbitrary: geo) auto

lemma fill_parents_filled:
  "p \<in> set ps \<Longrightarrow> truthy (record_attr rec p) \<Longrightarrow> truthy (fill_parents rec ps geo p)"
proof (induction ps arbitrary: geo)
  case Nil
  then show ?case by simp
next
  case (Cons q ps)
  show ?case
  proof (cases "p \<in> set ps")
    case True
    with Cons show ?thesis by simp
  next
    case False
    with Cons.prems show ?thesis by (auto simp: fill_parents_other)
  qed
qed

lemma fill_parents_no_blank: "(\<forall>f. geo f \<noteq> Some []) \<Longrightarrow> fill_parents rec ps geo f \<noteq> Some []"
  by (induction ps arbitrary: geo) auto

definition fill_from :: "geo_db \<Rightarrow> scope_field \<Rightarrow> geo \<Rightarrow> geo" where
  "fill_from db field geo =
     (case PARENT_FIELDS field of
        None \<Rightarrow> geo
      | Some parents \<Rightarrow>
          if \<not> truthy (geo field) then geo
          else fill_parents (scope_record db field (geo field)) parents geo)"

lemma complete_geo_loop_Cons:
  "complete_geo_loop db (field # fs) geo = complete_geo_loop db fs (fill_from db field geo)"
  by (simp add: fill_from_def)

declare complete_geo_loop.simps(2) [simp del]

lemmas complete_geo_loop_simps [simp] = complete_geo_loop_Cons

lemma parents_broader:
  "PARENT_FIELDS f = Some ps \<Longrightarrow> p \<in> set ps \<Longrightarrow> SPECIFICITY p < SPECIFICITY f"
  by (cases f) auto

lemma fill_from_keep: "truthy (geo f) \<Longrightarrow> fill_from db g geo f = geo f"
  by (simp add: fill_from_def fill_parents_keep split: option.split)

lemma fill_from_unchanged: "SPECIFICITY g \<le> SPECIFICITY f \<Longrightarrow> fill_from db g geo f = geo f"
  by (auto simp: fill_from_def split: option.split
      intro!: fill_parents_other dest: parents_broader)

lemma fill_from_no_blank: "(\<forall>f. geo f \<noteq> Some []) \<Longrightarrow> fill_from db g geo f \<noteq> Some []"
  by (simp add: fill_from_def fill_parents_no_blank split: option.split)

lemma complete_geo_loop_keep: "truthy (geo f) \<Longrightarrow> complete_geo_loop db fs geo f = geo f"
  by (induction fs arbitrary: geo) (simp_all add: fill_from_keep)

lemma complete_geo_loop_unchanged:
  "(\<forall>g\<in>set fs. SPECIFICITY g \<le> SPECIFICITY f) \<Longrightarrow> complete_geo_loop db fs geo f = geo f"
  by (induction fs arbitrary: geo) (simp_all add: fill_from_unchanged)

lemma complete_geo_loop_no_blank:
  "(\<forall>f. geo f \<noteq> Some []) \<Longrightarrow> complete_geo_loop db fs geo f \<noteq> Some []"
  by (induction fs arbitrary: geo) (simp_all add: fill_from_no_blank)

lemma complete_geo_loop_closed:
  assumes "sorted_wrt (\<lambda>a b. SPECIFICITY b \<le> SPECIFICITY a) fs" and "f \<in> set fs"
    and "truthy (complete_geo_loop db fs geo f)"
    and "PARENT_FIELDS f = Some ps" and "p \<in> set ps"
    and "truthy (record_attr (scope_record db f (complete_geo_loop db fs geo f)) p)"
  shows "truthy (complete_geo_loop db fs geo p)"
  using assms
proof (induction fs arbitrary: geo)
  case Nil
  then show ?case by simp
next
  case (Cons g fs)
  show ?case
  proof (cases "f \<in> set fs")
    case True
    with Cons show ?thesis by simp
  next
    case False
    with Cons.prems(2) have [simp]: "f = g" by simp
    from Cons.prems(1) have "complete_geo_loop db fs (fill_from db g geo) g = geo g"
      by (simp add: complete_geo_loop_unchanged fill_from_unchanged)
    with Cons.prems(3-6) have "truthy (fill_from db g geo p)"
      by (simp add: fill_from_def fill_parents_filled)
    then show ?thesis by (simp add: complete_geo_loop_keep)
  qed
qed

lemma complete_geo_given: "truthy (geo f) \<Longrightarrow> complete_geo db geo f = geo f"
  by (simp add: complete_geo_def complete_geo_loop_keep blank_to_none_def)

lemma complete_geo_not_blank: "complete_geo db geo f \<noteq> Some []"
  unfolding complete_geo_def by (rule complete_geo_loop_no_blank) simp

lemma truthy_complete_geo: "truthy (complete_geo db geo f) \<longleftrightarrow> complete_geo db geo f \<noteq> None"
  using complete_geo_not_blank [of db geo f] by (cases "complete_geo db geo f") auto

lemma complete_geo_closed:
  assumes "complete_geo db geo f = Some v" and "PARENT_FIELDS f = Some ps" and "p \<in> set ps"
    and "truthy (record_attr (db f v) p)"
  shows "complete_geo db geo p \<noteq> None"
proof -
  have sorted: "sorted_wrt (\<lambda>a b. SPECIFICITY b \<le> SPECIFICITY a) (rev SCOPE_FIELDS)"
    by (simp add: SCOPE_FIELDS_def LOCAL_BODY_SCOPE_FIELDS_def)
  have "v \<noteq> []" using assms(1) complete_geo_not_blank by metis
  with assms(1,4) have "truthy (record_attr (scope_record db f (complete_geo db geo f)) p)"
    by (simp add: scope_record_def)
  moreover have "truthy (complete_geo db geo f)" using assms(1) \<open>v \<noteq> []\<close> by simp
  ultimately have "truthy (complete_geo db geo p)"
    using complete_geo_loop_closed [OF sorted _ _ assms(2,3), of db] by (simp add: complete_geo_def)
  then show ?thesis by (simp add: truthy_complete_geo)
qed

section \<open>Reporting cycles\<close>

text \<open>
  The inner loop of \<open>find_cycle\<close>: follow the deciding rows' heads from \<open>current\<close>,
  remembering the roles seen. Every role whose head is read has a row of its own, so the
  roles of \<open>rows\<close> that have not been seen shrink.
\<close>

function chase_heads :: "hierarchy_row list \<Rightarrow> geo \<Rightarrow> ident list \<Rightarrow> ident option \<Rightarrow> bool" where
  "chase_heads rows area seen None = False"
| "chase_heads rows area seen (Some current) =
     (if current = [] then False
      else if current \<in> set seen then True
      else chase_heads rows area (current # seen)
             (case resolve_entry rows current area of
                None \<Rightarrow> None
              | Some entry \<Rightarrow> hr_reports_to entry))"
  by pat_completeness auto

lemma resolve_entry_role:
  "resolve_entry rows role area = Some e \<Longrightarrow> role \<in> hr_governmentusertype_id ` set rows"
  using hier.pick_in [of rows role area e] hier.pick_ok [of rows role area e]
  by (auto simp: entry_ok_def)

termination chase_heads
proof (relation "measures [\<lambda>(rows, area, seen, cur).
      card (hr_governmentusertype_id ` set rows - set seen),
    \<lambda>(rows, area, seen, cur). case cur of None \<Rightarrow> 0 | Some _ \<Rightarrow> 1]")
  fix rows :: "hierarchy_row list" and area seen and current :: ident
  let ?R = "hr_governmentusertype_id ` set rows"
  assume nin: "current \<notin> set seen"
  show "((rows, area, current # seen,
          case resolve_entry rows current area of None \<Rightarrow> None | Some entry \<Rightarrow> hr_reports_to entry),
         rows, area, seen, Some current)
        \<in> measures [\<lambda>(rows, area, seen, cur). card (hr_governmentusertype_id ` set rows - set seen),
            \<lambda>(rows, area, seen, cur). case cur of None \<Rightarrow> 0 | Some _ \<Rightarrow> 1]"
  proof (cases "resolve_entry rows current area")
    case None
    have "card (?R - insert current (set seen)) \<le> card (?R - set seen)"
      by (intro card_mono) auto
    with None show ?thesis by (simp add: le_less)
  next
    case (Some e)
    then have "current \<in> ?R - set seen" using nin by (simp add: resolve_entry_role)
    moreover have "?R - insert current (set seen) = (?R - set seen) - {current}" by auto
    ultimately have "card (?R - insert current (set seen)) < card (?R - set seen)"
      by (metis card_Diff1_less finite_Diff finite_imageI finite_set)
    then show ?thesis by simp
  qed
qed simp

definition cycle_areas :: "hierarchy_row list \<Rightarrow> hierarchy_row \<Rightarrow> geo list" where
  "cycle_areas rows pending =
     (let pending_scope = row_scope (hr_columns pending)
      in [pending_scope]
         @ filter (\<lambda>scope. covers pending_scope scope)
             (map (\<lambda>row. row_scope (hr_columns row)) rows))"

definition find_cycle :: "hierarchy_row list \<Rightarrow> hierarchy_row \<Rightarrow> bool" where
  "find_cycle rows pending \<longleftrightarrow>
     list_ex (\<lambda>area. chase_heads rows area [] (Some (hr_governmentusertype_id pending)))
       (cycle_areas rows pending)"

text \<open>One step up the reporting chain of an area: the head of the deciding row.\<close>

definition head_step :: "hierarchy_row list \<Rightarrow> geo \<Rightarrow> ident option \<Rightarrow> ident option" where
  "head_step rows area current =
     (case current of
        None \<Rightarrow> None
      | Some c \<Rightarrow>
          if c = [] then None
          else (case resolve_entry rows c area of None \<Rightarrow> None | Some e \<Rightarrow> hr_reports_to e))"

text \<open>The chain from a role never ends: the role above every role of the chain is set.\<close>

definition endless_chain :: "hierarchy_row list \<Rightarrow> geo \<Rightarrow> ident \<Rightarrow> bool" where
  "endless_chain rows area role \<longleftrightarrow> (\<forall>n. truthy ((head_step rows area ^^ n) (Some role)))"

lemma chase_heads_chain:
  assumes "current = (head_step rows area ^^ k) start"
    and "set seen = {c. \<exists>j<k. (head_step rows area ^^ j) start = Some c}"
    and "\<forall>j<k. truthy ((head_step rows area ^^ j) start)"
  shows "chase_heads rows area seen current \<longleftrightarrow> (\<forall>n. truthy ((head_step rows area ^^ n) start))"
  using assms
proof (induction rows area seen current arbitrary: k rule: chase_heads.induct)
  case (1 rows area seen)
  then have "\<not> truthy ((head_step rows area ^^ k) start)" by (metis truthy_None)
  then show ?case by auto
next
  case (2 rows area seen current)
  let ?f = "head_step rows area"
  consider (blank) "current = []" | (seen) "current \<noteq> []" "current \<in> set seen"
    | (new) "current \<noteq> []" "current \<notin> set seen" by blast
  then show ?case
  proof cases
    case blank
    with "2.prems"(1) have "\<not> truthy ((?f ^^ k) start)" by (metis truthy_Some)
    with blank show ?thesis by auto
  next
    case seen
    with "2.prems" obtain j where j: "j < k" "(?f ^^ k) start = (?f ^^ j) start" by auto
    have "truthy ((?f ^^ n) start)" for n
      using funpow_returns [OF j(2,1)] "2.prems"(3) by metis
    with seen show ?thesis by simp
  next
    case new
    have next_eq: "(case resolve_entry rows current area of
        None \<Rightarrow> None | Some entry \<Rightarrow> hr_reports_to entry) = (?f ^^ Suc k) start"
    proof -
      have "(?f ^^ Suc k) start = ?f (Some current)" by (simp add: "2.prems"(1) [symmetric])
      with new show ?thesis by (simp add: head_step_def)
    qed
    have "set (current # seen) = {c. \<exists>j<Suc k. (?f ^^ j) start = Some c}"
      using "2.prems"(1,2) by (auto simp: less_Suc_eq)
    moreover have "\<forall>j<Suc k. truthy ((?f ^^ j) start)"
      using "2.prems"(1,3) new by (metis less_Suc_eq truthy_Some)
    ultimately show ?thesis
      using "2.IH" [OF new next_eq] new by simp
  qed
qed

lemma chase_heads_iff: "chase_heads rows area [] (Some role) \<longleftrightarrow> endless_chain rows area role"
  unfolding endless_chain_def by (rule chase_heads_chain [where k = 0]) auto

lemma find_cycle_iff:
  "find_cycle rows pending \<longleftrightarrow>
     (\<exists>area\<in>set (cycle_areas rows pending). endless_chain rows area (hr_governmentusertype_id pending))"
  by (simp add: find_cycle_def list_ex_iff chase_heads_iff del: chase_heads.simps)

text \<open>Two areas covered by the same rows have the same reporting chains.\<close>

lemma resolve_entry_same_area:
  assumes "\<And>row. row \<in> set rows \<Longrightarrow>
      covers (row_scope (hr_columns row)) a \<longleftrightarrow> covers (row_scope (hr_columns row)) b"
  shows "resolve_entry rows role a = resolve_entry rows role b"
proof -
  have "filter (entry_ok role a) rows = filter (entry_ok role b) rows"
    using assms by (intro filter_cong) (auto simp: entry_ok_def)
  then show ?thesis by (simp add: resolve_entry_best_by)
qed

lemma endless_chain_same_area:
  assumes "\<And>row. row \<in> set rows \<Longrightarrow>
      covers (row_scope (hr_columns row)) a \<longleftrightarrow> covers (row_scope (hr_columns row)) b"
  shows "endless_chain rows a role \<longleftrightarrow> endless_chain rows b role"
proof -
  have "resolve_entry rows c a = resolve_entry rows c b" for c
    by (rule resolve_entry_same_area) (rule assms)
  then have "head_step rows a = head_step rows b"
    by (intro ext) (simp add: head_step_def split: option.split)
  then show ?thesis by (simp add: endless_chain_def)
qed

text \<open>
  Where the scopes of the rows that cover an area are nested in one another (as the
  location masters nest them), the area behaves as the innermost of these scopes, and
  that scope is one \<open>find_cycle\<close> has looked at.
\<close>

lemma innermost_row:
  assumes "p \<in> set rows" and "covers (row_scope (hr_columns p)) area"
    and nested: "\<And>a b. a \<in> set rows \<Longrightarrow> b \<in> set rows \<Longrightarrow>
        covers (row_scope (hr_columns a)) area \<Longrightarrow> covers (row_scope (hr_columns b)) area \<Longrightarrow>
        covers (row_scope (hr_columns a)) (row_scope (hr_columns b)) \<or>
        covers (row_scope (hr_columns b)) (row_scope (hr_columns a))"
  obtains r where "r \<in> set rows" and "covers (row_scope (hr_columns r)) area"
    and "\<And>x. x \<in> set rows \<Longrightarrow> covers (row_scope (hr_columns x)) area \<Longrightarrow>
        covers (row_scope (hr_columns x)) (row_scope (hr_columns r))"
proof -
  let ?sc = "\<lambda>r. row_scope (hr_columns r)" and ?size = "\<lambda>r. card (dom (row_scope (hr_columns r)))"
  let ?C = "filter (\<lambda>r. covers (?sc r) area) rows"
  from assms(1,2) have "?C \<noteq> []" by (auto simp: filter_empty_conv)
  then obtain r where "first_max ?size ?C r" using best_by_first_max by blast
  then have r: "r \<in> set rows" "covers (?sc r) area"
    and largest: "\<And>x. x \<in> set rows \<Longrightarrow> covers (?sc x) area \<Longrightarrow> ?size x \<le> ?size r"
    by (auto dest: first_max_in first_max_ge)
  have "covers (?sc x) (?sc r)" if x: "x \<in> set rows" "covers (?sc x) area" for x
  proof (cases "covers (?sc r) (?sc x)")
    case True
    then have le: "?sc r \<subseteq>\<^sub>m ?sc x" by (simp add: covers_iff)
    then have "dom (?sc r) = dom (?sc x)"
      using largest [OF x] by (intro card_seteq map_le_implies_dom_le) simp_all
    with le have "?sc r = ?sc x" by (metis map_le_antisym map_le_def)
    then show ?thesis by simp
  next
    case False
    with nested [OF r(1) x(1) r(2) x(2)] show ?thesis by simp
  qed
  with r that show thesis by blast
qed

section \<open>Validation of a Staff Hierarchy write\<close>

datatype scope_error = OneLocalBody | InvalidSelection scope_field | NotInParent scope_field







record gov_role =
  gov_level :: string
  gov_is_deleted :: bool

type_synonym role_db = "ident \<Rightarrow> gov_role option"

definition role_of :: "role_db \<Rightarrow> ident option \<Rightarrow> gov_role option" where
  "role_of roles role_id =
     (case role_id of None \<Rightarrow> None | Some r \<Rightarrow> if r = [] then None else roles r)"

datatype hierarchy_error =
    InvalidRole | SelfReport | BadScope scope_error | RoleLevelMismatch | HeadNotBroader
  | DuplicateEntry | ReportingCycle

definition validate_role :: "role_db \<Rightarrow> ident option \<Rightarrow> hierarchy_error + ident option" where
  "validate_role roles role_id =
     (case role_of roles role_id of
        None \<Rightarrow> Inl InvalidRole
      | Some role \<Rightarrow> if gov_is_deleted role then Inl InvalidRole else Inr role_id)"

definition validate_reports_to :: "role_db \<Rightarrow> ident option \<Rightarrow> hierarchy_error + ident option" where
  "validate_reports_to roles value =
     (if \<not> truthy value then Inr None else validate_role roles value)"



text \<open>The unsaved row \<open>StaffHierarchy(...)\<close> that the cycle check swaps in.\<close>

definition pending_row :: "ident option \<Rightarrow> ident option \<Rightarrow> geo \<Rightarrow> hierarchy_row" where
  "pending_row role reports_to scope =
     \<lparr>hr_unique_id = ''pending'',
      hr_governmentusertype_id = (case role of None \<Rightarrow> [] | Some r \<Rightarrow> r),
      hr_reports_to = reports_to, hr_columns = scope, hr_level = 1,
      hr_escalation_enabled = True, hr_is_active = True, hr_is_deleted = False\<rparr>"



section \<open>Properties\<close>

text \<open>A row for the examples: a role, its head and its scope columns.\<close>

definition sample_row :: "ident \<Rightarrow> ident \<Rightarrow> ident option \<Rightarrow> geo \<Rightarrow> bool \<Rightarrow> hierarchy_row" where
  "sample_row uid role head columns active =
     \<lparr>hr_unique_id = uid, hr_governmentusertype_id = role, hr_reports_to = head,
      hr_columns = columns, hr_level = 1, hr_escalation_enabled = True,
      hr_is_active = active, hr_is_deleted = False\<rparr>"

abbreviation nowhere :: geo where
  "nowhere \<equiv> (\<lambda>f. None)"

abbreviation erode :: geo where
  "erode \<equiv> nowhere(StateId := Some ''TN'', DistrictId := Some ''Erode'')"

lemmas sample_simps =
  sample_row_def SCOPE_FIELDS_def LOCAL_BODY_SCOPE_FIELDS_def covers_def scope_keys_def
  row_scope_def blank_to_none_def scope_rank_def specificity_def list_all_iff

text \<open>The row that decides a role in an area is the first row of the largest
  (specificity, number of scope columns) among that role's rows covering the area.\<close>
theorem resolve_entry_spec:
  "resolve_entry rows role geo = Some row \<longleftrightarrow>
     first_max (\<lambda>r. scope_rank (row_scope (hr_columns r)))
       (filter (\<lambda>r. hr_governmentusertype_id r = role \<and> covers (row_scope (hr_columns r)) geo) rows) row"
proof -
  have "entry_ok role geo =
      (\<lambda>r. hr_governmentusertype_id r = role \<and> covers (row_scope (hr_columns r)) geo)"
    by (simp add: fun_eq_iff entry_ok_def)
  then show ?thesis using hier.pick_eq_Some [of rows role geo row] by simp
qed

text \<open>A row with a strictly narrower scope that still covers the area takes over from
  the row that decided the role there before it was added.\<close>
theorem narrower_row_overrides:
  assumes "resolve_entry rows role geo = Some row"
    and "hr_governmentusertype_id new = role"
    and "covers (row_scope (hr_columns new)) geo"
    and "covers (row_scope (hr_columns row)) (row_scope (hr_columns new))"
    and "row_scope (hr_columns new) \<noteq> row_scope (hr_columns row)"
  shows "resolve_entry (rows @ [new]) role geo = Some new"
proof -
  let ?a = "row_scope (hr_columns row)" and ?b = "row_scope (hr_columns new)"
  from assms(4) have le: "?a \<subseteq>\<^sub>m ?b" by (simp add: covers_iff)
  with assms(5) have "dom ?a \<subset> dom ?b"
    by (metis map_le_antisym map_le_def map_le_implies_dom_le psubsetI)
  then have "length (scope_keys ?a) < length (scope_keys ?b)"
    by (simp add: length_scope_keys psubset_card_mono)
  moreover have "scope_rank ?a \<le> scope_rank ?b" by (rule covers_rank) (rule assms(4))
  ultimately have "scope_rank ?a < scope_rank ?b"
    by (auto simp: scope_rank_def order.strict_iff_order)
  moreover have "entry_ok role geo new" using assms(2,3) by (simp add: entry_ok_def)
  ultimately show ?thesis using hier.pick_override [OF assms(1)] by blast
qed

theorem narrower_row_overrides_witness:
  "resolve_entry ([sample_row ''r1'' ''driver'' (Some ''admin'') nowhere True]
      @ [sample_row ''r2'' ''driver'' (Some ''officer'') erode True]) ''driver'' erode
    = Some (sample_row ''r2'' ''driver'' (Some ''officer'') erode True)"
  by (rule narrower_row_overrides
        [where row = "sample_row ''r1'' ''driver'' (Some ''admin'') nowhere True"])
     (auto simp: resolve_entry_def Let_def sample_simps fun_eq_iff intro: exI [of _ StateId])

text \<open>Completing a place keeps every given value, stores no blank value, and is closed:
  a parent named by the master record of any location in the result is in the result too.\<close>
theorem complete_geo_complete:
  "(truthy (geo f) \<longrightarrow> complete_geo db geo f = geo f)
   \<and> complete_geo db geo f \<noteq> Some []
   \<and> (complete_geo db geo f = Some v \<longrightarrow> PARENT_FIELDS f = Some ps \<longrightarrow> p \<in> set ps \<longrightarrow>
        truthy (record_attr (db f v) p) \<longrightarrow> complete_geo db geo p \<noteq> None)"
  using complete_geo_given complete_geo_not_blank complete_geo_closed by metis

theorem complete_geo_complete_witness:
  "complete_geo (\<lambda>f v. if f = DistrictId \<and> v = ''Erode''
       then Some \<lparr>gr_columns = nowhere(StateId := Some ''TN''), gr_is_deleted = False\<rparr> else None)
     (nowhere(DistrictId := Some ''Erode'')) StateId \<noteq> None"
proof -
  let ?db = "\<lambda>f v. if f = DistrictId \<and> v = ''Erode''
       then Some \<lparr>gr_columns = nowhere(StateId := Some ''TN''), gr_is_deleted = False\<rparr> else None"
  let ?geo = "nowhere(DistrictId := Some ''Erode'')"
  have "complete_geo ?db ?geo DistrictId = Some ''Erode''"
    using complete_geo_complete [of ?geo DistrictId ?db "''Erode''" "[CountryId, StateId]" StateId]
    by simp
  then show ?thesis
    using complete_geo_complete [of ?geo DistrictId ?db "''Erode''" "[CountryId, StateId]" StateId]
    by (simp add: record_attr_def)
qed

text \<open>The cycle check terminates and answers yes exactly when, in the pending row's own
  area or in that of a row it covers, the reporting chain from its role never ends.\<close>
theorem find_cycle_correct:
  "find_cycle rows pending \<longleftrightarrow>
     (\<exists>area. (area = row_scope (hr_columns pending)
              \<or> area \<in> {row_scope (hr_columns row) | row. row \<in> set rows
                         \<and> covers (row_scope (hr_columns pending)) (row_scope (hr_columns row))})
        \<and> endless_chain rows area (hr_governmentusertype_id pending))"
proof -
  have "set (cycle_areas rows pending) =
      insert (row_scope (hr_columns pending))
        {row_scope (hr_columns row) | row. row \<in> set rows
           \<and> covers (row_scope (hr_columns pending)) (row_scope (hr_columns row))}"
    by (auto simp: cycle_areas_def Let_def)
  then show ?thesis by (simp add: find_cycle_iff) blast
qed

text \<open>Where the scopes of the rows covering an area are nested in one another, the check
  is complete: a pending row that passes it gives a finite reporting chain from its role in
  every area it covers, whether or not that area has rows of its own.\<close>
theorem find_cycle_complete:
  assumes "\<not> find_cycle rows pending" and "pending \<in> set rows"
    and "covers (row_scope (hr_columns pending)) area"
    and nested: "\<And>a b. a \<in> set rows \<Longrightarrow> b \<in> set rows \<Longrightarrow>
        covers (row_scope (hr_columns a)) area \<Longrightarrow> covers (row_scope (hr_columns b)) area \<Longrightarrow>
        covers (row_scope (hr_columns a)) (row_scope (hr_columns b)) \<or>
        covers (row_scope (hr_columns b)) (row_scope (hr_columns a))"
  shows "\<not> endless_chain rows area (hr_governmentusertype_id pending)"
proof -
  obtain r where r: "r \<in> set rows" "covers (row_scope (hr_columns r)) area"
    and inner: "\<And>x. x \<in> set rows \<Longrightarrow> covers (row_scope (hr_columns x)) area \<Longrightarrow>
        covers (row_scope (hr_columns x)) (row_scope (hr_columns r))"
    by (rule innermost_row [OF assms(2,3) nested]) blast+
  have same: "covers (row_scope (hr_columns x)) area \<longleftrightarrow>
      covers (row_scope (hr_columns x)) (row_scope (hr_columns r))" if "x \<in> set rows" for x
    using that r(2) inner covers_trans by blast
  have "row_scope (hr_columns r) \<in> set (cycle_areas rows pending)"
    using r(1) inner [OF assms(2,3)] by (auto simp: cycle_areas_def Let_def)
  with assms(1) have "\<not> endless_chain rows (row_scope (hr_columns r)) (hr_governmentusertype_id pending)"
    by (auto simp: find_cycle_iff)
  with endless_chain_same_area [of rows area "row_scope (hr_columns r)", OF same]
  show ?thesis by blast
qed

text \<open>Rows for the examples: a driver reports to an admin in Erode, and a clerk is written
  whose head the driver is.\<close>

abbreviation erode_driver :: hierarchy_row where
  "erode_driver \<equiv> sample_row ''r1'' ''driver'' (Some ''admin'') erode True"

abbreviation clerk_default :: hierarchy_row where
  "clerk_default \<equiv> sample_row ''r2'' ''clerk'' (Some ''driver'') nowhere True"

theorem find_cycle_complete_witness:
  "\<not> endless_chain [erode_driver, clerk_default]
       (erode(PanchayatId := Some ''P1'')) ''clerk''"
proof -
  let ?rows = "[erode_driver, clerk_default]" and ?area = "erode(PanchayatId := Some ''P1'')"
  have sc: "row_scope erode = erode" "row_scope nowhere = nowhere"
    by (simp_all add: row_scope_def blank_to_none_def fun_eq_iff)
  have cov: "covers nowhere x" "covers erode ?area" "\<not> covers erode nowhere" for x
    by (simp_all add: covers_iff map_le_def)
  have "\<not> find_cycle ?rows clerk_default"
    by (simp add: find_cycle_def cycle_areas_def resolve_entry_def sample_row_def sc cov Let_def)
  then have "\<not> endless_chain ?rows ?area (hr_governmentusertype_id clerk_default)"
    by (rule find_cycle_complete) (auto simp: sample_row_def sc cov)
  then show ?thesis by (simp add: sample_row_def)
qed









text \<open>The cycle check reads the inactive rows as well, which every consumer of the chain
  drops: an inactive row can hide a cycle of the active ones, so a write that is accepted
  leaves the active rows with an endless chain in the written row's own area.\<close>
theorem inactive_row_hides_cycle:
  "\<not> find_cycle
       [sample_row ''r1'' ''B'' (Some ''A'') nowhere True,
        sample_row ''r2'' ''B'' (Some ''C'') erode False,
        pending_row (Some ''A'') (Some ''B'') erode]
       (pending_row (Some ''A'') (Some ''B'') erode)
   \<and> endless_chain
       (filter hr_is_active
         [sample_row ''r1'' ''B'' (Some ''A'') nowhere True,
          sample_row ''r2'' ''B'' (Some ''C'') erode False,
          pending_row (Some ''A'') (Some ''B'') erode]) erode ''A''"
proof -
  have sc: "row_scope erode = erode" "row_scope nowhere = nowhere"
    by (simp_all add: row_scope_def blank_to_none_def fun_eq_iff)
  have cov: "covers nowhere x" "covers erode erode" "\<not> covers erode nowhere" for x
    by (simp_all add: covers_iff map_le_def)
  have rank: "scope_rank nowhere = (0, 0)" "scope_rank erode = (3, 2)"
    by (simp_all add: sample_simps)
  show ?thesis
    by (simp add: find_cycle_def cycle_areas_def resolve_entry_def pending_row_def sample_row_def
        sc cov rank Let_def chase_heads_iff [symmetric])
qed

end
