(* ===== verification/Business_Clock.thy ===== *)
theory Business_Clock
  imports Prelude
begin

text \<open>
  Deadlines in business minutes (\<open>_add_business_minutes\<close> of
  \<open>app/utils/complaint_ticket_routing.py\<close>).

  A moment is an integer number of microseconds of local wall-clock time, counted from a
  Monday midnight. The deployment's time zone (\<open>Asia/Kolkata\<close>, \<open>config/settings.py\<close>) has
  a fixed offset, so \<open>timezone.localtime\<close> is the identity on this representation, adding
  a \<open>timedelta\<close> is addition, and day, time of day and weekday are quotients and remainders.
\<close>

section \<open>Moments\<close>

type_synonym moment = int

definition MINUTE :: int where "MINUTE = 60000000"
definition DAY :: int where "DAY = 1440 * MINUTE"
definition BUSINESS_START :: int where "BUSINESS_START = 9 * 60 * MINUTE"
definition BUSINESS_END :: int where "BUSINESS_END = 18 * 60 * MINUTE"
definition BUSINESS_WEEKDAY_LIMIT :: int where "BUSINESS_WEEKDAY_LIMIT = 6"

definition time_of :: "moment \<Rightarrow> int" where "time_of t = t mod DAY"
definition day_of :: "moment \<Rightarrow> int" where "day_of t = t div DAY"
definition weekday :: "moment \<Rightarrow> int" where "weekday t = day_of t mod 7"

text \<open>\<open>t.replace(hour=..., minute=..., second=0, microsecond=0)\<close>: the same day at \<open>clock\<close>.\<close>

definition at_clock :: "int \<Rightarrow> moment \<Rightarrow> moment" where
  "at_clock clock t = day_of t * DAY + clock"

lemmas clock_constants =
  DAY_def MINUTE_def BUSINESS_START_def BUSINESS_END_def BUSINESS_WEEKDAY_LIMIT_def

section \<open>The two loops\<close>

definition outside_hours :: "moment \<Rightarrow> bool" where
  "outside_hours t \<longleftrightarrow> time_of t < BUSINESS_START \<or> BUSINESS_END \<le> time_of t
     \<or> BUSINESS_WEEKDAY_LIMIT \<le> weekday t"

lemma DAY_pos [simp]: "0 < DAY" "DAY \<noteq> 0"
  by (simp_all add: clock_constants)

lemma clock_in_day [simp]:
  "0 \<le> BUSINESS_START" "BUSINESS_START < DAY" "0 \<le> BUSINESS_END" "BUSINESS_END < DAY"
  "BUSINESS_START < BUSINESS_END" "\<not> BUSINESS_END \<le> BUSINESS_START"
  by (simp_all add: clock_constants)

lemma at_clock_parts:
  assumes "0 \<le> c" and "c < DAY"
  shows "day_of (at_clock c t) = day_of t" and "time_of (at_clock c t) = c"
    and "weekday (at_clock c t) = weekday t"
proof -
  have "(day_of t * DAY + c) div DAY = day_of t" using assms by simp
  then show "day_of (at_clock c t) = day_of t" by (simp add: at_clock_def day_of_def)
  then show "weekday (at_clock c t) = weekday t" by (simp add: weekday_def)
  show "time_of (at_clock c t) = c" using assms by (simp add: at_clock_def time_of_def)
qed

lemma weekday_bounds: "0 \<le> weekday t" "weekday t < 7"
  by (simp_all add: weekday_def)

lemma next_weekday: "(d + 1) mod 7 = (if d mod 7 = 6 then 0 else d mod 7 + (1::int))"
proof -
  have r: "0 \<le> d mod 7" "d mod 7 < 7" by simp_all
  have "(d + 1) mod 7 = (d mod 7 + 1) mod 7" by (simp add: mod_add_left_eq)
  also have "\<dots> = (if d mod 7 = 6 then 0 else d mod 7 + 1)"
  proof (cases "d mod 7 = 6")
    case False
    with r have "d mod 7 + 1 < 7" by linarith
    with r False show ?thesis by simp
  qed simp
  finally show ?thesis .
qed

lemma day_off_iff: "BUSINESS_WEEKDAY_LIMIT \<le> weekday t \<longleftrightarrow> weekday t = 6"
  using weekday_bounds(2) [of t] unfolding BUSINESS_WEEKDAY_LIMIT_def by linarith

lemma next_day_parts [simp]:
  "day_of (t + DAY) = day_of t + 1" "time_of (t + DAY) = time_of t"
  "weekday (t + DAY) = (if weekday t = 6 then 0 else weekday t + 1)"
proof -
  show day: "day_of (t + DAY) = day_of t + 1"
    unfolding day_of_def by (rule div_add_self2) simp
  show "weekday (t + DAY) = (if weekday t = 6 then 0 else weekday t + 1)"
    unfolding weekday_def day by (rule next_weekday)
  show "time_of (t + DAY) = time_of t" by (simp add: time_of_def)
qed

lemma time_of_bounds [simp]: "0 \<le> time_of t" "time_of t < DAY"
  by (simp_all add: time_of_def)

lemma start_parts [simp]:
  "day_of (at_clock BUSINESS_START t) = day_of t"
  "time_of (at_clock BUSINESS_START t) = BUSINESS_START"
  "weekday (at_clock BUSINESS_START t) = weekday t"
  by (simp_all add: at_clock_parts)

text \<open>Move into the next open window.\<close>

function enter_window :: "moment \<Rightarrow> moment" where
  "enter_window t =
     (if outside_hours t
      then if BUSINESS_WEEKDAY_LIMIT \<le> weekday t \<or> BUSINESS_END \<le> time_of t
           then enter_window (at_clock BUSINESS_START (t + DAY))
           else enter_window (at_clock BUSINESS_START t)
      else t)"
  by pat_completeness auto

text \<open>At most two steps: only a Saturday evening needs a second one, over the Sunday.\<close>

definition window_distance :: "moment \<Rightarrow> nat" where
  "window_distance t =
     (if \<not> outside_hours t then 0
      else if weekday t = 5 \<and> BUSINESS_END \<le> time_of t then 2 else 1)"

termination enter_window
proof (relation "measure window_distance", goal_cases)
  case (2 t)
  then show ?case
    using weekday_bounds(2) [of t]
    by (cases "weekday t = 5"; cases "weekday t = 6")
       (auto simp: window_distance_def outside_hours_def BUSINESS_WEEKDAY_LIMIT_def)
next
  case (3 t)
  then show ?case
    by (auto simp: window_distance_def outside_hours_def BUSINESS_WEEKDAY_LIMIT_def)
qed simp

declare enter_window.simps [simp del]

text \<open>\<open>while current.weekday() >= 6: current += timedelta(days=1)\<close>.\<close>

function skip_days_off :: "moment \<Rightarrow> moment" where
  "skip_days_off t = (if BUSINESS_WEEKDAY_LIMIT \<le> weekday t then skip_days_off (t + DAY) else t)"
  by pat_completeness auto
termination skip_days_off
proof (relation "measure (\<lambda>t. nat (7 - weekday t) mod 7)", goal_cases)
  case (2 t)
  then have "weekday t = 6" by (simp add: day_off_iff)
  then show ?case by simp
qed simp

declare skip_days_off.simps [simp del]

text \<open>\<open>int((end_of_day - current).total_seconds() // 60)\<close>.\<close>

definition minutes_left_today :: "moment \<Rightarrow> int" where
  "minutes_left_today t = (at_clock BUSINESS_END t - t) div MINUTE"

lemma minutes_left_at_start: "time_of t = BUSINESS_START \<Longrightarrow> minutes_left_today t = 540"
proof -
  assume s: "time_of t = BUSINESS_START"
  have "t = day_of t * DAY + time_of t" by (simp add: day_of_def time_of_def)
  with s have "at_clock BUSINESS_END t - t = BUSINESS_END - BUSINESS_START"
    by (simp add: at_clock_def)
  then show ?thesis by (simp add: minutes_left_today_def clock_constants)
qed

function spend_minutes :: "moment \<Rightarrow> int \<Rightarrow> moment" where
  "spend_minutes current remaining =
     (if 0 < remaining
      then let left = minutes_left_today current
           in if remaining \<le> left then current + remaining * MINUTE
              else spend_minutes (skip_days_off (at_clock BUSINESS_START (current + DAY)))
                     (remaining - left)
      else current)"
  by pat_completeness auto

lemma time_of_skip_days_off [simp]: "time_of (skip_days_off t) = time_of t"
  by (induction t rule: skip_days_off.induct) (subst skip_days_off.simps, auto)

termination spend_minutes
proof (relation "measure (\<lambda>(current, remaining).
      if time_of current = BUSINESS_START then 2 * nat remaining
      else Suc (2 * nat (remaining - minutes_left_today current)))", goal_cases)
  case (2 current remaining)
  then show ?case by (auto simp: minutes_left_at_start)
qed simp

declare spend_minutes.simps [simp del]

definition add_business_minutes :: "moment \<Rightarrow> int \<Rightarrow> moment" where
  "add_business_minutes start minutes = spend_minutes (enter_window start) minutes"

section \<open>Business time\<close>

text \<open>
  The reference: the microseconds of open time (09:00 to 18:00, Monday to Saturday) from
  the origin up to a moment.
\<close>

definition WORKDAY :: int where "WORKDAY = BUSINESS_END - BUSINESS_START"

definition worked_days :: "int \<Rightarrow> int" where
  "worked_days d = (d div 7) * 6 + min (d mod 7) 6"

definition worked_today :: "moment \<Rightarrow> int" where
  "worked_today t =
     (if BUSINESS_WEEKDAY_LIMIT \<le> weekday t then 0
      else max 0 (min (time_of t - BUSINESS_START) WORKDAY))"

definition business_time :: "moment \<Rightarrow> int" where
  "business_time t = worked_days (day_of t) * WORKDAY + worked_today t"

lemma next_week: "(d + 1) div 7 = (if d mod 7 = 6 then d div 7 + 1 else d div (7::int))"
proof -
  have "d + 1 = 7 * ((d + 1) div 7) + (d + 1) mod 7" and "d = 7 * (d div 7) + d mod 7"
    by simp_all
  then show ?thesis using next_weekday [of d] by (auto split: if_splits)
qed

lemma worked_days_next: "worked_days (d + 1) = worked_days d + (if d mod 7 = 6 then 0 else 1)"
proof -
  have "d mod 7 < 7" by simp
  then show ?thesis unfolding worked_days_def next_week next_weekday by (auto simp: min_def)
qed

lemma business_time_day_over:
  assumes "BUSINESS_WEEKDAY_LIMIT \<le> weekday t \<or> BUSINESS_END \<le> time_of t"
  shows "business_time (at_clock BUSINESS_START (t + DAY)) = business_time t"
proof -
  have "worked_days (day_of (t + DAY)) = worked_days (day_of t) + (if weekday t = 6 then 0 else 1)"
    by (simp add: worked_days_next weekday_def)
  with assms show ?thesis
    by (auto simp: business_time_def worked_today_def day_off_iff WORKDAY_def distrib_right)
qed

lemma business_time_before_hours:
  assumes "time_of t < BUSINESS_START"
  shows "business_time (at_clock BUSINESS_START t) = business_time t"
  using assms by (auto simp: business_time_def worked_today_def WORKDAY_def)

lemma enter_window_open: "\<not> outside_hours (enter_window t)"
  by (induction t rule: enter_window.induct) (subst enter_window.simps, auto)

lemma enter_window_id [simp]: "\<not> outside_hours t \<Longrightarrow> enter_window t = t"
  by (simp add: enter_window.simps)

lemma business_time_enter_window: "business_time (enter_window t) = business_time t"
proof (induction t rule: enter_window.induct)
  case (1 t)
  show ?case
  proof (cases "outside_hours t")
    case True
    with 1 show ?thesis
      by (subst enter_window.simps)
         (auto simp: business_time_day_over business_time_before_hours outside_hours_def)
  qed simp
qed

lemma enter_window_at_start: "outside_hours t \<Longrightarrow> time_of (enter_window t) = BUSINESS_START"
proof (induction t rule: enter_window.induct)
  case (1 t)
  let ?next = "if BUSINESS_WEEKDAY_LIMIT \<le> weekday t \<or> BUSINESS_END \<le> time_of t
    then at_clock BUSINESS_START (t + DAY) else at_clock BUSINESS_START t"
  from 1(3) have "enter_window t = enter_window ?next"
    by (subst enter_window.simps) simp
  moreover have "time_of (enter_window ?next) = BUSINESS_START"
  proof (cases "outside_hours ?next")
    case True
    with 1 show ?thesis by (auto split: if_splits)
  next
    case False
    then show ?thesis by auto
  qed
  ultimately show ?case by simp
qed

lemma skip_days_off_parts:
  "time_of t = BUSINESS_START \<Longrightarrow> \<not> outside_hours (skip_days_off t)
     \<and> business_time (skip_days_off t) = business_time t"
proof (induction t rule: skip_days_off.induct)
  case (1 t)
  show ?case
  proof (cases "BUSINESS_WEEKDAY_LIMIT \<le> weekday t")
    case True
    have "t + DAY = at_clock BUSINESS_START (t + DAY)"
      using "1.prems" next_day_parts(2) [of t]
      by (metis at_clock_def day_of_def div_mult_mod_eq time_of_def)
    with True have "business_time (t + DAY) = business_time t"
      using business_time_day_over [of t] by simp
    with True 1 show ?thesis by (subst (1 2) skip_days_off.simps) simp
  next
    case False
    with "1.prems" show ?thesis by (subst (1 2) skip_days_off.simps) (simp add: outside_hours_def)
  qed
qed

lemma plus_same_day:
  assumes "0 \<le> k" and "time_of t + k < DAY"
  shows "day_of (t + k) = day_of t" and "time_of (t + k) = time_of t + k"
proof -
  have "t + k = at_clock (time_of t + k) t" by (simp add: at_clock_def day_of_def time_of_def)
  with assms show "day_of (t + k) = day_of t" "time_of (t + k) = time_of t + k"
    using at_clock_parts [of "time_of t + k" t] time_of_bounds(1) [of t] by simp_all
qed

lemma business_time_plus:
  assumes "\<not> outside_hours t" and "0 \<le> k" and "time_of t + k \<le> BUSINESS_END"
  shows "business_time (t + k) = business_time t + k"
proof -
  have "time_of t + k < DAY" using assms(3) clock_in_day(4) by linarith
  note same = plus_same_day [OF assms(2) this]
  then have "weekday (t + k) = weekday t" by (simp add: weekday_def)
  with same assms show ?thesis
    by (auto simp: business_time_def worked_today_def outside_hours_def WORKDAY_def)
qed

lemma business_time_next_morning:
  assumes "\<not> outside_hours t"
  shows "business_time (skip_days_off (at_clock BUSINESS_START (t + DAY)))
      = business_time t + (BUSINESS_END - time_of t)"
proof -
  let ?close = "t + (BUSINESS_END - time_of t)"
  have k: "0 \<le> BUSINESS_END - time_of t" using assms by (simp add: outside_hours_def)
  have same: "day_of ?close = day_of t" "time_of ?close = BUSINESS_END"
    using plus_same_day [OF k] by simp_all
  then have "at_clock BUSINESS_START (t + DAY) = at_clock BUSINESS_START (?close + DAY)"
    by (simp add: at_clock_def)
  then have "business_time (at_clock BUSINESS_START (t + DAY)) = business_time ?close"
    using business_time_day_over [of ?close] same by simp
  also have "\<dots> = business_time t + (BUSINESS_END - time_of t)"
    using assms k by (intro business_time_plus) simp_all
  finally show ?thesis using skip_days_off_parts by simp
qed

section \<open>The deadline\<close>

lemma close_minus: "at_clock c t - t = c - time_of t"
proof -
  have "t = t div DAY * DAY + t mod DAY" by (rule div_mult_mod_eq [symmetric])
  then show ?thesis unfolding at_clock_def day_of_def time_of_def by linarith
qed

lemma whole_minutes [simp]:
  "0 < MINUTE" "0 \<le> n \<Longrightarrow> 0 \<le> n * MINUTE" "BUSINESS_START mod MINUTE = 0" "BUSINESS_END mod MINUTE = 0"
  by (simp_all add: MINUTE_def BUSINESS_START_def BUSINESS_END_def)

lemma minutes_left_window:
  "minutes_left_today t * MINUTE \<le> BUSINESS_END - time_of t"
  "BUSINESS_END - time_of t < minutes_left_today t * MINUTE + MINUTE"
proof -
  have "x div MINUTE * MINUTE \<le> x" "x < x div MINUTE * MINUTE + MINUTE" for x :: int
    using div_mult_mod_eq [of x MINUTE] pos_mod_bound [of MINUTE x] pos_mod_sign [of MINUTE x]
    by (simp_all add: MINUTE_def)
  then show "minutes_left_today t * MINUTE \<le> BUSINESS_END - time_of t"
    "BUSINESS_END - time_of t < minutes_left_today t * MINUTE + MINUTE"
    by (simp_all add: minutes_left_today_def close_minus)
qed

lemma minutes_left_aligned:
  "time_of t mod MINUTE = 0 \<Longrightarrow> minutes_left_today t * MINUTE = BUSINESS_END - time_of t"
proof -
  assume "time_of t mod MINUTE = 0"
  then have "(BUSINESS_END - time_of t) mod MINUTE = 0"
    by (metis mod_diff_right_eq whole_minutes(4) diff_zero)
  then have "(BUSINESS_END - time_of t) div MINUTE * MINUTE = BUSINESS_END - time_of t"
    using div_mult_mod_eq [of "BUSINESS_END - time_of t" MINUTE] by simp
  then show ?thesis by (simp add: minutes_left_today_def close_minus)
qed

text \<open>Within opening hours, the closing moment included.\<close>

definition in_hours :: "moment \<Rightarrow> bool" where
  "in_hours t \<longleftrightarrow> BUSINESS_START \<le> time_of t \<and> time_of t \<le> BUSINESS_END
     \<and> weekday t < BUSINESS_WEEKDAY_LIMIT"

lemma in_hours_plus:
  assumes "\<not> outside_hours t" and "0 \<le> k" and "time_of t + k \<le> BUSINESS_END"
  shows "in_hours (t + k)"
proof -
  have "time_of t + k < DAY" using assms(3) clock_in_day(4) by linarith
  note same = plus_same_day [OF assms(2) this]
  then have "weekday (t + k) = weekday t" by (simp add: weekday_def)
  with same assms show ?thesis by (auto simp: in_hours_def outside_hours_def)
qed

lemma open_in_hours: "\<not> outside_hours t \<Longrightarrow> in_hours t"
  by (auto simp: in_hours_def outside_hours_def)

lemma spend_within_day:
  assumes "0 < n" and "n \<le> minutes_left_today t"
  shows "time_of t + n * MINUTE \<le> BUSINESS_END"
proof -
  have "n * MINUTE \<le> minutes_left_today t * MINUTE" using assms(2) by simp
  then show ?thesis using minutes_left_window(1) [of t] by linarith
qed

lemma spend_minutes_in_hours: "\<not> outside_hours t \<Longrightarrow> in_hours (spend_minutes t n)"
proof (induction t n rule: spend_minutes.induct)
  case (1 t n)
  show ?case
  proof (cases "0 < n")
    case False
    with 1 show ?thesis by (subst spend_minutes.simps) (simp add: open_in_hours)
  next
    case True
    show ?thesis
    proof (cases "n \<le> minutes_left_today t")
      case fits: True
      with True 1 show ?thesis
        by (subst spend_minutes.simps) (simp add: in_hours_plus spend_within_day)
    next
      case False
      with True 1 show ?thesis
        by (subst spend_minutes.simps) (simp add: skip_days_off_parts)
    qed
  qed
qed

lemma spend_minutes_step:
  assumes "\<not> outside_hours t" and "0 < n"
  shows "n \<le> minutes_left_today t \<Longrightarrow>
      business_time (spend_minutes t n) = business_time t + n * MINUTE"
    and "\<not> n \<le> minutes_left_today t \<Longrightarrow>
      spend_minutes t n = spend_minutes (skip_days_off (at_clock BUSINESS_START (t + DAY)))
        (n - minutes_left_today t)"
proof -
  show "business_time (spend_minutes t n) = business_time t + n * MINUTE" if "n \<le> minutes_left_today t"
    using assms that by (subst spend_minutes.simps) (simp add: business_time_plus spend_within_day)
  show "spend_minutes t n = spend_minutes (skip_days_off (at_clock BUSINESS_START (t + DAY)))
      (n - minutes_left_today t)" if "\<not> n \<le> minutes_left_today t"
    using assms that by (subst spend_minutes.simps) simp
qed

lemma spend_minutes_exact:
  "\<not> outside_hours t \<Longrightarrow> time_of t mod MINUTE = 0 \<Longrightarrow> 0 \<le> n \<Longrightarrow>
     business_time (spend_minutes t n) = business_time t + n * MINUTE"
proof (induction t n rule: spend_minutes.induct)
  case (1 t n)
  let ?left = "minutes_left_today t"
    and ?next = "skip_days_off (at_clock BUSINESS_START (t + DAY))"
  show ?case
  proof (cases "0 < n \<and> \<not> n \<le> ?left")
    case True
    have "business_time (spend_minutes ?next (n - ?left)) = business_time ?next + (n - ?left) * MINUTE"
      using 1 True by (intro "1.IH") (simp_all add: skip_days_off_parts)
    with True 1 show ?thesis
      by (simp add: spend_minutes_step business_time_next_morning minutes_left_aligned left_diff_distrib)
  next
    case False
    with 1 show ?thesis
      by (cases "0 < n") (simp_all add: spend_minutes_step(1), simp_all add: spend_minutes.simps)
  qed
qed

lemma spend_minutes_bounds:
  assumes "\<not> outside_hours t" and "0 \<le> n"
  shows "business_time t + n * MINUTE \<le> business_time (spend_minutes t n)"
    and "business_time (spend_minutes t n) < business_time t + n * MINUTE + MINUTE"
proof -
  let ?left = "minutes_left_today t"
    and ?next = "skip_days_off (at_clock BUSINESS_START (t + DAY))"
  have "business_time t + n * MINUTE \<le> business_time (spend_minutes t n)
      \<and> business_time (spend_minutes t n) < business_time t + n * MINUTE + MINUTE"
  proof (cases "0 < n \<and> \<not> n \<le> ?left")
    case True
    have "business_time (spend_minutes ?next (n - ?left)) = business_time ?next + (n - ?left) * MINUTE"
      using assms True by (intro spend_minutes_exact) (simp_all add: skip_days_off_parts)
    with True assms show ?thesis
      using minutes_left_window [of t]
      by (simp add: spend_minutes_step business_time_next_morning left_diff_distrib)
  next
    case False
    with assms show ?thesis
      by (cases "0 < n") (simp_all add: spend_minutes_step(1), simp_all add: spend_minutes.simps)
  qed
  then show "business_time t + n * MINUTE \<le> business_time (spend_minutes t n)"
    "business_time (spend_minutes t n) < business_time t + n * MINUTE + MINUTE" by simp_all
qed

section \<open>Properties\<close>

lemma aligned_enter_window:
  assumes "outside_hours start \<or> start mod MINUTE = 0"
  shows "time_of (enter_window start) mod MINUTE = 0"
proof (cases "outside_hours start")
  case True
  then show ?thesis by (simp add: enter_window_at_start)
next
  case False
  have "MINUTE dvd DAY" by (simp add: DAY_def)
  with False assms show ?thesis by (simp add: time_of_def mod_mod_cancel)
qed

text \<open>C33: A business deadline of \<open>n\<close> minutes falls in opening hours and lies between \<open>n\<close> and
  \<open>n + 1\<close> business minutes after the start, for any start.\<close>
theorem business_deadline_bounds:
  assumes "0 \<le> n"
  shows "in_hours (add_business_minutes start n)
    \<and> business_time start + n * MINUTE \<le> business_time (add_business_minutes start n)
    \<and> business_time (add_business_minutes start n) < business_time start + (n + 1) * MINUTE"
proof -
  note open_hours = enter_window_open [of start]
  show ?thesis
    using spend_minutes_in_hours [OF open_hours, of n] spend_minutes_bounds [OF open_hours assms]
    by (simp add: add_business_minutes_def business_time_enter_window distrib_right)
qed

theorem business_deadline_bounds_witness:
  "in_hours (add_business_minutes (17 * 60 * MINUTE + 59 * MINUTE + 30000000) 30)"
  using business_deadline_bounds [of 30 "17 * 60 * MINUTE + 59 * MINUTE + 30000000"] by simp

text \<open>The deadline is exactly \<open>n\<close> business minutes after the start when the start is
  outside opening hours or on a whole minute: only the seconds of a minute cut by closing
  time are ever lost.\<close>
theorem business_deadline_exact:
  assumes "0 \<le> n" and "outside_hours start \<or> start mod MINUTE = 0"
  shows "business_time (add_business_minutes start n) = business_time start + n * MINUTE"
  using spend_minutes_exact [OF enter_window_open aligned_enter_window [OF assms(2)] assms(1)]
  by (simp add: add_business_minutes_def business_time_enter_window)

theorem business_deadline_exact_witness:
  "business_time (add_business_minutes 0 600) = business_time 0 + 600 * MINUTE"
  by (rule business_deadline_exact) simp_all

end
