(* ===== verification/Ticket_Routing.thy ===== *)
theory Ticket_Routing
  imports Scope_Resolution Business_Clock
begin

text \<open>
  Complaint tickets and the two kinds of rules matched against them
  (\<open>app/utils/complaint_ticket_routing.py\<close>): routing rules pick the assigned user, SLA
  rules carry the per-level resolve windows. A query set over a table is the list of its
  rows in the table's default order, restricted by the query's filters.
\<close>

section \<open>Rows\<close>

record ticket =
  tk_unique_id :: ident
  tk_ticket_no :: string
  tk_title :: "string option"
  tk_category_id :: ident
  tk_subcategory_id :: "ident option"
  tk_priority_id :: "ident option"
  tk_source_id :: "ident option"
  tk_status_id :: ident
  tk_customer_id :: "ident option"
  tk_columns :: geo
  tk_assigned_user_id :: "ident option"
  tk_assigned_staff_id :: "ident option"
  tk_is_escalated :: bool
  tk_escalated_to_staff_id :: "ident option"
  tk_escalation_level :: nat
  tk_next_escalation_due_at :: "moment option"
  tk_resolved_at :: "moment option"
  tk_closed_at :: "moment option"
  tk_reopened_count :: nat
  tk_idempotency_key :: "string option"
  tk_is_sensitive :: bool
  tk_created :: moment
  tk_is_deleted :: bool

record routing_rule =
  rr_unique_id :: ident
  rr_category_id :: ident
  rr_subcategory_id :: "ident option"
  rr_columns :: geo
  rr_priority_id :: "ident option"
  rr_user_id :: "ident option"
  rr_sla_rule_id :: "ident option"
  rr_is_active :: bool
  rr_is_deleted :: bool

record sla_rule =
  sr_unique_id :: ident
  sr_category_id :: ident
  sr_subcategory_id :: "ident option"
  sr_priority_id :: "ident option"
  sr_source_id :: "ident option"
  sr_working_hours_only :: bool
  sr_columns :: geo
  sr_is_active :: bool
  sr_is_deleted :: bool

section \<open>Routing rules\<close>

definition ROUTING_GEO_ATTNAMES :: "scope_field list" where
  "ROUTING_GEO_ATTNAMES =
     [StateId, DistrictId, CorporationId, MunicipalityId, TownPanchayatId, PanchayatUnionId, PanchayatId]"

text \<open>\<open>rule.x and rule.x != ticket.x\<close>: a set rule field that the ticket does not match.\<close>

definition conflicts :: "ident option \<Rightarrow> ident option \<Rightarrow> bool" where
  "conflicts rule_value ticket_value \<longleftrightarrow> truthy rule_value \<and> rule_value \<noteq> ticket_value"

definition routing_matches :: "ticket \<Rightarrow> routing_rule \<Rightarrow> bool" where
  "routing_matches ticket rule \<longleftrightarrow>
     \<not> conflicts (rr_subcategory_id rule) (tk_subcategory_id ticket)
     \<and> list_all (\<lambda>a. \<not> conflicts (rr_columns rule a) (tk_columns ticket a)) ROUTING_GEO_ATTNAMES
     \<and> \<not> conflicts (rr_priority_id rule) (tk_priority_id ticket)"

definition routing_specificity :: "routing_rule \<Rightarrow> nat" where
  "routing_specificity rule =
     sum_list (map of_bool
       ([truthy (rr_subcategory_id rule), truthy (rr_priority_id rule)]
        @ map (\<lambda>a. truthy (rr_columns rule a)) ROUTING_GEO_ATTNAMES))"

definition routing_candidate :: "ticket \<Rightarrow> routing_rule \<Rightarrow> bool" where
  "routing_candidate ticket rule \<longleftrightarrow>
     \<not> rr_is_deleted rule \<and> rr_is_active rule \<and> rr_category_id rule = tk_category_id ticket"

definition best_routing_rule :: "ticket \<Rightarrow> routing_rule list \<Rightarrow> routing_rule option" where
  "best_routing_rule ticket rules =
     (let candidates = filter (routing_candidate ticket) rules;
          matching = filter (routing_matches ticket) candidates
      in if matching = [] then None else Some (hd (sort_desc routing_specificity matching)))"

section \<open>SLA rules\<close>

definition sla_matches :: "ticket \<Rightarrow> geo \<Rightarrow> sla_rule \<Rightarrow> bool" where
  "sla_matches ticket geo rule \<longleftrightarrow>
     \<not> conflicts (sr_subcategory_id rule) (tk_subcategory_id ticket)
     \<and> \<not> conflicts (sr_priority_id rule) (tk_priority_id ticket)
     \<and> \<not> conflicts (sr_source_id rule) (tk_source_id ticket)
     \<and> covers (row_scope (sr_columns rule)) geo"

definition sla_specificity :: "sla_rule \<Rightarrow> nat \<times> nat \<times> nat" where
  "sla_specificity rule =
     (let scope = row_scope (sr_columns rule)
      in (specificity scope, length (scope_keys scope),
          sum_list (map of_bool
            [truthy (sr_subcategory_id rule), truthy (sr_priority_id rule), truthy (sr_source_id rule)])))"

definition sla_candidate :: "ticket \<Rightarrow> sla_rule \<Rightarrow> bool" where
  "sla_candidate ticket rule \<longleftrightarrow>
     \<not> sr_is_deleted rule \<and> sr_is_active rule \<and> sr_category_id rule = tk_category_id ticket"

text \<open>The area of a ticket (\<open>ticket_geo\<close>): its own columns, completed. Tickets carry no country.\<close>

definition ticket_geo :: "geo_db \<Rightarrow> ticket \<Rightarrow> geo" where
  "ticket_geo db ticket = complete_geo db (\<lambda>f. if f = CountryId then None else tk_columns ticket f)"

definition best_sla_rule :: "geo_db \<Rightarrow> ticket \<Rightarrow> sla_rule list \<Rightarrow> sla_rule option" where
  "best_sla_rule db ticket rules =
     (let candidates = filter (sla_candidate ticket) rules;
          geo = ticket_geo db ticket;
          matching = filter (sla_matches ticket geo) candidates
      in if matching = [] then None else Some (hd (sort_desc sla_specificity matching)))"

text \<open>\<open>routing_rule.sla_rule\<close>: the SLA rule row with the pinned id, if it exists.\<close>

definition pinned_sla_rule :: "sla_rule list \<Rightarrow> routing_rule \<Rightarrow> sla_rule option" where
  "pinned_sla_rule sla_rules rule =
     (if truthy (rr_sla_rule_id rule)
      then find (\<lambda>s. Some (sr_unique_id s) = rr_sla_rule_id rule) sla_rules else None)"

definition resolve_sla_rule ::
  "geo_db \<Rightarrow> routing_rule list \<Rightarrow> sla_rule list \<Rightarrow> ticket \<Rightarrow> routing_rule option \<Rightarrow> sla_rule option" where
  "resolve_sla_rule db routing_rules sla_rules ticket routing_rule =
     (case best_sla_rule db ticket sla_rules of
        Some s \<Rightarrow> Some s
      | None \<Rightarrow>
          (case (case routing_rule of Some r \<Rightarrow> Some r | None \<Rightarrow> best_routing_rule ticket routing_rules) of
             None \<Rightarrow> None
           | Some r \<Rightarrow> pinned_sla_rule sla_rules r))"

section \<open>Both lookups are ranked choices\<close>

lemma best_of_matching:
  "(if filter p xs = [] then None else Some (hd (sort_desc key (filter p xs)))) =
     best_by key None (filter p xs)"
proof (cases "filter p xs = []")
  case False
  then have "first_max key (filter p xs) (hd (sort_desc key (filter p xs)))" by (rule hd_sort_desc)
  with False show ?thesis by (simp add: best_by_eq_Some [symmetric])
qed simp

lemma best_routing_rule_best_by:
  "best_routing_rule ticket rules = best_by routing_specificity None
     (filter (\<lambda>rule. routing_candidate ticket rule \<and> routing_matches ticket rule) rules)"
  unfolding best_routing_rule_def Let_def best_of_matching by simp

lemma best_sla_rule_best_by:
  "best_sla_rule db ticket rules = best_by sla_specificity None
     (filter (\<lambda>rule. sla_candidate ticket rule \<and> sla_matches ticket (ticket_geo db ticket) rule) rules)"
  unfolding best_sla_rule_def Let_def best_of_matching by simp

interpretation routing: ranked_choice "best_routing_rule ticket"
    "\<lambda>rule. routing_candidate ticket rule \<and> routing_matches ticket rule" routing_specificity
  for ticket
  by unfold_locales (auto simp: best_routing_rule_best_by best_by_eq_Some filter_empty_conv)

interpretation sla: ranked_choice "best_sla_rule db ticket"
    "\<lambda>rule. sla_candidate ticket rule \<and> sla_matches ticket (ticket_geo db ticket) rule" sla_specificity
  for db ticket
  by unfold_locales (auto simp: best_sla_rule_best_by best_by_eq_Some filter_empty_conv)

section \<open>Properties\<close>

text \<open>The SLA rule of a ticket is the most specific live rule of its category that it
  matches, location before category details; a routing rule's pinned SLA rule is used only
  when no SLA rule matches at all.\<close>
theorem resolve_sla_rule_spec:
  "resolve_sla_rule db routing_rules sla_rules ticket routing_rule = Some s \<longleftrightarrow>
     first_max sla_specificity
       (filter (\<lambda>r. sla_candidate ticket r \<and> sla_matches ticket (ticket_geo db ticket) r) sla_rules) s
     \<or> ((\<nexists>r. r \<in> set sla_rules \<and> sla_candidate ticket r \<and> sla_matches ticket (ticket_geo db ticket) r)
        \<and> (\<exists>route. (routing_rule = Some route
                    \<or> (routing_rule = None \<and> best_routing_rule ticket routing_rules = Some route))
             \<and> pinned_sla_rule sla_rules route = Some s))"
  (is "?lhs \<longleftrightarrow> ?best s \<or> (?none \<and> ?pinned)")
proof (cases "best_sla_rule db ticket sla_rules")
  case None
  then have none: ?none by (auto simp: sla.pick_None)
  then have "\<not> ?best s" by (auto dest: first_max_in)
  with None none show ?thesis
    by (auto simp: resolve_sla_rule_def split: option.splits)
next
  case (Some b)
  then have b: "?best b" by (simp add: sla.pick_eq_Some)
  with Some have "\<not> ?none" using sla.pick_in sla.pick_ok by blast
  moreover have "?best s \<longleftrightarrow> b = s" by (metis b first_max_unique)
  ultimately show ?thesis using Some by (auto simp: resolve_sla_rule_def)
qed

text \<open>No live rule that matches the ticket is scoped to a more specific place than the
  chosen one, whatever sub-category, priority or source it names.\<close>
theorem no_narrower_sla_rule:
  assumes "best_sla_rule db ticket rules = Some chosen"
    and "rule \<in> set rules"
    and "sla_candidate ticket rule" and "sla_matches ticket (ticket_geo db ticket) rule"
  shows "specificity (row_scope (sr_columns rule)) \<le> specificity (row_scope (sr_columns chosen))"
  using sla.pick_best [OF assms(1,2)] assms(3,4)
  by (auto simp: sla_specificity_def Let_def)

definition sample_ticket :: ticket where
  "sample_ticket =
     \<lparr>tk_unique_id = ''T1'', tk_ticket_no = ''IWMS-000001'', tk_title = None,
      tk_category_id = ''garbage'', tk_subcategory_id = Some ''missed'', tk_priority_id = Some ''high'',
      tk_source_id = None, tk_status_id = ''open'', tk_customer_id = None, tk_columns = erode,
      tk_assigned_user_id = None, tk_assigned_staff_id = None, tk_is_escalated = False,
      tk_escalated_to_staff_id = None, tk_escalation_level = 0,
      tk_next_escalation_due_at = None, tk_resolved_at = None, tk_closed_at = None, tk_reopened_count = 0,
      tk_idempotency_key = None, tk_is_sensitive = False, tk_created = 0, tk_is_deleted = False\<rparr>"

definition sample_sla :: "ident \<Rightarrow> ident option \<Rightarrow> geo \<Rightarrow> sla_rule" where
  "sample_sla uid subcategory columns =
     \<lparr>sr_unique_id = uid, sr_category_id = ''garbage'', sr_subcategory_id = subcategory,
      sr_priority_id = Some ''high'', sr_source_id = None, sr_working_hours_only = False,
      sr_columns = columns, sr_is_active = True, sr_is_deleted = False\<rparr>"

lemma ticket_geo_sample [simp]: "ticket_geo (\<lambda>f v. None) sample_ticket = erode"
  by (simp add: ticket_geo_def complete_geo_def sample_ticket_def fill_from_def scope_record_def
      SCOPE_FIELDS_def LOCAL_BODY_SCOPE_FIELDS_def record_attr_def blank_to_none_def fun_eq_iff)

theorem no_narrower_sla_rule_witness:
  "specificity (row_scope (sr_columns (sample_sla ''S1'' (Some ''missed'') nowhere)))
     \<le> specificity (row_scope (sr_columns (sample_sla ''S2'' None erode)))"
proof (rule no_narrower_sla_rule)
  let ?broad = "sample_sla ''S1'' (Some ''missed'') nowhere" and ?local = "sample_sla ''S2'' None erode"
  show "sla_candidate sample_ticket ?broad"
    by (simp add: sla_candidate_def sample_sla_def sample_ticket_def)
  show "sla_matches sample_ticket (ticket_geo (\<lambda>f v. None) sample_ticket) ?broad"
    by (simp add: sla_matches_def sample_sla_def sample_ticket_def conflicts_def covers_row_scope_blank)
  show "best_sla_rule (\<lambda>f v. None) sample_ticket [?broad, ?local] = Some ?local"
    by (simp add: best_sla_rule_best_by sla_candidate_def sla_matches_def conflicts_def sample_sla_def
        sample_simps sla_specificity_def sample_ticket_def [THEN arg_cong, of tk_category_id]
        sample_ticket_def [THEN arg_cong, of tk_subcategory_id]
        sample_ticket_def [THEN arg_cong, of tk_priority_id] sample_ticket_def [THEN arg_cong, of tk_source_id])
qed simp

end
