(* ===== verification/Escalation.thy ===== *)
theory Escalation
  imports Ticket_Routing "HOL-Library.AList"
begin

text \<open>
  Hierarchy-driven assignment and escalation of complaint tickets
  (\<open>app/services/complaint_escalation.py\<close>, with \<open>apply_routing_and_sla\<close> of
  \<open>app/utils/complaint_ticket_routing.py\<close> and \<open>notify\<close> of
  \<open>app/services/notification_service.py\<close>).

  The state is the record \<open>complaint_db\<close> of the tables the service reads and writes. The
  clock is the argument \<open>now\<close>. A Python dict is an association list (\<open>AList.update\<close>
  replaces a value in place or appends the key, as assignment to a dict key does).
  Every ticket's category has a row, which the serializer checks when the ticket is written, so \<open>cd_category_name\<close> is
  total; the source fails where the row of an untitled ticket's category has been removed since.
\<close>

section \<open>Tables\<close>

record staff_row =
  sf_unique_id :: ident
  sf_employee_name :: string
  sf_governmentusertype_id :: "ident option"
  sf_columns :: geo
  sf_login_enabled :: bool
  sf_active_status :: bool
  sf_is_deleted :: bool

record sla_level_row =
  sl_sla_rule_id :: ident
  sl_level :: nat
  sl_resolve_within_minutes :: int
  sl_is_deleted :: bool

record status_row =
  st_unique_id :: ident
  st_status_code :: string
  st_status_name :: string
  st_allow_reopen :: bool
  st_is_deleted :: bool

record escalation_row =
  eh_ticket_id :: ident
  eh_escalation_level :: nat
  eh_from_level :: "nat option"
  eh_from_staff_id :: "ident option"
  eh_to_staff_id :: "ident option"
  eh_by_user_id :: "ident option"
  eh_reason :: "string option"
  eh_by_system :: bool
  eh_escalated_at :: moment
  eh_is_deleted :: bool

record assignment_row =
  ah_ticket_id :: ident
  ah_from_staff_id :: "ident option"
  ah_to_staff_id :: "ident option"
  ah_assigned_by_id :: "ident option"
  ah_reason :: "string option"

record status_change_row =
  sc_ticket_id :: ident
  sc_from_status_id :: "ident option"
  sc_to_status_id :: ident
  sc_by_user_id :: "ident option"
  sc_by_system :: bool
  sc_remarks :: "string option"
  sc_visible_to_citizen :: bool

record reopen_row =
  ro_ticket_id :: ident
  ro_by_user_id :: "ident option"
  ro_reason :: string
  ro_previous_status_id :: "ident option"
  ro_reopened_at :: moment
  ro_is_deleted :: bool

record comment_row =
  cm_ticket_id :: ident
  cm_by_user_id :: "ident option"
  cm_text :: string
  cm_is_internal :: bool
  cm_is_sensitive :: bool

datatype cleanup_status = CleanupPending | CleanupApproved | CleanupRejected

record cleanup_row =
  cl_unique_id :: ident
  cl_ticket_id :: ident
  cl_note :: "string option"
  cl_status :: cleanup_status
  cl_reviewed_by_staff_id :: "ident option"
  cl_reviewed_by_user_id :: "ident option"
  cl_reviewed_at :: "moment option"
  cl_review_remarks :: "string option"
  cl_is_deleted :: bool

record notification =
  nt_ticket_id :: ident
  nt_staff_id :: "ident option"
  nt_event :: string
  nt_title :: string
  nt_message :: string

record push_message =
  pm_token :: string
  pm_title :: string
  pm_body :: string

record complaint_db =
  cd_geo :: geo_db
  cd_category_name :: "ident \<Rightarrow> string"
  cd_fcm_token :: "ident \<Rightarrow> string option"
  cd_push_configured :: bool
  cd_hierarchy :: "hierarchy_row list"
  cd_staff :: "staff_row list"
  cd_routing_rules :: "routing_rule list"
  cd_sla_rules :: "sla_rule list"
  cd_sla_levels :: "sla_level_row list"
  cd_statuses :: "status_row list"
  cd_tickets :: "ticket list"
  cd_escalations :: "escalation_row list"
  cd_assignments :: "assignment_row list"
  cd_status_changes :: "status_change_row list"
  cd_reopens :: "reopen_row list"
  cd_comments :: "comment_row list"
  cd_cleanups :: "cleanup_row list"
  cd_notifications :: "notification list"
  cd_pushes :: "push_message list"

definition CLOSED_STATUS_CODES :: "string list" where
  "CLOSED_STATUS_CODES = [''RESOLVED'', ''CLOSED'', ''REJECTED'', ''CANCELLED'']"

section \<open>Hierarchy levels\<close>

definition hierarchy_rows :: "complaint_db \<Rightarrow> hierarchy_row list" where
  "hierarchy_rows db = filter (\<lambda>r. hr_is_active r \<and> \<not> hr_is_deleted r) (cd_hierarchy db)"

text \<open>The deciding rows of all roles that have a row, one per role.\<close>

definition level_entries :: "hierarchy_row list \<Rightarrow> geo \<Rightarrow> hierarchy_row list" where
  "level_entries rows geo =
     List.map_filter (\<lambda>role. resolve_entry rows role geo)
       (remdups (map hr_governmentusertype_id rows))"

text \<open>A head with no deciding row sits one level above the highest role reporting to it.\<close>

definition add_head :: "(ident \<times> nat) list \<Rightarrow> hierarchy_row \<Rightarrow> (ident \<times> nat) list \<Rightarrow> (ident \<times> nat) list" where
  "add_head levels entry heads =
     (case hr_reports_to entry of
        None \<Rightarrow> heads
      | Some head \<Rightarrow>
          if head \<noteq> [] \<and> map_of levels head = None
          then AList.update head
                 (max (case map_of heads head of None \<Rightarrow> 0 | Some l \<Rightarrow> l) (hr_level entry + 1)) heads
          else heads)"

definition drop_disabled :: "hierarchy_row \<Rightarrow> (ident \<times> nat) list \<Rightarrow> (ident \<times> nat) list" where
  "drop_disabled entry levels =
     (if hr_escalation_enabled entry then levels
      else AList.delete (hr_governmentusertype_id entry) levels)"

definition role_levels :: "geo \<Rightarrow> hierarchy_row list \<Rightarrow> bool \<Rightarrow> (ident \<times> nat) list" where
  "role_levels geo rows escalation_only =
     (let entries = level_entries rows geo;
          levels = map (\<lambda>e. (hr_governmentusertype_id e, hr_level e)) entries;
          heads = fold (add_head levels) entries [];
          kept = (if escalation_only then fold drop_disabled entries levels else levels)
      in fold (\<lambda>(role, level). AList.update role level) heads kept)"

section \<open>Staff of a level\<close>

definition staff_scope :: "staff_row \<Rightarrow> geo" where
  "staff_scope staff =
     (\<lambda>f. if f = CountryId then None else blank_to_none (sf_columns staff f))"

definition staff_covers :: "staff_row \<Rightarrow> geo \<Rightarrow> bool" where
  "staff_covers staff geo =
     (let scope = staff_scope staff;
          broad = (\<lambda>f. if f \<in> set LOCAL_BODY_SCOPE_FIELDS then None else scope f);
          local_bodies = filter (\<lambda>f. scope f \<noteq> None) LOCAL_BODY_SCOPE_FIELDS
      in if \<not> covers broad geo then False
         else if local_bodies = [] then True
         else list_ex (\<lambda>f. geo f = scope f) local_bodies)"

text \<open>Most local first, then login-enabled, then by id.\<close>

definition staff_key :: "staff_row \<Rightarrow> int \<times> bool \<times> string" where
  "staff_key staff =
     (- int (specificity (staff_scope staff)), \<not> sf_login_enabled staff, sf_unique_id staff)"

definition staff_candidates :: "nat \<Rightarrow> geo \<Rightarrow> (ident \<times> nat) list \<Rightarrow> staff_row list \<Rightarrow> staff_row list" where
  "staff_candidates level geo levels staff_rows =
     (let roles = map fst (filter (\<lambda>(role, role_level). role_level = level) levels)
      in filter (\<lambda>s. (\<exists>r\<in>set roles. sf_governmentusertype_id s = Some r)
             \<and> sf_active_status s \<and> \<not> sf_is_deleted s \<and> staff_covers s geo) staff_rows)"

definition staff_for_level :: "nat \<Rightarrow> geo \<Rightarrow> (ident \<times> nat) list \<Rightarrow> staff_row list \<Rightarrow> staff_row option" where
  "staff_for_level level geo levels staff_rows =
     (let candidates = staff_candidates level geo levels staff_rows
      in if candidates = [] then None else Some (hd (sort_key staff_key candidates)))"

section \<open>SLA windows\<close>

definition compute_due :: "int option \<Rightarrow> bool \<Rightarrow> moment \<Rightarrow> moment option" where
  "compute_due minutes working_hours_only start =
     (case minutes of
        None \<Rightarrow> None
      | Some m \<Rightarrow>
          if m = 0 then None
          else if working_hours_only then Some (add_business_minutes start m)
          else Some (start + m * MINUTE))"

text \<open>\<open>dict(values_list("level", "minutes"))\<close>: a later row for the same level wins.\<close>

definition level_minutes :: "sla_level_row list \<Rightarrow> sla_rule \<Rightarrow> nat \<Rightarrow> int option" where
  "level_minutes rows rule =
     map_of (rev (map (\<lambda>r. (sl_level r, sl_resolve_within_minutes r))
       (sort_key sl_level
         (filter (\<lambda>r. sl_sla_rule_id r = sr_unique_id rule \<and> \<not> sl_is_deleted r) rows))))"

definition level_due :: "complaint_db \<Rightarrow> sla_rule option \<Rightarrow> nat \<Rightarrow> moment \<Rightarrow> moment option" where
  "level_due db rule level start =
     (case rule of
        None \<Rightarrow> None
      | Some r \<Rightarrow> compute_due (level_minutes (cd_sla_levels db) r level) (sr_working_hours_only r) start)"

text \<open>The first level above \<open>above_level\<close>, going up, that has covering staff.\<close>

fun first_staffed_level ::
  "staff_row list \<Rightarrow> geo \<Rightarrow> (ident \<times> nat) list \<Rightarrow> nat \<Rightarrow> nat list \<Rightarrow> (nat \<times> staff_row) option" where
  "first_staffed_level staff_rows geo levels above_level [] = None"
| "first_staffed_level staff_rows geo levels above_level (level # rest) =
     (if level \<le> above_level then first_staffed_level staff_rows geo levels above_level rest
      else case staff_for_level level geo levels staff_rows of
          Some staff \<Rightarrow> Some (level, staff)
        | None \<Rightarrow> first_staffed_level staff_rows geo levels above_level rest)"

definition next_level_staff :: "complaint_db \<Rightarrow> ticket \<Rightarrow> nat \<Rightarrow> (nat \<times> staff_row) option" where
  "next_level_staff db ticket above_level =
     (let geo = ticket_geo (cd_geo db) ticket;
          levels = role_levels geo (hierarchy_rows db) True
      in first_staffed_level (cd_staff db) geo levels above_level (sort (remdups (map snd levels))))"

section \<open>Text of the messages\<close>

text \<open>\<open>(prefix + text if text else other)\<close> for a nullable text.\<close>

definition suffix_if :: "string \<Rightarrow> string option \<Rightarrow> string \<Rightarrow> string" where
  "suffix_if prefix v other = (if truthy v then prefix @ the v else other)"

definition level_label :: "nat \<Rightarrow> staff_row option \<Rightarrow> string" where
  "level_label level staff =
     ''L'' @ show_nat level @ (case staff of None \<Rightarrow> [] | Some s \<Rightarrow> '' - '' @ sf_employee_name s)"

definition event_title :: "string \<Rightarrow> string" where
  "event_title event =
     (case map_of
        [(''ASSIGNED'', ''New grievance assigned to you''),
         (''ESCALATED'', ''Grievance escalated''),
         (''ESCALATED_TO'', ''Grievance escalated to you''),
         (''RESOLVED'', ''Grievance resolved''),
         (''REOPENED'', ''Grievance reopened''),
         (''CLEANUP_REPORTED'', ''Citizen reported a cleanup'')] event of
        Some title \<Rightarrow> title
      | None \<Rightarrow> ''Grievance update'')"

section \<open>Rows read and written\<close>

definition lookup_staff :: "complaint_db \<Rightarrow> ident option \<Rightarrow> staff_row option" where
  "lookup_staff db uid =
     (if truthy uid then find (\<lambda>s. Some (sf_unique_id s) = uid) (cd_staff db) else None)"

definition responsible_staff :: "complaint_db \<Rightarrow> ticket \<Rightarrow> staff_row option" where
  "responsible_staff db ticket =
     (case lookup_staff db (tk_escalated_to_staff_id ticket) of
        Some s \<Rightarrow> Some s
      | None \<Rightarrow> lookup_staff db (tk_assigned_staff_id ticket))"

datatype ticket_column =
  AssignedUserId | AssignedStaffId | EscalationLevel | NextEscalationDueAt
  | IsEscalated | EscalatedToStaffId | StatusId | ResolvedAt | ClosedAt | ReopenedCount

text \<open>\<open>save(update_fields=...)\<close> writes the named columns of the instance over the stored row.\<close>

fun copy_column :: "ticket \<Rightarrow> ticket_column \<Rightarrow> ticket \<Rightarrow> ticket" where
  "copy_column t AssignedUserId row = row\<lparr>tk_assigned_user_id := tk_assigned_user_id t\<rparr>"
| "copy_column t AssignedStaffId row = row\<lparr>tk_assigned_staff_id := tk_assigned_staff_id t\<rparr>"
| "copy_column t EscalationLevel row = row\<lparr>tk_escalation_level := tk_escalation_level t\<rparr>"
| "copy_column t NextEscalationDueAt row =
     row\<lparr>tk_next_escalation_due_at := tk_next_escalation_due_at t\<rparr>"
| "copy_column t IsEscalated row = row\<lparr>tk_is_escalated := tk_is_escalated t\<rparr>"
| "copy_column t EscalatedToStaffId row =
     row\<lparr>tk_escalated_to_staff_id := tk_escalated_to_staff_id t\<rparr>"
| "copy_column t StatusId row = row\<lparr>tk_status_id := tk_status_id t\<rparr>"
| "copy_column t ResolvedAt row = row\<lparr>tk_resolved_at := tk_resolved_at t\<rparr>"
| "copy_column t ClosedAt row = row\<lparr>tk_closed_at := tk_closed_at t\<rparr>"
| "copy_column t ReopenedCount row = row\<lparr>tk_reopened_count := tk_reopened_count t\<rparr>"

definition update_tickets :: "ident \<Rightarrow> (ticket \<Rightarrow> ticket) \<Rightarrow> complaint_db \<Rightarrow> complaint_db" where
  "update_tickets uid f db =
     db\<lparr>cd_tickets := map (\<lambda>t. if tk_unique_id t = uid then f t else t) (cd_tickets db)\<rparr>"

definition save_ticket :: "ticket_column list \<Rightarrow> ticket \<Rightarrow> complaint_db \<Rightarrow> complaint_db" where
  "save_ticket cols t = update_tickets (tk_unique_id t) (fold (copy_column t) cols)"

definition find_ticket :: "complaint_db \<Rightarrow> ident \<Rightarrow> ticket option" where
  "find_ticket db uid = find (\<lambda>t. tk_unique_id t = uid) (cd_tickets db)"

text \<open>\<open>notify\<close> to a staff recipient: no recipient, no row.\<close>

definition notify_staff ::
  "ticket \<Rightarrow> string \<Rightarrow> string \<Rightarrow> staff_row option \<Rightarrow> complaint_db \<Rightarrow> complaint_db" where
  "notify_staff t event message staff db =
     (case staff of
        None \<Rightarrow> db
      | Some s \<Rightarrow> db\<lparr>cd_notifications := cd_notifications db @
          [\<lparr>nt_ticket_id = tk_unique_id t, nt_staff_id = Some (sf_unique_id s), nt_event = event,
            nt_title = event_title event, nt_message = message\<rparr>]\<rparr>)"

text \<open>A push is queued only to a customer with a registered device, when push is configured.\<close>

definition push_to_customer ::
  "ident option \<Rightarrow> string \<Rightarrow> string \<Rightarrow> complaint_db \<Rightarrow> complaint_db" where
  "push_to_customer customer title body db =
     (if \<not> truthy customer then db
      else let token = cd_fcm_token db (the customer)
        in if \<not> truthy token \<or> \<not> cd_push_configured db then db
           else db\<lparr>cd_pushes := cd_pushes db @
                  [\<lparr>pm_token = the token, pm_title = title, pm_body = body\<rparr>]\<rparr>)"

section \<open>Rules that govern a ticket\<close>

definition governing_rule :: "complaint_db \<Rightarrow> ticket \<Rightarrow> routing_rule option \<Rightarrow> sla_rule option" where
  "governing_rule db t routing_rule =
     resolve_sla_rule (cd_geo db) (cd_routing_rules db) (cd_sla_rules db) t routing_rule"

definition closed_status_ids :: "complaint_db \<Rightarrow> ident list" where
  "closed_status_ids db =
     map st_unique_id (filter (\<lambda>s. st_status_code s \<in> set CLOSED_STATUS_CODES) (cd_statuses db))"

section \<open>Lifecycle hooks\<close>

text \<open>An explicit assignee keeps the ticket, placed at that member's own level.\<close>

definition set_initial_escalation ::
  "complaint_db \<Rightarrow> moment \<Rightarrow> ticket \<Rightarrow> sla_rule option \<Rightarrow> ticket \<times> ticket_column list" where
  "set_initial_escalation db now t rule =
     (if rule = None then (t, [])
      else
        let (level, t', updated) =
          (if truthy (tk_assigned_staff_id t) then
             let own = (case lookup_staff db (tk_assigned_staff_id t) of
                 None \<Rightarrow> None
               | Some s \<Rightarrow>
                   (case sf_governmentusertype_id s of
                      None \<Rightarrow> None
                    | Some role \<Rightarrow>
                        map_of (role_levels (ticket_geo (cd_geo db) t) (hierarchy_rows db) False) role))
             in (case own of
                   None \<Rightarrow> (map_option fst (next_level_staff db t 0), t, [])
                 | Some level \<Rightarrow> (Some level, t, []))
           else
             (case next_level_staff db t 0 of
                None \<Rightarrow> (None, t, [])
              | Some (level, staff) \<Rightarrow>
                  (Some level, t\<lparr>tk_assigned_staff_id := Some (sf_unique_id staff)\<rparr>, [AssignedStaffId])))
        in case level of
             None \<Rightarrow> (t', updated)
           | Some l \<Rightarrow>
               (t'\<lparr>tk_escalation_level := l, tk_next_escalation_due_at := level_due db rule l now\<rparr>,
                updated @ [EscalationLevel, NextEscalationDueAt]))"

definition assigned_message :: "complaint_db \<Rightarrow> ticket \<Rightarrow> string" where
  "assigned_message db t =
     ''Ticket '' @ tk_ticket_no t @ '' ('' @
     (if truthy (tk_title t) then the (tk_title t) else cd_category_name db (tk_category_id t)) @
     '') has been assigned to you.''"

definition apply_routing_and_sla ::
  "complaint_db \<Rightarrow> moment \<Rightarrow> ticket \<Rightarrow> bool \<Rightarrow> complaint_db \<times> ticket \<times> ticket_column list" where
  "apply_routing_and_sla db now t save =
     (let route = best_routing_rule t (cd_routing_rules db);
          (t1, cols1) =
            (case route of
               None \<Rightarrow> (t, [])
             | Some r \<Rightarrow>
                 if truthy (rr_user_id r) \<and> \<not> truthy (tk_assigned_user_id t)
                 then (t\<lparr>tk_assigned_user_id := rr_user_id r\<rparr>, [AssignedUserId]) else (t, []));
          rule = governing_rule db t1 route;
          (t2, cols2) =
            (if tk_next_escalation_due_at t1 = None \<and> tk_escalation_level t1 = 0
             then set_initial_escalation db now t1 rule else (t1, []));
          auto_assigned = (AssignedStaffId \<in> set cols2);
          cols = cols1 @ cols2;
          db1 = (if save \<and> cols \<noteq> [] then save_ticket cols t2 db else db);
          db2 = (if save \<and> auto_assigned
                 then notify_staff t2 ''ASSIGNED'' (assigned_message db t2)
                        (lookup_staff db (tk_assigned_staff_id t2)) db1
                 else db1)
      in (db2, t2, cols))"

text \<open>
  When the ticket reached its current level: the latest of its creation, its last escalation
  to that level and its last reopen.
\<close>

definition level_started_at :: "complaint_db \<Rightarrow> ticket \<Rightarrow> moment" where
  "level_started_at db t =
     Max (set (tk_created t
       # map eh_escalated_at (filter (\<lambda>h. eh_ticket_id h = tk_unique_id t
             \<and> eh_escalation_level h = tk_escalation_level t \<and> \<not> eh_is_deleted h) (cd_escalations db))
       @ map ro_reopened_at (filter (\<lambda>h. ro_ticket_id h = tk_unique_id t \<and> \<not> ro_is_deleted h)
           (cd_reopens db))))"

definition set_due :: "ident \<Rightarrow> moment option \<Rightarrow> complaint_db \<Rightarrow> complaint_db" where
  "set_due uid due = update_tickets uid (\<lambda>t. t\<lparr>tk_next_escalation_due_at := due\<rparr>)"

definition open_tickets :: "complaint_db \<Rightarrow> ticket list" where
  "open_tickets db =
     filter (\<lambda>t. \<not> tk_is_deleted t \<and> tk_status_id t \<notin> set (closed_status_ids db)) (cd_tickets db)"

definition reschedule_one ::
  "moment \<Rightarrow> sla_rule \<Rightarrow> ticket \<Rightarrow> complaint_db \<times> nat \<Rightarrow> complaint_db \<times> nat" where
  "reschedule_one now rule t = (\<lambda>(db, changed).
     (case governing_rule db t None of
        None \<Rightarrow> (db, changed)
      | Some governing \<Rightarrow>
          if sr_unique_id governing \<noteq> sr_unique_id rule then (db, changed)
          else if tk_escalation_level t = 0 then
            let (db', t', cols) = apply_routing_and_sla db now t True
            in (db', if NextEscalationDueAt \<in> set cols then changed + 1 else changed)
          else
            let due = level_due db (Some governing) (tk_escalation_level t) (level_started_at db t)
            in if due \<noteq> tk_next_escalation_due_at t
               then (set_due (tk_unique_id t) due db, changed + 1) else (db, changed)))"

definition reschedule_open_tickets :: "complaint_db \<Rightarrow> moment \<Rightarrow> sla_rule \<Rightarrow> complaint_db \<times> nat" where
  "reschedule_open_tickets db now rule =
     fold (reschedule_one now rule)
       (filter (\<lambda>t. tk_category_id t = sr_category_id rule) (open_tickets db)) (db, 0)"

definition stop_escalation_clock :: "ticket \<Rightarrow> complaint_db \<Rightarrow> ticket \<times> complaint_db" where
  "stop_escalation_clock t db =
     (if tk_next_escalation_due_at t = None then (t, db)
      else let t' = t\<lparr>tk_next_escalation_due_at := None\<rparr>
           in (t', save_ticket [NextEscalationDueAt] t' db))"

definition restart_escalation_clock ::
  "moment \<Rightarrow> ticket \<Rightarrow> complaint_db \<Rightarrow> ticket \<times> complaint_db" where
  "restart_escalation_clock now t db =
     (let due = level_due db (governing_rule db t None) (tk_escalation_level t) now
      in if due = tk_next_escalation_due_at t then (t, db)
         else let t' = t\<lparr>tk_next_escalation_due_at := due\<rparr>
              in (t', save_ticket [NextEscalationDueAt] t' db))"

text \<open>\<open>staff_uid\<close> is the staff id of the acting user, \<open>None\<close> for a non-staff account.\<close>

definition is_passed_over :: "complaint_db \<Rightarrow> ticket \<Rightarrow> ident option \<Rightarrow> bool" where
  "is_passed_over db t staff_uid =
     (if \<not> truthy staff_uid \<or> \<not> tk_is_escalated t \<or> tk_escalated_to_staff_id t = staff_uid then False
      else if tk_assigned_staff_id t = staff_uid then True
      else list_ex (\<lambda>h. eh_ticket_id h = tk_unique_id t \<and> eh_to_staff_id h = staff_uid
               \<and> \<not> eh_is_deleted h) (cd_escalations db))"

section \<open>Escalation\<close>

datatype escalation_error = TicketDoesNotExist | NoHigherLevel

definition escalated_status :: "complaint_db \<Rightarrow> status_row option" where
  "escalated_status db =
     find (\<lambda>s. st_status_code s = ''ESCALATED'' \<and> \<not> st_is_deleted s) (cd_statuses db)"

definition escalation_columns :: "status_row option \<Rightarrow> ticket_column list" where
  "escalation_columns status =
     [EscalationLevel, IsEscalated, EscalatedToStaffId, NextEscalationDueAt]
     @ (if status = None then [] else [StatusId])"

definition escalated_ticket ::
  "moment option \<Rightarrow> nat \<Rightarrow> staff_row \<Rightarrow> status_row option \<Rightarrow> ticket \<Rightarrow> ticket" where
  "escalated_ticket due to_level to_staff status t =
     (let t' = t\<lparr>tk_escalation_level := to_level, tk_is_escalated := True,
                 tk_escalated_to_staff_id := Some (sf_unique_id to_staff),
                 tk_next_escalation_due_at := due\<rparr>
      in (case status of None \<Rightarrow> t' | Some s \<Rightarrow> t'\<lparr>tk_status_id := st_unique_id s\<rparr>))"

definition escalation_remarks ::
  "bool \<Rightarrow> nat \<Rightarrow> staff_row option \<Rightarrow> nat \<Rightarrow> staff_row \<Rightarrow> string option \<Rightarrow> string" where
  "escalation_remarks by_system from_level from_staff to_level to_staff reason =
     (if by_system then ''Auto-escalated'' else ''Escalated'') @ '' '' @ level_label from_level from_staff
     @ '' -> '' @ level_label to_level (Some to_staff) @ suffix_if '': '' reason []"

text \<open>The history rows of one escalation, from the ticket \<open>t\<close> as it was locked.\<close>

definition log_escalation ::
  "moment \<Rightarrow> ticket \<Rightarrow> staff_row option \<Rightarrow> nat \<Rightarrow> staff_row \<Rightarrow> string option \<Rightarrow> ident option \<Rightarrow> bool
     \<Rightarrow> status_row option \<Rightarrow> complaint_db \<Rightarrow> complaint_db" where
  "log_escalation now t from_staff to_level to_staff reason actor by_system status db =
     (let from_level = tk_escalation_level t;
          from_id = map_option sf_unique_id from_staff;
          to_id = Some (sf_unique_id to_staff);
          db1 = db\<lparr>cd_escalations := cd_escalations db @
             [\<lparr>eh_ticket_id = tk_unique_id t, eh_escalation_level = to_level,
               eh_from_level = (if from_level = 0 then None else Some from_level),
               eh_from_staff_id = from_id, eh_to_staff_id = to_id, eh_by_user_id = actor,
               eh_reason = reason, eh_by_system = by_system, eh_escalated_at = now,
               eh_is_deleted = False\<rparr>]\<rparr>;
          db2 = db1\<lparr>cd_assignments := cd_assignments db1 @
             [\<lparr>ah_ticket_id = tk_unique_id t, ah_from_staff_id = from_id, ah_to_staff_id = to_id,
               ah_assigned_by_id = actor,
               ah_reason = (if truthy reason then reason
                            else Some (if by_system then ''SLA breach auto-escalation''
                                       else ''Escalated''))\<rparr>]\<rparr>
      in (case status of
            None \<Rightarrow> db2
          | Some s \<Rightarrow> db2\<lparr>cd_status_changes := cd_status_changes db2 @
               [\<lparr>sc_ticket_id = tk_unique_id t, sc_from_status_id = Some (tk_status_id t),
                 sc_to_status_id = st_unique_id s, sc_by_user_id = actor, sc_by_system = by_system,
                 sc_remarks = Some (escalation_remarks by_system from_level from_staff to_level to_staff reason),
                 sc_visible_to_citizen = True\<rparr>]\<rparr>))"

definition announce_escalation ::
  "ticket \<Rightarrow> staff_row option \<Rightarrow> nat \<Rightarrow> staff_row \<Rightarrow> string option \<Rightarrow> complaint_db \<Rightarrow> complaint_db" where
  "announce_escalation t from_staff to_level to_staff reason db =
     (let db1 = notify_staff t ''ESCALATED_TO''
             (''Ticket '' @ tk_ticket_no t @ '' escalated to you (Level '' @ show_nat to_level @ '')''
              @ (case from_staff of None \<Rightarrow> [] | Some s \<Rightarrow> '' from '' @ sf_employee_name s)
              @ suffix_if ''. Reason: '' reason ''.'')
             (Some to_staff) db;
          db2 =
            (case from_staff of
               None \<Rightarrow> db1
             | Some s \<Rightarrow>
                 if sf_unique_id s = sf_unique_id to_staff then db1
                 else notify_staff t ''ESCALATED''
                   (''Ticket '' @ tk_ticket_no t @ '' has been escalated to '' @ sf_employee_name to_staff
                    @ '' (Level '' @ show_nat to_level @ '').'' @ suffix_if '' Reason: '' reason [])
                   (Some s) db1)
      in push_to_customer (tk_customer_id t) ''Grievance update''
           (''Your ticket '' @ tk_ticket_no t @ '' has been escalated for closer attention.'') db2)"

text \<open>The row is read again under its lock; an error rolls the transaction back.\<close>

definition escalate_ticket ::
  "complaint_db \<Rightarrow> moment \<Rightarrow> ident \<Rightarrow> string option \<Rightarrow> ident option \<Rightarrow> bool
     \<Rightarrow> escalation_error + complaint_db \<times> ticket" where
  "escalate_ticket db now uid reason actor by_system =
     (case find_ticket db uid of
        None \<Rightarrow> Inl TicketDoesNotExist
      | Some t \<Rightarrow>
          (case next_level_staff db t (tk_escalation_level t) of
             None \<Rightarrow> Inl NoHigherLevel
           | Some (to_level, to_staff) \<Rightarrow>
               let rule = governing_rule db t None;
                   from_staff = responsible_staff db t;
                   status = escalated_status db;
                   t' = escalated_ticket (level_due db rule to_level now) to_level to_staff status t;
                   db1 = save_ticket (escalation_columns status) t' db;
                   db2 = log_escalation now t from_staff to_level to_staff reason actor by_system status db1;
                   db3 = announce_escalation t' from_staff to_level to_staff reason db2
               in Inr (db3, t')))"

section \<open>The overdue sweep\<close>

definition overdue_tickets :: "complaint_db \<Rightarrow> moment \<Rightarrow> ticket list" where
  "overdue_tickets db now =
     filter (\<lambda>t. case tk_next_escalation_due_at t of None \<Rightarrow> False | Some due \<Rightarrow> due < now)
       (open_tickets db)"

text \<open>A missing ticket is not a \<open>ValueError\<close>: it ends the sweep.\<close>

definition sweep_one ::
  "moment \<Rightarrow> ticket \<Rightarrow> escalation_error + complaint_db \<times> nat
     \<Rightarrow> escalation_error + complaint_db \<times> nat" where
  "sweep_one now t acc =
     (case acc of
        Inl e \<Rightarrow> Inl e
      | Inr (db, count) \<Rightarrow>
          (case escalate_ticket db now (tk_unique_id t) (Some ''SLA breach - auto escalation'') None True of
             Inr (db', t') \<Rightarrow> Inr (db', count + 1)
           | Inl NoHigherLevel \<Rightarrow> Inr (set_due (tk_unique_id t) None db, count)
           | Inl TicketDoesNotExist \<Rightarrow> Inl TicketDoesNotExist))"

definition check_and_escalate_overdue_tickets ::
  "complaint_db \<Rightarrow> moment \<Rightarrow> escalation_error + complaint_db \<times> nat" where
  "check_and_escalate_overdue_tickets db now =
     fold (sweep_one now) (overdue_tickets db now) (Inr (db, 0))"

section \<open>Which staff member, which level\<close>

lemma sort_key_hd_le: "x \<in> set xs \<Longrightarrow> f (hd (sort_key f xs)) \<le> f x"
proof -
  assume x: "x \<in> set xs"
  have "sorted (map f (sort_key f xs))" by simp
  moreover from x have "sort_key f xs \<noteq> []" by (metis empty_iff empty_set set_sort)
  then obtain y ys where "sort_key f xs = y # ys" by (cases "sort_key f xs") auto
  moreover from x have "x \<in> set (sort_key f xs)" by simp
  ultimately show ?thesis by auto
qed

lemma hd_sort_key_in: "xs \<noteq> [] \<Longrightarrow> hd (sort_key f xs) \<in> set xs"
  by (metis hd_in_set set_empty set_sort)

lemma staff_for_level_None:
  "staff_for_level level geo levels rows = None \<longleftrightarrow> staff_candidates level geo levels rows = []"
  by (simp add: staff_for_level_def Let_def)

lemma staff_for_level_Some:
  assumes "staff_for_level level geo levels rows = Some s"
  shows "s \<in> set (staff_candidates level geo levels rows)"
    and "c \<in> set (staff_candidates level geo levels rows) \<Longrightarrow> staff_key s \<le> staff_key c"
  using assms by (auto simp: staff_for_level_def Let_def hd_sort_key_in sort_key_hd_le split: if_splits)

lemma staff_candidates_iff:
  "s \<in> set (staff_candidates level geo levels rows) \<longleftrightarrow>
     s \<in> set rows \<and> (\<exists>role. sf_governmentusertype_id s = Some role \<and> (role, level) \<in> set levels)
     \<and> sf_active_status s \<and> \<not> sf_is_deleted s \<and> staff_covers s geo"
  by (auto simp: staff_candidates_def)

definition ticket_levels :: "complaint_db \<Rightarrow> ticket \<Rightarrow> (ident \<times> nat) list" where
  "ticket_levels db t = role_levels (ticket_geo (cd_geo db) t) (hierarchy_rows db) True"

definition level_staff :: "complaint_db \<Rightarrow> ticket \<Rightarrow> nat \<Rightarrow> staff_row option" where
  "level_staff db t level =
     staff_for_level level (ticket_geo (cd_geo db) t) (ticket_levels db t) (cd_staff db)"

lemma first_staffed_level_None:
  "first_staffed_level rows geo levels above_level ls = None \<longleftrightarrow>
     (\<forall>l\<in>set ls. above_level < l \<longrightarrow> staff_for_level l geo levels rows = None)"
  by (induction ls) (auto split: option.splits)

lemma first_staffed_level_Some:
  assumes "sorted ls" and "distinct ls"
  shows "first_staffed_level rows geo levels above_level ls = Some (l, s) \<longleftrightarrow>
     l \<in> set ls \<and> above_level < l \<and> staff_for_level l geo levels rows = Some s
     \<and> (\<forall>k\<in>set ls. above_level < k \<and> k < l \<longrightarrow> staff_for_level k geo levels rows = None)"
  using assms
proof (induction ls)
  case (Cons k ls)
  then have order: "\<forall>j\<in>set ls. k < j" by (auto simp: order_less_le)
  show ?case
  proof (cases "above_level < k \<and> staff_for_level k geo levels rows \<noteq> None")
    case True
    then show ?thesis using order by (auto simp: not_le)
  next
    case False
    then have "first_staffed_level rows geo levels above_level (k # ls)
        = first_staffed_level rows geo levels above_level ls"
      by (auto simp: not_le not_less)
    then show ?thesis using Cons False order by fastforce
  qed
qed simp

lemma next_level_staff_None:
  "next_level_staff db t above_level = None \<longleftrightarrow>
     (\<forall>l \<in> snd ` set (ticket_levels db t). above_level < l \<longrightarrow> level_staff db t l = None)"
  by (simp add: next_level_staff_def Let_def ticket_levels_def level_staff_def first_staffed_level_None)

lemma next_level_staff_Some:
  "next_level_staff db t above_level = Some (l, s) \<longleftrightarrow>
     l \<in> snd ` set (ticket_levels db t) \<and> above_level < l \<and> level_staff db t l = Some s
     \<and> (\<forall>k \<in> snd ` set (ticket_levels db t). above_level < k \<and> k < l \<longrightarrow> level_staff db t k = None)"
  by (simp add: next_level_staff_def Let_def ticket_levels_def level_staff_def
      first_staffed_level_Some)

lemma level_staff_in_levels:
  "level_staff db t l = Some s \<Longrightarrow> l \<in> snd ` set (ticket_levels db t)"
  unfolding level_staff_def by (drule staff_for_level_Some(1)) (force simp: staff_candidates_iff)

lemma staff_key_inj:
  assumes "distinct (map sf_unique_id rows)" and "a \<in> set rows" and "b \<in> set rows"
    and "staff_key a \<le> staff_key b" and "staff_key b \<le> staff_key a"
  shows "a = b"
proof -
  from assms(4,5) have "staff_key a = staff_key b" by (rule antisym)
  then have "sf_unique_id a = sf_unique_id b" by (simp add: staff_key_def)
  with assms(1-3) show ?thesis by (auto dest: inj_onD simp: distinct_map)
qed

lemma staff_for_level_arg_min:
  assumes "distinct (map sf_unique_id rows)"
  shows "staff_for_level level geo levels rows = Some s \<longleftrightarrow>
     is_arg_min staff_key (\<lambda>c. c \<in> set (staff_candidates level geo levels rows)) s"
  (is "?l \<longleftrightarrow> ?r")
proof
  show "?l \<Longrightarrow> ?r" by (auto simp: is_arg_min_linorder dest: staff_for_level_Some)
next
  assume r: ?r
  then have s: "s \<in> set (staff_candidates level geo levels rows)" by (simp add: is_arg_min_linorder)
  then obtain a where a: "staff_for_level level geo levels rows = Some a"
    using staff_for_level_None [of level geo levels rows]
    by (cases "staff_for_level level geo levels rows") auto
  note a_best = staff_for_level_Some [OF a]
  have "staff_key a \<le> staff_key s" using a_best(2) [OF s] .
  moreover have "staff_key s \<le> staff_key a" using r a_best(1) by (simp add: is_arg_min_linorder)
  ultimately have "a = s"
    using staff_key_inj [OF assms, of a s] a_best(1) s by (simp add: staff_candidates_iff)
  with a show ?l by simp
qed

text \<open>The next level of a ticket is the lowest one above its current level at which an
  active staff member of a participating role covers the ticket's area, and the member chosen
  there is the most local, then login-enabled, then first by id.\<close>
theorem next_level_staff_spec:
  assumes "distinct (map sf_unique_id (cd_staff db))"
  shows "next_level_staff db t above_level = Some (l, s) \<longleftrightarrow>
     above_level < l
     \<and> is_arg_min staff_key
         (\<lambda>c. c \<in> set (staff_candidates l (ticket_geo (cd_geo db) t) (ticket_levels db t) (cd_staff db))) s
     \<and> (\<forall>k. above_level < k \<and> k < l \<longrightarrow>
          staff_candidates k (ticket_geo (cd_geo db) t) (ticket_levels db t) (cd_staff db) = [])"
  (is "?l \<longleftrightarrow> ?r")
proof -
  have staff: "level_staff db t l = Some s \<longleftrightarrow> is_arg_min staff_key
         (\<lambda>c. c \<in> set (staff_candidates l (ticket_geo (cd_geo db) t) (ticket_levels db t) (cd_staff db))) s"
    unfolding level_staff_def by (rule staff_for_level_arg_min [OF assms])
  have gap: "(\<forall>k \<in> snd ` set (ticket_levels db t). above_level < k \<and> k < l \<longrightarrow> level_staff db t k = None)
      \<longleftrightarrow> (\<forall>k. above_level < k \<and> k < l \<longrightarrow>
          staff_candidates k (ticket_geo (cd_geo db) t) (ticket_levels db t) (cd_staff db) = [])"
    using level_staff_in_levels [of db t] staff_for_level_None
    unfolding level_staff_def by (metis not_None_eq)
  show ?thesis
    using level_staff_in_levels [of db t l s] by (simp only: next_level_staff_Some staff [symmetric] gap) blast
qed

section \<open>What one escalation changes\<close>

text \<open>The tables an escalation reads its decision from.\<close>

definition settings where
  "settings db = (cd_geo db, cd_hierarchy db, cd_staff db, cd_routing_rules db, cd_sla_rules db,
     cd_sla_levels db, cd_statuses db)"

lemma settings_reads:
  assumes "settings db' = settings db"
  shows "ticket_levels db' = ticket_levels db" and "next_level_staff db' = next_level_staff db"
    and "level_due db' = level_due db" and "governing_rule db' = governing_rule db"
    and "escalated_status db' = escalated_status db" and "closed_status_ids db' = closed_status_ids db"
    and "lookup_staff db' = lookup_staff db"
proof -
  from assms have eqs: "cd_geo db' = cd_geo db" "cd_hierarchy db' = cd_hierarchy db"
    "cd_staff db' = cd_staff db" "cd_routing_rules db' = cd_routing_rules db"
    "cd_sla_rules db' = cd_sla_rules db" "cd_sla_levels db' = cd_sla_levels db"
    "cd_statuses db' = cd_statuses db"
    unfolding settings_def by simp_all
  show "ticket_levels db' = ticket_levels db" and "next_level_staff db' = next_level_staff db"
    and "level_due db' = level_due db" and "governing_rule db' = governing_rule db"
    and "escalated_status db' = escalated_status db" and "closed_status_ids db' = closed_status_ids db"
    and "lookup_staff db' = lookup_staff db"
    by (simp_all only: fun_eq_iff ticket_levels_def next_level_staff_def level_due_def
        governing_rule_def escalated_status_def closed_status_ids_def hierarchy_rows_def
        lookup_staff_def eqs simp_thms)
qed

lemma settings_writes [simp]:
  "settings (update_tickets uid f db) = settings db"
  "settings (notify_staff t e m st db) = settings db"
  "settings (push_to_customer c ti bo db) = settings db"
  "settings (log_escalation now t fs l s r a bs status db) = settings db"
  "settings (announce_escalation t fs l s r db) = settings db"
  by (simp_all add: settings_def update_tickets_def notify_staff_def push_to_customer_def Let_def
      log_escalation_def announce_escalation_def split: option.split)

lemma cd_tickets_logged [simp]:
  "cd_tickets (notify_staff t e m st db) = cd_tickets db"
  "cd_tickets (push_to_customer c ti bo db) = cd_tickets db"
  "cd_tickets (log_escalation now t fs l s r a bs status db) = cd_tickets db"
  "cd_tickets (announce_escalation t fs l s r db) = cd_tickets db"
  by (simp_all add: notify_staff_def push_to_customer_def Let_def
      log_escalation_def announce_escalation_def split: option.split)

lemma cd_escalations_announced [simp]:
  "cd_escalations (update_tickets uid f db) = cd_escalations db"
  "cd_escalations (notify_staff t e m st db) = cd_escalations db"
  "cd_escalations (push_to_customer c ti bo db) = cd_escalations db"
  "cd_escalations (announce_escalation t fs l s r db) = cd_escalations db"
  by (simp_all add: update_tickets_def notify_staff_def push_to_customer_def Let_def
      announce_escalation_def split: option.split)

lemma find_ticket_id: "find_ticket db uid = Some t \<Longrightarrow> tk_unique_id t = uid \<and> t \<in> set (cd_tickets db)"
  by (auto simp: find_ticket_def find_Some_iff)

lemma find_ticket_cong: "cd_tickets db = cd_tickets db' \<Longrightarrow> find_ticket db = find_ticket db'"
  by (simp add: find_ticket_def fun_eq_iff)

lemma find_ticket_distinct:
  "distinct (map tk_unique_id (cd_tickets db)) \<Longrightarrow> t \<in> set (cd_tickets db) \<Longrightarrow>
     find_ticket db (tk_unique_id t) = Some t"
  unfolding find_ticket_def by (rule find_distinct)

lemma find_ticket_update:
  assumes "\<And>t. tk_unique_id (f t) = tk_unique_id t"
  shows "find_ticket (update_tickets uid f db) u =
     map_option (\<lambda>t. if u = uid then f t else t) (find_ticket db u)"
proof -
  have "find_ticket (update_tickets uid f db) u =
      map_option (\<lambda>t. if tk_unique_id t = uid then f t else t) (find_ticket db u)"
    unfolding find_ticket_def update_tickets_def using assms by (simp add: find_map_id)
  then show ?thesis by (cases "find_ticket db u") (auto dest: find_ticket_id)
qed

lemma copy_column_id [simp]: "tk_unique_id (copy_column t c row) = tk_unique_id row"
  by (cases c) simp_all

lemma copy_columns_id [simp]: "tk_unique_id (fold (copy_column t) cols row) = tk_unique_id row"
  by (induction cols arbitrary: row) simp_all

lemma escalated_ticket_id [simp]:
  "tk_unique_id (escalated_ticket due l s status t) = tk_unique_id t"
  by (simp add: escalated_ticket_def Let_def split: option.split)

lemma copy_escalation_columns [simp]:
  "fold (copy_column (escalated_ticket due l s status t)) (escalation_columns status) t =
     escalated_ticket due l s status t"
  by (simp add: escalation_columns_def escalated_ticket_def Let_def split: option.split)

text \<open>The ticket as an escalation of \<open>t\<close> leaves it, if there is a level to go to.\<close>

definition hop :: "complaint_db \<Rightarrow> moment \<Rightarrow> ticket \<Rightarrow> ticket option" where
  "hop db now t = map_option (\<lambda>(l, s).
     escalated_ticket (level_due db (governing_rule db t None) l now) l s (escalated_status db) t)
     (next_level_staff db t (tk_escalation_level t))"

lemma hop_cong: "settings db' = settings db \<Longrightarrow> hop db' = hop db"
  by (simp only: hop_def fun_eq_iff settings_reads [of db' db] simp_thms)

lemma hop_id: "hop db now t = Some t' \<Longrightarrow> tk_unique_id t' = tk_unique_id t"
  by (auto simp: hop_def)

lemma escalate_ticket_hop:
  assumes "find_ticket db uid = Some t"
  shows "hop db now t = None \<Longrightarrow> escalate_ticket db now uid r a b = Inl NoHigherLevel"
    and "hop db now t = Some t' \<Longrightarrow> \<exists>db'. escalate_ticket db now uid r a b = Inr (db', t')
       \<and> settings db' = settings db
       \<and> (\<forall>u. find_ticket db' u = (if u = uid then Some t' else find_ticket db u))"
proof -
  show "hop db now t = None \<Longrightarrow> escalate_ticket db now uid r a b = Inl NoHigherLevel"
    using assms by (simp add: hop_def escalate_ticket_def)
next
  assume "hop db now t = Some t'"
  then obtain l s where n: "next_level_staff db t (tk_escalation_level t) = Some (l, s)"
    and t': "t' = escalated_ticket (level_due db (governing_rule db t None) l now) l s
                    (escalated_status db) t"
    by (auto simp: hop_def)
  let ?db1 = "save_ticket (escalation_columns (escalated_status db)) t' db"
  obtain db' where e: "escalate_ticket db now uid r a b = Inr (db', t')"
    and tk: "cd_tickets db' = cd_tickets ?db1" and su: "settings db' = settings ?db1"
    using assms n t' by (simp add: escalate_ticket_def Let_def)
  have id: "tk_unique_id t' = uid" using find_ticket_id [OF assms] t' by simp
  have row: "fold (copy_column t') (escalation_columns (escalated_status db)) t = t'"
    unfolding t' by (rule copy_escalation_columns)
  have "find_ticket db' u = map_option
      (\<lambda>t. if u = uid then fold (copy_column t') (escalation_columns (escalated_status db)) t else t)
      (find_ticket db u)" for u
    unfolding find_ticket_cong [OF tk] save_ticket_def id
    by (rule find_ticket_update) (rule copy_columns_id)
  then have "find_ticket db' u = (if u = uid then Some t' else find_ticket db u)" for u
    by (simp add: assms row option.map_ident)
  with e su show "\<exists>db'. escalate_ticket db now uid r a b = Inr (db', t')
       \<and> settings db' = settings db
       \<and> (\<forall>u. find_ticket db' u = (if u = uid then Some t' else find_ticket db u))"
    by (auto simp: save_ticket_def)
qed

text \<open>C1: Escalating a ticket moves it to the next staffed level, strictly above its own: the
  stored row gets that level, its staff member and a deadline counted from now with the window
  of the governing SLA rule, and no other ticket changes.\<close>
theorem escalate_ticket_moves_up:
  assumes "find_ticket db uid = Some t"
    and "next_level_staff db t (tk_escalation_level t) = Some (l, s)"
  shows "\<exists>db' t'. escalate_ticket db now uid reason actor by_system = Inr (db', t')
     \<and> find_ticket db' uid = Some t' \<and> tk_escalation_level t < tk_escalation_level t'
     \<and> tk_escalation_level t' = l \<and> tk_is_escalated t'
     \<and> tk_escalated_to_staff_id t' = Some (sf_unique_id s)
     \<and> tk_next_escalation_due_at t' = level_due db (governing_rule db t None) l now
     \<and> (\<forall>u. u \<noteq> uid \<longrightarrow> find_ticket db' u = find_ticket db u)"
proof -
  have "hop db now t = Some (escalated_ticket (level_due db (governing_rule db t None) l now) l s
      (escalated_status db) t)"
    using assms(2) by (simp add: hop_def)
  from escalate_ticket_hop(2) [OF assms(1) this] obtain db' where
    e: "escalate_ticket db now uid reason actor by_system = Inr (db',
      escalated_ticket (level_due db (governing_rule db t None) l now) l s (escalated_status db) t)"
    and "\<forall>u. find_ticket db' u = (if u = uid then Some (escalated_ticket
      (level_due db (governing_rule db t None) l now) l s (escalated_status db) t)
      else find_ticket db u)"
    by blast
  moreover have "tk_escalation_level t < l" using assms(2) by (simp add: next_level_staff_Some)
  ultimately show ?thesis
    by (intro exI conjI) (auto simp: escalated_ticket_def Let_def split: option.split)
qed

text \<open>C34: Escalation fails exactly when the ticket does not exist, or no level above its
  current one has a staff member covering its area.\<close>
theorem escalate_ticket_fails_iff:
  "escalate_ticket db now uid reason actor by_system = Inl e \<longleftrightarrow>
     (find_ticket db uid = None \<and> e = TicketDoesNotExist)
     \<or> (\<exists>t. find_ticket db uid = Some t \<and> e = NoHigherLevel
         \<and> (\<forall>l. tk_escalation_level t < l \<longrightarrow>
              staff_candidates l (ticket_geo (cd_geo db) t) (ticket_levels db t) (cd_staff db) = []))"
proof (cases "find_ticket db uid")
  case None
  then show ?thesis by (auto simp: escalate_ticket_def)
next
  case (Some t)
  have none: "next_level_staff db t (tk_escalation_level t) = None \<longleftrightarrow> (\<forall>l. tk_escalation_level t < l
      \<longrightarrow> staff_candidates l (ticket_geo (cd_geo db) t) (ticket_levels db t) (cd_staff db) = [])"
    using level_staff_in_levels [of db t]
    unfolding next_level_staff_None level_staff_def staff_for_level_None [symmetric]
    by (metis not_None_eq)
  show ?thesis
  proof (cases "next_level_staff db t (tk_escalation_level t)")
    case None
    with Some none show ?thesis by (auto simp: escalate_ticket_def)
  next
    case (Some ls)
    with none \<open>find_ticket db uid = Some t\<close> show ?thesis
      by (auto simp: escalate_ticket_def Let_def split: prod.splits)
  qed
qed

section \<open>The sweep\<close>

text \<open>What the sweep leaves of an overdue ticket: one hop up, or a stopped clock.\<close>

definition swept :: "complaint_db \<Rightarrow> moment \<Rightarrow> ticket \<Rightarrow> ticket" where
  "swept db now t =
     (case hop db now t of Some t' \<Rightarrow> t' | None \<Rightarrow> t\<lparr>tk_next_escalation_due_at := None\<rparr>)"

lemma sweep_one_found:
  assumes "find_ticket db (tk_unique_id t) = Some t"
  shows "\<exists>db'. sweep_one now t (Inr (db, c)) = Inr (db', c + of_bool (hop db now t \<noteq> None))
     \<and> settings db' = settings db
     \<and> (\<forall>u. find_ticket db' u = (if u = tk_unique_id t then Some (swept db now t) else find_ticket db u))"
proof (cases "hop db now t")
  case None
  have "find_ticket (set_due (tk_unique_id t) None db) u =
      (if u = tk_unique_id t then Some (swept db now t) else find_ticket db u)" for u
    using assms None
    by (auto simp: set_due_def find_ticket_update swept_def option.map_ident)
  with None escalate_ticket_hop(1) [OF assms None] show ?thesis
    by (auto simp: sweep_one_def set_due_def)
next
  case (Some t')
  from escalate_ticket_hop(2) [OF assms Some, of "Some ''SLA breach - auto escalation''" None True]
  show ?thesis using Some by (auto simp: sweep_one_def swept_def)
qed

lemma sweep_fold:
  assumes "distinct (map tk_unique_id ts)"
    and "\<forall>t\<in>set ts. find_ticket db (tk_unique_id t) = Some t"
  shows "\<exists>db'. fold (sweep_one now) ts (Inr (db, c)) =
       Inr (db', c + length (filter (\<lambda>t. hop db now t \<noteq> None) ts))
     \<and> settings db' = settings db
     \<and> (\<forall>u. find_ticket db' u =
          (if u \<in> tk_unique_id ` set ts then map_option (swept db now) (find_ticket db u)
           else find_ticket db u))"
  using assms
proof (induction ts arbitrary: db c)
  case (Cons t ts)
  then have "find_ticket db (tk_unique_id t) = Some t" by simp
  from sweep_one_found [OF this, of now c] obtain db1 where
    one: "sweep_one now t (Inr (db, c)) = Inr (db1, c + of_bool (hop db now t \<noteq> None))"
    and su: "settings db1 = settings db"
    and found: "\<And>u. find_ticket db1 u =
      (if u = tk_unique_id t then Some (swept db now t) else find_ticket db u)"
    by blast
  have same: "hop db1 now = hop db now" "swept db1 now = swept db now"
    by (simp_all only: swept_def fun_eq_iff hop_cong [OF su] simp_thms)
  have fresh: "tk_unique_id t \<notin> tk_unique_id ` set ts" and d: "distinct (map tk_unique_id ts)"
    using Cons.prems(1) by simp_all
  have still: "\<forall>x\<in>set ts. find_ticket db1 (tk_unique_id x) = Some x"
  proof
    fix x assume x: "x \<in> set ts"
    with fresh have "tk_unique_id x \<noteq> tk_unique_id t" by (metis image_eqI)
    with x show "find_ticket db1 (tk_unique_id x) = Some x"
      unfolding found using Cons.prems(2) by simp
  qed
  from Cons.IH [OF d still, of "c + of_bool (hop db now t \<noteq> None)"] obtain db2 where
    rest: "fold (sweep_one now) ts (Inr (db1, c + of_bool (hop db now t \<noteq> None))) =
       Inr (db2, c + of_bool (hop db now t \<noteq> None) + length (filter (\<lambda>x. hop db now x \<noteq> None) ts))"
    and su2: "settings db2 = settings db1"
    and found2: "\<And>u. find_ticket db2 u =
          (if u \<in> tk_unique_id ` set ts then map_option (swept db now) (find_ticket db1 u)
           else find_ticket db1 u)"
    unfolding same by blast
  have "find_ticket db2 u = (if u \<in> tk_unique_id ` set (t # ts)
      then map_option (swept db now) (find_ticket db u) else find_ticket db u)" for u
    using fresh \<open>find_ticket db (tk_unique_id t) = Some t\<close> unfolding found2 found by simp
  with one rest su su2 show ?case by simp
qed simp

text \<open>C2: The sweep always completes. It moves every overdue open ticket exactly one level up,
  or stops its clock when there is no staffed level above; it leaves every other ticket as it
  was, and returns the number of tickets it moved.\<close>
theorem sweep_spec:
  assumes "distinct (map tk_unique_id (cd_tickets db))"
  shows "\<exists>db'. check_and_escalate_overdue_tickets db now =
       Inr (db', length (filter (\<lambda>t. next_level_staff db t (tk_escalation_level t) \<noteq> None)
                   (overdue_tickets db now)))
     \<and> (\<forall>t\<in>set (cd_tickets db). find_ticket db' (tk_unique_id t) = Some
          (if t \<in> set (overdue_tickets db now) then
             (case next_level_staff db t (tk_escalation_level t) of
                Some (l, s) \<Rightarrow> escalated_ticket (level_due db (governing_rule db t None) l now) l s
                                 (escalated_status db) t
              | None \<Rightarrow> t\<lparr>tk_next_escalation_due_at := None\<rparr>)
           else t))"
proof -
  let ?ts = "overdue_tickets db now"
  have sub: "set ?ts \<subseteq> set (cd_tickets db)" by (auto simp: overdue_tickets_def open_tickets_def)
  have d: "distinct (map tk_unique_id ?ts)"
    using assms by (simp add: overdue_tickets_def open_tickets_def distinct_map_filter)
  have found: "\<forall>t\<in>set (cd_tickets db). find_ticket db (tk_unique_id t) = Some t"
    using find_ticket_distinct [OF assms] by blast
  with sub have "\<forall>t\<in>set ?ts. find_ticket db (tk_unique_id t) = Some t" by blast
  from sweep_fold [OF d this, of now 0] obtain db' where
    run: "check_and_escalate_overdue_tickets db now =
       Inr (db', length (filter (\<lambda>t. hop db now t \<noteq> None) ?ts))"
    and rows: "\<And>u. find_ticket db' u = (if u \<in> tk_unique_id ` set ?ts
          then map_option (swept db now) (find_ticket db u) else find_ticket db u)"
    by (auto simp: check_and_escalate_overdue_tickets_def)
  have "t \<in> set ?ts \<longleftrightarrow> tk_unique_id t \<in> tk_unique_id ` set ?ts" if "t \<in> set (cd_tickets db)" for t
    using assms sub that by (auto simp: distinct_map dest: inj_onD)
  with found rows have after: "find_ticket db' (tk_unique_id t) =
      Some (if t \<in> set ?ts then swept db now t else t)" if "t \<in> set (cd_tickets db)" for t
    using that by simp
  have moved: "hop db now t \<noteq> None \<longleftrightarrow> next_level_staff db t (tk_escalation_level t) \<noteq> None" for t
    by (simp add: hop_def)
  have swept: "swept db now t = (case next_level_staff db t (tk_escalation_level t) of
        Some (l, s) \<Rightarrow> escalated_ticket (level_due db (governing_rule db t None) l now) l s
                         (escalated_status db) t
      | None \<Rightarrow> t\<lparr>tk_next_escalation_due_at := None\<rparr>)" for t
    by (simp add: swept_def hop_def split: option.split)
  show ?thesis
    using run after unfolding moved swept by blast
qed

section \<open>Repeated and interleaved escalations\<close>

lemma escalated_ticket_fields [simp]:
  "tk_escalation_level (escalated_ticket due l s status t) = l"
  "tk_escalated_to_staff_id (escalated_ticket due l s status t) = Some (sf_unique_id s)"
  "tk_assigned_staff_id (escalated_ticket due l s status t) = tk_assigned_staff_id t"
  "tk_is_escalated (escalated_ticket due l s status t)"
  "tk_next_escalation_due_at (escalated_ticket due l s status t) = due"
  "tk_columns (escalated_ticket due l s status t) = tk_columns t"
  by (simp_all add: escalated_ticket_def Let_def split: option.split)

lemma ticket_levels_escalated [simp]:
  "ticket_levels db (escalated_ticket due l s status t) = ticket_levels db t"
  by (simp add: ticket_levels_def ticket_geo_def cong: if_cong)

lemma escalate_ticketE:
  assumes "escalate_ticket db now uid reason actor by_system = Inr (db', t')"
  obtains t l s where "find_ticket db uid = Some t"
    and "next_level_staff db t (tk_escalation_level t) = Some (l, s)"
    and "t' = escalated_ticket (level_due db (governing_rule db t None) l now) l s (escalated_status db) t"
    and "settings db' = settings db"
    and "\<And>u. find_ticket db' u = (if u = uid then Some t' else find_ticket db u)"
    and "\<exists>h. cd_escalations db' = cd_escalations db @ [h] \<and> eh_ticket_id h = uid
      \<and> eh_to_staff_id h = Some (sf_unique_id s) \<and> \<not> eh_is_deleted h"
proof -
  from assms obtain t where t: "find_ticket db uid = Some t"
    by (auto simp: escalate_ticket_def split: option.splits)
  from assms t obtain l s where n: "next_level_staff db t (tk_escalation_level t) = Some (l, s)"
    by (auto simp: escalate_ticket_def split: option.splits)
  have hop: "hop db now t = Some (escalated_ticket
      (level_due db (governing_rule db t None) l now) l s (escalated_status db) t)"
    using n by (simp add: hop_def)
  note run = escalate_ticket_hop(2) [OF t hop, of reason actor by_system]
  have log: "\<exists>h. cd_escalations db' = cd_escalations db @ [h] \<and> eh_ticket_id h = uid
      \<and> eh_to_staff_id h = Some (sf_unique_id s) \<and> \<not> eh_is_deleted h"
    using assms find_ticket_id [OF t]
    by (auto simp: escalate_ticket_def t n Let_def save_ticket_def log_escalation_def split: option.splits)
  from run assms n t log show thesis by (auto intro!: that)
qed

text \<open>What moves tickets up: an escalation of one ticket, by hand or by the system, and the sweep. A call
  that fails leaves the tables as they were.\<close>

datatype chain_event =
    EscalateTicket moment ident "string option" "ident option" bool
  | Sweep moment

fun chain_step :: "chain_event \<Rightarrow> complaint_db \<Rightarrow> complaint_db" where
  "chain_step (EscalateTicket now uid reason actor by_system) db =
     (case escalate_ticket db now uid reason actor by_system of Inl _ \<Rightarrow> db | Inr (db', _) \<Rightarrow> db')"
| "chain_step (Sweep now) db =
     (case check_and_escalate_overdue_tickets db now of Inl _ \<Rightarrow> db | Inr (db', _) \<Rightarrow> db')"

text \<open>The escalations a ticket has had.\<close>

definition hops :: "complaint_db \<Rightarrow> ident \<Rightarrow> nat" where
  "hops db uid = length (filter (\<lambda>h. eh_ticket_id h = uid) (cd_escalations db))"

definition levels_above :: "complaint_db \<Rightarrow> ticket \<Rightarrow> nat set" where
  "levels_above db t = {l \<in> snd ` set (ticket_levels db t). tk_escalation_level t < l}"

lemma levels_above_hop:
  assumes "next_level_staff db t (tk_escalation_level t) = Some (l, s)" and "settings db' = settings db"
  shows "card (levels_above db' (escalated_ticket due l s status t)) < card (levels_above db t)"
proof (rule psubset_card_mono)
  show "finite (levels_above db t)" by (simp add: levels_above_def)
  from assms(1) have l: "l \<in> snd ` set (ticket_levels db t)" "tk_escalation_level t < l"
    by (simp_all add: next_level_staff_Some)
  then have "l \<in> levels_above db t" by (simp add: levels_above_def)
  moreover have "levels_above db' (escalated_ticket due l s status t) \<subseteq> levels_above db t - {l}"
    using l(2) by (auto simp: levels_above_def settings_reads(1) [OF assms(2)])
  ultimately show "levels_above db' (escalated_ticket due l s status t) \<subset> levels_above db t" by blast
qed

text \<open>From one state to a later one a ticket climbs: its level never falls, it rises exactly when an escalation is
  logged, and what is logged is paid for by the levels left above it.\<close>

definition climbs :: "ident \<Rightarrow> complaint_db \<Rightarrow> complaint_db \<Rightarrow> bool" where
  "climbs uid db db' \<longleftrightarrow> settings db' = settings db \<and> hops db uid \<le> hops db' uid
     \<and> (\<forall>t. find_ticket db uid = Some t \<longrightarrow> (\<exists>t'. find_ticket db' uid = Some t'
          \<and> tk_escalation_level t \<le> tk_escalation_level t'
          \<and> (tk_escalation_level t' = tk_escalation_level t \<longleftrightarrow> hops db' uid = hops db uid)
          \<and> hops db' uid + card (levels_above db t') \<le> hops db uid + card (levels_above db t)))"

lemma levels_above_cong: "settings db' = settings db \<Longrightarrow> levels_above db' = levels_above db"
  by (simp only: levels_above_def fun_eq_iff settings_reads(1) [of db' db] simp_thms)

lemma climbs_refl: "climbs uid db db"
  by (simp add: climbs_def)

lemma climbs_trans:
  assumes "climbs uid db1 db2" and "climbs uid db2 db3"
  shows "climbs uid db1 db3"
proof -
  have same: "settings db2 = settings db1" "settings db3 = settings db1" and up: "hops db1 uid \<le> hops db2 uid" "hops db2 uid \<le> hops db3 uid"
    using assms by (simp_all add: climbs_def)
  have "\<exists>t3. find_ticket db3 uid = Some t3 \<and> tk_escalation_level t1 \<le> tk_escalation_level t3
      \<and> (tk_escalation_level t3 = tk_escalation_level t1 \<longleftrightarrow> hops db3 uid = hops db1 uid)
      \<and> hops db3 uid + card (levels_above db1 t3) \<le> hops db1 uid + card (levels_above db1 t1)"
    if t1: "find_ticket db1 uid = Some t1" for t1
  proof -
    obtain t2 where t2: "find_ticket db2 uid = Some t2" "tk_escalation_level t1 \<le> tk_escalation_level t2"
      "tk_escalation_level t2 = tk_escalation_level t1 \<longleftrightarrow> hops db2 uid = hops db1 uid"
      "hops db2 uid + card (levels_above db1 t2) \<le> hops db1 uid + card (levels_above db1 t1)"
      using assms(1) t1 by (auto simp: climbs_def)
    obtain t3 where t3: "find_ticket db3 uid = Some t3" "tk_escalation_level t2 \<le> tk_escalation_level t3"
      "tk_escalation_level t3 = tk_escalation_level t2 \<longleftrightarrow> hops db3 uid = hops db2 uid"
      "hops db3 uid + card (levels_above db1 t3) \<le> hops db2 uid + card (levels_above db1 t2)"
      using assms(2) t2(1) levels_above_cong [OF same(1)] by (auto simp: climbs_def)
    have "tk_escalation_level t3 = tk_escalation_level t1 \<longleftrightarrow> hops db3 uid = hops db1 uid"
      using t2(2,3) t3(2,3) up by linarith
    with t2 t3 show ?thesis by auto
  qed
  with same up show ?thesis by (auto simp: climbs_def)
qed

lemma hops_logged:
  "cd_escalations db' = cd_escalations db @ [h] \<Longrightarrow> hops db' u = hops db u + (if eh_ticket_id h = u then 1 else 0)"
  by (simp add: hops_def)

lemma escalate_climbs:
  assumes "escalate_ticket db now uid reason actor by_system = Inr (db', t')"
  shows "climbs u db db'"
  using assms
proof (rule escalate_ticketE)
  fix t l s
  assume t: "find_ticket db uid = Some t" and n: "next_level_staff db t (tk_escalation_level t) = Some (l, s)"
    and t': "t' = escalated_ticket (level_due db (governing_rule db t None) l now) l s (escalated_status db) t"
    and su: "settings db' = settings db"
    and found: "\<And>u. find_ticket db' u = (if u = uid then Some t' else find_ticket db u)"
    and log: "\<exists>h. cd_escalations db' = cd_escalations db @ [h] \<and> eh_ticket_id h = uid
      \<and> eh_to_staff_id h = Some (sf_unique_id s) \<and> \<not> eh_is_deleted h"
  obtain h where h: "cd_escalations db' = cd_escalations db @ [h]" "eh_ticket_id h = uid" using log by blast
  have count: "hops db' u = hops db u + (if uid = u then 1 else 0)" using hops_logged [OF h(1), of u] h(2) by simp
  have less: "card (levels_above db t') < card (levels_above db t)" unfolding t' by (rule levels_above_hop [OF n refl])
  have "tk_escalation_level t < tk_escalation_level t'" using n by (simp add: t' next_level_staff_Some)
  with su count found t less show ?thesis by (simp add: climbs_def)
qed

lemma set_due_climbs: "climbs u db (set_due uid due db)"
proof -
  let ?f = "\<lambda>t. t\<lparr>tk_next_escalation_due_at := due\<rparr>"
  have "hops (set_due uid due db) u = hops db u" "settings (set_due uid due db) = settings db"
    by (simp_all add: set_due_def hops_def)
  moreover have "find_ticket (set_due uid due db) u = map_option (\<lambda>t. if u = uid then ?f t else t) (find_ticket db u)"
    unfolding set_due_def by (rule find_ticket_update) simp
  moreover have "levels_above db (?f t) = levels_above db t" for t
    by (simp add: levels_above_def ticket_levels_def ticket_geo_def cong: if_cong)
  ultimately show ?thesis by (simp add: climbs_def)
qed

lemma sweep_one_climbs:
  assumes "sweep_one now t (Inr (db, count)) = Inr (db', count')"
  shows "climbs u db db'"
  using assms escalate_climbs set_due_climbs
  by (auto simp: sweep_one_def split: sum.splits escalation_error.splits)

lemma sweep_fold_climbs:
  "fold (sweep_one now) ts (Inr (db, count)) = Inr (db', count') \<Longrightarrow> climbs u db db'"
proof (induction ts arbitrary: db count)
  case (Cons t ts)
  have stuck: "fold (sweep_one now) ts (Inl e) = Inl e" for e
    by (induction ts) (simp_all add: sweep_one_def)
  obtain db1 count1 where one: "sweep_one now t (Inr (db, count)) = Inr (db1, count1)"
    using Cons.prems stuck by (cases "sweep_one now t (Inr (db, count))") auto
  from Cons.IH [of db1 count1] Cons.prems one have "climbs u db1 db'" by simp
  with sweep_one_climbs [OF one] show ?case by (rule climbs_trans)
qed (simp add: climbs_refl)

lemma chain_step_climbs: "climbs u db (chain_step e db)"
  using escalate_climbs sweep_fold_climbs climbs_refl
  by (cases e) (auto simp: check_and_escalate_overdue_tickets_def split: sum.splits)

lemma chain_run_climbs: "climbs u db (fold chain_step es db)"
proof (induction es arbitrary: db)
  case (Cons e es)
  show ?case using climbs_trans [OF chain_step_climbs Cons.IH] by simp
qed (simp add: climbs_refl)

text \<open>C3: A ticket cannot be escalated for ever: through any sequence of sweeps and of escalations of any tickets,
  by hand or by the system, successful or not, its level never falls, it rises exactly when an escalation of the
  ticket is logged, and the escalations logged are at most the participating levels it has passed; so they are
  never more than the levels above the one it started from.\<close>
theorem escalations_bounded:
  assumes "find_ticket db uid = Some t"
  shows "\<exists>t'. find_ticket (fold chain_step es db) uid = Some t'
    \<and> tk_escalation_level t \<le> tk_escalation_level t'
    \<and> (tk_escalation_level t' = tk_escalation_level t \<longleftrightarrow> hops (fold chain_step es db) uid = hops db uid)
    \<and> hops (fold chain_step es db) uid + card (levels_above db t') \<le> hops db uid + card (levels_above db t)"
  using chain_run_climbs [of uid db es] assms by (simp add: climbs_def)

text \<open>After an escalation the members who lost the ticket are exactly its first assignee
  and its earlier escalatees other than the new owner; they may no longer act on it, and the
  new owner may.\<close>
theorem passed_over_after_escalation:
  assumes "escalate_ticket db now uid reason actor by_system = Inr (db', t')" and "x \<noteq> []"
  shows "is_passed_over db' t' (Some x) \<longleftrightarrow>
     tk_escalated_to_staff_id t' \<noteq> Some x
     \<and> (map_option tk_assigned_staff_id (find_ticket db uid) = Some (Some x)
        \<or> (\<exists>h\<in>set (cd_escalations db). eh_ticket_id h = uid \<and> eh_to_staff_id h = Some x
             \<and> \<not> eh_is_deleted h))"
  using assms(1)
proof (rule escalate_ticketE)
  fix t l s
  assume t: "find_ticket db uid = Some t"
    and t': "t' = escalated_ticket (level_due db (governing_rule db t None) l now) l s (escalated_status db) t"
    and log: "\<exists>h. cd_escalations db' = cd_escalations db @ [h] \<and> eh_ticket_id h = uid
      \<and> eh_to_staff_id h = Some (sf_unique_id s) \<and> \<not> eh_is_deleted h"
  from find_ticket_id [OF t] have id: "tk_unique_id t' = uid" by (simp add: t')
  from log obtain h where "cd_escalations db' = cd_escalations db @ [h]"
    "eh_to_staff_id h = Some (sf_unique_id s)" by blast
  with id t t' assms(2) show ?thesis
    by (auto simp: is_passed_over_def list_ex_iff)
qed

text \<open>The sweep escalates the tickets of its own query without reading their deadline
  again under the row lock: a ticket that was overdue when the sweep started and is escalated
  by hand before its turn is escalated a second time, whatever its new deadline.\<close>
theorem stale_sweep_hops_twice:
  assumes "t \<in> set (overdue_tickets db now)"
    and "escalate_ticket db now (tk_unique_id t) reason actor False = Inr (db1, t1)"
    and "next_level_staff db1 t1 (tk_escalation_level t1) = Some (l, s)"
  shows "\<exists>db2 t2. sweep_one now t (Inr (db1, count)) = Inr (db2, count + 1)
     \<and> find_ticket db2 (tk_unique_id t) = Some t2
     \<and> tk_escalation_level t1 < tk_escalation_level t2
     \<and> tk_escalated_to_staff_id t2 = Some (sf_unique_id s)"
  using assms(2)
proof (rule escalate_ticketE)
  fix t0 l0 s0
  assume t0: "find_ticket db (tk_unique_id t) = Some t0"
    and t1: "t1 = escalated_ticket (level_due db (governing_rule db t0 None) l0 now) l0 s0 (escalated_status db) t0"
    and found: "\<And>u. find_ticket db1 u = (if u = tk_unique_id t then Some t1 else find_ticket db u)"
  have up: "tk_escalation_level t1 < l" using assms(3) by (simp add: next_level_staff_Some)
  have f1: "find_ticket db1 (tk_unique_id t) = Some t1" by (simp add: found)
  have h1: "hop db1 now t1 = Some (escalated_ticket (level_due db1 (governing_rule db1 t1 None) l now) l s
      (escalated_status db1) t1)"
    using assms(3) by (simp add: hop_def)
  from escalate_ticket_hop(2) [OF f1 h1, of "Some ''SLA breach - auto escalation''" None True]
  show ?thesis using up by (auto simp: sweep_one_def)
qed

section \<open>A new ticket enters the chain\<close>

lemma ticket_reads [simp]:
  "ticket_geo g (t\<lparr>tk_assigned_user_id := u\<rparr>) = ticket_geo g t"
  "next_level_staff db (t\<lparr>tk_assigned_user_id := u\<rparr>) = next_level_staff db t"
  "governing_rule db (t\<lparr>tk_assigned_user_id := u\<rparr>) = governing_rule db t"
proof -
  show geo: "ticket_geo g (t\<lparr>tk_assigned_user_id := u\<rparr>) = ticket_geo g t" for g
    by (simp add: ticket_geo_def cong: if_cong)
  show "next_level_staff db (t\<lparr>tk_assigned_user_id := u\<rparr>) = next_level_staff db t"
    by (simp add: next_level_staff_def fun_eq_iff geo)
  have eqs: "routing_matches (t\<lparr>tk_assigned_user_id := u\<rparr>) = routing_matches t"
    "routing_candidate (t\<lparr>tk_assigned_user_id := u\<rparr>) = routing_candidate t"
    "sla_matches (t\<lparr>tk_assigned_user_id := u\<rparr>) = sla_matches t"
    "sla_candidate (t\<lparr>tk_assigned_user_id := u\<rparr>) = sla_candidate t"
    by (simp_all add: routing_matches_def routing_candidate_def sla_matches_def sla_candidate_def
        fun_eq_iff)
  have "best_routing_rule (t\<lparr>tk_assigned_user_id := u\<rparr>) rs = best_routing_rule t rs"
    "best_sla_rule g (t\<lparr>tk_assigned_user_id := u\<rparr>) ss = best_sla_rule g t ss" for rs g ss
    by (simp_all only: best_routing_rule_def best_sla_rule_def eqs geo)
  then show "governing_rule db (t\<lparr>tk_assigned_user_id := u\<rparr>) = governing_rule db t"
    by (simp only: governing_rule_def resolve_sla_rule_def fun_eq_iff simp_thms)
qed

lemma set_initial_columns:
  assumes "set_initial_escalation db now t rule = (t', cols)"
  shows "fold (copy_column t') cols t = t'" and "AssignedUserId \<notin> set cols"
    and "truthy (tk_assigned_staff_id t) \<Longrightarrow> tk_assigned_staff_id t' = tk_assigned_staff_id t"
    and "tk_assigned_user_id t' = tk_assigned_user_id t"
  using assms
  by (auto simp: set_initial_escalation_def Let_def split: if_splits option.splits)

text \<open>Automatic routing only fills what is empty. A user or staff member already assigned
  stays, a ticket already on the chain or with a running clock keeps its level, assignee and
  deadline, and the returned column names are exactly enough to store the change.\<close>
theorem apply_routing_only_fills_empty:
  assumes "apply_routing_and_sla db now t save = (db', t', cols)"
  shows "(truthy (tk_assigned_user_id t) \<longrightarrow> tk_assigned_user_id t' = tk_assigned_user_id t)
     \<and> (truthy (tk_assigned_staff_id t) \<longrightarrow> tk_assigned_staff_id t' = tk_assigned_staff_id t)
     \<and> (tk_escalation_level t \<noteq> 0 \<or> tk_next_escalation_due_at t \<noteq> None \<longrightarrow>
          tk_assigned_staff_id t' = tk_assigned_staff_id t
          \<and> tk_escalation_level t' = tk_escalation_level t
          \<and> tk_next_escalation_due_at t' = tk_next_escalation_due_at t)
     \<and> fold (copy_column t') cols t = t'"
proof -
  let ?route = "best_routing_rule t (cd_routing_rules db)"
  define user where "user = (case ?route of None \<Rightarrow> None
    | Some r \<Rightarrow> if truthy (rr_user_id r) \<and> \<not> truthy (tk_assigned_user_id t) then rr_user_id r else None)"
  define t1 where "t1 = (if user = None then t else t\<lparr>tk_assigned_user_id := user\<rparr>)"
  define cols1 where "cols1 = (if user = None then [] else [AssignedUserId])"
  obtain t2 cols2 where two: "(if tk_next_escalation_due_at t1 = None \<and> tk_escalation_level t1 = 0
     then set_initial_escalation db now t1 (governing_rule db t1 ?route) else (t1, [])) = (t2, cols2)"
    by (metis surj_pair)
  have one: "(case ?route of None \<Rightarrow> (t, [])
     | Some r \<Rightarrow> if truthy (rr_user_id r) \<and> \<not> truthy (tk_assigned_user_id t)
         then (t\<lparr>tk_assigned_user_id := rr_user_id r\<rparr>, [AssignedUserId]) else (t, [])) = (t1, cols1)"
    by (auto simp: t1_def cols1_def user_def split: option.splits)
  from assms have res: "t' = t2" "cols = cols1 @ cols2"
    unfolding apply_routing_and_sla_def one Let_def by (simp_all add: two)
  have kept: "truthy (tk_assigned_user_id t) \<Longrightarrow> user = None"
    by (simp add: user_def split: option.split)
  have same: "fold (copy_column t2) cols2 t1 = t2" "tk_assigned_user_id t2 = tk_assigned_user_id t1"
    and staff: "truthy (tk_assigned_staff_id t1) \<longrightarrow> tk_assigned_staff_id t2 = tk_assigned_staff_id t1"
    using two set_initial_columns [of db now t1 "governing_rule db t1 ?route" t2 cols2]
    by (auto split: if_splits)
  have "fold (copy_column t2) cols1 t = t1"
    using same(2) by (simp add: cols1_def t1_def)
  with same have "fold (copy_column t2) (cols1 @ cols2) t = t2" by simp
  moreover have "tk_escalation_level t1 = tk_escalation_level t"
    "tk_next_escalation_due_at t1 = tk_next_escalation_due_at t"
    "tk_assigned_staff_id t1 = tk_assigned_staff_id t"
    by (simp_all add: t1_def)
  moreover have "truthy (tk_assigned_user_id t) \<Longrightarrow> tk_assigned_user_id t1 = tk_assigned_user_id t"
    using kept by (simp add: t1_def)
  ultimately show ?thesis using res two same(2) staff by (auto split: if_splits)
qed

text \<open>A new unassigned ticket with a governing SLA rule is assigned to the staff member of
  the lowest level that has one for its area, and its first deadline is that level's window.\<close>
theorem new_ticket_enters_lowest_level:
  assumes "\<not> truthy (tk_assigned_staff_id t)" and "tk_escalation_level t = 0"
    and "tk_next_escalation_due_at t = None"
    and "governing_rule db t (best_routing_rule t (cd_routing_rules db)) = Some rule"
    and "next_level_staff db t 0 = Some (l, s)"
  shows "\<exists>db' t' cols. apply_routing_and_sla db now t save = (db', t', cols)
     \<and> tk_escalation_level t' = l \<and> tk_assigned_staff_id t' = Some (sf_unique_id s)
     \<and> tk_next_escalation_due_at t' = level_due db (Some rule) l now
     \<and> (\<forall>k. 0 < k \<and> k < l \<longrightarrow> level_staff db t k = None)"
proof -
  have enter: "set_initial_escalation db now (t\<lparr>tk_assigned_user_id := u\<rparr>) (Some rule) =
      (t\<lparr>tk_assigned_user_id := u, tk_assigned_staff_id := Some (sf_unique_id s),
         tk_escalation_level := l, tk_next_escalation_due_at := level_due db (Some rule) l now\<rparr>,
       [AssignedStaffId, EscalationLevel, NextEscalationDueAt])" for u
    using assms by (simp add: set_initial_escalation_def)
  from enter [of "tk_assigned_user_id t"] have "set_initial_escalation db now t (Some rule) =
      (t\<lparr>tk_assigned_staff_id := Some (sf_unique_id s),
         tk_escalation_level := l, tk_next_escalation_due_at := level_due db (Some rule) l now\<rparr>,
       [AssignedStaffId, EscalationLevel, NextEscalationDueAt])"
    by simp
  moreover have "level_staff db t k = None" if "0 < k" "k < l" for k
    using assms(5) that level_staff_in_levels [of db t k]
    by (cases "level_staff db t k") (auto simp: next_level_staff_Some)
  ultimately show ?thesis
    using assms enter
    by (auto simp: apply_routing_and_sla_def Let_def split: option.splits)
qed

section \<open>A three-level chain\<close>

text \<open>Supervisor (level 1) reports to officer (level 2), who reports to a head without a row.\<close>

definition chain_row :: "ident \<Rightarrow> nat \<Rightarrow> ident \<Rightarrow> hierarchy_row" where
  "chain_row role level head =
     (sample_row (''R-'' @ role) role (Some head) nowhere True)\<lparr>hr_level := level\<rparr>"

definition sample_staff :: "ident \<Rightarrow> ident \<Rightarrow> geo \<Rightarrow> staff_row" where
  "sample_staff uid role columns =
     \<lparr>sf_unique_id = uid, sf_employee_name = uid, sf_governmentusertype_id = Some role,
      sf_columns = columns, sf_login_enabled = True, sf_active_status = True, sf_is_deleted = False\<rparr>"

definition ravi :: staff_row where "ravi = sample_staff ''ravi'' ''supervisor'' erode"
definition meena :: staff_row where "meena = sample_staff ''meena'' ''officer'' erode"
definition kumar :: staff_row where "kumar = sample_staff ''kumar'' ''head'' nowhere"

definition overdue_ticket :: ticket where
  "overdue_ticket =
     sample_ticket\<lparr>tk_assigned_staff_id := Some ''ravi'', tk_escalation_level := 1,
       tk_next_escalation_due_at := Some 5\<rparr>"

definition chain_db :: complaint_db where
  "chain_db =
     \<lparr>cd_geo = (\<lambda>f v. None), cd_category_name = (\<lambda>c. c), cd_fcm_token = (\<lambda>c. None),
      cd_push_configured = False,
      cd_hierarchy = [chain_row ''supervisor'' 1 ''officer'', chain_row ''officer'' 2 ''head''],
      cd_staff = [ravi, meena, kumar], cd_routing_rules = [],
      cd_sla_rules = [sample_sla ''S1'' None nowhere],
      cd_sla_levels = [\<lparr>sl_sla_rule_id = ''S1'', sl_level = 2, sl_resolve_within_minutes = 60,
        sl_is_deleted = False\<rparr>],
      cd_statuses = [\<lparr>st_unique_id = ''open'', st_status_code = ''SUBMITTED'', st_status_name = ''Submitted'',
          st_allow_reopen = False, st_is_deleted = False\<rparr>,
        \<lparr>st_unique_id = ''esc'', st_status_code = ''ESCALATED'', st_status_name = ''Escalated'',
          st_allow_reopen = False, st_is_deleted = False\<rparr>],
      cd_tickets = [overdue_ticket], cd_escalations = [], cd_assignments = [],
      cd_status_changes = [], cd_reopens = [], cd_comments = [], cd_cleanups = [], cd_notifications = [], cd_pushes = []\<rparr>"

lemma chain_next:
  "next_level_staff chain_db overdue_ticket 1 = Some (2, meena)"
  by code_simp

lemma chain_db_ids:
  "distinct (map tk_unique_id (cd_tickets chain_db))" "distinct (map sf_unique_id (cd_staff chain_db))"
  by code_simp+

lemma chain_ticket: "find_ticket chain_db ''T1'' = Some overdue_ticket"
  "tk_escalation_level overdue_ticket = 1" "tk_unique_id overdue_ticket = ''T1''"
  "tk_assigned_staff_id overdue_ticket = Some ''ravi''"
  by (simp_all add: find_ticket_def chain_db_def overdue_ticket_def sample_ticket_def)

lemma chain_next_next:
  assumes "settings db = settings chain_db"
  shows "next_level_staff db (escalated_ticket due 2 meena status overdue_ticket) 2 = Some (3, kumar)"
proof -
  have "next_level_staff chain_db overdue_ticket 2 = Some (3, kumar)" by code_simp
  then show ?thesis
    by (simp add: settings_reads(2) [OF assms] next_level_staff_def ticket_geo_def cong: if_cong)
qed

theorem next_level_staff_spec_witness:
  "is_arg_min staff_key (\<lambda>c. c \<in> set (staff_candidates 2 (ticket_geo (cd_geo chain_db) overdue_ticket)
     (ticket_levels chain_db overdue_ticket) (cd_staff chain_db))) meena"
  using chain_next next_level_staff_spec [of chain_db overdue_ticket 1 2 meena] chain_db_ids
  by simp

theorem escalate_ticket_moves_up_witness:
  "\<exists>db' t'. escalate_ticket chain_db 10 ''T1'' None None True = Inr (db', t')
     \<and> tk_escalated_to_staff_id t' = Some (sf_unique_id meena)"
  using escalate_ticket_moves_up [of chain_db "''T1''" overdue_ticket 2 meena 10 None None True]
    chain_ticket chain_next by auto

theorem sweep_spec_witness:
  "\<exists>db'. check_and_escalate_overdue_tickets chain_db 10 = Inr (db',
     length (filter (\<lambda>t. next_level_staff chain_db t (tk_escalation_level t) \<noteq> None)
       (overdue_tickets chain_db 10)))"
  using sweep_spec [of chain_db 10] chain_db_ids by blast

definition top_ticket :: ticket where
  "top_ticket = overdue_ticket\<lparr>tk_escalation_level := 3\<rparr>"

theorem escalate_ticket_fails_iff_witness:
  "escalate_ticket chain_db 10 ''T9'' None None True = Inl TicketDoesNotExist
   \<and> escalate_ticket (chain_db\<lparr>cd_tickets := [top_ticket]\<rparr>) 10 ''T1'' None None True = Inl NoHigherLevel"
proof -
  let ?db = "chain_db\<lparr>cd_tickets := [top_ticket]\<rparr>"
  have none: "next_level_staff ?db top_ticket 3 = None" by code_simp
  have "level_staff ?db top_ticket l = None" if "3 < l" for l
    using none that level_staff_in_levels [of ?db top_ticket l]
    by (cases "level_staff ?db top_ticket l") (auto simp: next_level_staff_None)
  then have "\<forall>l. 3 < l \<longrightarrow> staff_candidates l (ticket_geo (cd_geo ?db) top_ticket)
      (ticket_levels ?db top_ticket) (cd_staff ?db) = []"
    by (auto simp: level_staff_def staff_for_level_None)
  moreover have "find_ticket ?db ''T1'' = Some top_ticket" "tk_escalation_level top_ticket = 3"
    "find_ticket chain_db ''T9'' = None"
    by (simp_all add: find_ticket_def chain_db_def overdue_ticket_def top_ticket_def sample_ticket_def)
  ultimately show ?thesis
    using escalate_ticket_fails_iff [of chain_db 10 "''T9''" None None True TicketDoesNotExist]
      escalate_ticket_fails_iff [of ?db 10 "''T1''" None None True NoHigherLevel]
    by simp
qed

lemma chain_first_hop:
  obtains db t where "escalate_ticket chain_db 10 ''T1'' reason actor b = Inr (db, t)"
    and "t = escalated_ticket (tk_next_escalation_due_at t) 2 meena (escalated_status chain_db) overdue_ticket"
    and "settings db = settings chain_db" and "find_ticket db ''T1'' = Some t"
proof -
  have "hop chain_db 10 overdue_ticket \<noteq> None" using chain_next chain_ticket by (simp add: hop_def)
  then obtain db t where e: "escalate_ticket chain_db 10 ''T1'' reason actor b = Inr (db, t)"
    using escalate_ticket_hop(2) [OF chain_ticket(1), of 10 _ reason actor b] by blast
  from e show thesis
    by (rule escalate_ticketE) (use e chain_ticket chain_next in \<open>auto intro!: that [OF e]\<close>)
qed

theorem escalations_bounded_witness: "2 \<le> card (levels_above chain_db overdue_ticket)"
proof -
  let ?es = "[Sweep 10, EscalateTicket 20 ''T1'' None None False, EscalateTicket 30 ''T1'' None None False, Sweep 40]"
  have "hops (fold chain_step ?es chain_db) ''T1'' = 2" "hops chain_db ''T1'' = 0" by code_simp+
  with escalations_bounded [OF chain_ticket(1), of ?es] show ?thesis by auto
qed

theorem passed_over_after_escalation_witness:
  "\<exists>db' t'. escalate_ticket chain_db 10 ''T1'' None None True = Inr (db', t')
     \<and> is_passed_over db' t' (Some ''ravi'') \<and> \<not> is_passed_over db' t' (Some ''meena'')"
proof -
  obtain db t where one: "escalate_ticket chain_db 10 ''T1'' None None True = Inr (db, t)"
    and t: "t = escalated_ticket (tk_next_escalation_due_at t) 2 meena (escalated_status chain_db) overdue_ticket"
    by (rule chain_first_hop)
  have "tk_escalated_to_staff_id t = Some ''meena''" by (subst t) (simp add: meena_def sample_staff_def)
  with passed_over_after_escalation [OF one, of "''ravi''"]
    passed_over_after_escalation [OF one, of "''meena''"] one chain_ticket
  show ?thesis by auto
qed

theorem stale_sweep_hops_twice_witness:
  "\<exists>db1 t1 db2. escalate_ticket chain_db 10 ''T1'' None None False = Inr (db1, t1)
     \<and> tk_next_escalation_due_at t1 = Some (10 + 60 * MINUTE)
     \<and> sweep_one 10 overdue_ticket (Inr (db1, 0)) = Inr (db2, 1)"
proof -
  obtain db1 t1 where one: "escalate_ticket chain_db 10 ''T1'' None None False = Inr (db1, t1)"
    and t1: "t1 = escalated_ticket (tk_next_escalation_due_at t1) 2 meena (escalated_status chain_db) overdue_ticket"
    and db1: "settings db1 = settings chain_db"
    by (rule chain_first_hop)
  have due: "tk_next_escalation_due_at t1 = level_due chain_db (governing_rule chain_db overdue_ticket None) 2 10"
    using one by (auto elim!: escalate_ticketE simp: chain_ticket chain_next [unfolded One_nat_def])
  have "level_due chain_db (governing_rule chain_db overdue_ticket None) 2 10 = Some (10 + 60 * MINUTE)"
    by code_simp
  moreover have "overdue_ticket \<in> set (overdue_tickets chain_db 10)"
    by (simp add: overdue_tickets_def open_tickets_def closed_status_ids_def CLOSED_STATUS_CODES_def
        chain_db_def overdue_ticket_def sample_ticket_def)
  moreover have "next_level_staff db1 t1 (tk_escalation_level t1) = Some (3, kumar)"
    using chain_next_next [OF db1] by (metis t1 escalated_ticket_fields(1))
  ultimately show ?thesis
    using stale_sweep_hops_twice [of overdue_ticket chain_db 10 None None db1 t1 3 kumar 0] one due
    by (auto simp: chain_ticket)
qed

theorem apply_routing_only_fills_empty_witness:
  "\<exists>db' t' cols. apply_routing_and_sla chain_db 10 overdue_ticket True = (db', t', cols)
     \<and> tk_assigned_staff_id t' = Some ''ravi''"
proof -
  obtain db' t' cols where r: "apply_routing_and_sla chain_db 10 overdue_ticket True = (db', t', cols)"
    by (metis surj_pair)
  from apply_routing_only_fills_empty [OF r] r show ?thesis by (auto simp: chain_ticket)
qed

definition new_ticket :: ticket where
  "new_ticket = sample_ticket\<lparr>tk_unique_id := ''T2''\<rparr>"

theorem new_ticket_enters_lowest_level_witness:
  "\<exists>db' t' cols. apply_routing_and_sla chain_db 10 new_ticket True = (db', t', cols)
     \<and> tk_assigned_staff_id t' = Some (sf_unique_id ravi)"
proof -
  have "governing_rule chain_db new_ticket (best_routing_rule new_ticket (cd_routing_rules chain_db))
      = Some (sample_sla ''S1'' None nowhere)" by code_simp
  moreover have "next_level_staff chain_db new_ticket 0 = Some (1, ravi)" by code_simp
  ultimately show ?thesis
    using new_ticket_enters_lowest_level
      [of new_ticket chain_db "sample_sla ''S1'' None nowhere" 1 ravi 10 True]
    by (auto simp: new_ticket_def sample_ticket_def)
qed

end
