(* ===== verification/Login_Session.thy ===== *)
theory Login_Session
  imports Prelude
begin

text \<open>
  Login sessions (\<open>app/services/login_session.py\<close> on the model \<open>LoginAudit\<close>). A successful
  login row is the session record; tokens carry its id. The state is the table of login rows,
  the cached session states with their expiry, and the throttle key of the sweep. Instants are
  microseconds; the clock is the argument \<open>now\<close>. Python's float timestamps are exact instants
  here (a double holds a present-day microsecond timestamp to within one microsecond).
\<close>

section \<open>Rows, payloads and cached state\<close>

type_synonym instant = int

definition SECOND :: int where "SECOND = 1000000"

definition STATE_TTL_SECONDS :: int where "STATE_TTL_SECONDS = 60"
definition IDLE_GRACE_SECONDS :: int where "IDLE_GRACE_SECONDS = 120"
definition SWEEP_THROTTLE_SECONDS :: int where "SWEEP_THROTTLE_SECONDS = 60"

definition LOGOUT_MANUAL :: string where "LOGOUT_MANUAL = ''manual''"
definition LOGOUT_IDLE_TIMEOUT :: string where "LOGOUT_IDLE_TIMEOUT = ''idle_timeout''"
definition LOGOUT_TOKEN_EXPIRED :: string where "LOGOUT_TOKEN_EXPIRED = ''token_expired''"

record login_audit =
  la_unique_id :: ident
  la_user_unique_id :: "ident option"
  la_success :: bool
  la_timestamp :: instant
  la_idle_timeout_seconds :: "int option"
  la_last_activity_at :: "instant option"
  la_logout_at :: "instant option"
  la_logout_type :: "string option"
  la_session_duration_seconds :: "int option"

record session_state =
  ss_closed_as :: "string option"
  ss_last_activity :: instant
  ss_loaded_at :: instant

record token_payload =
  tp_login_audit_id :: "ident option"
  tp_idle_timeout :: "int option"
  tp_unique_id :: "ident option"
  tp_iat :: "int option"

record session_db =
  sd_audits :: "login_audit list"
  sd_cache :: "ident \<rightharpoonup> session_state \<times> instant"
  sd_last_sweep :: "instant option"

definition SESSION_ENDED_MESSAGES :: "string \<Rightarrow> string option" where
  "SESSION_ENDED_MESSAGES kind = map_of
     [(LOGOUT_MANUAL, ''Session has been logged out''),
      (LOGOUT_IDLE_TIMEOUT, ''Session expired due to inactivity''),
      (LOGOUT_TOKEN_EXPIRED, ''Session expired'')] kind"

definition ended_message :: "string \<Rightarrow> string" where
  "ended_message kind =
     (case SESSION_ENDED_MESSAGES kind of Some m \<Rightarrow> m | None \<Rightarrow> ''Session has ended'')"

text \<open>A cache entry is returned until its expiry.\<close>

definition cache_get :: "session_db \<Rightarrow> instant \<Rightarrow> ident \<Rightarrow> session_state option" where
  "cache_get db now audit_id =
     (case sd_cache db audit_id of
        None \<Rightarrow> None
      | Some (state, expires) \<Rightarrow> if now < expires then Some state else None)"

definition cache_set :: "ident \<Rightarrow> session_state \<Rightarrow> instant \<Rightarrow> session_db \<Rightarrow> session_db" where
  "cache_set audit_id state expires db =
     db\<lparr>sd_cache := (sd_cache db)(audit_id \<mapsto> (state, expires))\<rparr>"

definition cache_delete :: "ident \<Rightarrow> session_db \<Rightarrow> session_db" where
  "cache_delete audit_id db = db\<lparr>sd_cache := (sd_cache db)(audit_id := None)\<rparr>"

definition find_audit :: "session_db \<Rightarrow> ident \<Rightarrow> login_audit option" where
  "find_audit db audit_id = find (\<lambda>a. la_unique_id a = audit_id) (sd_audits db)"

definition update_audits :: "ident \<Rightarrow> (login_audit \<Rightarrow> login_audit) \<Rightarrow> session_db \<Rightarrow> session_db" where
  "update_audits audit_id f db =
     db\<lparr>sd_audits := map (\<lambda>a. if la_unique_id a = audit_id then f a else a) (sd_audits db)\<rparr>"

section \<open>Operations\<close>

text \<open>The claims put on a fresh token; a missing or zero timeout puts none.\<close>

definition truthy_int :: "int option \<Rightarrow> bool" where
  "truthy_int v = (case v of None \<Rightarrow> False | Some n \<Rightarrow> n \<noteq> 0)"

definition stamp_session_claims :: "token_payload \<Rightarrow> ident \<Rightarrow> int option \<Rightarrow> token_payload" where
  "stamp_session_claims token audit_id idle_timeout =
     (let token' = token\<lparr>tp_login_audit_id := Some audit_id\<rparr>
      in if truthy_int idle_timeout then token'\<lparr>tp_idle_timeout := idle_timeout\<rparr> else token')"

definition stamp_logout :: "string \<Rightarrow> instant \<Rightarrow> login_audit \<Rightarrow> login_audit" where
  "stamp_logout logout_type logout_at a =
     (let at = (if logout_at < la_timestamp a then la_timestamp a else logout_at)
      in a\<lparr>la_logout_at := Some at, la_logout_type := Some logout_type,
           la_session_duration_seconds := Some ((at - la_timestamp a) div SECOND)\<rparr>)"

definition close_session ::
  "instant \<Rightarrow> ident \<Rightarrow> string \<Rightarrow> instant option \<Rightarrow> session_db \<Rightarrow> login_audit option \<times> session_db" where
  "close_session now audit_id logout_type logout_at db =
     (case find_audit db audit_id of
        None \<Rightarrow> (None, db)
      | Some a \<Rightarrow>
          if \<not> la_success a then (None, db)
          else if la_logout_at a = None
          then let stamp = stamp_logout logout_type (case logout_at of None \<Rightarrow> now | Some t \<Rightarrow> t)
            in (Some (stamp a), cache_delete audit_id (update_audits audit_id stamp db))
          else (Some a, cache_delete audit_id db))"

definition touch_session :: "instant \<Rightarrow> ident \<Rightarrow> session_db \<Rightarrow> session_db" where
  "touch_session at audit_id db =
     cache_delete audit_id
       (update_audits audit_id
         (\<lambda>a. if la_logout_at a = None then a\<lparr>la_last_activity_at := Some at\<rparr> else a) db)"

definition resolve_login_audit_id :: "session_db \<Rightarrow> token_payload \<Rightarrow> ident option" where
  "resolve_login_audit_id db payload =
     (if truthy (tp_login_audit_id payload) then tp_login_audit_id payload
      else if \<not> truthy (tp_unique_id payload) \<or> \<not> truthy_int (tp_iat payload) then None
      else
        let issued_at = the (tp_iat payload) * SECOND;
            hits = filter (\<lambda>a. la_user_unique_id a = tp_unique_id payload \<and> la_success a
                \<and> issued_at - 5 * SECOND \<le> la_timestamp a
                \<and> la_timestamp a \<le> issued_at + 60 * SECOND) (sd_audits db)
        in if hits = [] then None else Some (la_unique_id (hd (sort_key la_timestamp hits))))"

definition last_activity :: "login_audit \<Rightarrow> instant" where
  "last_activity a = (case la_last_activity_at a of Some t \<Rightarrow> t | None \<Rightarrow> la_timestamp a)"

definition load_state :: "session_db \<Rightarrow> instant \<Rightarrow> ident \<Rightarrow> session_state option" where
  "load_state db now audit_id =
     map_option (\<lambda>a. \<lparr>ss_closed_as = (if la_logout_at a = None then None else la_logout_type a),
                      ss_last_activity = last_activity a, ss_loaded_at = now\<rparr>)
       (find_audit db audit_id)"

text \<open>The state used for a request: the cached one, or a fresh one stored for a minute.\<close>

definition session_lookup ::
  "session_db \<Rightarrow> instant \<Rightarrow> ident \<Rightarrow> session_state option \<times> session_db" where
  "session_lookup db now audit_id =
     (case cache_get db now audit_id of
        Some state \<Rightarrow>
          if now - ss_loaded_at state > STATE_TTL_SECONDS * SECOND
          then (case load_state db now audit_id of
                  None \<Rightarrow> (None, db)
                | Some s \<Rightarrow> (Some s, cache_set audit_id s (now + STATE_TTL_SECONDS * SECOND) db))
          else (Some state, db)
      | None \<Rightarrow>
          (case load_state db now audit_id of
             None \<Rightarrow> (None, db)
           | Some s \<Rightarrow> (Some s, cache_set audit_id s (now + STATE_TTL_SECONDS * SECOND) db)))"

definition validate_session ::
  "instant \<Rightarrow> token_payload \<Rightarrow> session_db \<Rightarrow> string option \<times> session_db" where
  "validate_session now payload db =
     (if \<not> truthy (tp_login_audit_id payload) then (None, db)
      else
        let audit_id = the (tp_login_audit_id payload);
            (found, db') = session_lookup db now audit_id
        in case found of
             None \<Rightarrow> (None, db')
           | Some state \<Rightarrow>
               if truthy (ss_closed_as state)
               then (Some (ended_message (the (ss_closed_as state))), db')
               else if truthy_int (tp_idle_timeout payload)
                 \<and> now - ss_last_activity state
                     > (the (tp_idle_timeout payload) + IDLE_GRACE_SECONDS) * SECOND
               then (Some (ended_message LOGOUT_IDLE_TIMEOUT),
                     snd (close_session now audit_id LOGOUT_IDLE_TIMEOUT
                       (Some (ss_last_activity state + the (tp_idle_timeout payload) * SECOND)) db'))
               else (None, db'))"

section \<open>The stale-session sweep\<close>

definition idle_deadline :: "login_audit \<Rightarrow> instant option" where
  "idle_deadline a =
     (if truthy_int (la_idle_timeout_seconds a)
      then Some (last_activity a + the (la_idle_timeout_seconds a) * SECOND) else None)"

definition stale_candidate :: "instant \<Rightarrow> int \<Rightarrow> login_audit \<Rightarrow> bool" where
  "stale_candidate now lifetime a \<longleftrightarrow>
     la_success a \<and> la_logout_at a = None
     \<and> (la_timestamp a < now - lifetime \<or> la_idle_timeout_seconds a \<noteq> None)"

text \<open>How the sweep closes a session: the kind and the instant, or not at all.\<close>

definition stale_verdict :: "instant \<Rightarrow> int \<Rightarrow> login_audit \<Rightarrow> (string \<times> instant) option" where
  "stale_verdict now lifetime a =
     (let expiry = la_timestamp a + lifetime;
          idle_cutoff = now - IDLE_GRACE_SECONDS * SECOND
      in if (case idle_deadline a of None \<Rightarrow> False | Some d \<Rightarrow> d \<le> expiry \<and> d < idle_cutoff)
         then Some (LOGOUT_IDLE_TIMEOUT, the (idle_deadline a))
         else if expiry < now then Some (LOGOUT_TOKEN_EXPIRED, expiry)
         else None)"

definition close_stale_one ::
  "instant \<Rightarrow> int \<Rightarrow> login_audit \<Rightarrow> session_db \<times> nat \<Rightarrow> session_db \<times> nat" where
  "close_stale_one now lifetime a = (\<lambda>(db, closed).
     (case stale_verdict now lifetime a of
        None \<Rightarrow> (db, closed)
      | Some (kind, at) \<Rightarrow>
          (snd (close_session now (la_unique_id a) kind (Some at) db), closed + 1)))"

definition close_stale_sessions :: "instant \<Rightarrow> int \<Rightarrow> session_db \<Rightarrow> session_db \<times> nat" where
  "close_stale_sessions now lifetime db =
     fold (close_stale_one now lifetime) (filter (stale_candidate now lifetime) (sd_audits db)) (db, 0)"

text \<open>\<open>cache.add\<close> succeeds only when the throttle key is absent or has expired.\<close>

definition close_stale_sessions_throttled ::
  "instant \<Rightarrow> int \<Rightarrow> session_db \<Rightarrow> session_db \<times> nat" where
  "close_stale_sessions_throttled now lifetime db =
     (if (case sd_last_sweep db of None \<Rightarrow> False | Some expires \<Rightarrow> now < expires) then (db, 0)
      else close_stale_sessions now lifetime
             (db\<lparr>sd_last_sweep := Some (now + SWEEP_THROTTLE_SECONDS * SECOND)\<rparr>))"

section \<open>Request handlers\<close>

text \<open>
  \<open>logout\<close> and \<open>heartbeat\<close> of \<open>LoginViewSet\<close> and the renewal of \<open>RefreshTokenViewSet\<close>. The payload
  is that of the token the request carries, \<open>None\<close> when it carries no valid one; the client's
  activity time is the parsed one.
\<close>

datatype session_response =
  NoActiveSession | LoggedOut login_audit | SessionEnded string | NoContent

definition client_time :: "instant option \<Rightarrow> instant \<Rightarrow> instant option" where
  "client_time parsed upper_bound = map_option (\<lambda>t. min t upper_bound) parsed"

definition logout_reason :: "string option \<Rightarrow> string" where
  "logout_reason reason =
     (if truthy reason \<and> the reason \<in> {LOGOUT_MANUAL, LOGOUT_IDLE_TIMEOUT, LOGOUT_TOKEN_EXPIRED}
      then the reason else LOGOUT_MANUAL)"

text \<open>An idle logout is stamped when the idle limit ran out, never after now.\<close>

definition logout_instant :: "instant \<Rightarrow> token_payload \<Rightarrow> string \<Rightarrow> instant option \<Rightarrow> instant" where
  "logout_instant now payload kind activity =
     (if kind = LOGOUT_IDLE_TIMEOUT \<and> truthy_int (tp_idle_timeout payload)
      then (case client_time activity now of
              None \<Rightarrow> now
            | Some active \<Rightarrow> min (active + the (tp_idle_timeout payload) * SECOND) now)
      else now)"

definition logout ::
  "instant \<Rightarrow> token_payload option \<Rightarrow> string option \<Rightarrow> instant option \<Rightarrow> session_db
     \<Rightarrow> session_response \<times> session_db" where
  "logout now token reason activity db =
     (case token of
        None \<Rightarrow> (NoActiveSession, db)
      | Some payload \<Rightarrow>
          let audit_id = resolve_login_audit_id db payload
          in if \<not> truthy audit_id then (NoActiveSession, db)
          else
            let kind = logout_reason reason
            in (case close_session now (the audit_id) kind
                       (Some (logout_instant now payload kind activity)) db of
                  (None, db') \<Rightarrow> (NoActiveSession, db')
                | (Some a, db') \<Rightarrow> (LoggedOut a, db')))"

definition heartbeat ::
  "instant \<Rightarrow> token_payload option \<Rightarrow> instant option \<Rightarrow> session_db \<Rightarrow> session_response \<times> session_db" where
  "heartbeat now token activity db =
     (case token of
        None \<Rightarrow> (NoContent, db)
      | Some payload \<Rightarrow>
          if \<not> truthy (tp_login_audit_id payload) then (NoContent, db)
          else (case validate_session now payload db of
              (Some ended, db') \<Rightarrow> (SessionEnded ended, db')
            | (None, db') \<Rightarrow>
                (NoContent,
                 touch_session (case client_time activity now of None \<Rightarrow> now | Some t \<Rightarrow> t)
                   (the (tp_login_audit_id payload)) db')))"

text \<open>The claims copied to a renewed access token; a renewed token is issued now.\<close>

definition refresh_access ::
  "instant \<Rightarrow> token_payload \<Rightarrow> session_db \<Rightarrow> (string + token_payload) \<times> session_db" where
  "refresh_access now refresh db =
     (case validate_session now refresh db of
        (Some ended, db') \<Rightarrow> (Inl ended, db')
      | (None, db') \<Rightarrow> (Inr (refresh\<lparr>tp_iat := Some (now div SECOND)\<rparr>), db'))"

datatype session_event =
    Logout instant "token_payload option" "string option" "instant option"
  | Heartbeat instant "token_payload option" "instant option"
  | Validate instant token_payload
  | Sweep instant int

fun session_step :: "session_event \<Rightarrow> session_db \<Rightarrow> session_db" where
  "session_step (Logout now token reason activity) db = snd (logout now token reason activity db)"
| "session_step (Heartbeat now token activity) db = snd (heartbeat now token activity db)"
| "session_step (Validate now payload) db = snd (validate_session now payload db)"
| "session_step (Sweep now lifetime) db = fst (close_stale_sessions_throttled now lifetime db)"

section \<open>Every operation is a sequence of three writes\<close>

text \<open>
  The operations only load a row into the cache, touch a row or close a row; what these three
  keep, every operation keeps.
\<close>

definition preserved :: "(session_db \<Rightarrow> bool) \<Rightarrow> bool" where
  "preserved P \<longleftrightarrow>
     (\<forall>db audit_id s expires now. P db \<longrightarrow> load_state db now audit_id = Some s \<longrightarrow>
        P (cache_set audit_id s expires db))
     \<and> (\<forall>db at audit_id. P db \<longrightarrow> P (touch_session at audit_id db))
     \<and> (\<forall>db now audit_id kind at. P db \<longrightarrow> kind \<noteq> [] \<longrightarrow> P (snd (close_session now audit_id kind at db)))
     \<and> (\<forall>db expires. P db \<longrightarrow> P (db\<lparr>sd_last_sweep := expires\<rparr>))"

lemma kinds_nonempty [simp]:
  "LOGOUT_MANUAL \<noteq> []" "LOGOUT_IDLE_TIMEOUT \<noteq> []" "LOGOUT_TOKEN_EXPIRED \<noteq> []"
  by (simp_all add: LOGOUT_MANUAL_def LOGOUT_IDLE_TIMEOUT_def LOGOUT_TOKEN_EXPIRED_def)

lemma logout_reason_nonempty [simp]: "logout_reason reason \<noteq> []"
  by (auto simp: logout_reason_def)

lemma preservedD:
  assumes "preserved P" and "P db"
  shows "load_state db now audit_id = Some s \<Longrightarrow> P (cache_set audit_id s expires db)"
    and "P (touch_session at audit_id db)"
    and "kind \<noteq> [] \<Longrightarrow> close_session now audit_id kind time db = (row, db') \<Longrightarrow> P db'"
    and "P (db\<lparr>sd_last_sweep := until\<rparr>)"
proof -
  note p = assms(1) [unfolded preserved_def]
  note load = p [THEN conjunct1, rule_format] and rest = p [THEN conjunct2]
  note touch = rest [THEN conjunct1, rule_format] and rest' = rest [THEN conjunct2]
  note close = rest' [THEN conjunct1, rule_format] and swept = rest' [THEN conjunct2, rule_format]
  show "load_state db now audit_id = Some s \<Longrightarrow> P (cache_set audit_id s expires db)"
    by (rule load [OF assms(2)])
  show "P (touch_session at audit_id db)" by (rule touch [OF assms(2)])
  show "P db'" if "kind \<noteq> []" "close_session now audit_id kind time db = (row, db')"
    using close [OF assms(2) that(1), of now audit_id time] that(2) by simp
  show "P (db\<lparr>sd_last_sweep := until\<rparr>)" by (rule swept [OF assms(2)])
qed

lemma preserved_lookup:
  assumes "preserved P" and "P db" and "session_lookup db now audit_id = (found, db')"
  shows "P db'"
  using assms(3) preservedD [OF assms(1,2)] assms(2)
  by (auto simp: session_lookup_def split: option.splits if_splits)

lemma preserved_validate:
  assumes "preserved P" and "P db" shows "P (snd (validate_session now payload db))"
proof (cases "session_lookup db now (the (tp_login_audit_id payload))")
  case (Pair found db')
  then have db': "P db'" by (rule preserved_lookup [OF assms])
  have "P (snd (close_session now (the (tp_login_audit_id payload)) LOGOUT_IDLE_TIMEOUT time db'))" for time
    using preservedD(3) [OF assms(1) db' kinds_nonempty(2)] by (metis surj_pair snd_conv)
  with db' Pair assms(2) show ?thesis
    by (simp add: validate_session_def Let_def split: option.split)
qed

lemma preserved_sweep:
  assumes "preserved P" and "P db" shows "P (fst (close_stale_sessions now lifetime db))"
proof -
  have verdict: "stale_verdict now lifetime a = Some (kind, at) \<Longrightarrow> kind \<noteq> []" for a kind at
    by (auto simp: stale_verdict_def Let_def split: if_splits)
  have "P (fst (fold (close_stale_one now lifetime) as (db, n)))" if "P db" for as db n
    using that
  proof (induction as arbitrary: db n)
    case (Cons a as)
    then show ?case
      using assms(1) verdict [of a]
      by (auto simp: close_stale_one_def preserved_def split: option.split)
  qed simp
  with assms(2) show ?thesis by (simp add: close_stale_sessions_def)
qed

lemma preserved_step:
  assumes P: "preserved P" and "P db" shows "P (session_step e db)"
proof (cases e)
  case (Logout now token reason activity)
  with assms(2) show ?thesis
    by (auto simp: logout_def Let_def split: option.split prod.split
        dest: preservedD(3) [OF assms logout_reason_nonempty])
next
  case (Heartbeat now token activity)
  with preserved_validate [OF assms, of now] preservedD(2) [OF P] assms(2) show ?thesis
    by (auto simp: heartbeat_def split: option.split prod.split) (metis snd_conv)+
next
  case (Validate now payload)
  with preserved_validate [OF assms] show ?thesis by simp
next
  case (Sweep now lifetime)
  with assms(2) preservedD(4) [OF assms] preserved_sweep [OF P] show ?thesis
    by (auto simp: close_stale_sessions_throttled_def split: option.split)
qed

lemma preserved_run:
  assumes "preserved P" shows "P db \<Longrightarrow> P (fold session_step es db)"
  by (induction es arbitrary: db) (auto simp: preserved_step [OF assms])

section \<open>The session invariant\<close>

lemma find_audit_simps [simp]:
  "find_audit (cache_set audit_id s e db) = find_audit db"
  "find_audit (cache_delete audit_id db) = find_audit db"
  "find_audit (db\<lparr>sd_last_sweep := until\<rparr>) = find_audit db"
  "find_audit (db\<lparr>sd_cache := c\<rparr>) = find_audit db"
  by (simp_all add: find_audit_def fun_eq_iff cache_set_def cache_delete_def)

lemma find_audit_id: "find_audit db audit_id = Some a \<Longrightarrow> la_unique_id a = audit_id"
  by (auto simp: find_audit_def find_Some_iff)

lemma find_audit_update:
  assumes "\<And>a. la_unique_id (f a) = la_unique_id a"
  shows "find_audit (update_audits audit_id f db) u =
     map_option (\<lambda>a. if u = audit_id then f a else a) (find_audit db u)"
proof -
  have "find_audit (update_audits audit_id f db) u =
      map_option (\<lambda>a. if la_unique_id a = audit_id then f a else a) (find_audit db u)"
    unfolding find_audit_def update_audits_def using assms by (simp add: find_map_id)
  then show ?thesis by (cases "find_audit db u") (auto dest: find_audit_id)
qed

lemma stamp_logout_simps [simp]:
  "la_unique_id (stamp_logout kind at a) = la_unique_id a"
  "la_success (stamp_logout kind at a) = la_success a"
  "la_logout_at (stamp_logout kind at a) = Some (max (la_timestamp a) at)"
  "la_logout_type (stamp_logout kind at a) = Some kind"
  by (auto simp: stamp_logout_def Let_def max_def)

lemma find_audit_close:
  "find_audit (snd (close_session now audit_id kind at db)) u =
     map_option (\<lambda>a. if u = audit_id \<and> la_success a \<and> la_logout_at a = None
        then stamp_logout kind (case at of None \<Rightarrow> now | Some t \<Rightarrow> t) a else a) (find_audit db u)"
  by (cases "find_audit db u")
    (auto simp: close_session_def Let_def find_audit_update split: option.split)

lemma find_audit_touch:
  "find_audit (touch_session at audit_id db) u =
     map_option (\<lambda>a. if u = audit_id \<and> la_logout_at a = None then a\<lparr>la_last_activity_at := Some at\<rparr> else a)
       (find_audit db u)"
  by (cases "find_audit db u") (auto simp: touch_session_def find_audit_update)

text \<open>
  A cached state shows the row as it is, and a closed row names a kind of logout. The time a
  state was loaded does not matter to its content.
\<close>

definition coherent :: "session_db \<Rightarrow> bool" where
  "coherent db \<longleftrightarrow> (\<forall>audit_id s expires. sd_cache db audit_id = Some (s, expires) \<longrightarrow>
     load_state db (ss_loaded_at s) audit_id = Some s)"

definition stamped :: "session_db \<Rightarrow> bool" where
  "stamped db \<longleftrightarrow> (\<forall>audit_id a. find_audit db audit_id = Some a \<longrightarrow> la_logout_at a \<noteq> None \<longrightarrow>
     truthy (la_logout_type a))"

definition valid_sessions :: "session_db \<Rightarrow> bool" where
  "valid_sessions db \<longleftrightarrow> coherent db \<and> stamped db"

lemma load_state_cong:
  "find_audit db audit_id = find_audit db' audit_id \<Longrightarrow> load_state db now audit_id = load_state db' now audit_id"
  by (simp add: load_state_def)

lemma load_state_Some:
  "load_state db now audit_id = Some s \<longleftrightarrow>
     (\<exists>a. find_audit db audit_id = Some a
        \<and> ss_closed_as s = (if la_logout_at a = None then None else la_logout_type a)
        \<and> ss_last_activity s = last_activity a \<and> ss_loaded_at s = now)"
  by (cases s) (auto simp: load_state_def)

lemma coherent_write:
  assumes "coherent db" and "sd_cache db' = (sd_cache db)(audit_id := None)"
    and "\<And>u. u \<noteq> audit_id \<Longrightarrow> find_audit db' u = find_audit db u"
  shows "coherent db'"
  using assms(1) load_state_cong [OF assms(3)] unfolding coherent_def assms(2)
  by (auto split: if_splits)

lemma sd_cache_close:
  "sd_cache (snd (close_session now audit_id kind at db)) = sd_cache db
   \<or> sd_cache (snd (close_session now audit_id kind at db)) = (sd_cache db)(audit_id := None)"
  by (auto simp: close_session_def Let_def cache_delete_def update_audits_def split: option.split)

lemma close_session_idle:
  "sd_cache (snd (close_session now audit_id kind at db)) = sd_cache db \<Longrightarrow>
     sd_cache db audit_id \<noteq> None \<Longrightarrow> find_audit (snd (close_session now audit_id kind at db)) = find_audit db"
  by (auto simp: close_session_def Let_def cache_delete_def update_audits_def fun_upd_idem_iff
      split: option.splits if_splits)

lemma preserved_valid: "preserved valid_sessions"
  unfolding preserved_def
proof (intro conjI allI impI)
  fix db audit_id s expires now
  assume v: "valid_sessions db" and l: "load_state db now audit_id = Some s"
  then have "load_state db (ss_loaded_at s) audit_id = Some s" by (auto simp: load_state_def)
  then have "coherent (cache_set audit_id s expires db)"
    using v by (auto simp: valid_sessions_def coherent_def cache_set_def load_state_def
        find_audit_def split: if_splits)
  with v show "valid_sessions (cache_set audit_id s expires db)"
    by (simp add: valid_sessions_def stamped_def)
next
  fix db at audit_id
  assume v: "valid_sessions db"
  have "coherent (touch_session at audit_id db)"
  proof (rule coherent_write [of db _ audit_id])
    show "coherent db" using v by (simp add: valid_sessions_def)
    show "sd_cache (touch_session at audit_id db) = (sd_cache db)(audit_id := None)"
      by (simp add: touch_session_def cache_delete_def update_audits_def)
    show "u \<noteq> audit_id \<Longrightarrow> find_audit (touch_session at audit_id db) u = find_audit db u" for u
      by (simp add: find_audit_touch option.map_ident)
  qed
  moreover have "stamped (touch_session at audit_id db)"
    using v by (auto simp: valid_sessions_def stamped_def find_audit_touch)
  ultimately show "valid_sessions (touch_session at audit_id db)" by (simp add: valid_sessions_def)
next
  fix db now audit_id at and kind :: string
  assume v: "valid_sessions db" and k: "kind \<noteq> []"
  let ?db' = "snd (close_session now audit_id kind at db)"
  have others: "find_audit ?db' u = find_audit db u" if "u \<noteq> audit_id" for u
    using that by (simp add: find_audit_close option.map_ident)
  have "coherent ?db'"
  proof (cases "sd_cache ?db' = (sd_cache db)(audit_id := None)")
    case True
    with v others show ?thesis by (auto simp: valid_sessions_def intro: coherent_write)
  next
    case False
    with sd_cache_close [of now audit_id kind at db] have same: "sd_cache ?db' = sd_cache db" by blast
    with False have "sd_cache db audit_id \<noteq> None" by (metis fun_upd_triv)
    with close_session_idle [OF same] v same show ?thesis
      by (auto simp: valid_sessions_def coherent_def load_state_def)
  qed
  moreover have "stamped ?db'"
    using v k by (auto simp: valid_sessions_def stamped_def find_audit_close split: if_splits)
  ultimately show "valid_sessions ?db'" by (simp add: valid_sessions_def)
next
  fix db expires
  assume "valid_sessions db"
  then show "valid_sessions (db\<lparr>sd_last_sweep := expires\<rparr>)"
    by (simp add: valid_sessions_def coherent_def stamped_def load_state_def)
qed

section \<open>Properties\<close>

definition logout_stamp :: "ident \<Rightarrow> session_db \<Rightarrow> (instant option \<times> string option \<times> int option) option" where
  "logout_stamp audit_id db =
     map_option (\<lambda>a. (la_logout_at a, la_logout_type a, la_session_duration_seconds a)) (find_audit db audit_id)"

definition session_closed :: "ident \<Rightarrow> session_db \<Rightarrow> bool" where
  "session_closed audit_id db \<longleftrightarrow> (\<exists>a. find_audit db audit_id = Some a \<and> la_logout_at a \<noteq> None)"

lemma find_closed_row:
  assumes "find_audit db audit_id = Some a" and "la_logout_at a = Some out"
  shows "find_audit (touch_session at u db) audit_id = Some a"
    and "find_audit (snd (close_session now u kind time db)) audit_id = Some a"
  using assms by (simp_all add: find_audit_touch find_audit_close)

lemma preserved_stamp:
  "preserved (\<lambda>db. session_closed audit_id db \<and> logout_stamp audit_id db = stamp)"
proof -
  let ?P = "\<lambda>db. \<exists>a. find_audit db audit_id = Some a \<and> la_logout_at a \<noteq> None
    \<and> Some (la_logout_at a, la_logout_type a, la_session_duration_seconds a) = stamp"
  have "(\<lambda>db. session_closed audit_id db \<and> logout_stamp audit_id db = stamp) = ?P"
    by (auto simp: session_closed_def logout_stamp_def fun_eq_iff)
  moreover have "preserved ?P"
    by (auto simp: preserved_def find_closed_row)
  ultimately show ?thesis by simp
qed

interpretation login: write_once session_step "session_closed audit_id" "logout_stamp audit_id"
  for audit_id
  by unfold_locales (use preserved_step [OF preserved_stamp] in blast)+

text \<open>C16: The logout of a session is written once: after the first event that closes it, no
  later logout, heartbeat, request or sweep changes its logout time, kind or duration.\<close>
theorem logout_written_once:
  assumes "session_closed audit_id (fold session_step es db)"
  shows "session_closed audit_id (fold session_step (es @ es') db)
     \<and> logout_stamp audit_id (fold session_step (es @ es') db)
         = logout_stamp audit_id (fold session_step es db)"
  using login.first_decision_wins [OF assms] login.run_decided [OF assms] by simp

text \<open>The verdict on a token, read from the login row alone.\<close>

definition row_verdict :: "instant \<Rightarrow> token_payload \<Rightarrow> login_audit option \<Rightarrow> string option" where
  "row_verdict now payload row =
     (case row of
        None \<Rightarrow> None
      | Some a \<Rightarrow>
          if la_logout_at a \<noteq> None then Some (ended_message (the (la_logout_type a)))
          else if truthy_int (tp_idle_timeout payload)
            \<and> last_activity a + (the (tp_idle_timeout payload) + IDLE_GRACE_SECONDS) * SECOND < now
          then Some (ended_message LOGOUT_IDLE_TIMEOUT) else None)"

lemma session_lookup_fresh:
  assumes "coherent db"
  shows "map_option (\<lambda>s. (ss_closed_as s, ss_last_activity s)) (fst (session_lookup db now audit_id))
     = map_option (\<lambda>a. (if la_logout_at a = None then None else la_logout_type a, last_activity a))
         (find_audit db audit_id)"
proof (cases "cache_get db now audit_id")
  case None
  then show ?thesis by (auto simp: session_lookup_def load_state_def split: option.split)
next
  case (Some s)
  then obtain expires where "sd_cache db audit_id = Some (s, expires)"
    by (auto simp: cache_get_def split: option.splits if_splits)
  with assms have "load_state db (ss_loaded_at s) audit_id = Some s" by (simp add: coherent_def)
  with Some show ?thesis
    by (auto simp: session_lookup_def load_state_Some split: option.split)
      (auto simp: load_state_def)
qed

lemma validate_session_verdict:
  assumes "valid_sessions db"
  shows "fst (validate_session now payload db) =
     (if truthy (tp_login_audit_id payload)
      then row_verdict now payload (find_audit db (the (tp_login_audit_id payload))) else None)"
proof (cases "truthy (tp_login_audit_id payload)")
  case True
  let ?id = "the (tp_login_audit_id payload)"
  from assms have co: "coherent db" and st: "stamped db" by (simp_all add: valid_sessions_def)
  obtain found db' where look: "session_lookup db now ?id = (found, db')" by (metis surj_pair)
  note fresh = session_lookup_fresh [OF co, of now ?id, unfolded look fst_conv]
  show ?thesis
  proof (cases "find_audit db ?id")
    case None
    with True look fresh show ?thesis by (simp add: validate_session_def Let_def row_verdict_def)
  next
    case (Some a)
    with fresh obtain s where s: "found = Some s"
      "ss_closed_as s = (if la_logout_at a = None then None else la_logout_type a)"
      "ss_last_activity s = last_activity a"
      by auto
    have "la_logout_at a \<noteq> None \<Longrightarrow> truthy (la_logout_type a)"
      using st Some by (auto simp: stamped_def)
    with True look s Some show ?thesis
      by (auto simp: validate_session_def Let_def row_verdict_def algebra_simps)
  qed
qed (simp add: validate_session_def)

text \<open>The one-minute cache never changes an answer. In every state the operations reach, a
  request is refused exactly when the login row of its token is closed, or has seen no activity
  for the token's idle limit plus the grace period.\<close>
theorem validate_session_exact:
  assumes "valid_sessions db"
  shows "fst (validate_session now payload db) =
     (if truthy (tp_login_audit_id payload)
      then row_verdict now payload (find_audit db (the (tp_login_audit_id payload))) else None)"
  by (rule validate_session_verdict [OF assms])

lemma close_session_closes:
  "close_session now audit_id kind at db = (Some a, db') \<Longrightarrow>
     find_audit db' audit_id = Some a \<and> la_logout_at a \<noteq> None \<and> la_unique_id a = audit_id"
  by (auto simp: close_session_def Let_def find_audit_update split: option.splits if_splits
      dest: find_audit_id)

lemma closed_stays_refused:
  assumes "valid_sessions db" and "session_closed audit_id db" and "audit_id \<noteq> []"
    and "tp_login_audit_id payload = Some audit_id"
  shows "\<exists>msg. fst (validate_session now payload (fold session_step es db)) = Some msg"
proof -
  have valid: "valid_sessions (fold session_step es db)"
    by (rule preserved_run [OF preserved_valid assms(1)])
  obtain b where "find_audit (fold session_step es db) audit_id = Some b" "la_logout_at b \<noteq> None"
    using login.run_decided [OF assms(2), of es] by (auto simp: session_closed_def)
  with assms(3,4) show ?thesis by (simp add: validate_session_verdict [OF valid] row_verdict_def)
qed

text \<open>A logged-out session stays logged out for every token of it: whatever happens
  afterwards, its requests are refused and neither an access nor a refresh token renews it.\<close>
theorem logout_is_final:
  assumes "valid_sessions db" and "logout now token reason activity db = (LoggedOut a, db')"
    and "tp_login_audit_id payload = Some (la_unique_id a)"
  shows "\<exists>msg. fst (validate_session now' payload (fold session_step es db')) = Some msg
     \<and> fst (refresh_access now' payload (fold session_step es db')) = Inl msg"
proof -
  from assms(2) obtain used where used: "truthy (resolve_login_audit_id db used)"
    and "\<exists>kind at. close_session now (the (resolve_login_audit_id db used)) kind at db = (Some a, db')"
    by (auto simp: logout_def Let_def split: option.splits if_splits prod.splits)
  moreover from used obtain audit_id where "resolve_login_audit_id db used = Some audit_id"
    and id: "audit_id \<noteq> []" by (rule truthyE)
  ultimately have a: "find_audit db' audit_id = Some a" "la_logout_at a \<noteq> None" "la_unique_id a = audit_id"
    by (auto dest!: close_session_closes)
  have "db' = session_step (Logout now token reason activity) db" using assms(2) by simp
  then have "valid_sessions db'" by (simp only: preserved_step [OF preserved_valid assms(1)])
  moreover have "session_closed audit_id db'" using a by (simp add: session_closed_def)
  ultimately have "\<exists>msg. fst (validate_session now' payload (fold session_step es db')) = Some msg"
    using closed_stays_refused id assms(3) a(3) by simp
  then obtain msg rest where "validate_session now' payload (fold session_step es db') = (Some msg, rest)"
    by (metis surj_pair fst_conv)
  then show ?thesis by (simp add: refresh_access_def)
qed

section \<open>The sweep closes exactly the stale sessions\<close>

lemma verdict_is_candidate:
  "la_success a \<Longrightarrow> la_logout_at a = None \<Longrightarrow> stale_verdict now lifetime a \<noteq> None \<Longrightarrow>
     stale_candidate now lifetime a"
  by (auto simp: stale_verdict_def stale_candidate_def idle_deadline_def truthy_int_def Let_def
      split: if_splits option.splits)

definition after_sweep :: "instant \<Rightarrow> int \<Rightarrow> login_audit \<Rightarrow> login_audit" where
  "after_sweep now lifetime a =
     (case stale_verdict now lifetime a of Some (kind, at) \<Rightarrow> stamp_logout kind at a | None \<Rightarrow> a)"

lemma close_stale_fold:
  assumes "distinct (map la_unique_id as)"
    and "\<forall>a\<in>set as. find_audit db (la_unique_id a) = Some a \<and> la_success a \<and> la_logout_at a = None"
  shows "\<exists>db'. fold (close_stale_one now lifetime) as (db, n) =
       (db', n + length (filter (\<lambda>a. stale_verdict now lifetime a \<noteq> None) as))
     \<and> (\<forall>u. find_audit db' u = map_option (\<lambda>a. if u \<in> la_unique_id ` set as
          then after_sweep now lifetime a else a) (find_audit db u))"
  using assms
proof (induction as arbitrary: db n)
  case (Cons a as)
  then have a: "find_audit db (la_unique_id a) = Some a" "la_success a" "la_logout_at a = None"
    and fresh: "la_unique_id a \<notin> la_unique_id ` set as" by simp_all
  obtain db1 where one: "close_stale_one now lifetime a (db, n) =
      (db1, n + of_bool (stale_verdict now lifetime a \<noteq> None))"
    and found: "\<And>u. find_audit db1 u =
      (if u = la_unique_id a then Some (after_sweep now lifetime a) else find_audit db u)"
    using a by (cases "stale_verdict now lifetime a")
      (auto simp: close_stale_one_def after_sweep_def find_audit_close option.map_ident)
  have "\<forall>x\<in>set as. find_audit db1 (la_unique_id x) = Some x \<and> la_success x \<and> la_logout_at x = None"
  proof
    fix x assume x: "x \<in> set as"
    with fresh have "la_unique_id x \<noteq> la_unique_id a" by (metis image_eqI)
    with x show "find_audit db1 (la_unique_id x) = Some x \<and> la_success x \<and> la_logout_at x = None"
      unfolding found using Cons.prems(2) by simp
  qed
  with Cons.prems(1) Cons.IH [of db1 "n + of_bool (stale_verdict now lifetime a \<noteq> None)"]
  obtain db2 where
    rest: "fold (close_stale_one now lifetime) as (db1, n + of_bool (stale_verdict now lifetime a \<noteq> None)) =
      (db2, n + of_bool (stale_verdict now lifetime a \<noteq> None)
         + length (filter (\<lambda>a. stale_verdict now lifetime a \<noteq> None) as))"
    and found2: "\<And>u. find_audit db2 u = map_option (\<lambda>a. if u \<in> la_unique_id ` set as
          then after_sweep now lifetime a else a) (find_audit db1 u)"
    by auto
  have "find_audit db2 u = map_option (\<lambda>x. if u \<in> la_unique_id ` set (a # as)
          then after_sweep now lifetime x else x) (find_audit db u)" for u
    using fresh a(1) unfolding found2 found by simp
  with one rest show ?case by simp
qed (simp add: option.map_ident)

text \<open>What the sweep owes a login row, said on its columns. A session is idle too long when its idle limit
  ran out before its token does, more than two minutes ago.\<close>

definition idle_overdue :: "instant \<Rightarrow> int \<Rightarrow> int \<Rightarrow> login_audit \<Rightarrow> bool" where
  "idle_overdue now lifetime t a \<longleftrightarrow> la_idle_timeout_seconds a = Some t \<and> t \<noteq> 0
     \<and> last_activity a + t * SECOND \<le> la_timestamp a + lifetime
     \<and> last_activity a + t * SECOND + 120 * SECOND < now"

definition closed_at :: "instant \<Rightarrow> string \<Rightarrow> login_audit \<Rightarrow> login_audit \<Rightarrow> bool" where
  "closed_at at kind a b \<longleftrightarrow>
     b = a\<lparr>la_logout_at := Some (max (la_timestamp a) at), la_logout_type := Some kind,
          la_session_duration_seconds := Some ((max (la_timestamp a) at - la_timestamp a) div SECOND)\<rparr>"

lemma verdict_idle:
  assumes "idle_overdue now lifetime t a"
  shows "stale_verdict now lifetime a = Some (LOGOUT_IDLE_TIMEOUT, last_activity a + t * SECOND)"
  using assms by (simp add: idle_overdue_def stale_verdict_def idle_deadline_def truthy_int_def Let_def
      IDLE_GRACE_SECONDS_def)

lemma verdict_not_idle:
  assumes "\<nexists>t. idle_overdue now lifetime t a"
  shows "stale_verdict now lifetime a =
    (if la_timestamp a + lifetime < now then Some (LOGOUT_TOKEN_EXPIRED, la_timestamp a + lifetime) else None)"
  using assms by (auto simp: idle_overdue_def stale_verdict_def idle_deadline_def truthy_int_def Let_def
      IDLE_GRACE_SECONDS_def split: option.splits)

lemma closed_at_stamp: "closed_at at kind a (stamp_logout kind at a)"
  by (simp add: closed_at_def stamp_logout_def Let_def max_def)

lemma closed_at_instant: "closed_at at kind a b \<Longrightarrow> la_logout_at b = Some x \<Longrightarrow> x = max (la_timestamp a) at"
  by (simp add: closed_at_def)

lemma sweep_row:
  assumes "distinct (map la_unique_id (sd_audits db))" and "a \<in> set (sd_audits db)"
  shows "find_audit (fst (close_stale_sessions now lifetime db)) (la_unique_id a) =
    Some (if la_success a \<and> la_logout_at a = None then after_sweep now lifetime a else a)"
proof -
  let ?as = "filter (stale_candidate now lifetime) (sd_audits db)"
  have found: "find_audit db (la_unique_id x) = Some x" if "x \<in> set (sd_audits db)" for x
    using find_distinct [OF assms(1) that] by (simp add: find_audit_def)
  have "\<forall>x\<in>set ?as. find_audit db (la_unique_id x) = Some x \<and> la_success x \<and> la_logout_at x = None"
    using found by (auto simp: stale_candidate_def)
  from close_stale_fold [OF distinct_map_filter [OF assms(1)] this, of now lifetime 0]
  have after: "find_audit (fst (close_stale_sessions now lifetime db)) (la_unique_id a) =
      Some (if la_unique_id a \<in> la_unique_id ` set ?as then after_sweep now lifetime a else a)"
    using found [OF assms(2)] by (auto simp: close_stale_sessions_def)
  have mem: "la_unique_id a \<in> la_unique_id ` set ?as \<longleftrightarrow> stale_candidate now lifetime a"
    using assms by (auto simp: distinct_map dest: inj_onD)
  have "stale_candidate now lifetime a \<Longrightarrow> la_success a \<and> la_logout_at a = None"
    by (simp add: stale_candidate_def)
  then show ?thesis
    unfolding after mem using verdict_is_candidate [of a now lifetime]
    by (auto simp: after_sweep_def split: option.split)
qed

text \<open>C35: The sweep, on each login row. An open successful login whose idle limit ran out before its token does
  and more than two minutes ago is closed as idle, at that limit. Any other open successful login whose token
  lifetime has run out is closed as expired, at the token's end: so within the two minutes the token decides, also
  when the idle limit came first. A closing is never stamped before the login, writes the session's length in whole
  seconds, and is no later than now or the token's end. Every other row stays as it was.\<close>
theorem sweep_closes_exactly_stale:
  assumes "distinct (map la_unique_id (sd_audits db))" and "a \<in> set (sd_audits db)"
    and "la_timestamp a \<le> now" and "0 \<le> lifetime"
  shows "\<exists>b. find_audit (fst (close_stale_sessions now lifetime db)) (la_unique_id a) = Some b
     \<and> (\<not> la_success a \<or> la_logout_at a \<noteq> None \<longrightarrow> b = a)
     \<and> (la_success a \<and> la_logout_at a = None \<longrightarrow>
          (\<forall>t. idle_overdue now lifetime t a \<longrightarrow> closed_at (last_activity a + t * SECOND) LOGOUT_IDLE_TIMEOUT a b)
        \<and> ((\<nexists>t. idle_overdue now lifetime t a) \<longrightarrow>
             (if la_timestamp a + lifetime < now then closed_at (la_timestamp a + lifetime) LOGOUT_TOKEN_EXPIRED a b
              else b = a)))
     \<and> (\<forall>at. b \<noteq> a \<and> la_logout_at b = Some at \<longrightarrow> la_timestamp a \<le> at \<and> at \<le> now \<and> at \<le> la_timestamp a + lifetime)"
proof -
  let ?row = "find_audit (fst (close_stale_sessions now lifetime db)) (la_unique_id a)"
  note row = sweep_row [OF assms(1,2), of now lifetime]
  consider (other) "\<not> la_success a \<or> la_logout_at a \<noteq> None"
    | (idle) t where "la_success a" "la_logout_at a = None" "idle_overdue now lifetime t a"
    | (expired) "la_success a" "la_logout_at a = None" "\<nexists>t. idle_overdue now lifetime t a" "la_timestamp a + lifetime < now"
    | (alive) "la_success a" "la_logout_at a = None" "\<nexists>t. idle_overdue now lifetime t a" "\<not> la_timestamp a + lifetime < now"
    by blast
  then show ?thesis
  proof cases
    case other
    then have "?row = Some a" using row by auto
    then show ?thesis using other by (intro exI [of _ a]) blast
  next
    case idle
    let ?at = "last_activity a + t * SECOND"
    have same: "u = t" if "idle_overdue now lifetime u a" for u using idle(3) that by (simp add: idle_overdue_def)
    have found: "?row = Some (stamp_logout LOGOUT_IDLE_TIMEOUT ?at a)"
      using row idle by (simp add: after_sweep_def verdict_idle [OF idle(3)])
    have "?at \<le> now" "?at \<le> la_timestamp a + lifetime" using idle(3) by (simp_all add: idle_overdue_def SECOND_def)
    then have "la_timestamp a \<le> at \<and> at \<le> now \<and> at \<le> la_timestamp a + lifetime"
      if "la_logout_at (stamp_logout LOGOUT_IDLE_TIMEOUT ?at a) = Some at" for at
      using that closed_at_instant [OF closed_at_stamp, of LOGOUT_IDLE_TIMEOUT ?at a at] assms(3,4) by linarith
    moreover have "closed_at (last_activity a + u * SECOND) LOGOUT_IDLE_TIMEOUT a (stamp_logout LOGOUT_IDLE_TIMEOUT ?at a)"
      if "idle_overdue now lifetime u a" for u by (simp add: same [OF that] closed_at_stamp)
    ultimately show ?thesis
      using found idle by (intro exI [of _ "stamp_logout LOGOUT_IDLE_TIMEOUT ?at a"]) blast
  next
    case expired
    let ?at = "la_timestamp a + lifetime"
    have found: "?row = Some (stamp_logout LOGOUT_TOKEN_EXPIRED ?at a)"
      using row expired by (simp add: after_sweep_def verdict_not_idle [OF expired(3)])
    have "la_timestamp a \<le> at \<and> at \<le> now \<and> at \<le> ?at"
      if "la_logout_at (stamp_logout LOGOUT_TOKEN_EXPIRED ?at a) = Some at" for at
      using that closed_at_instant [OF closed_at_stamp, of LOGOUT_TOKEN_EXPIRED ?at a at] assms(3,4) expired(4) by linarith
    with found expired closed_at_stamp [of ?at LOGOUT_TOKEN_EXPIRED a] show ?thesis
      unfolding if_P [OF expired(4)] by (intro exI [of _ "stamp_logout LOGOUT_TOKEN_EXPIRED ?at a"]) blast
  next
    case alive
    then have "?row = Some a" using row by (simp add: after_sweep_def verdict_not_idle [OF alive(3)])
    then show ?thesis using alive by (intro exI [of _ a]) simp
  qed
qed

text \<open>A logout is stamped inside the session: never before the login, and never in the
  future, whatever activity time the client reports.\<close>
theorem logout_within_session:
  assumes "logout now token reason activity db = (LoggedOut a, db')"
    and "find_audit db (la_unique_id a) = Some a0" and "la_logout_at a0 = None"
    and "la_timestamp a0 \<le> now"
  shows "\<exists>t. la_logout_at a = Some t \<and> la_timestamp a0 \<le> t \<and> t \<le> now
     \<and> la_session_duration_seconds a = Some ((t - la_timestamp a0) div SECOND)
     \<and> find_audit db' (la_unique_id a) = Some a"
proof -
  have le: "logout_instant now payload kind act \<le> now" for payload kind act
    by (auto simp: logout_instant_def split: option.split)
  from assms(1) obtain payload audit_id where
    close: "close_session now audit_id (logout_reason reason)
       (Some (logout_instant now payload (logout_reason reason) activity)) db = (Some a, db')"
    by (auto simp: logout_def Let_def split: option.splits if_splits prod.splits)
  with close_session_closes have a: "find_audit db' audit_id = Some a" "la_unique_id a = audit_id"
    by blast+
  with close assms(2,3) have "a = stamp_logout (logout_reason reason)
      (logout_instant now payload (logout_reason reason) activity) a0"
    by (auto simp: close_session_def Let_def split: if_splits)
  with a le [of payload "logout_reason reason" activity] assms(4) show ?thesis
    by (auto simp: stamp_logout_def Let_def)
qed

section \<open>A session, logged out\<close>

definition sample_login :: login_audit where
  "sample_login =
     \<lparr>la_unique_id = ''LOGINAUDIT-1'', la_user_unique_id = Some ''U1'', la_success = True,
      la_timestamp = 0, la_idle_timeout_seconds = Some 2400, la_last_activity_at = None,
      la_logout_at = None, la_logout_type = None, la_session_duration_seconds = None\<rparr>"

definition sample_sessions :: session_db where
  "sample_sessions = \<lparr>sd_audits = [sample_login], sd_cache = Map.empty, sd_last_sweep = None\<rparr>"

definition sample_token :: token_payload where
  "sample_token = \<lparr>tp_login_audit_id = Some ''LOGINAUDIT-1'', tp_idle_timeout = Some 2400,
     tp_unique_id = Some ''U1'', tp_iat = Some 0\<rparr>"

lemma sample_sessions_valid: "valid_sessions sample_sessions"
  by (simp add: valid_sessions_def coherent_def stamped_def sample_sessions_def find_audit_def
      sample_login_def)

lemma sample_logout:
  "logout SECOND (Some sample_token) None None sample_sessions =
     (LoggedOut (stamp_logout LOGOUT_MANUAL SECOND sample_login),
      sample_sessions\<lparr>sd_audits := [stamp_logout LOGOUT_MANUAL SECOND sample_login]\<rparr>)"
  by (simp add: logout_def resolve_login_audit_id_def sample_token_def close_session_def find_audit_def
      sample_sessions_def sample_login_def logout_reason_def logout_instant_def cache_delete_def
      update_audits_def LOGOUT_MANUAL_def LOGOUT_IDLE_TIMEOUT_def Let_def)

theorem logout_written_once_witness:
  "logout_stamp ''LOGINAUDIT-1''
       (fold session_step [Logout SECOND (Some sample_token) None None, Heartbeat 5 (Some sample_token) None]
         sample_sessions)
     = Some (Some SECOND, Some LOGOUT_MANUAL, Some 1)"
proof -
  have "fold session_step [Logout SECOND (Some sample_token) None None] sample_sessions =
      sample_sessions\<lparr>sd_audits := [stamp_logout LOGOUT_MANUAL SECOND sample_login]\<rparr>"
    by (simp add: sample_logout)
  moreover from this have "session_closed ''LOGINAUDIT-1''
      (fold session_step [Logout SECOND (Some sample_token) None None] sample_sessions)"
    by (simp add: session_closed_def find_audit_def) (simp add: sample_login_def stamp_logout_def Let_def)
  moreover have "logout_stamp ''LOGINAUDIT-1''
      (sample_sessions\<lparr>sd_audits := [stamp_logout LOGOUT_MANUAL SECOND sample_login]\<rparr>)
      = Some (Some SECOND, Some LOGOUT_MANUAL, Some 1)"
    by (simp add: logout_stamp_def find_audit_def stamp_logout_def sample_login_def Let_def SECOND_def)
  ultimately show ?thesis
    using logout_written_once [of "''LOGINAUDIT-1''" "[Logout SECOND (Some sample_token) None None]"
      sample_sessions "[Heartbeat 5 (Some sample_token) None]"]
    by simp
qed

theorem validate_session_exact_witness:
  "fst (validate_session (3000 * SECOND) sample_token sample_sessions)
     = Some (ended_message LOGOUT_IDLE_TIMEOUT)"
  unfolding validate_session_exact [OF sample_sessions_valid]
  by (simp add: sample_token_def row_verdict_def sample_sessions_def find_audit_def sample_login_def
      truthy_int_def last_activity_def IDLE_GRACE_SECONDS_def SECOND_def)

theorem logout_is_final_witness:
  "\<exists>msg db'. logout SECOND (Some sample_token) None None sample_sessions
       = (LoggedOut (stamp_logout LOGOUT_MANUAL SECOND sample_login), db')
     \<and> fst (refresh_access (9 * SECOND) sample_token (fold session_step [Sweep (5 * SECOND) 7] db')) = Inl msg"
  using logout_is_final [OF sample_sessions_valid sample_logout, of sample_token "9 * SECOND"
      "[Sweep (5 * SECOND) 7]"] sample_logout
  by (auto simp: sample_token_def sample_login_def stamp_logout_def Let_def)

theorem sweep_closes_exactly_stale_witness:
  "\<exists>b. find_audit (fst (close_stale_sessions (3000 * SECOND) (18000 * SECOND) sample_sessions)) ''LOGINAUDIT-1'' = Some b
     \<and> closed_at (2400 * SECOND) LOGOUT_IDLE_TIMEOUT sample_login b"
proof -
  have "distinct (map la_unique_id (sd_audits sample_sessions))" "sample_login \<in> set (sd_audits sample_sessions)"
    "la_timestamp sample_login \<le> 3000 * SECOND" "0 \<le> 18000 * SECOND"
    by (simp_all add: sample_sessions_def sample_login_def SECOND_def)
  note swept = sweep_closes_exactly_stale [OF this]
  have "idle_overdue (3000 * SECOND) (18000 * SECOND) 2400 sample_login"
    by (simp add: idle_overdue_def last_activity_def sample_login_def SECOND_def)
  moreover have "la_success sample_login" "la_logout_at sample_login = None"
    "last_activity sample_login = 0" "la_unique_id sample_login = ''LOGINAUDIT-1''"
    by (simp_all add: sample_login_def last_activity_def)
  ultimately show ?thesis using swept by auto
qed

theorem logout_within_session_witness:
  "\<exists>t. la_logout_at (stamp_logout LOGOUT_MANUAL SECOND sample_login) = Some t \<and> 0 \<le> t \<and> t \<le> SECOND"
  using logout_within_session [OF sample_logout, of sample_login]
  by (auto simp: sample_login_def sample_sessions_def find_audit_def SECOND_def)

end
