(* ===== verification/Permission_Catalog.thy ===== *)
theory Permission_Catalog
  imports Prelude "HOL-Library.AList"
begin

text \<open>
  The permission catalog (\<open>app/utils/permission_catalog.py\<close>): every module and screen of the
  admin sidebar, the routes each screen owns, and the dependencies of a page on other routes
  (\<open>app/utils/screen_dependencies.py\<close>). The tables are those of the source; what Python derives
  from them when the modules are imported is derived here by functions. A Python dict is an
  association list (\<open>AList.update\<close> keeps a key's place); the checks made at import time return
  an error instead of raising it.
\<close>

section \<open>Screens and modules\<close>

record screen_row =
  scr_name :: string
  scr_label :: string
  scr_routes :: "string list option"
  scr_model :: "(string \<times> string) option"
  scr_legacy :: "string list"
  scr_absorbs :: "string list"
  scr_inherits :: "string option"

definition screen :: "string \<Rightarrow> string \<Rightarrow> screen_row" where
  "screen name label =
     \<lparr>scr_name = name, scr_label = label, scr_routes = None, scr_model = None, scr_legacy = [],
      scr_absorbs = [], scr_inherits = None\<rparr>"

record module_row =
  mod_name :: string
  mod_label :: string
  mod_url_module :: string
  mod_icon :: string
  mod_description :: string
  mod_screens :: "screen_row list"
  mod_legacy :: "string list"

text \<open>\<open>module(...)\<close>: the url group and icon default to the name, the description to the label.\<close>

definition catalog_module :: "string \<Rightarrow> string \<Rightarrow> screen_row list \<Rightarrow> module_row" where
  "catalog_module name label screens =
     \<lparr>mod_name = name, mod_label = label, mod_url_module = name, mod_icon = name,
      mod_description = label, mod_screens = screens, mod_legacy = []\<rparr>"

definition DAILY_TRIP_PLAN_TABLES :: "string list" where
  "DAILY_TRIP_PLAN_TABLES = [''daily-trip-assignments'', ''daily-trip-collection-points'',
      ''daily-trip-household-collections'']"

definition STAFF_USER_TYPE_TABLES :: "string list" where
  "STAFF_USER_TYPE_TABLES = [''staffusertypes'', ''contractorusertypes'', ''governmentusertypes'']"

definition dashboard_module :: module_row where
  "dashboard_module =
    (catalog_module ''dashboard'' ''Dashboard''
     [(screen ''dashboard'' ''Dashboard'')
        \<lparr>scr_routes := Some [],
        scr_legacy := [''Dashboard'']\<rparr>])
        \<lparr>mod_icon := ''dashboard'',
        mod_description := ''Dashboard landing page''\<rparr>"

definition screen_management_module :: module_row where
  "screen_management_module =
    (catalog_module ''screen-management'' ''Screen Management''
     [(screen ''mainscreen-type'' ''MainScreen Type'')
        \<lparr>scr_routes := Some [''mainscreentype''],
        scr_legacy := [''mainscreentype''],
        scr_model := Some (''app'', ''MainScreenType'')\<rparr>,
      (screen ''mainscreen'' ''MainScreen'')
        \<lparr>scr_routes := Some [''mainscreens''],
        scr_legacy := [''mainscreens''],
        scr_model := Some (''app'', ''MainScreen'')\<rparr>,
      (screen ''user-screen'' ''User Screen'')
        \<lparr>scr_routes := Some [''userscreens''],
        scr_legacy := [''userscreens''],
        scr_model := Some (''app'', ''UserScreen'')\<rparr>,
      (screen ''userscreen-action'' ''UserScreen Action'')
        \<lparr>scr_model := Some (''app'', ''UserScreenAction'')\<rparr>,
      (screen ''user-screen-permission'' ''User Screen Permission'')
        \<lparr>scr_routes := Some [''userscreenpermissions'', ''companywisescreenpermissions'',
                     ''column-permissions'', ''dashboard-widget-permissions''],
        scr_legacy := [''userscreenpermissions''],
        scr_model := Some (''app'', ''UserScreenPermission'')\<rparr>,
      (screen ''app-modules'' ''App Modules'')
        \<lparr>scr_model := Some (''app'', ''AppModule'')\<rparr>])
        \<lparr>mod_url_module := ''screen-managements'',
        mod_icon := ''settings'',
        mod_description := ''Screen setup and permission management'',
        mod_legacy := [''screen-managements'']\<rparr>"

definition role_management_module :: module_row where
  "role_management_module =
    (catalog_module ''role-management'' ''Role Management''
     [(screen ''user-type'' ''User Type'')
        \<lparr>scr_model := Some (''app'', ''UserType'')\<rparr>,
      (screen ''staff-user-type'' ''Staff User Type'')
        \<lparr>scr_routes := Some STAFF_USER_TYPE_TABLES,
        scr_model := Some (''app'', ''StaffUserType'')\<rparr>,
      (screen ''staff-hierarchy'' ''Staff Hierarchy'')])
        \<lparr>mod_url_module := ''role-assigns'',
        mod_icon := ''admin_panel_settings'',
        mod_description := ''Role assignment configuration'',
        mod_legacy := [''role-assigns'']\<rparr>"

definition staff_management_module :: module_row where
  "staff_management_module =
    (catalog_module ''staff-management'' ''Staff Management''
     [(screen ''staff-creation'' ''Staff Creation'')
        \<lparr>scr_routes := Some [''staffcreation'', ''users-creation''],
        scr_legacy := [''staffcreation''],
        scr_model := Some (''app'', ''StaffcreationOfficeDetails'')\<rparr>,
      (screen ''staff-access-configuration'' ''Staff Access Configuration'')
        \<lparr>scr_model := Some (''app'', ''StaffcreationOfficeDetails'')\<rparr>,
      (screen ''staff-access-dashboard'' ''Staff Access Dashboard'')
        \<lparr>scr_model := Some (''app'', ''StaffcreationOfficeDetails'')\<rparr>])
        \<lparr>mod_url_module := ''user-creations'',
        mod_icon := ''group_add'',
        mod_description := ''User and staff creation'',
        mod_legacy := [''user-creations'']\<rparr>"

definition common_masters_module :: module_row where
  "common_masters_module =
    (catalog_module ''common-masters'' ''Common Masters''
     [(screen ''continent'' ''Continent'')
        \<lparr>scr_routes := Some [''continents''],
        scr_legacy := [''continents''],
        scr_model := Some (''app'', ''Continent'')\<rparr>,
      (screen ''country'' ''Country'')
        \<lparr>scr_routes := Some [''countries''],
        scr_legacy := [''countries''],
        scr_model := Some (''app'', ''Country'')\<rparr>,
      (screen ''state'' ''State'')
        \<lparr>scr_routes := Some [''states''],
        scr_legacy := [''states''],
        scr_model := Some (''app'', ''State'')\<rparr>])
        \<lparr>mod_icon := ''layers'',
        mod_description := ''Common geographic master data''\<rparr>"

definition audits_module :: module_row where
  "audits_module =
    (catalog_module ''audits'' ''Audits''
     [(screen ''audit-dashboard'' ''Audit Dashboard''),
      (screen ''common-audit'' ''Common Audit'')
        \<lparr>scr_model := Some (''app'', ''CommonAudit'')\<rparr>,
      (screen ''login-audit'' ''Login Audit'')
        \<lparr>scr_model := Some (''app'', ''LoginAudit'')\<rparr>,
      (screen ''user-access-audit'' ''User Access Audit'')
        \<lparr>scr_routes := Some [''permission-audit''],
        scr_legacy := [''permission-audit''],
        scr_model := Some (''app'', ''PermissionAuditLog'')\<rparr>,
      (screen ''complaint-audit'' ''Complaint Audit'')])
        \<lparr>mod_icon := ''fact_check'',
        mod_description := ''Audit and activity logs''\<rparr>"

definition location_masters_module :: module_row where
  "location_masters_module =
    (catalog_module ''location-masters'' ''Location Masters''
     [(screen ''district'' ''District'')
        \<lparr>scr_routes := Some [''districts''],
        scr_legacy := [''districts''],
        scr_model := Some (''app'', ''District'')\<rparr>,
      (screen ''area-type'' ''Area Type'')
        \<lparr>scr_routes := Some [''areatypes''],
        scr_legacy := [''area-types''],
        scr_model := Some (''app'', ''AreaType'')\<rparr>,
      (screen ''corporation'' ''Corporation'')
        \<lparr>scr_routes := Some [''corporations''],
        scr_legacy := [''corporations''],
        scr_model := Some (''app'', ''Corporation'')\<rparr>,
      (screen ''municipality'' ''Municipality'')
        \<lparr>scr_routes := Some [''municipalities''],
        scr_legacy := [''municipalities''],
        scr_model := Some (''app'', ''Municipality'')\<rparr>,
      (screen ''town-panchayat'' ''Town Panchayat'')
        \<lparr>scr_routes := Some [''town-panchayats''],
        scr_legacy := [''town-panchayats''],
        scr_model := Some (''app'', ''TownPanchayat'')\<rparr>,
      (screen ''panchayat-union'' ''Panchayat Union'')
        \<lparr>scr_routes := Some [''panchayat-unions''],
        scr_legacy := [''panchayat-unions''],
        scr_model := Some (''app'', ''PanchayatUnion'')\<rparr>,
      (screen ''plb'' ''PLB (Participating Local Bodies)'')
        \<lparr>scr_routes := Some [''panchayat''],
        scr_legacy := [''panchayats''],
        scr_model := Some (''app'', ''Panchayat'')\<rparr>,
      (screen ''ward'' ''Ward'')
        \<lparr>scr_routes := Some [''wards''],
        scr_legacy := [''wards''],
        scr_model := Some (''app'', ''Ward'')\<rparr>])
        \<lparr>mod_url_module := ''masters'',
        mod_icon := ''layers'',
        mod_description := ''Administrative and local-body master data'',
        mod_legacy := [''masters'']\<rparr>"

definition waste_masters_module :: module_row where
  "waste_masters_module =
    (catalog_module ''waste-masters'' ''Waste Masters''
     [(screen ''waste-type'' ''Waste Type'')
        \<lparr>scr_routes := Some [''wastetypes''],
        scr_legacy := [''wastetypes''],
        scr_model := Some (''app'', ''WasteType'')\<rparr>,
      (screen ''property'' ''Property'')
        \<lparr>scr_routes := Some [''properties''],
        scr_legacy := [''properties''],
        scr_model := Some (''app'', ''Property'')\<rparr>,
      (screen ''subproperty'' ''SubProperty'')
        \<lparr>scr_routes := Some [''subproperties''],
        scr_legacy := [''subproperties''],
        scr_model := Some (''app'', ''SubProperty'')\<rparr>,
      (screen ''bin-creation'' ''Bin Creation'')
        \<lparr>scr_routes := Some [''bins''],
        scr_legacy := [''bins''],
        scr_model := Some (''app'', ''Bins'')\<rparr>])
        \<lparr>mod_url_module := ''waste-types'',
        mod_icon := ''recycling'',
        mod_description := ''Waste type and asset configuration'',
        mod_legacy := [''waste-types'']\<rparr>"

definition transport_masters_module :: module_row where
  "transport_masters_module =
    (catalog_module ''transport-masters'' ''Transport Masters''
     [(screen ''vehicle-type'' ''Vehicle Type'')
        \<lparr>scr_model := Some (''app'', ''VehicleTypeCreation'')\<rparr>,
      (screen ''vehicle-creation'' ''Vehicle Creation'')
        \<lparr>scr_model := Some (''app'', ''VehicleCreation'')\<rparr>,
      (screen ''fuel'' ''Fuel'')
        \<lparr>scr_routes := Some [''fuels''],
        scr_legacy := [''fuels''],
        scr_model := Some (''app'', ''Fuel'')\<rparr>])
        \<lparr>mod_icon := ''local_shipping'',
        mod_description := ''Transport and vehicle setup''\<rparr>"

definition customer_masters_module :: module_row where
  "customer_masters_module =
    (catalog_module ''customer-masters'' ''Customer Masters''
     [(screen ''customer-creation'' ''Customer Creation'')
        \<lparr>scr_routes := Some [''customercreations''],
        scr_legacy := [''customercreations''],
        scr_model := Some (''app'', ''CustomerCreation'')\<rparr>,
      (screen ''apartment-list'' ''Apartment List'')
        \<lparr>scr_routes := Some [],
        scr_inherits := Some ''customer-creation''\<rparr>,
      (screen ''customer-access-configuration'' ''Customer Access Configuration''),
      (screen ''customer-notifications'' ''Notification'')
        \<lparr>scr_model := Some (''app'', ''CustomerNotification'')\<rparr>])
        \<lparr>mod_icon := ''groups'',
        mod_description := ''Customer master screens'',
        mod_legacy := [''customers'']\<rparr>"

definition leader_management_module :: module_row where
  "leader_management_module =
    (catalog_module ''leader-management'' ''Leader Management''
     [(screen ''plb-leader-creation'' ''PLB Leader Creation'')
        \<lparr>scr_routes := Some [''masters/panchayat-leaders''],
        scr_model := Some (''app'', ''PanchayatLeaderLogin'')\<rparr>,
      (screen ''district-leader-creation'' ''District Leader Creation'')
        \<lparr>scr_routes := Some [''masters/district-leaders''],
        scr_model := Some (''app'', ''DistrictLeaderLogin'')\<rparr>,
      (screen ''state-leader-creation'' ''State Leader Creation'')
        \<lparr>scr_routes := Some [''masters/state-leaders''],
        scr_model := Some (''app'', ''StateLeaderLogin'')\<rparr>])
        \<lparr>mod_icon := ''badge'',
        mod_description := ''Leader login management'',
        mod_legacy := [''leader-login'']\<rparr>"

definition schedule_setup_module :: module_row where
  "schedule_setup_module =
    (catalog_module ''schedule-setup'' ''Schedule Setup''
     [(screen ''staff-template'' ''Staff Template'')
        \<lparr>scr_routes := Some [''staff-templates''],
        scr_legacy := [''staff-templates''],
        scr_model := Some (''app'', ''StaffTemplate'')\<rparr>,
      (screen ''alternative-staff-template'' ''Alternative Staff Template'')
        \<lparr>scr_routes := Some [''alternative-staff-templates''],
        scr_legacy := [''alternative-staff-templates''],
        scr_model := Some (''app'', ''AlternativeStaffTemplate'')\<rparr>,
      (screen ''collection-point'' ''Collection Point'')
        \<lparr>scr_routes := Some [''collection-points''],
        scr_legacy := [''collection-points''],
        scr_model := Some (''app'', ''Collection_point'')\<rparr>,
      (screen ''trip-plans'' ''Trip Plans'')
        \<lparr>scr_model := Some (''app'', ''TripPlan'')\<rparr>])
        \<lparr>mod_icon := ''event_note'',
        mod_description := ''Schedule planning and configuration''\<rparr>"

definition daily_operations_module :: module_row where
  "daily_operations_module =
    (catalog_module ''daily-operations'' ''Daily Operations''
     [(screen ''daily-trip-plan'' ''Daily Trip Plan'')
        \<lparr>scr_routes := Some DAILY_TRIP_PLAN_TABLES,
        scr_legacy := [''daily-trip-plans''],
        scr_absorbs := [''daily-trip-assignments'', ''daily-trip-collection-points''],
        scr_model := Some (''app'', ''DailyTripAssignment'')\<rparr>,
      (screen ''daily-trip-tracking'' ''Daily Trip Tracking'')
        \<lparr>scr_routes := Some [],
        scr_inherits := Some ''daily-trip-plan''\<rparr>,
      (screen ''secondary-bin-collection-event'' ''Secondary Bin Collection Event'')
        \<lparr>scr_routes := Some [''bin-collection-events''],
        scr_legacy := [''secondary-bin-collection-events''],
        scr_model := Some (''app'', ''BinCollectionEvent'')\<rparr>,
      (screen ''household-collection-event'' ''Household Collection Event'')
        \<lparr>scr_routes := Some [''wastecollections''],
        scr_legacy := [''householdcollection-events''],
        scr_model := Some (''app'', ''WasteCollection'')\<rparr>,
      (screen ''vehicle-breakdown'' ''Vehicle Breakdown'')
        \<lparr>scr_routes := Some [''vehicle-breakdowns''],
        scr_legacy := [''vehicle-breakdowns''],
        scr_model := Some (''app'', ''VehicleBreakdown'')\<rparr>,
      (screen ''trip-delay-reports'' ''Trip Delay Reports'')
        \<lparr>scr_routes := Some [''trip-delay-reports''],
        scr_model := Some (''app'', ''TripDelayReport''),
        scr_inherits := Some ''daily-trip-plan''\<rparr>,
      (screen ''re-trip-requests'' ''Re-Trip Requests'')
        \<lparr>scr_routes := Some [''retrip-requests''],
        scr_legacy := [''retrip-requests'']\<rparr>,
      (screen ''daily-trip-logs'' ''Daily Trip Logs'')
        \<lparr>scr_model := Some (''app'', ''DailyTripLog'')\<rparr>,
      (screen ''staff-notifications'' ''Staff Notifications (Mobile App)'')])
        \<lparr>mod_url_module := ''schedule-operations'',
        mod_icon := ''calendar_check'',
        mod_description := ''Daily schedule execution and tracking'',
        mod_legacy := [''schedule-operations'']\<rparr>"

definition complaint_management_module :: module_row where
  "complaint_management_module =
    (catalog_module ''complaint-management'' ''Complaint Management''
     [(screen ''complaint-tickets'' ''Complaint Tickets'')
        \<lparr>scr_routes := Some [''tickets'', ''feedback'', ''reopen-history'', ''notifications'',
                     ''address-change''],
        scr_legacy := [''tickets''],
        scr_model := Some (''app'', ''ComplaintTicket'')\<rparr>,
      (screen ''my-tasks'' ''My Tasks'')
        \<lparr>scr_routes := Some []\<rparr>,
      (screen ''reference-data'' ''Reference Data'')
        \<lparr>scr_routes := Some [''modules'', ''priorities'', ''sources'', ''statuses''],
        scr_legacy := [''modules''],
        scr_absorbs := [''priorities'', ''sources'', ''statuses''],
        scr_model := Some (''app'', ''ComplaintModule'')\<rparr>,
      (screen ''categories'' ''Categories'')
        \<lparr>scr_routes := Some [''categories'', ''subcategories''],
        scr_absorbs := [''subcategories''],
        scr_model := Some (''app'', ''ComplaintCategory'')\<rparr>,
      (screen ''sla-rules'' ''SLA Rules'')
        \<lparr>scr_model := Some (''app'', ''ComplaintSlaRule'')\<rparr>])
        \<lparr>mod_url_module := ''complaint-ticket'',
        mod_icon := ''support_agent'',
        mod_description := ''Complaint ticket management'',
        mod_legacy := [''complaint-ticket'']\<rparr>"

definition attendance_module :: module_row where
  "attendance_module =
    (catalog_module ''attendance'' ''Attendance''
     [(screen ''attendance'' ''Attendance'')
        \<lparr>scr_routes := Some [''records''],
        scr_model := Some (''app'', ''DailyAttendanceReg'')\<rparr>])
        \<lparr>mod_icon := ''calendar_check'',
        mod_description := ''Staff face-recognition attendance''\<rparr>"

definition waste_reports_module :: module_row where
  "waste_reports_module =
    (catalog_module ''waste-reports'' ''Waste Reports''
     [(screen ''daily-waste-comparison'' ''Daily Waste Comparison'')
        \<lparr>scr_routes := Some [''daily-waste-comparisons''],
        scr_legacy := [''daily-waste-comparisons''],
        scr_model := Some (''app'', ''DailyWasteComparison'')\<rparr>,
      (screen ''monthly-waste-comparison'' ''Monthly Waste Comparison'')
        \<lparr>scr_routes := Some [''monthly-waste-comparison''],
        scr_legacy := [''MonthlyWasteComparison''],
        scr_model := Some (''app'', ''MonthlyWeightReport'')\<rparr>])
        \<lparr>mod_url_module := ''schedule-masters'',
        mod_icon := ''bar_chart'',
        mod_description := ''Schedule and waste reports'',
        mod_legacy := [''schedule-masters'']\<rparr>"

definition complaint_reports_module :: module_row where
  "complaint_reports_module =
    (catalog_module ''complaint-reports'' ''Complaint Reports''
     [(screen ''complaints-report'' ''Complaints Report'')])
        \<lparr>mod_url_module := ''complaint-ticket'',
        mod_icon := ''bar_chart'',
        mod_description := ''Complaint analytics''\<rparr>"

definition SECTIONS :: "(string \<times> module_row list) list" where
  "SECTIONS =
    [(''dashboard'', [dashboard_module]),
     (''super-admin'', [screen_management_module, role_management_module, staff_management_module, common_masters_module, audits_module]),
     (''masters'', [location_masters_module, waste_masters_module, transport_masters_module, customer_masters_module, leader_management_module]),
     (''core-modules'', [schedule_setup_module, daily_operations_module, complaint_management_module, attendance_module]),
     (''reports'', [waste_reports_module, complaint_reports_module])]"

section \<open>Derived views\<close>

definition MODULES :: "(string \<times> module_row) list" where
  "MODULES = fold (\<lambda>m. AList.update (mod_name m) m) (concat (map snd SECTIONS)) []"

definition structure_of :: "(string \<times> module_row) list \<Rightarrow> (string \<times> string list) list" where
  "structure_of modules = map (\<lambda>(name, m). (name, map scr_name (mod_screens m))) modules"

definition screens_of :: "(string \<times> module_row) list \<Rightarrow> (string \<times> screen_row) list" where
  "screens_of modules =
     fold (\<lambda>s. AList.update (scr_name s) s) (concat (map (mod_screens \<circ> snd) modules)) []"

definition legacy_module_names :: "(string \<times> module_row) list \<Rightarrow> (string \<times> string) list" where
  "legacy_module_names modules =
     fold (\<lambda>(old, name). AList.update old name)
       (concat (map (\<lambda>(name, m). map (\<lambda>old. (old, name)) (mod_legacy m)) modules)) []"

definition legacy_screen_names :: "(string \<times> module_row) list \<Rightarrow> (string \<times> string) list" where
  "legacy_screen_names modules =
     fold (\<lambda>(old, name). AList.update old name)
       (concat (map (\<lambda>(name, s). map (\<lambda>old. (old, name)) (scr_legacy s @ scr_absorbs s))
         (screens_of modules))) []"

definition inherits_grants_from :: "(string \<times> module_row) list \<Rightarrow> (string \<times> string) list" where
  "inherits_grants_from modules =
     List.map_filter (\<lambda>(name, s). if truthy (scr_inherits s) then Some (name, the (scr_inherits s)) else None)
       (screens_of modules)"

text \<open>A bare route is relative to the module's url group.\<close>

definition screen_routes :: "module_row \<Rightarrow> screen_row \<Rightarrow> string list" where
  "screen_routes m s =
     map (\<lambda>r. if CHR ''/'' \<in> set r then r else mod_url_module m @ ''/'' @ r)
       (case scr_routes s of None \<Rightarrow> [scr_name s] | Some routes \<Rightarrow> routes)"

datatype catalog_error =
    NameClaimedTwice string string string
  | UnknownInheritance string string
  | RouteOwnedTwice string "string \<times> string" "string \<times> string"
  | UnknownDependencyOwner "string \<times> string"

fun claim_names :: "(string \<times> string) list \<Rightarrow> (string \<times> string) list \<Rightarrow> catalog_error + (string \<times> string) list" where
  "claim_names seen [] = Inr seen"
| "claim_names seen ((name, owner) # rest) =
     (case map_of seen name of
        Some other \<Rightarrow>
          if other \<noteq> owner then Inl (NameClaimedTwice name other owner)
          else claim_names (AList.update name owner seen) rest
      | None \<Rightarrow> claim_names (AList.update name owner seen) rest)"

definition screen_claims :: "(string \<times> module_row) list \<Rightarrow> (string \<times> string) list" where
  "screen_claims modules =
     concat (map (\<lambda>(_, m). concat (map (\<lambda>s. map (\<lambda>name. (name, scr_name s))
       (scr_name s # scr_legacy s @ scr_absorbs s)) (mod_screens m))) modules)"

definition check_unique_names :: "(string \<times> module_row) list \<Rightarrow> catalog_error + unit" where
  "check_unique_names modules =
     (case claim_names [] (screen_claims modules) of
        Inl e \<Rightarrow> Inl e
      | Inr seen \<Rightarrow>
          (case find (\<lambda>(name, origin). map_of (screens_of modules) origin = None)
                  (inherits_grants_from modules) of
             None \<Rightarrow> Inr ()
           | Some (name, origin) \<Rightarrow> Inl (UnknownInheritance name origin)))"

fun own_routes ::
  "(string \<times> string \<times> string) list \<Rightarrow> (string \<times> string \<times> string) list
     \<Rightarrow> catalog_error + (string \<times> string \<times> string) list" where
  "own_routes owners [] = Inr owners"
| "own_routes owners ((route, owner) # rest) =
     (case map_of owners route of
        Some other \<Rightarrow> Inl (RouteOwnedTwice route other owner)
      | None \<Rightarrow> own_routes (owners @ [(route, owner)]) rest)"

definition route_claims :: "(string \<times> module_row) list \<Rightarrow> (string \<times> string \<times> string) list" where
  "route_claims modules =
     concat (map (\<lambda>(_, m). concat (map (\<lambda>s. map (\<lambda>route. (route, mod_name m, scr_name s))
       (screen_routes m s)) (mod_screens m))) modules)"

definition route_owners ::
  "(string \<times> module_row) list \<Rightarrow> catalog_error + (string \<times> string \<times> string) list" where
  "route_owners modules = own_routes [] (route_claims modules)"

definition ROUTE_OWNERS :: "(string \<times> string \<times> string) list" where
  "ROUTE_OWNERS = (case route_owners MODULES of Inr owners \<Rightarrow> owners | Inl e \<Rightarrow> [])"

definition ROUTE_MODULES :: "string list" where
  "ROUTE_MODULES = remdups (map (\<lambda>(route, owner). takeWhile (\<lambda>c. c \<noteq> CHR ''/'') route) ROUTE_OWNERS)"

section \<open>Screen dependencies\<close>

record screen_deps =
  dep_includes :: "string list"
  dep_lookups :: "string list"

definition GEO_LOOKUPS :: "string list" where
  "GEO_LOOKUPS = [''common-masters/countries'', ''common-masters/states'', ''masters/districts'',
      ''masters/areatypes'', ''masters/corporations'', ''masters/municipalities'',
      ''masters/town-panchayats'', ''masters/panchayat-unions'', ''masters/panchayat'']"

definition GEO_WARD_LOOKUPS :: "string list" where
  "GEO_WARD_LOOKUPS = GEO_LOOKUPS @ [''masters/wards'']"

definition COMPLAINT_MASTER_LOOKUPS :: "string list" where
  "COMPLAINT_MASTER_LOOKUPS = [''complaint-ticket/modules'', ''complaint-ticket/categories'',
      ''complaint-ticket/subcategories'', ''complaint-ticket/priorities'',
      ''complaint-ticket/sources'', ''complaint-ticket/statuses'']"

definition LOCAL_BODY_PARENTS :: "string list" where
  "LOCAL_BODY_PARENTS = [''common-masters/states'', ''masters/districts'', ''masters/areatypes'']"

definition SCREEN_DEPENDENCIES :: "((string \<times> string) \<times> screen_deps) list" where
  "SCREEN_DEPENDENCIES =
    [((''common-masters'', ''country''),
      \<lparr>dep_includes = [],
       dep_lookups = [''common-masters/continents'']\<rparr>),
     ((''common-masters'', ''state''),
      \<lparr>dep_includes = [],
       dep_lookups = [''common-masters/continents'', ''common-masters/countries'']\<rparr>),
     ((''location-masters'', ''district''),
      \<lparr>dep_includes = [],
       dep_lookups = [''common-masters/states'']\<rparr>),
     ((''location-masters'', ''area-type''),
      \<lparr>dep_includes = [],
       dep_lookups = [''common-masters/states'', ''masters/districts'']\<rparr>),
     ((''location-masters'', ''corporation''),
      \<lparr>dep_includes = [],
       dep_lookups = LOCAL_BODY_PARENTS\<rparr>),
     ((''location-masters'', ''municipality''),
      \<lparr>dep_includes = [],
       dep_lookups = LOCAL_BODY_PARENTS\<rparr>),
     ((''location-masters'', ''town-panchayat''),
      \<lparr>dep_includes = [],
       dep_lookups = LOCAL_BODY_PARENTS\<rparr>),
     ((''location-masters'', ''panchayat-union''),
      \<lparr>dep_includes = [],
       dep_lookups = LOCAL_BODY_PARENTS\<rparr>),
     ((''location-masters'', ''plb''),
      \<lparr>dep_includes = [],
       dep_lookups = LOCAL_BODY_PARENTS\<rparr>),
     ((''location-masters'', ''ward''),
      \<lparr>dep_includes = [],
       dep_lookups = LOCAL_BODY_PARENTS\<rparr>),
     ((''leader-management'', ''plb-leader-creation''),
      \<lparr>dep_includes = [],
       dep_lookups = [''masters/panchayat'']\<rparr>),
     ((''leader-management'', ''district-leader-creation''),
      \<lparr>dep_includes = [],
       dep_lookups = [''masters/districts'']\<rparr>),
     ((''leader-management'', ''state-leader-creation''),
      \<lparr>dep_includes = [],
       dep_lookups = [''common-masters/states'']\<rparr>),
     ((''waste-masters'', ''waste-type''),
      \<lparr>dep_includes = [],
       dep_lookups = [''complaint-ticket/priorities'']\<rparr>),
     ((''waste-masters'', ''subproperty''),
      \<lparr>dep_includes = [],
       dep_lookups = [''waste-types/properties'']\<rparr>),
     ((''waste-masters'', ''bin-creation''),
      \<lparr>dep_includes = [],
       dep_lookups = GEO_WARD_LOOKUPS @ [''schedule-setup/collection-points'', ''waste-types/wastetypes'']\<rparr>),
     ((''transport-masters'', ''vehicle-creation''),
      \<lparr>dep_includes = [],
       dep_lookups = GEO_LOOKUPS @ [''transport-masters/fuels'', ''transport-masters/vehicle-type'']\<rparr>),
     ((''customer-masters'', ''customer-creation''),
      \<lparr>dep_includes = [],
       dep_lookups = GEO_WARD_LOOKUPS @ [''waste-types/wastetypes'', ''waste-types/properties'',
                       ''waste-types/subproperties'', ''screen-managements/app-modules'']\<rparr>),
     ((''customer-masters'', ''apartment-list''),
      \<lparr>dep_includes = [],
       dep_lookups = [''customer-masters/customercreations'']\<rparr>),
     ((''screen-management'', ''mainscreen''),
      \<lparr>dep_includes = [],
       dep_lookups = [''screen-managements/mainscreentype'']\<rparr>),
     ((''screen-management'', ''user-screen''),
      \<lparr>dep_includes = [],
       dep_lookups = [''screen-managements/mainscreens'']\<rparr>),
     ((''screen-management'', ''user-screen-permission''),
      \<lparr>dep_includes = [],
       dep_lookups = GEO_LOOKUPS @ [''screen-managements/mainscreens'', ''screen-managements/userscreens'',
                       ''screen-managements/userscreen-action'']\<rparr>),
     ((''role-management'', ''staff-user-type''),
      \<lparr>dep_includes = [],
       dep_lookups = [''role-assigns/user-type'']\<rparr>),
     ((''role-management'', ''staff-hierarchy''),
      \<lparr>dep_includes = [],
       dep_lookups = [''role-assigns/governmentusertypes'']\<rparr>),
     ((''staff-management'', ''staff-creation''),
      \<lparr>dep_includes = [],
       dep_lookups = GEO_LOOKUPS @ [''role-assigns/staffusertypes'', ''role-assigns/contractorusertypes'',
                       ''role-assigns/governmentusertypes'', ''masters/departments'',
                       ''masters/designations'', ''screen-managements/app-modules'']\<rparr>),
     ((''staff-management'', ''staff-access-configuration''),
      \<lparr>dep_includes = [],
       dep_lookups = GEO_WARD_LOOKUPS @ [''role-assigns/user-type'', ''role-assigns/governmentusertypes'',
                       ''screen-managements/mainscreens'', ''screen-managements/userscreens'',
                       ''screen-managements/userscreen-action'',
                       ''screen-managements/userscreenpermissions'',
                       ''screen-managements/dashboard-widget-permissions'']\<rparr>),
     ((''staff-management'', ''staff-access-dashboard''),
      \<lparr>dep_includes = [],
       dep_lookups = [''schedule-masters/daily-waste-comparisons'']\<rparr>),
     ((''schedule-setup'', ''staff-template''),
      \<lparr>dep_includes = [],
       dep_lookups = [''user-creations/staffcreation'']\<rparr>),
     ((''schedule-setup'', ''alternative-staff-template''),
      \<lparr>dep_includes = [],
       dep_lookups = [''schedule-setup/staff-templates'', ''user-creations/staffcreation'']\<rparr>),
     ((''schedule-setup'', ''collection-point''),
      \<lparr>dep_includes = [],
       dep_lookups = GEO_WARD_LOOKUPS @ [''waste-types/wastetypes'']\<rparr>),
     ((''schedule-setup'', ''trip-plans''),
      \<lparr>dep_includes = [],
       dep_lookups = GEO_WARD_LOOKUPS @ [''waste-types/wastetypes'', ''waste-types/bins'',
                       ''schedule-setup/staff-templates'', ''schedule-setup/collection-points'',
                       ''user-creations/staffcreation'', ''transport-masters/vehicle-creation'',
                       ''customer-masters/customercreations'']\<rparr>),
     ((''daily-operations'', ''daily-trip-plan''),
      \<lparr>dep_includes = [],
       dep_lookups = GEO_WARD_LOOKUPS @ [''waste-types/wastetypes'', ''waste-types/bins'',
                       ''schedule-setup/trip-plans'', ''schedule-setup/staff-templates'',
                       ''schedule-setup/alternative-staff-templates'',
                       ''schedule-setup/collection-points'',
                       ''customer-masters/customercreations'']\<rparr>),
     ((''daily-operations'', ''daily-trip-tracking''),
      \<lparr>dep_includes = [],
       dep_lookups = [''schedule-operations/daily-trip-assignments'',
                       ''schedule-operations/daily-trip-collection-points'',
                       ''schedule-setup/staff-templates'',
                       ''schedule-setup/alternative-staff-templates'',
                       ''schedule-setup/collection-points'', ''masters/panchayat'']\<rparr>),
     ((''daily-operations'', ''secondary-bin-collection-event''),
      \<lparr>dep_includes = [],
       dep_lookups = GEO_WARD_LOOKUPS @ [''schedule-operations/daily-trip-assignments'',
                       ''schedule-operations/daily-trip-collection-points'',
                       ''waste-types/bins'']\<rparr>),
     ((''daily-operations'', ''household-collection-event''),
      \<lparr>dep_includes = [],
       dep_lookups = GEO_WARD_LOOKUPS @ [''schedule-operations/daily-trip-assignments'',
                       ''schedule-operations/daily-trip-household-collections'',
                       ''customer-masters/customercreations'']\<rparr>),
     ((''daily-operations'', ''vehicle-breakdown''),
      \<lparr>dep_includes = [],
       dep_lookups = [''schedule-operations/daily-trip-assignments'']\<rparr>),
     ((''daily-operations'', ''daily-trip-logs''),
      \<lparr>dep_includes = [''schedule-operations/daily-trip-assignments''],
       dep_lookups = GEO_LOOKUPS @ [''schedule-operations/daily-trip-household-collections'',
                       ''waste-types/wastetypes'']\<rparr>),
     ((''complaint-management'', ''complaint-tickets''),
      \<lparr>dep_includes = [],
       dep_lookups = GEO_LOOKUPS @ [''complaint-ticket/statuses'', ''complaint-ticket/categories'',
                       ''complaint-ticket/subcategories'', ''complaint-ticket/priorities'',
                       ''complaint-ticket/sources'', ''customer-masters/customercreations'',
                       ''waste-types/wastetypes'']\<rparr>),
     ((''complaint-management'', ''my-tasks''),
      \<lparr>dep_includes = [''complaint-ticket/tickets''],
       dep_lookups = GEO_LOOKUPS\<rparr>),
     ((''complaint-management'', ''reference-data''),
      \<lparr>dep_includes = [],
       dep_lookups = COMPLAINT_MASTER_LOOKUPS\<rparr>),
     ((''complaint-management'', ''categories''),
      \<lparr>dep_includes = [],
       dep_lookups = COMPLAINT_MASTER_LOOKUPS\<rparr>),
     ((''complaint-management'', ''sla-rules''),
      \<lparr>dep_includes = [],
       dep_lookups = GEO_LOOKUPS @ COMPLAINT_MASTER_LOOKUPS\<rparr>),
     ((''complaint-reports'', ''complaints-report''),
      \<lparr>dep_includes = [],
       dep_lookups = GEO_WARD_LOOKUPS\<rparr>),
     ((''waste-reports'', ''daily-waste-comparison''),
      \<lparr>dep_includes = [],
       dep_lookups = GEO_WARD_LOOKUPS\<rparr>),
     ((''waste-reports'', ''monthly-waste-comparison''),
      \<lparr>dep_includes = [],
       dep_lookups = GEO_WARD_LOOKUPS\<rparr>),
     ((''audits'', ''common-audit''),
      \<lparr>dep_includes = [],
       dep_lookups = [''screen-managements/mainscreens'', ''screen-managements/userscreens'']\<rparr>),
     ((''attendance'', ''attendance''),
      \<lparr>dep_includes = [],
       dep_lookups = [''user-creations/staffcreation'']\<rparr>)]"

definition validate_dependencies ::
  "(string \<times> module_row) list \<Rightarrow> ((string \<times> string) \<times> screen_deps) list \<Rightarrow> catalog_error + unit" where
  "validate_dependencies modules deps =
     (case find (\<lambda>((module_name, screen_name), d).
              screen_name \<notin> set (case map_of (structure_of modules) module_name of
                                  None \<Rightarrow> [] | Some names \<Rightarrow> names)) deps of
        None \<Rightarrow> Inr ()
      | Some (owner, d) \<Rightarrow> Inl (UnknownDependencyOwner owner))"

definition add_owner ::
  "string \<Rightarrow> string \<times> string \<Rightarrow> (string \<times> (string \<times> string) list) list \<Rightarrow> (string \<times> (string \<times> string) list) list" where
  "add_owner resource owner index =
     AList.update resource ((case map_of index resource of None \<Rightarrow> [] | Some os \<Rightarrow> os) @ [owner]) index"

definition index_dependencies ::
  "(screen_deps \<Rightarrow> string list) \<Rightarrow> ((string \<times> string) \<times> screen_deps) list
     \<Rightarrow> (string \<times> (string \<times> string) list) list" where
  "index_dependencies kind deps =
     fold (\<lambda>(owner, d) index. fold (\<lambda>resource. add_owner resource owner) (kind d) index) deps []"

definition INCLUDED_BY :: "(string \<times> (string \<times> string) list) list" where
  "INCLUDED_BY = index_dependencies dep_includes SCREEN_DEPENDENCIES"

definition LOOKUP_FOR :: "(string \<times> (string \<times> string) list) list" where
  "LOOKUP_FOR = index_dependencies dep_lookups SCREEN_DEPENDENCIES"

section \<open>What importing the tables guarantees\<close>

lemma own_routes_distinct:
  "distinct (map fst (owners @ claims)) \<Longrightarrow> own_routes owners claims = Inr (owners @ claims)"
proof (induction owners claims rule: own_routes.induct)
  case (2 owners route owner rest)
  then have "map_of owners route = None" by (simp add: map_of_eq_None_iff)
  with 2 show ?case by simp
qed simp

lemma own_routes_Inr:
  "own_routes owners claims = Inr result \<Longrightarrow> distinct (map fst owners) \<Longrightarrow>
     result = owners @ claims \<and> distinct (map fst (owners @ claims))"
proof (induction owners claims rule: own_routes.induct)
  case (2 owners route owner rest)
  then have "map_of owners route = None" by (auto split: option.splits)
  then have "route \<notin> fst ` set owners" by (simp add: map_of_eq_None_iff)
  with 2 \<open>map_of owners route = None\<close> show ?case by auto
qed simp

lemma route_owners_Inr:
  "route_owners modules = Inr owners \<longleftrightarrow>
     owners = route_claims modules \<and> distinct (map fst (route_claims modules))"
  using own_routes_distinct [of "[]" "route_claims modules"]
    own_routes_Inr [of "[]" "route_claims modules" owners]
  by (auto simp: route_owners_def)

text \<open>The owner check accepts a catalog exactly when no two screens claim the same route,
  and the owner table is then the list of all claims.\<close>
theorem route_owners_accepts:
  "route_owners modules = Inr owners \<longleftrightarrow>
     owners = route_claims modules \<and> distinct (map fst (route_claims modules))"
  by (rule route_owners_Inr)

lemma route_claims_iff:
  "(route, module_name, screen_name) \<in> set (route_claims modules) \<longleftrightarrow>
     (\<exists>key m s. (key, m) \<in> set modules \<and> s \<in> set (mod_screens m) \<and> route \<in> set (screen_routes m s)
        \<and> module_name = mod_name m \<and> screen_name = scr_name s)"
  by (fastforce simp: route_claims_def)

lemma catalog_routes_distinct: "distinct (map fst (route_claims MODULES))"
proof -
  have "distinct (map (rev \<circ> fst) (route_claims MODULES))" by code_simp
  then show ?thesis by (simp add: distinct_map flip: map_map)
qed

text \<open>In the shipped catalog a route is authorised by a screen exactly when that screen lists
  it, so every protected route has at most one owning screen, and every page with dependencies
  is a screen of the catalog.\<close>
theorem catalog_route_owner:
  "(map_of ROUTE_OWNERS route = Some (module_name, screen_name) \<longleftrightarrow>
      (\<exists>key m s. (key, m) \<in> set MODULES \<and> s \<in> set (mod_screens m) \<and> route \<in> set (screen_routes m s)
         \<and> module_name = mod_name m \<and> screen_name = scr_name s))
   \<and> validate_dependencies MODULES SCREEN_DEPENDENCIES = Inr ()"
proof -
  have "validate_dependencies MODULES SCREEN_DEPENDENCIES = Inr ()" by code_simp
  moreover have "ROUTE_OWNERS = route_claims MODULES"
    using route_owners_Inr [of MODULES "route_claims MODULES"] catalog_routes_distinct
    by (simp add: ROUTE_OWNERS_def)
  moreover from this have "map_of ROUTE_OWNERS route = Some (module_name, screen_name) \<longleftrightarrow>
      (route, module_name, screen_name) \<in> set (route_claims MODULES)"
    using map_of_eq_Some_iff [OF catalog_routes_distinct] by simp
  ultimately show ?thesis unfolding route_claims_iff by blast
qed

text \<open>The pages that depend on a resource, in the order of the dependency table.\<close>

definition dependents ::
  "(screen_deps \<Rightarrow> string list) \<Rightarrow> ((string \<times> string) \<times> screen_deps) list \<Rightarrow> string \<Rightarrow> (string \<times> string) list" where
  "dependents kind deps resource =
     concat (map (\<lambda>(owner, d). replicate (count_list (kind d) resource) owner) deps)"

definition listed :: "(string \<times> (string \<times> string) list) list \<Rightarrow> string \<Rightarrow> (string \<times> string) list" where
  "listed index resource = (case map_of index resource of None \<Rightarrow> [] | Some owners \<Rightarrow> owners)"

lemma listed_add_owner:
  "listed (add_owner resource owner index) r = listed index r @ (if r = resource then [owner] else [])"
  by (simp add: listed_def add_owner_def update_conv' split: option.split)

lemma listed_add_owners:
  "listed (fold (\<lambda>resource. add_owner resource owner) resources index) r =
     listed index r @ replicate (count_list resources r) owner"
  by (induction resources arbitrary: index)
    (auto simp: listed_add_owner replicate_append_same simp flip: replicate_Suc)

lemma listed_index:
  "listed (index_dependencies kind deps) resource = dependents kind deps resource"
proof -
  have "listed (fold (\<lambda>(owner, d) index. fold (\<lambda>resource. add_owner resource owner) (kind d) index) deps index)
          resource = listed index resource @ dependents kind deps resource" for index
    by (induction deps arbitrary: index) (auto simp: dependents_def listed_add_owners split: prod.split)
  then show ?thesis by (simp add: index_dependencies_def) (simp add: listed_def)
qed

text \<open>Looking a route up in a dependency index gives exactly the pages whose entry lists it,
  in table order.\<close>
theorem index_dependencies_lookup:
  "listed (index_dependencies kind deps) resource = dependents kind deps resource"
  by (rule listed_index)

lemma claim_names_iff:
  "(\<exists>result. claim_names seen claims = Inr result) \<longleftrightarrow> single_valued (Map.graph (map_of seen) \<union> set claims)"
proof (induction seen claims rule: claim_names.induct)
  case (1 seen)
  then show ?case by (auto simp: single_valued_def Map.graph_def)
next
  case (2 seen name owner rest)
  show ?case
  proof (cases "map_of seen name = None \<or> map_of seen name = Some owner")
    case True
    then have "claim_names seen ((name, owner) # rest) = claim_names (AList.update name owner seen) rest"
      by auto
    moreover have "(\<exists>result. claim_names (AList.update name owner seen) rest = Inr result) \<longleftrightarrow>
       single_valued (Map.graph (map_of (AList.update name owner seen)) \<union> set rest)"
      using True 2 by auto
    moreover have "Map.graph (map_of (AList.update name owner seen)) \<union> set rest
        = Map.graph (map_of seen) \<union> set ((name, owner) # rest)"
      using True by (auto simp: update_conv' Map.graph_def split: if_splits)
    ultimately show ?thesis by simp
  next
    case False
    then obtain other where "map_of seen name = Some other" "other \<noteq> owner" by auto
    then show ?thesis by (force simp: single_valued_def Map.graph_def)
  qed
qed

text \<open>The name check accepts a catalog exactly when every current, legacy or absorbed name
  belongs to one screen only, and every screen that inherits grants inherits them from a screen
  of the catalog; so a stored grant under an old name has one meaning.\<close>
theorem check_unique_names_accepts:
  "check_unique_names modules = Inr () \<longleftrightarrow>
     (\<forall>name a b. (name, a) \<in> set (screen_claims modules) \<longrightarrow> (name, b) \<in> set (screen_claims modules) \<longrightarrow> a = b)
     \<and> (\<forall>(name, origin) \<in> set (inherits_grants_from modules). map_of (screens_of modules) origin \<noteq> None)"
proof -
  have inherits: "find (\<lambda>(name, origin). map_of (screens_of modules) origin = None)
       (inherits_grants_from modules) = None \<longleftrightarrow>
     (\<forall>(name, origin) \<in> set (inherits_grants_from modules). map_of (screens_of modules) origin \<noteq> None)"
    by (auto simp: find_None_iff)
  have "(\<exists>seen. claim_names [] (screen_claims modules) = Inr seen) \<longleftrightarrow>
      single_valued (set (screen_claims modules))"
    using claim_names_iff [of "[]" "screen_claims modules"] by simp
  then show ?thesis
    unfolding inherits [symmetric] single_valued_def
    by (auto simp: check_unique_names_def split: sum.splits option.splits)
qed

end
