(* ===== verification/Module_Permission.thy ===== *)
theory Module_Permission
  imports Login_Session Permission_Catalog "HOL-Library.Sublist"
begin

text \<open>
  The permission gate in front of every API view
  (\<open>app/middleware/module_permission_middleware.py\<close>): which requests pass unauthenticated, how a
  token becomes a user, and which grants a request to a protected route needs.

  JWT decoding is a third-party library, so \<open>decode\<close> is an argument; the account tables are
  lookups by id. The permissions of the authenticated user (role, geography and staff access
  configuration, computed in \<open>app/utils/permission_response.py\<close>) are an argument of the decision.
  Text is ASCII: \<open>isdigit\<close>, \<open>lower\<close> and \<open>\W\<close> are those of ASCII characters.
\<close>

section \<open>Tables\<close>

definition HTTP_ACTION_MAP :: "(string \<times> string) list" where
  "HTTP_ACTION_MAP =
     [(''POST'', ''add''), (''GET'', ''view''), (''HEAD'', ''view''), (''PUT'', ''edit''),
      (''PATCH'', ''edit''), (''DELETE'', ''delete'')]"

definition API_AUTH_PREFIXES :: "string list" where
  "API_AUTH_PREFIXES = [''/api/mobile/'', ''/api/desktop/'', ''/api/v1/'']"

definition AUTH_ONLY_SUFFIXES :: "string list" where
  "AUTH_ONLY_SUFFIXES =
     [''register/'', ''recognize/'', ''employee/'', ''staff-profile/'',
      ''schedule-operations/staff-notifications/'', ''schedule-operations/retrip-requests/'',
      ''waste/'', ''attendance-list/'', ''localbody/'', ''districtbody/'', ''statebody/'']"

definition with_suffixes :: "string list \<Rightarrow> string list \<Rightarrow> string list" where
  "with_suffixes starts ends =
     concat (map (\<lambda>p. map (\<lambda>s. p @ s) ends) starts)"

definition AUTH_ONLY_PREFIXES :: "string list" where
  "AUTH_ONLY_PREFIXES =
     with_suffixes API_AUTH_PREFIXES AUTH_ONLY_SUFFIXES
     @ [''/api/v1/attendance/recognize/'', ''/api/v1/attendance/daily-attendance/'']"

definition PUBLIC_MOBILE_SUFFIXES :: "string list" where
  "PUBLIC_MOBILE_SUFFIXES = [''register/'', ''staff-profile/'']"

definition PUBLIC_MOBILE_PREFIXES :: "string list" where
  "PUBLIC_MOBILE_PREFIXES = with_suffixes API_AUTH_PREFIXES PUBLIC_MOBILE_SUFFIXES"

definition PLATFORM_PREFIXES :: "string list" where
  "PLATFORM_PREFIXES = [''/api/platform/'']"

definition PUBLIC_PREFIXES :: "string list" where
  "PUBLIC_PREFIXES =
     [''/media/'', ''/api/v1/publicgrievance/'', ''/api/v1/attendance/register/'',
      ''/api/v1/attendance/staff-profile/'', ''/api/v1/attendance/face-config/'']
     @ PUBLIC_MOBILE_PREFIXES"

definition COMMON_AUDIT_CREATE_PATHS :: "string list" where
  "COMMON_AUDIT_CREATE_PATHS = with_suffixes API_AUTH_PREFIXES [''audits/common-audit/'']"

definition MODULE_RESOURCE_ALLOWLIST :: "(string \<times> string list) list" where
  "MODULE_RESOURCE_ALLOWLIST =
    [(''common-masters'',
        [''Continent'', ''Country'', ''State'']),
     (''masters'',
        [''District'', ''Panchayat'', ''AreaType'', ''Corporation'', ''Municipality'',
         ''TownPanchayat'', ''PanchayatUnion'', ''Ward'', ''AdministrativeHierarchy'',
         ''Department'', ''Designation'']),
     (''waste-types'',
        [''Property'', ''SubProperty'', ''Bin'', ''WasteType'']),
     (''assets'',
        [''CollectionPoint'']),
     (''screen-managements'',
        [''MainScreenType'', ''MainScreen'', ''UserScreen'', ''UserScreenAction'',
         ''UserScreenPermission'', ''userscreenpermissions'', ''companywisescreenpermissions'',
         ''column-permissions'', ''DashboardWidgetPermission'', ''AppModule'']),
     (''role-assigns'',
        [''UserType'', ''StaffUserType'', ''ContractorUserType'', ''GovernmentStaffUserType'',
         ''StaffHierarchy'']),
     (''user-creations'',
        [''UsersCreation'', ''StaffCreation'', ''StaffAccessConfiguration'',
         ''StaffAccessDashboard'', ''StaffTemplateCreation'', ''AlternativeStaffTemplate'',
         ''UnassignedStaffPool'']),
     (''process-items'', []),
     (''customer-masters'',
        [''CustomerCreation'', ''HouseholdCollectionEvent'', ''FeedBack'', ''UserChargeRule'',
         ''CustomerAccessConfiguration'', ''CustomerNotification'']),
     (''complaint-ticket'',
        [''ComplaintTicket'', ''ComplaintModule'', ''ComplaintCategory'',
         ''ComplaintSubcategory'', ''ComplaintPriority'', ''ComplaintStatus'',
         ''ComplaintSource'', ''ComplaintLanguage'', ''ComplaintSlaRule'',
         ''ComplaintRoutingRule'', ''ComplaintFeedback'', ''ComplaintReopenHistory'',
         ''ComplaintAddressChange'', ''ComplaintsReport'']),
     (''transport-masters'',
        [''VehicleTypeCreation'', ''VehicleCreation'', ''TripAttendance'', ''Fuel'']),
     (''schedule-setup'',
        [''StaffTemplateCreation'', ''AlternativeStaffTemplate'', ''CollectionPoint'',
         ''TripPlan'', ''TripPlanCollectionPoint'']),
     (''schedule-operations'',
        [''DailyTripAssignment'', ''DailyTripCollectionPoint'',
         ''DailyTripHouseholdCollection'', ''SecondaryBinCollectionEvent'',
         ''VehicleBreakdown'', ''DailyTripLog'', ''HouseholdCollectionEvent'',
         ''TripRetripRequest'', ''StaffNotification'']),
     (''schedule-masters'',
        [''DailyWasteComparison'', ''MonthlyWasteComparisonReport'']),
     (''audits'',
        [''LoginAudit'', ''CommonAudit'', ''PermissionAudit'', ''ComplaintAudit'',
         ''AuditDashboard'']),
     (''attendance'',
        [''DailyAttendanceReg''])]"

definition RESOURCE_PERMISSION_ALIASES :: "(string \<times> string list) list" where
  "RESOURCE_PERMISSION_ALIASES =
    [(''Continent'', [''continents'']),
     (''Country'', [''countries'']),
     (''State'', [''states'']),
     (''District'', [''districts'']),
     (''AreaType'', [''area-types'', ''areatype'']),
     (''Corporation'', [''corporations'']),
     (''Municipality'', [''municipalities'']),
     (''TownPanchayat'', [''town-panchayats'']),
     (''PanchayatUnion'', [''panchayat-unions'']),
     (''Panchayat'', [''panchayats'', ''panchayat'']),
     (''Ward'', [''wards'']),
     (''Property'', [''properties'']),
     (''SubProperty'', [''subproperties'']),
     (''Bin'', [''bins'']),
     (''WasteType'', [''wastetypes'']),
     (''MainScreenType'', [''mainscreentype'']),
     (''MainScreen'', [''mainscreens'']),
     (''UserScreen'', [''userscreens'']),
     (''UserScreenAction'', [''userscreen-action'']),
     (''UserType'', [''user-type'']),
     (''StaffUserType'', [''staff-user-type'']),
     (''ContractorUserType'', [''contractorusertypes'']),
     (''GovernmentStaffUserType'', [''governmentusertypes'']),
     (''StaffHierarchy'', [''staff-hierarchy'']),
     (''Department'', [''departments'', ''department-masters'']),
     (''Designation'', [''designations'', ''designation-masters'']),
     (''StaffCreation'', [''staffcreation'']),
     (''StaffAccessConfiguration'', [''staff-access-configuration'']),
     (''StaffAccessDashboard'', [''staff-access-dashboard'']),
     (''CustomerCreation'', [''customercreations'']),
     (''HouseholdCollectionEvent'', [''householdcollection-events'', ''wastecollections'']),
     (''TripRetripRequest'', [''retrip-requests'']),
     (''StaffNotification'', [''staff-notifications'']),
     (''AppModule'', [''app-modules'']),
     (''CustomerAccessConfiguration'', [''customer-access-configuration'']),
     (''CustomerNotification'', [''customer-notifications'']),
     (''FeedBack'', [''feedbacks'', ''feedback'']),
     (''ComplaintTicket'', [''tickets'', ''my-tasks'']),
     (''ComplaintModule'', [''modules'']),
     (''ComplaintCategory'', [''categories'']),
     (''ComplaintSubcategory'', [''subcategories'']),
     (''ComplaintPriority'', [''priorities'']),
     (''ComplaintStatus'', [''statuses'']),
     (''ComplaintSource'', [''sources'']),
     (''ComplaintSlaRule'', [''sla-rules'']),
     (''ComplaintsReport'', [''complaints-report'']),
     (''ComplaintFeedback'', [''feedback'']),
     (''VehicleTypeCreation'', [''vehicle-type'', ''vehicle-types'']),
     (''VehicleCreation'', [''vehicle-creation'', ''vehicles'']),
     (''Fuel'', [''fuels'']),
     (''StaffTemplateCreation'', [''StaffTemplate'', ''staff-templates'']),
     (''AlternativeStaffTemplate'', [''alternative-staff-templates'']),
     (''CollectionPoint'', [''collection-points'', ''collection-point'']),
     (''TripPlan'', [''trip-plans'']),
     (''DailyTripAssignment'', [''daily-trip-assignments'']),
     (''DailyTripCollectionPoint'', [''daily-trip-collection-points'', ''daily-trip-collection-point'']),
     (''DailyTripHouseholdCollection'', [''daily-trip-household-collections'', ''householdcollection-events'']),
     (''SecondaryBinCollectionEvent'', [''secondary-bin-collection-events'', ''bin-collection-events'',
           ''bin-collection-event'']),
     (''VehicleBreakdown'', [''vehicle-breakdowns'']),
     (''DailyTripLog'', [''daily-trip-logs'']),
     (''DailyWasteComparison'', [''daily-waste-comparisons'']),
     (''MonthlyWasteComparisonReport'', [''MonthlyWasteComparison'', ''monthly-waste-comparison'']),
     (''CommonAudit'', [''common-audit'', ''staff-audit'']),
     (''LoginAudit'', [''login-audit'']),
     (''PermissionAudit'', [''permission-audit'']),
     (''ComplaintAudit'', [''complaint-audit'']),
     (''AuditDashboard'', [''audit-dashboard'']),
     (''DailyAttendanceReg'', [''attendance'', ''records'', ''daily-attendance'']),
     (''userscreenpermissions'', [''UserScreenPermission'', ''UserScreenPermission'']),
     (''DashboardWidgetPermission'', [''userscreenpermissions'', ''dashboard-widget-permissions''])]"


definition PROTECTED_MODULES :: "string list" where
  "PROTECTED_MODULES = remdups (map fst MODULE_RESOURCE_ALLOWLIST @ ROUTE_MODULES)"

definition MODULE_PERMISSION_ALIASES :: "(string \<times> string) list" where
  "MODULE_PERMISSION_ALIASES =
     [(''customer-masters'', ''customers''), (''process-items'', ''process'')]"

text \<open>\<open>d.get(k, ())\<close> on a dict of tuples.\<close>

definition get_list :: "('k \<times> 'v list) list \<Rightarrow> 'k \<Rightarrow> 'v list" where
  "get_list d k = (case map_of d k of None \<Rightarrow> [] | Some v \<Rightarrow> v)"

section \<open>Paths\<close>

definition split_path :: "string \<Rightarrow> string list" where
  "split_path path =
     filter (\<lambda>p. p \<noteq> []) (split_on (CHR ''/'') (takeWhile (\<lambda>c. c \<noteq> CHR ''?'') path))"

definition is_letter :: "char \<Rightarrow> bool" where
  "is_letter c \<longleftrightarrow> (CHR ''a'' \<le> c \<and> c \<le> CHR ''z'') \<or> (CHR ''A'' \<le> c \<and> c \<le> CHR ''Z'')"

definition is_version :: "string \<Rightarrow> bool" where
  "is_version part \<longleftrightarrow>
     (case part of [] \<Rightarrow> False | c # ds \<Rightarrow> c = CHR ''v'' \<and> ds \<noteq> [] \<and> list_all is_digit ds)"

definition module_from_path :: "string \<Rightarrow> string option" where
  "module_from_path path =
     find (\<lambda>part. part \<noteq> ''api'' \<and> \<not> is_version part \<and> part \<in> set PROTECTED_MODULES)
       (split_path path)"

text \<open>The segment right after the first occurrence of the module.\<close>

definition route_resource_from_path :: "string \<Rightarrow> string \<Rightarrow> string option" where
  "route_resource_from_path path module_name =
     (case dropWhile (\<lambda>p. p \<noteq> module_name) (split_path path) of
        [] \<Rightarrow> None
      | [_] \<Rightarrow> None
      | _ # resource # _ \<Rightarrow> if resource \<noteq> [] then Some resource else None)"

definition resource_allowlist_candidates :: "string \<Rightarrow> string option \<Rightarrow> string list" where
  "resource_allowlist_candidates permission_resource route_resource =
     filter (\<lambda>c. c \<noteq> [])
       ([permission_resource] @ (case route_resource of None \<Rightarrow> [] | Some r \<Rightarrow> [r])
        @ get_list RESOURCE_PERMISSION_ALIASES permission_resource)"

definition normalize_permission_key :: "string \<Rightarrow> string" where
  "normalize_permission_key name = lower (filter (\<lambda>c. is_letter c \<or> is_digit c) name)"

section \<open>Requests, users and responses\<close>

type_synonym grants = "(string \<times> string list) list"
type_synonym permissions = "(string \<times> grants) list"

record auth_payload = token_payload +
  ap_user_id :: "ident option"

record request_user =
  ru_id :: ident
  ru_is_superuser :: bool
  ru_staffusertype_name :: "string option"
  ru_governmentusertype_name :: "string option"
  ru_contractorusertype_name :: "string option"

record accounts =
  ac_staff :: "ident \<rightharpoonup> request_user"
  ac_customer :: "ident \<rightharpoonup> request_user"
  ac_panchayat_leader :: "ident \<rightharpoonup> request_user"
  ac_district_leader :: "ident \<rightharpoonup> request_user"
  ac_state_leader :: "ident \<rightharpoonup> request_user"
  ac_platform :: "ident \<rightharpoonup> request_user"
  ac_platform_pk :: "ident \<rightharpoonup> request_user"

datatype decoded = Payload auth_payload | ExpiredSignature | InvalidToken

record http_request =
  rq_method :: string
  rq_path :: string
  rq_authorization :: "string option"

text \<open>\<open>view_func.cls\<close>: the class attribute \<open>permission_resource\<close> may be absent.\<close>

record view_class =
  vw_name :: string
  vw_permission_resource :: "string option"
  vw_exempt_actions :: "string list"
  vw_actions :: "(string \<times> string) list"

datatype refusal =
    Unauthorized string
  | SessionOver string
  | ResourceNotAllowed string string "string option"
  | InvalidMethod
  | MissingAction string string string "string list"

definition status_code :: "refusal \<Rightarrow> nat" where
  "status_code r =
     (case r of Unauthorized _ \<Rightarrow> 401 | SessionOver _ \<Rightarrow> 401 | InvalidMethod \<Rightarrow> 405 | _ \<Rightarrow> 403)"

section \<open>Authentication\<close>

definition bearer_token :: "string \<Rightarrow> string" where
  "bearer_token auth =
     filter (\<lambda>c. c \<notin> {CHR '' '', CHR 0x09, CHR 0x0A, CHR 0x0B, CHR 0x0C, CHR 0x0D,
                      CHR 0x1C, CHR 0x1D, CHR 0x1E, CHR 0x1F})
       (drop (length ''Bearer '') auth)"

definition find_account :: "accounts \<Rightarrow> auth_payload \<Rightarrow> ident \<Rightarrow> request_user option" where
  "find_account db payload uid =
     (case ac_staff db uid of Some u \<Rightarrow> Some u
      | None \<Rightarrow> (case ac_customer db uid of Some u \<Rightarrow> Some u
      | None \<Rightarrow> (case ac_panchayat_leader db uid of Some u \<Rightarrow> Some u
      | None \<Rightarrow> (case ac_district_leader db uid of Some u \<Rightarrow> Some u
      | None \<Rightarrow> (case ac_state_leader db uid of Some u \<Rightarrow> Some u
      | None \<Rightarrow> (case ac_platform db uid of Some u \<Rightarrow> Some u
      | None \<Rightarrow>
          if truthy (ap_user_id payload) then ac_platform_pk db (the (ap_user_id payload)) else None))))))"

definition authenticate_request ::
  "(string \<Rightarrow> decoded) \<Rightarrow> accounts \<Rightarrow> instant \<Rightarrow> http_request \<Rightarrow> session_db
     \<Rightarrow> (refusal + request_user) \<times> session_db" where
  "authenticate_request decode db now request sessions =
     (case rq_authorization request of
        None \<Rightarrow> (Inl (Unauthorized ''Authorization token missing''), sessions)
      | Some auth \<Rightarrow>
          if \<not> prefix ''Bearer '' auth
          then (Inl (Unauthorized ''Authorization token missing''), sessions)
          else
            (case decode (bearer_token auth) of
               ExpiredSignature \<Rightarrow> (Inl (Unauthorized ''Token expired''), sessions)
             | InvalidToken \<Rightarrow> (Inl (Unauthorized ''Invalid token''), sessions)
             | Payload payload \<Rightarrow>
                 (case validate_session now (token_payload.truncate payload) sessions of
                    (Some ended, sessions') \<Rightarrow> (Inl (SessionOver ended), sessions')
                  | (None, sessions') \<Rightarrow>
                      if \<not> truthy (tp_unique_id payload)
                      then (Inl (Unauthorized ''Invalid token payload''), sessions')
                      else (case find_account db payload (the (tp_unique_id payload)) of
                          None \<Rightarrow> (Inl (Unauthorized ''User not found''), sessions')
                        | Some u \<Rightarrow> (Inr u, sessions')))))"

definition is_oversight_role :: "request_user \<Rightarrow> bool" where
  "is_oversight_role u \<longleftrightarrow>
     list_ex (\<lambda>name. let n = lower (case name of None \<Rightarrow> [] | Some n \<Rightarrow> n)
                     in sublist ''supervisor'' n \<or> sublist ''admin'' n)
       [ru_staffusertype_name u, ru_governmentusertype_name u, ru_contractorusertype_name u]"

section \<open>Grants\<close>

definition lookup_module_permissions :: "permissions \<Rightarrow> string \<Rightarrow> grants" where
  "lookup_module_permissions permissions module_name =
     (case map_of permissions module_name of
        Some screens \<Rightarrow> screens
      | None \<Rightarrow>
          (case find (\<lambda>(key, screens). normalize_permission_key key = normalize_permission_key module_name)
                  permissions of
             Some (key, screens) \<Rightarrow> screens
           | None \<Rightarrow> []))"

definition owner_actions :: "permissions \<Rightarrow> string \<times> string \<Rightarrow> string list" where
  "owner_actions permissions owner =
     (let screens = lookup_module_permissions permissions (fst owner)
      in case map_of screens (snd owner) of
           Some granted \<Rightarrow> granted
         | None \<Rightarrow>
             (case find (\<lambda>(key, granted). normalize_permission_key key = normalize_permission_key (snd owner))
                     screens of
                Some (key, granted) \<Rightarrow> granted
              | None \<Rightarrow> []))"

text \<open>Actions a request earns from the screens that depend on its route.\<close>

definition dependency_actions :: "permissions \<Rightarrow> string option \<Rightarrow> string \<Rightarrow> string list" where
  "dependency_actions permissions route_key action =
     (case route_key of
        None \<Rightarrow> []
      | Some key \<Rightarrow>
          concat (map (owner_actions permissions) (get_list INCLUDED_BY key))
          @ (if action = ''view''
               \<and> list_ex (\<lambda>owner. owner_actions permissions owner \<noteq> []) (get_list LOOKUP_FOR key)
             then [''view''] else []))"

text \<open>Singular and plural spellings of a screen name match each other.\<close>

definition same_resource :: "string \<Rightarrow> string \<Rightarrow> bool" where
  "same_resource normalized target \<longleftrightarrow>
     normalized = target
     \<or> (suffix ''s'' normalized \<and> butlast normalized = target)
     \<or> (suffix ''s'' target \<and> normalized = butlast target)
     \<or> (suffix ''y'' target \<and> normalized = butlast target @ ''ies'')
     \<or> (suffix ''y'' normalized \<and> butlast normalized @ ''ies'' = target)"

fun first_granted :: "grants \<Rightarrow> string list \<Rightarrow> string list option" where
  "first_granted permissions_map [] = None"
| "first_granted permissions_map (c # cs) =
     (case map_of permissions_map c of Some actions \<Rightarrow> Some actions | None \<Rightarrow> first_granted permissions_map cs)"

fun first_similar :: "grants \<Rightarrow> string list \<Rightarrow> string list option" where
  "first_similar permissions_map [] = None"
| "first_similar permissions_map (c # cs) =
     (case find (\<lambda>(key, actions). same_resource (normalize_permission_key key) (normalize_permission_key c))
             permissions_map of
        Some (key, actions) \<Rightarrow> Some actions
      | None \<Rightarrow> first_similar permissions_map cs)"

definition resolve_allowed_actions :: "grants \<Rightarrow> string \<Rightarrow> string option \<Rightarrow> string list" where
  "resolve_allowed_actions permissions_map resource_name route_resource =
     (let candidates = filter (\<lambda>c. c \<noteq> [])
            ((case route_resource of None \<Rightarrow> [] | Some r \<Rightarrow> [r]) @ [resource_name]
             @ get_list RESOURCE_PERMISSION_ALIASES resource_name)
      in case first_granted permissions_map candidates of
           Some actions \<Rightarrow> actions
         | None \<Rightarrow>
             (case first_similar permissions_map candidates of Some actions \<Rightarrow> actions | None \<Rightarrow> []))"

section \<open>The decision\<close>

fun remove_viewset :: "string \<Rightarrow> string" where
  "remove_viewset [] = []"
| "remove_viewset (c # cs) =
     (if prefix ''ViewSet'' (c # cs) then remove_viewset (drop (length ''ViewSet'') (c # cs))
      else c # remove_viewset cs)"

definition resource_of :: "view_class \<Rightarrow> string" where
  "resource_of view =
     (case vw_permission_resource view of Some r \<Rightarrow> r | None \<Rightarrow> remove_viewset (vw_name view))"

definition route_key_of :: "string \<Rightarrow> string option \<Rightarrow> string option" where
  "route_key_of module_name route_resource =
     map_option (\<lambda>r. module_name @ ''/'' @ r) route_resource"

definition route_owner_of :: "string option \<Rightarrow> (string \<times> string) option" where
  "route_owner_of route_key = (case route_key of None \<Rightarrow> None | Some k \<Rightarrow> map_of ROUTE_OWNERS k)"

definition resource_allowed :: "string \<Rightarrow> string \<Rightarrow> string option \<Rightarrow> bool" where
  "resource_allowed module_name permission_resource route_resource \<longleftrightarrow>
     (let keys = map normalize_permission_key (get_list MODULE_RESOURCE_ALLOWLIST module_name);
          route_key = route_key_of module_name route_resource
      in route_owner_of route_key \<noteq> None
         \<or> (\<exists>k. route_key = Some k \<and> (map_of INCLUDED_BY k \<noteq> None \<or> map_of LOOKUP_FOR k \<noteq> None))
         \<or> list_ex (\<lambda>c. normalize_permission_key c \<in> set keys)
             (resource_allowlist_candidates permission_resource route_resource))"

definition rstrip_slash :: "string \<Rightarrow> string" where
  "rstrip_slash path = rev (dropWhile (\<lambda>c. c = CHR ''/'') (rev path))"

definition required_actions :: "http_request \<Rightarrow> string \<Rightarrow> string list" where
  "required_actions request action =
     (if rq_method request = ''POST'' \<and> suffix ''/bulk-upload'' (rstrip_slash (rq_path request))
      then [''import'', ''add''] else [action])"

definition allowed_actions :: "permissions \<Rightarrow> string \<Rightarrow> string \<Rightarrow> string option \<Rightarrow> string list" where
  "allowed_actions permissions module_name permission_resource route_resource =
     (let permission_module = (case map_of MODULE_PERMISSION_ALIASES module_name of
            None \<Rightarrow> module_name | Some m \<Rightarrow> m)
      in remdups
        ((case route_owner_of (route_key_of module_name route_resource) of
            None \<Rightarrow> [] | Some owner \<Rightarrow> owner_actions permissions owner)
         @ resolve_allowed_actions (lookup_module_permissions permissions permission_module)
             permission_resource route_resource))"

text \<open>The grant check of an authenticated, non-exempt request.\<close>

definition check_grants ::
  "http_request \<Rightarrow> string \<Rightarrow> string \<Rightarrow> string option \<Rightarrow> request_user \<Rightarrow> permissions \<Rightarrow> refusal option" where
  "check_grants request module_name permission_resource route_resource user permissions =
     (if \<not> resource_allowed module_name permission_resource route_resource
      then Some (ResourceNotAllowed module_name permission_resource route_resource)
      else (case map_of HTTP_ACTION_MAP (rq_method request) of
          None \<Rightarrow> Some InvalidMethod
        | Some action \<Rightarrow>
            let required = required_actions request action
            in if is_oversight_role user \<and> (action = ''view'' \<or> module_name = ''complaint-ticket'')
               then None
               else
                 let allowed = allowed_actions permissions module_name permission_resource route_resource;
                     missing = filter (\<lambda>a. a \<notin> set allowed) required
                 in if missing = [] then None
                    else if length required = 1
                      \<and> hd missing \<in> set (dependency_actions permissions
                          (route_key_of module_name route_resource) (hd missing))
                    then None
                    else Some (MissingAction module_name permission_resource (hd missing) required)))"

definition exempt_action :: "view_class \<Rightarrow> http_request \<Rightarrow> bool" where
  "exempt_action view request \<longleftrightarrow>
     (case map_of (vw_actions view) (lower (rq_method request)) of
        None \<Rightarrow> False
      | Some action \<Rightarrow> action \<in> set (vw_exempt_actions view))"

definition is_public :: "http_request \<Rightarrow> bool" where
  "is_public request \<longleftrightarrow>
     rq_method request = ''OPTIONS''
     \<or> list_ex (\<lambda>p. prefix p (rq_path request)) PUBLIC_PREFIXES
     \<or> list_ex (\<lambda>p. prefix p (rq_path request)) PLATFORM_PREFIXES"

definition is_auth_only :: "http_request \<Rightarrow> bool" where
  "is_auth_only request \<longleftrightarrow>
     (rq_method request = ''POST'' \<and> rstrip_slash (rq_path request) @ ''/'' \<in> set COMMON_AUDIT_CREATE_PATHS)
     \<or> list_ex (\<lambda>p. prefix p (rq_path request)) AUTH_ONLY_PREFIXES"

text \<open>\<open>None\<close> lets the request through to its view.\<close>

definition process_view ::
  "(string \<Rightarrow> decoded) \<Rightarrow> accounts \<Rightarrow> (request_user \<Rightarrow> permissions) \<Rightarrow> instant \<Rightarrow> http_request
     \<Rightarrow> view_class option \<Rightarrow> session_db \<Rightarrow> refusal option \<times> session_db" where
  "process_view decode db resolve now request view sessions =
     (if is_public request then (None, sessions)
      else if is_auth_only request then
        (case authenticate_request decode db now request sessions of
           (Inl e, sessions') \<Rightarrow> (Some e, sessions')
         | (Inr u, sessions') \<Rightarrow> (None, sessions'))
      else (case module_from_path (rq_path request) of
          None \<Rightarrow> (None, sessions)
        | Some module_name \<Rightarrow>
            (case authenticate_request decode db now request sessions of
               (Inl e, sessions') \<Rightarrow> (Some e, sessions')
             | (Inr u, sessions') \<Rightarrow>
                 (if ru_is_superuser u then None
                  else case view of
                    None \<Rightarrow> None
                  | Some v \<Rightarrow>
                      if exempt_action v request then None
                      else check_grants request module_name (resource_of v)
                             (route_resource_from_path (rq_path request) module_name) u (resolve u),
                  sessions'))))"

section \<open>No request is let through by accident\<close>

definition needs_user :: "http_request \<Rightarrow> bool" where
  "needs_user request \<longleftrightarrow>
     \<not> is_public request \<and> (is_auth_only request \<or> module_from_path (rq_path request) \<noteq> None)"

lemma process_view_auth:
  assumes "needs_user request"
    and "authenticate_request decode db now request sessions = (Inl e, sessions')"
  shows "process_view decode db resolve now request view sessions = (Some e, sessions')"
  using assms by (auto simp: process_view_def needs_user_def)

text \<open>A request to an auth-only path or a protected module reaches its view only as an
  authenticated user; every failure to authenticate is answered with its refusal.\<close>
theorem protected_needs_authentication:
  assumes "needs_user request"
    and "process_view decode db resolve now request view sessions = (None, sessions')"
  shows "\<exists>u. authenticate_request decode db now request sessions = (Inr u, sessions')"
proof (cases "authenticate_request decode db now request sessions")
  case (Pair result rest)
  show ?thesis
  proof (cases result)
    case (Inl e)
    with Pair have "authenticate_request decode db now request sessions = (Inl e, rest)" by simp
    from process_view_auth [OF assms(1) this] assms(2) show ?thesis by simp
  next
    case (Inr u)
    with Pair assms show ?thesis
      by (auto simp: process_view_def needs_user_def split: if_splits)
  qed
qed

text \<open>C9: Once a session is closed, no token of it opens a protected view again, through whatever
  further logouts, heartbeats, requests and sweeps: every such request is answered 401.\<close>
theorem closed_session_locks_out:
  assumes "valid_sessions sessions" and "session_closed audit_id sessions" and "audit_id \<noteq> []"
    and "rq_authorization request = Some auth" and "prefix ''Bearer '' auth"
    and "decode (bearer_token auth) = Payload payload"
    and "tp_login_audit_id payload = Some audit_id" and "needs_user request"
  shows "\<exists>e sessions'. process_view decode db resolve now request view (fold session_step es sessions)
       = (Some e, sessions') \<and> status_code e = 401"
proof -
  let ?sessions = "fold session_step es sessions"
  have "tp_login_audit_id (token_payload.truncate payload) = Some audit_id"
    using assms(7) by (simp add: token_payload.truncate_def)
  from closed_stays_refused [OF assms(1-3) this, of now es]
  obtain msg rest where "validate_session now (token_payload.truncate payload) ?sessions = (Some msg, rest)"
    by (metis surj_pair fst_conv)
  with assms(4-6) have "authenticate_request decode db now request ?sessions = (Inl (SessionOver msg), rest)"
    by (simp add: authenticate_request_def)
  from process_view_auth [OF assms(8) this] show ?thesis by (simp add: status_code_def)
qed

section \<open>No write without a grant\<close>

text \<open>Names of modules and screens are compared without case and punctuation.\<close>

definition same_name :: "string \<Rightarrow> string \<Rightarrow> bool" where
  "same_name a b \<longleftrightarrow> normalize_permission_key a = normalize_permission_key b"

text \<open>A screen names a resource: by the segment of the route, the resource of the view or one of its aliases,
  in the singular or the plural.\<close>

definition names_resource :: "string \<Rightarrow> string option \<Rightarrow> string \<Rightarrow> bool" where
  "names_resource resource route page \<longleftrightarrow>
     (\<exists>c. (route = Some c \<or> c = resource \<or> c \<in> set (get_list RESOURCE_PERMISSION_ALIASES resource)) \<and> c \<noteq> []
        \<and> same_resource (normalize_permission_key page) (normalize_permission_key c))"

text \<open>
  The screens whose grants open a route of a module: the screen that owns the route, a screen of the module itself
  (customers and process have another name there) that names the resource, and a screen that includes the route.
\<close>

definition opens_route :: "string \<Rightarrow> string \<Rightarrow> string option \<Rightarrow> string \<Rightarrow> string \<Rightarrow> bool" where
  "opens_route m resource route key page \<longleftrightarrow>
     (\<exists>owner. route_owner_of (route_key_of m route) = Some owner \<and> same_name key (fst owner) \<and> same_name page (snd owner))
     \<or> same_name key (case map_of MODULE_PERMISSION_ALIASES m of None \<Rightarrow> m | Some n \<Rightarrow> n) \<and> names_resource resource route page
     \<or> (\<exists>(owner, d) \<in> set SCREEN_DEPENDENCIES. (\<exists>r. route_key_of m route = Some r \<and> r \<in> set (dep_includes d))
          \<and> same_name key (fst owner) \<and> same_name page (snd owner))"

text \<open>An action is granted on a screen of the given kind.\<close>

definition granted_on :: "permissions \<Rightarrow> string \<Rightarrow> (string \<Rightarrow> string \<Rightarrow> bool) \<Rightarrow> bool" where
  "granted_on permissions a P \<longleftrightarrow>
     (\<exists>key screens page actions. (key, screens) \<in> set permissions \<and> (page, actions) \<in> set screens \<and> a \<in> set actions
        \<and> P key page)"

lemma granted_on_mono: "granted_on permissions a P \<Longrightarrow> (\<And>key page. P key page \<Longrightarrow> Q key page) \<Longrightarrow> granted_on permissions a Q"
  unfolding granted_on_def by blast

lemma lookup_module_in:
  "lookup_module_permissions permissions m = [] \<or>
     (\<exists>key. (key, lookup_module_permissions permissions m) \<in> set permissions \<and> same_name key m)"
  by (auto simp: lookup_module_permissions_def same_name_def split: option.split dest: map_of_SomeD find_in)

lemma granted_in_module:
  assumes "(page, actions) \<in> set (lookup_module_permissions permissions m)" and "a \<in> set actions" and "Q page"
  shows "granted_on permissions a (\<lambda>key page. same_name key m \<and> Q page)"
  using lookup_module_in [of permissions m] assms unfolding granted_on_def by fastforce

lemma owner_actions_granted:
  assumes "a \<in> set (owner_actions permissions owner)"
  shows "granted_on permissions a (\<lambda>key page. same_name key (fst owner) \<and> same_name page (snd owner))"
proof -
  let ?screens = "lookup_module_permissions permissions (fst owner)"
  have "owner_actions permissions owner = []
      \<or> (\<exists>page. (page, owner_actions permissions owner) \<in> set ?screens \<and> same_name page (snd owner))"
    by (auto simp: owner_actions_def Let_def same_name_def split: option.split dest: map_of_SomeD find_in)
  with assms show ?thesis by (auto intro: granted_in_module)
qed

lemma first_granted_in: "first_granted screens cs = Some actions \<Longrightarrow> \<exists>c\<in>set cs. (c, actions) \<in> set screens"
  by (induction cs) (auto split: option.splits dest: map_of_SomeD)

lemma first_similar_in: "first_similar screens cs = Some actions \<Longrightarrow>
   \<exists>c\<in>set cs. \<exists>key. (key, actions) \<in> set screens \<and> same_resource (normalize_permission_key key) (normalize_permission_key c)"
  by (induction cs) (auto split: option.splits dest: find_in)

lemma resolve_allowed_granted:
  assumes "a \<in> set (resolve_allowed_actions (lookup_module_permissions permissions m) r route)"
  shows "granted_on permissions a (\<lambda>key page. same_name key m \<and> names_resource r route page)"
proof -
  let ?screens = "lookup_module_permissions permissions m"
  let ?cs = "filter (\<lambda>c. c \<noteq> []) ((case route of None \<Rightarrow> [] | Some r \<Rightarrow> [r]) @ [r] @ get_list RESOURCE_PERMISSION_ALIASES r)"
  have named: "names_resource r route key"
    if "c \<in> set ?cs" "same_resource (normalize_permission_key key) (normalize_permission_key c)" for c key
    using that unfolding names_resource_def by (intro exI [of _ c]) (auto split: option.splits if_splits)
  have same: "same_resource x x" for x by (simp add: same_resource_def)
  have "resolve_allowed_actions ?screens r route = [] \<or>
      (\<exists>page. (page, resolve_allowed_actions ?screens r route) \<in> set ?screens \<and> names_resource r route page)"
  proof (cases "first_granted ?screens ?cs")
    case (Some actions)
    with first_granted_in [OF Some] named same show ?thesis unfolding resolve_allowed_actions_def Let_def by force
  next
    case None
    show ?thesis
    proof (cases "first_similar ?screens ?cs")
      case (Some actions)
      with None first_similar_in [OF Some] named show ?thesis unfolding resolve_allowed_actions_def Let_def by force
    qed (use None in \<open>simp add: resolve_allowed_actions_def Let_def\<close>)
  qed
  with assms show ?thesis by (auto intro: granted_in_module)
qed

lemma allowed_actions_granted:
  assumes "a \<in> set (allowed_actions permissions m r route)"
  shows "granted_on permissions a (opens_route m r route)"
  using assms unfolding allowed_actions_def Let_def set_remdups set_append Un_iff
proof
  assume "a \<in> set (case route_owner_of (route_key_of m route) of None \<Rightarrow> [] | Some owner \<Rightarrow> owner_actions permissions owner)"
  then obtain owner where "route_owner_of (route_key_of m route) = Some owner" "a \<in> set (owner_actions permissions owner)"
    by (cases "route_owner_of (route_key_of m route)") auto
  with owner_actions_granted [OF this(2)] show ?thesis by (elim granted_on_mono) (auto simp: opens_route_def)
next
  assume "a \<in> set (resolve_allowed_actions (lookup_module_permissions permissions
      (case map_of MODULE_PERMISSION_ALIASES m of None \<Rightarrow> m | Some m \<Rightarrow> m)) r route)"
  from resolve_allowed_granted [OF this] show ?thesis by (elim granted_on_mono) (auto simp: opens_route_def)
qed

lemma dependency_actions_iff:
  "a \<in> set (dependency_actions permissions (Some key) a) \<longleftrightarrow>
     (\<exists>(owner, d) \<in> set SCREEN_DEPENDENCIES. key \<in> set (dep_includes d)
        \<and> a \<in> set (owner_actions permissions owner))
     \<or> (a = ''view'' \<and> (\<exists>(owner, d) \<in> set SCREEN_DEPENDENCIES. key \<in> set (dep_lookups d)
        \<and> owner_actions permissions owner \<noteq> []))"
proof -
  have listed: "set (get_list (index_dependencies kind deps) key) =
      {owner. \<exists>d. (owner, d) \<in> set deps \<and> key \<in> set (kind d)}" for kind deps
    using listed_index [of kind deps key]
    by (force simp: get_list_def listed_def dependents_def set_replicate_conv_if count_list_0_iff
        split: if_splits)
  show ?thesis
    unfolding dependency_actions_def INCLUDED_BY_def LOOKUP_FOR_def
    by (auto simp: listed list_ex_iff) blast
qed

text \<open>A page's dependencies give its routes the page's own actions on an included child, and
  on a lookup nothing but reading, for which any grant on the page is enough.\<close>
theorem dependency_grants:
  "a \<in> set (dependency_actions permissions (Some key) a) \<longleftrightarrow>
     (\<exists>(owner, d) \<in> set SCREEN_DEPENDENCIES. key \<in> set (dep_includes d)
        \<and> a \<in> set (owner_actions permissions owner))
     \<or> (a = ''view'' \<and> (\<exists>(owner, d) \<in> set SCREEN_DEPENDENCIES. key \<in> set (dep_lookups d)
        \<and> owner_actions permissions owner \<noteq> []))"
  by (rule dependency_actions_iff)

lemma dependency_write_granted:
  assumes "a \<in> set (dependency_actions permissions (route_key_of m route) a)" and "a \<noteq> ''view''"
  shows "granted_on permissions a (opens_route m r route)"
proof -
  obtain key where key: "route_key_of m route = Some key"
    using assms(1) by (cases "route_key_of m route") (auto simp: dependency_actions_def)
  with assms obtain owner d where d: "(owner, d) \<in> set SCREEN_DEPENDENCIES" "key \<in> set (dep_includes d)"
    "a \<in> set (owner_actions permissions owner)"
    using dependency_actions_iff [of a permissions key] by auto
  from owner_actions_granted [OF d(3)] show ?thesis
    by (rule granted_on_mono) (use d(1,2) key in \<open>auto simp: opens_route_def\<close>)
qed

text \<open>The request is checked against the grants of its user.\<close>

definition checked_request ::
  "http_request \<Rightarrow> view_class option \<Rightarrow> request_user \<Rightarrow> bool" where
  "checked_request request view u \<longleftrightarrow>
     \<not> is_public request \<and> \<not> is_auth_only request \<and> \<not> ru_is_superuser u
     \<and> (case view of None \<Rightarrow> False | Some v \<Rightarrow> \<not> exempt_action v request)"

lemma process_view_checked:
  assumes "process_view decode db resolve now request view sessions = (None, sessions')"
    and "module_from_path (rq_path request) = Some m"
    and "authenticate_request decode db now request sessions = (Inr u, sessions')"
    and "checked_request request view u"
  shows "\<exists>v. view = Some v \<and> check_grants request m (resource_of v)
     (route_resource_from_path (rq_path request) m) u (resolve u) = None"
  using assms by (auto simp: process_view_def checked_request_def split: option.splits if_splits)

lemma check_grants_passed:
  assumes "check_grants request m r route u permissions = None"
    and "map_of HTTP_ACTION_MAP (rq_method request) = Some action"
    and "action \<noteq> ''view''" and "\<not> (is_oversight_role u \<and> m = ''complaint-ticket'')"
  shows "set (required_actions request action) \<subseteq> set (allowed_actions permissions m r route)
     \<or> (required_actions request action = [action]
         \<and> action \<in> set (dependency_actions permissions (route_key_of m route) action))"
proof -
  let ?missing = "filter (\<lambda>a. a \<notin> set (allowed_actions permissions m r route)) (required_actions request action)"
  from assms have "?missing = [] \<or> (length (required_actions request action) = 1
      \<and> hd ?missing \<in> set (dependency_actions permissions (route_key_of m route) (hd ?missing)))"
    by (auto simp: check_grants_def Let_def split: if_splits)
  then show ?thesis
    by (auto simp: required_actions_def filter_empty_conv split: if_splits)
qed

lemma passed_write_granted:
  assumes "process_view decode db resolve now request view sessions = (None, sessions')"
    and "module_from_path (rq_path request) = Some m"
    and "authenticate_request decode db now request sessions = (Inr u, sessions')"
    and "checked_request request view u"
    and "map_of HTTP_ACTION_MAP (rq_method request) = Some action" and "action \<noteq> ''view''"
    and "\<not> (is_oversight_role u \<and> m = ''complaint-ticket'')"
    and "a \<in> set (required_actions request action)"
  shows "\<exists>v. view = Some v
    \<and> granted_on (resolve u) a (opens_route m (resource_of v) (route_resource_from_path (rq_path request) m))"
proof -
  from process_view_checked [OF assms(1-4)] obtain v where v: "view = Some v"
    "check_grants request m (resource_of v) (route_resource_from_path (rq_path request) m) u (resolve u) = None"
    by blast
  from check_grants_passed [OF v(2) assms(5-7)] assms(6,8) have
    "granted_on (resolve u) a (opens_route m (resource_of v) (route_resource_from_path (rq_path request) m))"
    by (auto intro: allowed_actions_granted dependency_write_granted)
  with v(1) show ?thesis by blast
qed

text \<open>C5: A POST, PUT, PATCH or DELETE to a protected module that reaches its view was granted on the right screen. The
  request is not public, its path is not auth-only, its user is no superuser, the view does not exempt it, and it is
  not a complaint call of an oversight role; then for every action it needs (the action of the method, import and add
  for a bulk upload) the permissions of the user grant that action on a screen that opens the route: the screen that
  owns it, a screen of that very module that names the resource, or a screen that includes it.\<close>
theorem no_write_without_grant:
  assumes "process_view decode db resolve now request view sessions = (None, sessions')"
    and "module_from_path (rq_path request) = Some m"
    and "authenticate_request decode db now request sessions = (Inr u, sessions')"
    and "checked_request request view u"
    and "map_of HTTP_ACTION_MAP (rq_method request) = Some action" and "action \<noteq> ''view''"
    and "\<not> (is_oversight_role u \<and> m = ''complaint-ticket'')"
    and "a \<in> set (required_actions request action)"
  shows "\<exists>v. view = Some v
    \<and> granted_on (resolve u) a (opens_route m (resource_of v) (route_resource_from_path (rq_path request) m))"
  by (rule passed_write_granted [OF assms])

text \<open>A bulk upload needs both the import and the add grant of the resource itself; a grant
  borrowed from a page that depends on the route never allows it.\<close>
theorem bulk_upload_needs_both_grants:
  assumes "process_view decode db resolve now request view sessions = (None, sessions')"
    and "module_from_path (rq_path request) = Some m"
    and "authenticate_request decode db now request sessions = (Inr u, sessions')"
    and "checked_request request view u"
    and "rq_method request = ''POST''" and "suffix ''/bulk-upload'' (rstrip_slash (rq_path request))"
    and "\<not> (is_oversight_role u \<and> m = ''complaint-ticket'')"
  shows "\<exists>v. view = Some v \<and> {''import'', ''add''} \<subseteq> set (allowed_actions (resolve u) m (resource_of v)
           (route_resource_from_path (rq_path request) m))"
proof -
  from process_view_checked [OF assms(1-4)] obtain v where "view = Some v"
    "check_grants request m (resource_of v) (route_resource_from_path (rq_path request) m) u (resolve u) = None"
    by blast
  moreover have "map_of HTTP_ACTION_MAP (rq_method request) = Some ''add''"
    by (simp add: assms(5) HTTP_ACTION_MAP_def)
  ultimately show ?thesis
    using check_grants_passed [of request m "resource_of v" _ u "resolve u" "''add''"] assms(5-7)
    by (auto simp: required_actions_def)
qed

text \<open>The registration and staff-profile groups stand in the auth-only table, but the public
  table, checked first, lists them too: their requests pass without any token.\<close>
theorem public_shadows_auth_only:
  assumes "api \<in> set API_AUTH_PREFIXES" and "sub \<in> set PUBLIC_MOBILE_SUFFIXES"
    and "prefix (api @ sub) (rq_path request)"
  shows "api @ sub \<in> set AUTH_ONLY_PREFIXES
     \<and> process_view decode db resolve now request view sessions = (None, sessions)"
proof -
  have "set PUBLIC_MOBILE_SUFFIXES \<subseteq> set AUTH_ONLY_SUFFIXES"
    by (simp add: PUBLIC_MOBILE_SUFFIXES_def AUTH_ONLY_SUFFIXES_def)
  with assms have "api @ sub \<in> set AUTH_ONLY_PREFIXES" "api @ sub \<in> set PUBLIC_PREFIXES"
    by (auto simp: AUTH_ONLY_PREFIXES_def PUBLIC_PREFIXES_def PUBLIC_MOBILE_PREFIXES_def with_suffixes_def)
  with assms(3) show ?thesis by (auto simp: process_view_def is_public_def list_ex_iff)
qed

section \<open>A clerk who may add and import wards\<close>

definition ward_clerk :: request_user where
  "ward_clerk = \<lparr>ru_id = ''U1'', ru_is_superuser = False, ru_staffusertype_name = Some ''Clerk'',
     ru_governmentusertype_name = None, ru_contractorusertype_name = None\<rparr>"

definition ward_accounts :: accounts where
  "ward_accounts = \<lparr>ac_staff = [''U1'' \<mapsto> ward_clerk], ac_customer = Map.empty,
     ac_panchayat_leader = Map.empty, ac_district_leader = Map.empty, ac_state_leader = Map.empty,
     ac_platform = Map.empty, ac_platform_pk = Map.empty\<rparr>"

definition ward_token :: auth_payload where
  "ward_token = \<lparr>tp_login_audit_id = Some ''LOGINAUDIT-1'', tp_idle_timeout = None,
     tp_unique_id = Some ''U1'', tp_iat = Some 0, ap_user_id = None\<rparr>"

definition ward_view :: view_class where
  "ward_view = \<lparr>vw_name = ''WardViewSet'', vw_permission_resource = None, vw_exempt_actions = [],
     vw_actions = [(''post'', ''bulk_upload'')]\<rparr>"

definition ward_upload :: http_request where
  "ward_upload = \<lparr>rq_method = ''POST'', rq_path = ''/api/v1/masters/wards/bulk-upload/'',
     rq_authorization = Some ''Bearer t''\<rparr>"

definition ward_permissions :: permissions where
  "ward_permissions = [(''masters'', [(''wards'', [''view'', ''add'', ''import''])])]"

lemma ward_paths:
  "module_from_path (rq_path ward_upload) = Some ''masters''"
  "route_resource_from_path (rq_path ward_upload) ''masters'' = Some ''wards''"
  "\<not> is_public ward_upload" "\<not> is_auth_only ward_upload"
  "suffix ''/bulk-upload'' (rstrip_slash (rq_path ward_upload))"
proof -
  have split: "split_path (rq_path ward_upload) = [''api'', ''v1'', ''masters'', ''wards'', ''bulk-upload'']"
    by code_simp
  have "\<not> is_version ''masters''" "is_version ''v1''" by code_simp+
  moreover have "''masters'' \<in> fst ` set MODULE_RESOURCE_ALLOWLIST"
    by (simp add: MODULE_RESOURCE_ALLOWLIST_def)
  then have "''masters'' \<in> set PROTECTED_MODULES" by (simp add: PROTECTED_MODULES_def)
  ultimately show "module_from_path (rq_path ward_upload) = Some ''masters''"
    by (simp add: module_from_path_def split)
  from split show "route_resource_from_path (rq_path ward_upload) ''masters'' = Some ''wards''"
    by (simp add: route_resource_from_path_def)
  show "\<not> is_public ward_upload" "\<not> is_auth_only ward_upload"
    "suffix ''/bulk-upload'' (rstrip_slash (rq_path ward_upload))"
    by code_simp+
qed

lemma ward_authenticated:
  "authenticate_request (\<lambda>t. Payload ward_token) ward_accounts 0 ward_upload sample_sessions
     = (Inr ward_clerk, snd (validate_session 0 (token_payload.truncate ward_token) sample_sessions))"
proof -
  have "fst (validate_session 0 (token_payload.truncate ward_token) sample_sessions) = None"
    unfolding validate_session_verdict [OF sample_sessions_valid]
    by (simp add: ward_token_def token_payload.truncate_def row_verdict_def sample_sessions_def
        find_audit_def sample_login_def truthy_int_def)
  then show ?thesis
    by (cases "validate_session 0 (token_payload.truncate ward_token) sample_sessions")
      (simp add: authenticate_request_def ward_upload_def ward_token_def find_account_def ward_accounts_def)
qed

lemma ward_checked: "checked_request ward_upload (Some ward_view) ward_clerk"
  using ward_paths(3,4)
  by (simp add: checked_request_def ward_clerk_def ward_view_def exempt_action_def split: option.split)

lemma ward_no_oversight: "\<not> (is_oversight_role ward_clerk \<and> ''masters'' = ''complaint-ticket'')"
  by simp

lemma ward_upload_passes:
  "process_view (\<lambda>t. Payload ward_token) ward_accounts (\<lambda>u. ward_permissions) 0 ward_upload
     (Some ward_view) sample_sessions
   = (None, snd (validate_session 0 (token_payload.truncate ward_token) sample_sessions))"
proof -
  have resource: "resource_of ward_view = ''Ward''" by code_simp
  have key: "normalize_permission_key ''Ward'' = ''ward''" by code_simp
  have "''Ward'' \<in> set (get_list MODULE_RESOURCE_ALLOWLIST ''masters'')" by code_simp
  moreover have "''Ward'' \<in> set (resource_allowlist_candidates ''Ward'' (Some ''wards''))"
    by (simp add: resource_allowlist_candidates_def)
  ultimately have "resource_allowed ''masters'' ''Ward'' (Some ''wards'')"
    by (auto simp: resource_allowed_def Let_def list_ex_iff)
  moreover have "lookup_module_permissions ward_permissions ''masters''
      = [(''wards'', [''view'', ''add'', ''import''])]"
    by (simp add: lookup_module_permissions_def ward_permissions_def)
  then have "{''import'', ''add''} \<subseteq> set (allowed_actions ward_permissions ''masters'' ''Ward'' (Some ''wards''))"
    by (simp add: allowed_actions_def MODULE_PERMISSION_ALIASES_def resolve_allowed_actions_def Let_def)
  ultimately have "check_grants ward_upload ''masters'' ''Ward'' (Some ''wards'') ward_clerk ward_permissions = None"
    using ward_paths(5)
    by (simp add: check_grants_def HTTP_ACTION_MAP_def required_actions_def ward_upload_def)
  then show ?thesis
    using ward_paths ward_authenticated ward_checked resource
    by (simp add: process_view_def checked_request_def)
qed

theorem protected_needs_authentication_witness:
  "\<exists>u. authenticate_request (\<lambda>t. Payload ward_token) ward_accounts 0 ward_upload sample_sessions
     = (Inr u, snd (validate_session 0 (token_payload.truncate ward_token) sample_sessions))"
  using protected_needs_authentication [OF _ ward_upload_passes] ward_paths
  by (simp add: needs_user_def)

theorem closed_session_locks_out_witness:
  "\<exists>e sessions'. process_view (\<lambda>t. Payload ward_token) ward_accounts (\<lambda>u. ward_permissions) 9 ward_upload
       (Some ward_view) (fold session_step [] (session_step (Logout SECOND (Some sample_token) None None) sample_sessions))
     = (Some e, sessions') \<and> status_code e = 401"
proof (rule closed_session_locks_out [where audit_id = "''LOGINAUDIT-1''" and payload = ward_token])
  let ?out = "session_step (Logout SECOND (Some sample_token) None None) sample_sessions"
  show "valid_sessions ?out" by (rule preserved_step [OF preserved_valid sample_sessions_valid])
  show "session_closed ''LOGINAUDIT-1'' ?out"
    by (simp add: sample_logout session_closed_def find_audit_def)
      (simp add: sample_login_def stamp_logout_def Let_def)
  show "prefix ''Bearer '' ''Bearer t''" by simp
  show "needs_user ward_upload" using ward_paths by (simp add: needs_user_def)
qed (simp_all add: ward_upload_def ward_token_def)

theorem no_write_without_grant_witness:
  "granted_on ward_permissions ''import'' (opens_route ''masters'' (resource_of ward_view) (Some ''wards''))"
proof -
  have "map_of HTTP_ACTION_MAP (rq_method ward_upload) = Some ''add''" by (simp add: ward_upload_def HTTP_ACTION_MAP_def)
  moreover have "''import'' \<in> set (required_actions ward_upload ''add'')"
    using ward_paths(5) by (simp add: required_actions_def) (simp add: ward_upload_def)
  ultimately show ?thesis
    using no_write_without_grant [OF ward_upload_passes ward_paths(1) ward_authenticated ward_checked _ _ ward_no_oversight]
      ward_paths(2) by fastforce
qed

theorem bulk_upload_needs_both_grants_witness:
  "{''import'', ''add''} \<subseteq> set (allowed_actions ward_permissions ''masters'' (resource_of ward_view)
     (route_resource_from_path (rq_path ward_upload) ''masters''))"
  using bulk_upload_needs_both_grants
    [OF ward_upload_passes ward_paths(1) ward_authenticated ward_checked _ ward_paths(5) ward_no_oversight]
  by (simp add: ward_upload_def)

theorem public_shadows_auth_only_witness:
  "process_view (\<lambda>t. InvalidToken) ward_accounts (\<lambda>u. []) 0
     \<lparr>rq_method = ''GET'', rq_path = ''/api/v1/register/7/'', rq_authorization = None\<rparr> None sample_sessions
   = (None, sample_sessions)"
  using public_shadows_auth_only [of "''/api/v1/''" "''register/''"
      "\<lparr>rq_method = ''GET'', rq_path = ''/api/v1/register/7/'', rq_authorization = None\<rparr>"]
  by (simp add: API_AUTH_PREFIXES_def PUBLIC_MOBILE_SUFFIXES_def)

end
