(* ===== verification/Background_Jobs.thy ===== *)
theory Background_Jobs
  imports Prelude "HOL-Library.Multiset"
begin

text \<open>
  Bulk uploads and Excel exports run as background jobs
  (\<open>app/services/background_jobs.py\<close> on the model \<open>BackgroundJob\<close>). A job row is created by a
  request, run by a Celery worker or by the waiting request itself, and read until it is
  finished. Several processes act on the same row, so the operations are split at their
  database statements: the claim and the mark-as-interrupted are one UPDATE each, and the
  result is saved when the execution returns.

  What the replayed request answers is the argument \<open>endpoint\<close> (the whole API behind Django's
  handler); writing and archiving the workbook is the argument \<open>archive\<close>.
\<close>

section \<open>Rows and JSON values\<close>

datatype json =
    JNull | JBool bool | JNum int | JStr string | JList "json list" | JObj "(string \<times> json) list"

definition json_get :: "json \<Rightarrow> string \<Rightarrow> json" where
  "json_get v key =
     (case v of JObj kvs \<Rightarrow> (case map_of kvs key of Some x \<Rightarrow> x | None \<Rightarrow> JNull) | _ \<Rightarrow> JNull)"

definition json_truthy :: "json \<Rightarrow> bool" where
  "json_truthy v =
     (case v of JNull \<Rightarrow> False | JBool b \<Rightarrow> b | JNum n \<Rightarrow> n \<noteq> 0 | JStr s \<Rightarrow> s \<noteq> []
      | JList xs \<Rightarrow> xs \<noteq> [] | JObj kvs \<Rightarrow> kvs \<noteq> [])"

datatype job_kind = KIND_BULK_UPLOAD | KIND_EXPORT
datatype job_status = STATUS_QUEUED | STATUS_PROCESSING | STATUS_COMPLETED | STATUS_FAILED

definition FINISHED_STATUSES :: "job_status list" where
  "FINISHED_STATUSES = [STATUS_COMPLETED, STATUS_FAILED]"

record job_row =
  jb_unique_id :: ident
  jb_kind :: job_kind
  jb_status :: job_status
  jb_owner :: string
  jb_path :: string
  jb_options :: json
  jb_file_name :: string
  jb_upload_content :: "string option"
  jb_result :: "json option"
  jb_error_message :: "string option"
  jb_started_at :: "int option"
  jb_finished_at :: "int option"

definition EXPORT_MAX_PAGES :: nat where "EXPORT_MAX_PAGES = 100"

section \<open>Replaying a request\<close>

text \<open>The query of the first page are the job's parameters, later pages follow the \<open>next\<close> link.\<close>

datatype replay_query = Params json | NextLink string
datatype replay_request = GetRows string replay_query | PostFile string string "string option"

type_synonym endpoint = "replay_request \<Rightarrow> string \<Rightarrow> nat \<times> json option"

text \<open>
  A failed execution is a \<open>JobError\<close>, whose message is shown to the user, or any other exception.
  \<open>py_str\<close> is Python's \<open>str\<close> on a JSON value.
\<close>

datatype job_failure = JobError string | OtherException

definition http_failed :: "nat \<Rightarrow> string" where
  "http_failed status = ''The request failed (HTTP '' @ show_nat status @ '').''"

definition replay ::
  "(json \<Rightarrow> string) \<Rightarrow> endpoint \<Rightarrow> replay_request \<Rightarrow> string \<Rightarrow> job_failure + json" where
  "replay py_str endpoint request auth_header =
     (let (status, decoded) = endpoint request auth_header;
          body = (case decoded of None \<Rightarrow> JNull | Some b \<Rightarrow> b)
      in if status = 401 then Inl (JobError ''Your session has expired. Please log in and try again.'')
         else if status = 403 then Inl (JobError ''You do not have permission to do this.'')
         else if status \<ge> 400 then
           let detail = (if json_truthy (json_get body ''error'') then json_get body ''error''
                         else json_get body ''detail'')
           in Inl (JobError (if json_truthy detail then py_str detail else http_failed status))
         else Inr body)"

definition run_bulk_upload ::
  "(json \<Rightarrow> string) \<Rightarrow> endpoint \<Rightarrow> job_row \<Rightarrow> string \<Rightarrow> job_failure + json" where
  "run_bulk_upload py_str endpoint job auth_header =
     (case replay py_str endpoint
             (PostFile (jb_path job) (jb_file_name job) (jb_upload_content job)) auth_header of
        Inl e \<Rightarrow> Inl e
      | Inr (JObj kvs) \<Rightarrow> Inr (JObj kvs)
      | Inr _ \<Rightarrow> Inl (JobError ''The upload endpoint returned an unexpected response.''))"

text \<open>\<open>url_path\<close> is the path of an absolute or relative URL (\<open>urlsplit(next_url).path\<close>).\<close>

definition after_host :: "string \<Rightarrow> string" where
  "after_host url =
     (let scheme = takeWhile (\<lambda>c. c \<noteq> CHR '':'') url; rest = drop (length scheme) url
      in if take 3 rest = ''://'' \<and> list_all (\<lambda>c. c \<notin> {CHR ''/'', CHR ''?'', CHR ''#''}) scheme
         then dropWhile (\<lambda>c. c \<notin> {CHR ''/'', CHR ''?'', CHR ''#''}) (drop 3 rest)
         else url)"

definition url_path :: "string \<Rightarrow> string" where
  "url_path url = takeWhile (\<lambda>c. c \<noteq> CHR ''?'' \<and> c \<noteq> CHR ''#'') (after_host url)"

fun fetch_pages ::
  "(json \<Rightarrow> string) \<Rightarrow> endpoint \<Rightarrow> string \<Rightarrow> nat \<Rightarrow> string \<Rightarrow> replay_query \<Rightarrow> json list \<Rightarrow> job_failure + json list" where
  "fetch_pages py_str endpoint auth_header 0 path query rows =
     Inl (JobError ''Too many rows to export. Narrow the filters and try again.'')"
| "fetch_pages py_str endpoint auth_header (Suc pages) path query rows =
     (case replay py_str endpoint (GetRows path query) auth_header of
        Inl e \<Rightarrow> Inl e
      | Inr (JList xs) \<Rightarrow> Inr (rows @ xs)
      | Inr (JObj kvs) \<Rightarrow>
          (case json_get (JObj kvs) ''results'' of
             JList xs \<Rightarrow>
               (case json_get (JObj kvs) ''next'' of
                  JStr url \<Rightarrow>
                    if url = [] then Inr (rows @ xs)
                    else fetch_pages py_str endpoint auth_header pages (url_path url) (NextLink url) (rows @ xs)
                | other \<Rightarrow> if json_truthy other then Inl OtherException else Inr (rows @ xs))
           | _ \<Rightarrow> Inl (JobError ''The list endpoint returned an unexpected response.''))
      | Inr _ \<Rightarrow> Inl (JobError ''The list endpoint returned an unexpected response.''))"

definition fetch_all_rows ::
  "(json \<Rightarrow> string) \<Rightarrow> endpoint \<Rightarrow> string \<Rightarrow> string \<Rightarrow> json \<Rightarrow> job_failure + json list" where
  "fetch_all_rows py_str endpoint auth_header path params =
     fetch_pages py_str endpoint auth_header EXPORT_MAX_PAGES path (Params params) []"

text \<open>\<open>archive\<close> builds the workbook of the rows and stores it: its url and file name, or failure.\<close>

definition run_export ::
  "(json \<Rightarrow> string) \<Rightarrow> (json list \<Rightarrow> job_row \<Rightarrow> (string \<times> string) option) \<Rightarrow> endpoint \<Rightarrow> job_row \<Rightarrow> string
     \<Rightarrow> job_failure + json" where
  "run_export py_str archive endpoint job auth_header =
     (case fetch_all_rows py_str endpoint auth_header (jb_path job) (json_get (jb_options job) ''params'') of
        Inl e \<Rightarrow> Inl e
      | Inr rows \<Rightarrow>
          if rows = [] then Inr (JObj [(''row_count'', JNum 0)])
          else (case archive rows job of
              None \<Rightarrow> Inl (JobError ''The exported file could not be saved. Please try again.'')
            | Some (url, name) \<Rightarrow>
                Inr (JObj [(''row_count'', JNum (int (length rows))), (''file_url'', JStr url),
                           (''stored_path'', JStr (''audit_attachments/'' @ name))])))"

section \<open>Running a job\<close>

definition execute_job ::
  "(json \<Rightarrow> string) \<Rightarrow> (json list \<Rightarrow> job_row \<Rightarrow> (string \<times> string) option) \<Rightarrow> endpoint \<Rightarrow> job_row \<Rightarrow> string
     \<Rightarrow> job_failure + json" where
  "execute_job py_str archive endpoint job auth_header =
     (if jb_kind job = KIND_EXPORT then run_export py_str archive endpoint job auth_header
      else run_bulk_upload py_str endpoint job auth_header)"

definition find_job :: "job_row list \<Rightarrow> ident \<Rightarrow> job_row option" where
  "find_job jobs uid = find (\<lambda>j. jb_unique_id j = uid) jobs"

definition update_jobs :: "ident \<Rightarrow> (job_row \<Rightarrow> job_row) \<Rightarrow> job_row list \<Rightarrow> job_row list" where
  "update_jobs uid f = map (\<lambda>j. if jb_unique_id j = uid then f j else j)"

text \<open>The two UPDATE statements at the start of \<open>run_job\<close>; \<open>True\<close> when the job was claimed.\<close>

definition claim_job :: "int \<Rightarrow> ident \<Rightarrow> job_row list \<Rightarrow> bool \<times> job_row list" where
  "claim_job now uid jobs =
     (if list_ex (\<lambda>j. jb_unique_id j = uid \<and> jb_status j = STATUS_QUEUED) jobs
      then (True, update_jobs uid (\<lambda>j. if jb_status j = STATUS_QUEUED
              then j\<lparr>jb_status := STATUS_PROCESSING, jb_started_at := Some now\<rparr> else j) jobs)
      else (False, update_jobs uid (\<lambda>j. if jb_status j = STATUS_PROCESSING
              then j\<lparr>jb_status := STATUS_FAILED,
                     jb_error_message := Some ''The job was interrupted. Check the data before trying again.'',
                     jb_finished_at := Some now\<rparr> else j) jobs))"

text \<open>The save at the end: the columns of the loaded instance \<open>job\<close> over the stored row.\<close>

definition finish_job :: "int \<Rightarrow> job_row \<Rightarrow> job_failure + json \<Rightarrow> job_row list \<Rightarrow> job_row list" where
  "finish_job now job outcome =
     (let saved =
        (case outcome of
           Inr v \<Rightarrow> job\<lparr>jb_result := Some v, jb_status := STATUS_COMPLETED\<rparr>
         | Inl (JobError e) \<Rightarrow> job\<lparr>jb_status := STATUS_FAILED, jb_error_message := Some e\<rparr>
         | Inl OtherException \<Rightarrow> job\<lparr>jb_status := STATUS_FAILED,
             jb_error_message := Some ''Something went wrong. Please try again.''\<rparr>)
      in update_jobs (jb_unique_id job) (\<lambda>row. row\<lparr>jb_status := jb_status saved,
           jb_result := jb_result saved, jb_error_message := jb_error_message saved,
           jb_upload_content := None, jb_finished_at := Some now\<rparr>))"

text \<open>\<open>run_job\<close> when no other process interferes.\<close>

definition run_job :: "(job_row \<Rightarrow> job_failure + json) \<Rightarrow> int \<Rightarrow> int \<Rightarrow> ident \<Rightarrow> job_row list \<Rightarrow> job_row list" where
  "run_job execute now later uid jobs =
     (let (claimed, jobs') = claim_job now uid jobs
      in if \<not> claimed then jobs'
         else case find_job jobs' uid of
           None \<Rightarrow> jobs'
         | Some job \<Rightarrow> finish_job later job (execute job) jobs')"

section \<open>Starting and waiting\<close>

text \<open>The cached answer of the worker ping; \<open>ping\<close> is \<open>None\<close> when the broker is unreachable.\<close>

definition workers_available ::
  "bool \<Rightarrow> int \<Rightarrow> bool option \<Rightarrow> (bool \<times> int) option \<Rightarrow> bool \<times> (bool \<times> int) option" where
  "workers_available always_eager now ping cached =
     (if always_eager then (True, cached)
      else case (case cached of None \<Rightarrow> None | Some (alive, expires) \<Rightarrow> if now < expires then Some alive else None) of
        Some alive \<Rightarrow> (alive, cached)
      | None \<Rightarrow>
          let alive = (case ping of None \<Rightarrow> False | Some replied \<Rightarrow> replied)
          in (alive, Some (alive, now + (if alive then 30 else 5))))"

definition start_job ::
  "ident \<Rightarrow> job_kind \<Rightarrow> string \<Rightarrow> string \<Rightarrow> string \<Rightarrow> string option \<Rightarrow> json \<Rightarrow> job_row" where
  "start_job uid kind owner path file_name content options =
     \<lparr>jb_unique_id = uid, jb_kind = kind, jb_status = STATUS_QUEUED, jb_owner = owner, jb_path = path,
      jb_options = options, jb_file_name = file_name, jb_upload_content = content, jb_result = None,
      jb_error_message = None, jb_started_at = None, jb_finished_at = None\<rparr>"

datatype poll_decision = Answer | RunHere | GiveUp | KeepWaiting

text \<open>One turn of the polling loop; times in milliseconds.\<close>

definition poll_decision :: "int \<Rightarrow> int \<Rightarrow> int \<Rightarrow> job_row \<Rightarrow> poll_decision" where
  "poll_decision pickup wait elapsed job =
     (if jb_status job \<in> set FINISHED_STATUSES then Answer
      else if jb_status job = STATUS_QUEUED \<and> elapsed \<ge> pickup then RunHere
      else if elapsed \<ge> wait then GiveUp
      else KeepWaiting)"

definition POLL_INTERVAL :: int where "POLL_INTERVAL = 200"

text \<open>
  The loop of \<open>wait_for_job\<close>: \<open>poll n\<close> is the time elapsed at the n-th turn and the row it reads
  (other processes change it). The result is the turn that ended the loop and how.
\<close>

fun wait_loop :: "int \<Rightarrow> int \<Rightarrow> (nat \<Rightarrow> int \<times> job_row) \<Rightarrow> nat \<Rightarrow> nat \<Rightarrow> (nat \<times> poll_decision) option" where
  "wait_loop pickup wait poll 0 n = None"
| "wait_loop pickup wait poll (Suc fuel) n =
     (let (elapsed, job) = poll n; d = poll_decision pickup wait elapsed job
      in if d = KeepWaiting then wait_loop pickup wait poll fuel (Suc n) else Some (n, d))"

definition wait_for_job ::
  "bool \<Rightarrow> int \<Rightarrow> int \<Rightarrow> (nat \<Rightarrow> int \<times> job_row) \<Rightarrow> nat \<Rightarrow> (nat \<times> poll_decision) option" where
  "wait_for_job workers pickup_setting wait poll fuel =
     wait_loop (if workers then pickup_setting else 0) wait poll fuel 0"

datatype upload_response =
    ImportHere | CsvRequired | UploadResult json | UploadError "string option" | StillProcessing job_row

text \<open>The answer of \<open>run_in_background\<close>, from the job as the wait left it.\<close>

definition upload_answer :: "job_row \<Rightarrow> upload_response" where
  "upload_answer job =
     (if jb_status job = STATUS_COMPLETED then UploadResult (case jb_result job of None \<Rightarrow> JNull | Some r \<Rightarrow> r)
      else if jb_status job = STATUS_FAILED then UploadError (jb_error_message job)
      else StillProcessing job)"

text \<open>\<open>signed_path\<close> is the path in a valid, unexpired signature of the request, if it has one.\<close>

definition is_worker_replay :: "string option \<Rightarrow> string \<Rightarrow> bool" where
  "is_worker_replay signed_path request_path \<longleftrightarrow> signed_path = Some request_path"

section \<open>Several processes\<close>

text \<open>
  The stored rows, the loaded instances of the executions in progress (web processes and
  workers alike), and the executions started so far, latest first.
\<close>

record job_system =
  js_jobs :: "job_row list"
  js_running :: "job_row multiset"
  js_log :: "ident list"

inductive job_step :: "job_system \<Rightarrow> job_system \<Rightarrow> bool" where
  create: "\<forall>j\<in>set (js_jobs s). jb_unique_id j \<noteq> uid \<Longrightarrow>
     job_step s (s\<lparr>js_jobs := js_jobs s @ [start_job uid kind owner path file_name content options]\<rparr>)"
| claim: "claim_job now uid (js_jobs s) = (True, jobs) \<Longrightarrow> find_job jobs uid = Some job \<Longrightarrow>
     job_step s (s\<lparr>js_jobs := jobs, js_running := add_mset job (js_running s), js_log := uid # js_log s\<rparr>)"
| refuse: "claim_job now uid (js_jobs s) = (False, jobs) \<Longrightarrow> job_step s (s\<lparr>js_jobs := jobs\<rparr>)"
| finish: "job \<in># js_running s \<Longrightarrow>
     job_step s (s\<lparr>js_jobs := finish_job now job outcome (js_jobs s), js_running := js_running s - {#job#}\<rparr>)"

inductive job_reachable :: "job_system \<Rightarrow> bool" where
  start: "job_reachable \<lparr>js_jobs = [], js_running = {#}, js_log = []\<rparr>"
| step: "job_reachable s \<Longrightarrow> job_step s s' \<Longrightarrow> job_reachable s'"

inductive_cases job_stepE: "job_step s s'"

text \<open>Every started job has a row that is no longer queued, was started once, and every row that
  is neither queued nor started never left the queue.\<close>

definition job_invariant :: "job_system \<Rightarrow> bool" where
  "job_invariant s \<longleftrightarrow>
     distinct (js_log s)
     \<and> set (js_log s) \<subseteq> jb_unique_id ` set (js_jobs s)
     \<and> (\<forall>j\<in>set (js_jobs s). jb_status j = STATUS_QUEUED \<longleftrightarrow> jb_unique_id j \<notin> set (js_log s))
     \<and> (\<forall>job\<in>#js_running s. jb_unique_id job \<in> set (js_log s))"

lemma update_jobs_ids:
  assumes "\<And>j. jb_unique_id (f j) = jb_unique_id j"
  shows "jb_unique_id ` set (update_jobs uid f jobs) = jb_unique_id ` set jobs"
proof -
  have "jb_unique_id (if jb_unique_id j = uid then f j else j) = jb_unique_id j" for j
    by (simp add: assms)
  then have "map jb_unique_id (update_jobs uid f jobs) = map jb_unique_id jobs"
    by (simp add: update_jobs_def)
  then have "set (map jb_unique_id (update_jobs uid f jobs)) = set (map jb_unique_id jobs)" by (rule arg_cong)
  then show ?thesis by simp
qed

lemma find_update_jobs:
  assumes "\<And>j. jb_unique_id (f j) = jb_unique_id j"
  shows "find_job (update_jobs uid f jobs) uid = map_option f (find_job jobs uid)"
proof -
  have "find_job (update_jobs uid f jobs) uid =
      map_option (\<lambda>j. if jb_unique_id j = uid then f j else j) (find_job jobs uid)"
    unfolding find_job_def update_jobs_def by (rule find_map_id) (simp add: assms)
  moreover have "find_job jobs uid = Some j \<Longrightarrow> jb_unique_id j = uid" for j
    by (auto simp: find_job_def find_Some_iff)
  ultimately show ?thesis by (cases "find_job jobs uid") auto
qed

lemma in_update_jobs:
  assumes "j' \<in> set (update_jobs uid f jobs)"
  obtains j where "j \<in> set jobs" and "j' = (if jb_unique_id j = uid then f j else j)"
  using assms by (auto simp: update_jobs_def)

lemma claim_job_True:
  assumes "claim_job now uid jobs = (True, jobs')"
  shows "\<exists>j\<in>set jobs. jb_unique_id j = uid \<and> jb_status j = STATUS_QUEUED"
    and "jb_unique_id ` set jobs' = jb_unique_id ` set jobs"
    and "j' \<in> set jobs' \<Longrightarrow> \<exists>j\<in>set jobs. jb_unique_id j' = jb_unique_id j
      \<and> jb_status j' = (if jb_unique_id j = uid \<and> jb_status j = STATUS_QUEUED then STATUS_PROCESSING else jb_status j)"
proof -
  show "\<exists>j\<in>set jobs. jb_unique_id j = uid \<and> jb_status j = STATUS_QUEUED"
    using assms by (auto simp: claim_job_def list_ex_iff split: if_splits)
  have jobs': "jobs' = update_jobs uid (\<lambda>j. if jb_status j = STATUS_QUEUED
      then j\<lparr>jb_status := STATUS_PROCESSING, jb_started_at := Some now\<rparr> else j) jobs"
    using assms by (auto simp: claim_job_def split: if_splits)
  show "jb_unique_id ` set jobs' = jb_unique_id ` set jobs"
    unfolding jobs' by (rule update_jobs_ids) simp
  show "j' \<in> set jobs' \<Longrightarrow> \<exists>j\<in>set jobs. jb_unique_id j' = jb_unique_id j
      \<and> jb_status j' = (if jb_unique_id j = uid \<and> jb_status j = STATUS_QUEUED then STATUS_PROCESSING else jb_status j)"
    unfolding jobs' by (elim in_update_jobs) (rule bexI, auto)
qed

lemma claim_job_False:
  assumes "claim_job now uid jobs = (False, jobs')"
  shows "jb_unique_id ` set jobs' = jb_unique_id ` set jobs"
    and "j' \<in> set jobs' \<Longrightarrow> \<exists>j\<in>set jobs. jb_unique_id j' = jb_unique_id j
      \<and> (jb_status j' = STATUS_QUEUED \<longleftrightarrow> jb_status j = STATUS_QUEUED)"
proof -
  have jobs': "jobs' = update_jobs uid (\<lambda>j. if jb_status j = STATUS_PROCESSING
              then j\<lparr>jb_status := STATUS_FAILED,
                     jb_error_message := Some ''The job was interrupted. Check the data before trying again.'',
                     jb_finished_at := Some now\<rparr> else j) jobs"
    using assms by (auto simp: claim_job_def split: if_splits)
  show "jb_unique_id ` set jobs' = jb_unique_id ` set jobs"
    unfolding jobs' by (rule update_jobs_ids) simp
  show "j' \<in> set jobs' \<Longrightarrow> \<exists>j\<in>set jobs. jb_unique_id j' = jb_unique_id j
      \<and> (jb_status j' = STATUS_QUEUED \<longleftrightarrow> jb_status j = STATUS_QUEUED)"
    unfolding jobs' by (elim in_update_jobs) (rule bexI, auto)
qed

text \<open>The columns the final save writes.\<close>

definition saved_job :: "job_row \<Rightarrow> job_failure + json \<Rightarrow> job_row" where
  "saved_job job outcome =
     (case outcome of
        Inr v \<Rightarrow> job\<lparr>jb_result := Some v, jb_status := STATUS_COMPLETED\<rparr>
      | Inl (JobError e) \<Rightarrow> job\<lparr>jb_status := STATUS_FAILED, jb_error_message := Some e\<rparr>
      | Inl OtherException \<Rightarrow> job\<lparr>jb_status := STATUS_FAILED,
          jb_error_message := Some ''Something went wrong. Please try again.''\<rparr>)"

lemma finish_job_saved:
  "finish_job now job outcome = update_jobs (jb_unique_id job) (\<lambda>row. row\<lparr>
     jb_status := jb_status (saved_job job outcome), jb_result := jb_result (saved_job job outcome),
     jb_error_message := jb_error_message (saved_job job outcome),
     jb_upload_content := None, jb_finished_at := Some now\<rparr>)"
  by (simp add: finish_job_def saved_job_def Let_def)

lemma saved_job_finished: "jb_status (saved_job job outcome) \<in> set FINISHED_STATUSES"
  by (auto simp: saved_job_def FINISHED_STATUSES_def split: sum.split job_failure.split)

lemma finish_job_rows:
  shows "jb_unique_id ` set (finish_job now job outcome jobs) = jb_unique_id ` set jobs"
    and "j' \<in> set (finish_job now job outcome jobs) \<Longrightarrow> \<exists>j\<in>set jobs. jb_unique_id j' = jb_unique_id j
      \<and> (jb_status j' = jb_status j \<or> (jb_unique_id j = jb_unique_id job \<and> jb_status j' \<in> set FINISHED_STATUSES))"
proof -
  show "jb_unique_id ` set (finish_job now job outcome jobs) = jb_unique_id ` set jobs"
    unfolding finish_job_saved by (rule update_jobs_ids) simp
  show "j' \<in> set (finish_job now job outcome jobs) \<Longrightarrow> \<exists>j\<in>set jobs. jb_unique_id j' = jb_unique_id j
      \<and> (jb_status j' = jb_status j \<or> (jb_unique_id j = jb_unique_id job \<and> jb_status j' \<in> set FINISHED_STATUSES))"
    unfolding finish_job_saved
    by (elim in_update_jobs) (rule bexI, auto simp: saved_job_finished split: if_splits)
qed

lemma job_invariant_step:
  assumes "job_invariant s" and "job_step s s'"
  shows "job_invariant s'"
  using assms(2)
proof (cases rule: job_step.cases)
  case (create uid kind owner path file_name content options)
  with assms(1) show ?thesis by (auto simp: job_invariant_def start_job_def)
next
  case (claim now uid jobs job)
  note rows = claim_job_True [OF claim(2)]
  from rows(1) assms(1) have "uid \<notin> set (js_log s)" by (auto simp: job_invariant_def)
  moreover have "jb_unique_id job = uid" using claim(3) by (auto simp: find_job_def find_Some_iff)
  moreover have "uid \<in> jb_unique_id ` set (js_jobs s)" using rows(1) by auto
  moreover have "jb_status j' = STATUS_QUEUED \<longleftrightarrow> jb_unique_id j' \<notin> set (uid # js_log s)"
    if j': "j' \<in> set jobs" for j'
  proof -
    from rows(3) [OF j'] obtain j where "j \<in> set (js_jobs s)" "jb_unique_id j' = jb_unique_id j"
      "jb_status j' = (if jb_unique_id j = uid \<and> jb_status j = STATUS_QUEUED then STATUS_PROCESSING else jb_status j)"
      by blast
    with assms(1) \<open>uid \<notin> set (js_log s)\<close> show ?thesis by (auto simp: job_invariant_def split: if_splits)
  qed
  ultimately show ?thesis using assms(1) claim(1) rows(2) by (auto simp: job_invariant_def)
next
  case (refuse now uid jobs)
  note rows = claim_job_False [OF refuse(2)]
  have "jb_status j' = STATUS_QUEUED \<longleftrightarrow> jb_unique_id j' \<notin> set (js_log s)" if "j' \<in> set jobs" for j'
    using rows(2) [OF that] assms(1) by (auto simp: job_invariant_def)
  with assms(1) refuse(1) rows(1) show ?thesis by (simp add: job_invariant_def)
next
  case (finish job now outcome)
  have "jb_status j' = STATUS_QUEUED \<longleftrightarrow> jb_unique_id j' \<notin> set (js_log s)"
    if j': "j' \<in> set (finish_job now job outcome (js_jobs s))" for j'
    using finish_job_rows(2) [OF j'] assms(1) finish(2)
    by (auto simp: job_invariant_def FINISHED_STATUSES_def)
  with assms(1) finish show ?thesis
    by (auto simp: job_invariant_def finish_job_rows(1) dest: in_diffD)
qed

lemma reachable_invariant: "job_reachable s \<Longrightarrow> job_invariant s"
  by (induction rule: job_reachable.induct) (auto simp: job_invariant_step, simp add: job_invariant_def)

text \<open>C10: However web processes and workers interleave, redeliver and race, no job is executed
  twice, so a file is never imported a second time; a job whose status left the queue was
  executed exactly once.\<close>
theorem job_runs_at_most_once:
  assumes "job_reachable s"
  shows "count_list (js_log s) uid \<le> 1
     \<and> (\<forall>j\<in>set (js_jobs s). jb_status j \<noteq> STATUS_QUEUED \<longrightarrow> count_list (js_log s) (jb_unique_id j) = 1)"
proof -
  from reachable_invariant [OF assms] have "distinct (js_log s)"
    and "\<forall>j\<in>set (js_jobs s). jb_status j = STATUS_QUEUED \<longleftrightarrow> jb_unique_id j \<notin> set (js_log s)"
    by (simp_all add: job_invariant_def)
  moreover have "count_list xs x = (if x \<in> set xs then 1 else 0)" if "distinct xs" for xs :: "ident list" and x
    using that by (induction xs) auto
  ultimately show ?thesis by simp
qed

section \<open>The late worker\<close>

definition race_job :: job_row where
  "race_job = start_job ''BGJOB-1'' KIND_BULK_UPLOAD ''app.User:1'' ''/api/v1/masters/wards/bulk-upload/''
     ''wards.csv'' (Some ''name'') JNull"

definition race_running :: job_row where
  "race_running = race_job\<lparr>jb_status := STATUS_PROCESSING, jb_started_at := Some 1\<rparr>"

definition race_interrupted :: job_row where
  "race_interrupted = race_running\<lparr>jb_status := STATUS_FAILED,
     jb_error_message := Some ''The job was interrupted. Check the data before trying again.'',
     jb_finished_at := Some 2\<rparr>"

text \<open>A worker that takes its message while the waiting request already runs the job marks the
  running job as interrupted: its owner is told it failed, although the import goes on and then
  turns the same job to completed.\<close>
theorem late_worker_fails_running_job:
  "\<exists>s s'. job_reachable s \<and> job_step s s'
     \<and> race_running \<in># js_running s \<and> find_job (js_jobs s) ''BGJOB-1'' = Some race_interrupted
     \<and> upload_answer race_interrupted
         = UploadError (Some ''The job was interrupted. Check the data before trying again.'')
     \<and> (\<exists>j. find_job (js_jobs s') ''BGJOB-1'' = Some j \<and> jb_status j = STATUS_COMPLETED)"
proof -
  let ?s0 = "\<lparr>js_jobs = [], js_running = {#}, js_log = []\<rparr>"
  let ?s1 = "\<lparr>js_jobs = [race_job], js_running = {#}, js_log = []\<rparr>"
  let ?s2 = "\<lparr>js_jobs = [race_running], js_running = {#race_running#}, js_log = [''BGJOB-1'']\<rparr>"
  let ?s3 = "\<lparr>js_jobs = [race_interrupted], js_running = {#race_running#}, js_log = [''BGJOB-1'']\<rparr>"
  let ?s4 = "?s3\<lparr>js_jobs := finish_job 3 race_running (Inr JNull) [race_interrupted],
    js_running := js_running ?s3 - {#race_running#}\<rparr>"
  have "job_step ?s0 ?s1"
    using job_step.create [of ?s0 "''BGJOB-1''" KIND_BULK_UPLOAD "''app.User:1''"
      "''/api/v1/masters/wards/bulk-upload/''" "''wards.csv''" "Some ''name''" JNull]
    by (simp add: race_job_def)
  moreover have "job_step ?s1 ?s2"
    using job_step.claim [of 1 "''BGJOB-1''" ?s1 "[race_running]" race_running]
    by (simp add: claim_job_def update_jobs_def find_job_def race_job_def race_running_def start_job_def)
  moreover have "job_step ?s2 ?s3"
    using job_step.refuse [of 2 "''BGJOB-1''" ?s2 "[race_interrupted]"]
    by (simp add: claim_job_def update_jobs_def race_job_def race_running_def race_interrupted_def start_job_def)
  ultimately have reach: "job_reachable ?s3"
    by (meson job_reachable.intros)
  have step: "job_step ?s3 ?s4" using job_step.finish [of race_running ?s3 3 "Inr JNull"] by simp
  have "find_job (js_jobs ?s3) ''BGJOB-1'' = Some race_interrupted"
    by (simp add: find_job_def race_job_def race_running_def race_interrupted_def start_job_def)
  moreover have "\<exists>j. find_job (js_jobs ?s4) ''BGJOB-1'' = Some j \<and> jb_status j = STATUS_COMPLETED"
    by (simp add: find_job_def finish_job_def update_jobs_def race_job_def race_running_def
        race_interrupted_def start_job_def Let_def)
  moreover have "upload_answer race_interrupted
      = UploadError (Some ''The job was interrupted. Check the data before trying again.'')"
    by (simp add: upload_answer_def race_interrupted_def)
  ultimately show ?thesis using reach step
    by (intro exI [of _ ?s3] exI [of _ ?s4]) simp
qed

section \<open>Running, waiting, exporting\<close>

text \<open>Run without interference, a queued job always ends finished, with the outcome of its
  execution, its upload cleared and the other jobs untouched; running it again only repeats the
  answer.\<close>
theorem run_job_finishes:
  assumes "find_job jobs uid = Some job" and "jb_status job = STATUS_QUEUED"
    and "distinct (map jb_unique_id jobs)"
  shows "find_job (run_job execute now later uid jobs) uid = Some
       ((saved_job (job\<lparr>jb_status := STATUS_PROCESSING, jb_started_at := Some now\<rparr>)
          (execute (job\<lparr>jb_status := STATUS_PROCESSING, jb_started_at := Some now\<rparr>)))
        \<lparr>jb_upload_content := None, jb_finished_at := Some later\<rparr>)
     \<and> run_job execute now' later' uid (run_job execute now later uid jobs) = run_job execute now later uid jobs"
  (is "?found \<and> ?again")
proof -
  let ?p = "job\<lparr>jb_status := STATUS_PROCESSING, jb_started_at := Some now\<rparr>"
  let ?done = "(saved_job ?p (execute ?p))\<lparr>jb_upload_content := None, jb_finished_at := Some later\<rparr>"
  from assms(1) have job: "job \<in> set jobs" "jb_unique_id job = uid"
    by (auto simp: find_job_def find_Some_iff)
  with assms(2) have claimed: "claim_job now uid jobs = (True, update_jobs uid (\<lambda>j. if jb_status j = STATUS_QUEUED
              then j\<lparr>jb_status := STATUS_PROCESSING, jb_started_at := Some now\<rparr> else j) jobs)"
    by (auto simp: claim_job_def list_ex_iff)
  have run: "run_job execute now later uid jobs = finish_job later ?p (execute ?p)
      (update_jobs uid (\<lambda>j. if jb_status j = STATUS_QUEUED
          then j\<lparr>jb_status := STATUS_PROCESSING, jb_started_at := Some now\<rparr> else j) jobs)"
    using assms(1,2) by (simp add: run_job_def claimed find_update_jobs)
  have pid: "jb_unique_id ?p = uid" using job by simp
  have fields: "jb_unique_id (saved_job ?p r) = uid" "jb_kind (saved_job ?p r) = jb_kind job"
    "jb_owner (saved_job ?p r) = jb_owner job" "jb_path (saved_job ?p r) = jb_path job"
    "jb_options (saved_job ?p r) = jb_options job" "jb_file_name (saved_job ?p r) = jb_file_name job"
    "jb_started_at (saved_job ?p r) = Some now" for r
    using job by (auto simp: saved_job_def split: sum.split job_failure.split)
  show ?thesis
  proof
    show ?found
      unfolding run finish_job_saved pid
      using assms(1,2) fields job
      by (simp add: find_update_jobs)
    have rows: "j \<in> set (run_job execute now later uid jobs) \<Longrightarrow> jb_unique_id j = uid \<Longrightarrow>
        jb_status j \<in> set FINISHED_STATUSES" for j
      unfolding run finish_job_saved pid
      by (elim in_update_jobs) (auto simp: saved_job_finished split: if_splits)
    let ?R = "run_job execute now later uid jobs"
    have over: "jb_status j \<noteq> STATUS_QUEUED \<and> jb_status j \<noteq> STATUS_PROCESSING"
      if "j \<in> set ?R" "jb_unique_id j = uid" for j
      using rows [OF that] by (auto simp: FINISHED_STATUSES_def)
    then have "\<not> list_ex (\<lambda>j. jb_unique_id j = uid \<and> jb_status j = STATUS_QUEUED) ?R"
      unfolding list_ex_iff by blast
    then have again: "claim_job now' uid ?R = (False, update_jobs uid (\<lambda>j. if jb_status j = STATUS_PROCESSING
              then j\<lparr>jb_status := STATUS_FAILED,
                     jb_error_message := Some ''The job was interrupted. Check the data before trying again.'',
                     jb_finished_at := Some now'\<rparr> else j) ?R)"
      by (simp add: claim_job_def)
    have "update_jobs uid (\<lambda>j. if jb_status j = STATUS_PROCESSING
              then j\<lparr>jb_status := STATUS_FAILED,
                     jb_error_message := Some ''The job was interrupted. Check the data before trying again.'',
                     jb_finished_at := Some now'\<rparr> else j) ?R = ?R"
      unfolding update_jobs_def using over by (intro map_idI) auto
    then show ?again
      unfolding run_job_def [of execute now' later' uid ?R] again by simp
  qed
qed

lemma wait_loop_step:
  "wait_loop p wait poll (Suc fuel) n =
     (if poll_decision p wait (fst (poll n)) (snd (poll n)) = KeepWaiting then wait_loop p wait poll fuel (Suc n)
      else Some (n, poll_decision p wait (fst (poll n)) (snd (poll n))))"
  by (cases "poll n") simp

text \<open>C36: The waiting request always gets an answer: with a clock that runs at least at the pace of
  the polling interval the loop ends within its allowance of turns, answering a finished job,
  running a queued one itself once the pickup time is over (at once without workers), or giving
  up only after the wait time.\<close>
theorem wait_for_job_answers:
  assumes "\<And>n. POLL_INTERVAL * int n \<le> fst (poll n)" and "0 \<le> wait" and "wait < POLL_INTERVAL * int fuel"
  shows "\<exists>n d. wait_for_job workers pickup wait poll (Suc fuel) = Some (n, d) \<and> n \<le> fuel
     \<and> d = poll_decision (if workers then pickup else 0) wait (fst (poll n)) (snd (poll n))
     \<and> d \<noteq> KeepWaiting
     \<and> (\<forall>k<n. poll_decision (if workers then pickup else 0) wait (fst (poll k)) (snd (poll k)) = KeepWaiting)"
proof -
  define p where "p = (if workers then pickup else 0)"
  let ?d = "\<lambda>n. poll_decision p wait (fst (poll n)) (snd (poll n))"
  have "POLL_INTERVAL * int fuel \<le> fst (poll fuel)" by (rule assms(1))
  with assms(3) have stop: "?d fuel \<noteq> KeepWaiting" by (auto simp: poll_decision_def)
  have loop: "\<exists>n d. wait_loop p wait poll (Suc (fuel - k)) k = Some (n, d) \<and> n \<le> fuel \<and> d = ?d n
      \<and> d \<noteq> KeepWaiting \<and> (\<forall>i<n. k \<le> i \<longrightarrow> ?d i = KeepWaiting)" if "k \<le> fuel" for k
    using that
  proof (induction "fuel - k" arbitrary: k)
    case 0
    then have "k = fuel" by simp
    with stop show ?case by (auto simp: Let_def split: prod.split)
  next
    case (Suc m)
    show ?case
    proof (cases "?d k = KeepWaiting")
      case True
      from Suc.hyps(2) Suc.prems have "m = fuel - Suc k" "Suc k \<le> fuel" by simp_all
      from Suc.hyps(1) [OF this] obtain n d where n: "wait_loop p wait poll (Suc (fuel - Suc k)) (Suc k) = Some (n, d)"
        "n \<le> fuel" "d = ?d n" "d \<noteq> KeepWaiting" "\<forall>i<n. Suc k \<le> i \<longrightarrow> ?d i = KeepWaiting" by blast
      have "fuel - k = Suc (fuel - Suc k)" using \<open>Suc k \<le> fuel\<close> by simp
      then have "wait_loop p wait poll (Suc (fuel - k)) k = Some (n, d)"
        using True n(1) by (simp only: wait_loop_step [of p wait poll _ k] simp_thms if_True)
      moreover have "\<forall>i<n. k \<le> i \<longrightarrow> ?d i = KeepWaiting"
        using n(5) True by (metis Suc_leI le_neq_implies_less)
      ultimately show ?thesis using n(2-4) by blast
    next
      case False
      then have "wait_loop p wait poll (Suc (fuel - k)) k = Some (k, ?d k)"
        by (simp only: wait_loop_step simp_thms if_False)
      with False Suc.prems show ?thesis by auto
    qed
  qed
  from loop [of 0] show ?thesis unfolding wait_for_job_def p_def [symmetric] by auto
qed

text \<open>A list endpoint that answers these pages, one after the other.\<close>

inductive serves ::
  "(json \<Rightarrow> string) \<Rightarrow> endpoint \<Rightarrow> string \<Rightarrow> string \<Rightarrow> replay_query \<Rightarrow> json list list \<Rightarrow> bool"
  for py_str endpoint auth_header where
  plain: "replay py_str endpoint (GetRows path query) auth_header = Inr (JList xs) \<Longrightarrow>
     serves py_str endpoint auth_header path query [xs]"
| last: "replay py_str endpoint (GetRows path query) auth_header = Inr (JObj kvs) \<Longrightarrow>
     json_get (JObj kvs) ''results'' = JList xs \<Longrightarrow> \<not> json_truthy (json_get (JObj kvs) ''next'') \<Longrightarrow>
     serves py_str endpoint auth_header path query [xs]"
| more: "replay py_str endpoint (GetRows path query) auth_header = Inr (JObj kvs) \<Longrightarrow>
     json_get (JObj kvs) ''results'' = JList xs \<Longrightarrow> json_get (JObj kvs) ''next'' = JStr url \<Longrightarrow> url \<noteq> [] \<Longrightarrow>
     serves py_str endpoint auth_header (url_path url) (NextLink url) pages \<Longrightarrow>
     serves py_str endpoint auth_header path query (xs # pages)"

lemma fetch_pages_served:
  "serves py_str endpoint auth_header path query pages \<Longrightarrow>
     fetch_pages py_str endpoint auth_header n path query rows =
       (if length pages \<le> n then Inr (rows @ concat pages)
        else Inl (JobError ''Too many rows to export. Narrow the filters and try again.''))"
proof (induction arbitrary: n rows rule: serves.induct)
  case (plain path query xs)
  then show ?case by (cases n) simp_all
next
  case (last path query kvs xs)
  then show ?case
    by (cases n) (auto simp: json_truthy_def split: json.split)
next
  case (more path query kvs xs url pages)
  then show ?case by (cases n) simp_all
qed

text \<open>An export contains every row of every page in the endpoint's order, or fails: it follows at
  most a hundred pages and never returns a truncated list.\<close>
theorem export_fetches_everything:
  assumes "serves py_str endpoint auth_header path (Params params) pages"
  shows "fetch_all_rows py_str endpoint auth_header path params =
     (if length pages \<le> 100 then Inr (concat pages)
      else Inl (JobError ''Too many rows to export. Narrow the filters and try again.''))"
  using fetch_pages_served [OF assms, of EXPORT_MAX_PAGES "[]"]
  by (simp add: fetch_all_rows_def EXPORT_MAX_PAGES_def)

section \<open>Witnesses\<close>

theorem job_runs_at_most_once_witness:
  "count_list (js_log \<lparr>js_jobs = [race_job], js_running = {#}, js_log = []\<rparr>) ''BGJOB-1'' \<le> 1"
proof -
  have "job_step \<lparr>js_jobs = [], js_running = {#}, js_log = []\<rparr> \<lparr>js_jobs = [race_job], js_running = {#}, js_log = []\<rparr>"
    using job_step.create [of "\<lparr>js_jobs = [], js_running = {#}, js_log = []\<rparr>" "''BGJOB-1''" KIND_BULK_UPLOAD
      "''app.User:1''" "''/api/v1/masters/wards/bulk-upload/''" "''wards.csv''" "Some ''name''" JNull]
    by (simp add: race_job_def)
  then have "job_reachable \<lparr>js_jobs = [race_job], js_running = {#}, js_log = []\<rparr>"
    by (rule job_reachable.step [OF job_reachable.start])
  from job_runs_at_most_once [OF this, of "''BGJOB-1''"] show ?thesis by simp
qed

theorem run_job_finishes_witness:
  "\<exists>j. find_job (run_job (\<lambda>j. Inr JNull) 1 3 ''BGJOB-1'' [race_job]) ''BGJOB-1'' = Some j
     \<and> jb_status j = STATUS_COMPLETED"
  using run_job_finishes [of "[race_job]" "''BGJOB-1''" race_job "\<lambda>j. Inr JNull" 1 3 1 3]
  by (simp add: find_job_def race_job_def start_job_def saved_job_def)

theorem wait_for_job_answers_witness:
  "\<exists>n d. wait_for_job True 5000 20000 (\<lambda>n. (200 * int n, race_job)) (Suc 101) = Some (n, d) \<and> d \<noteq> KeepWaiting"
  using wait_for_job_answers [of "\<lambda>n. (200 * int n, race_job)" 20000 101 True 5000]
  by (auto simp: POLL_INTERVAL_def)

theorem export_fetches_everything_witness:
  "fetch_all_rows (\<lambda>v. []) (\<lambda>r a. (200, Some (JList [JNum 1]))) ''Bearer t'' ''/api/v1/masters/wards/'' JNull
     = Inr [JNum 1]"
proof -
  have "serves (\<lambda>v. []) (\<lambda>r a. (200, Some (JList [JNum 1]))) ''Bearer t'' ''/api/v1/masters/wards/'' (Params JNull) [[JNum 1]]"
    by (rule serves.plain) (simp add: replay_def)
  from export_fetches_everything [OF this] show ?thesis by simp
qed

end
