(* ===== verification/Cascade_Tables.thy ===== *)
theory Cascade_Tables
  imports Prelude
begin

text \<open>
  What a cascading delete follows: the relation names each model declares
  (\<open>CASCADE_SOFT_DELETE\<close>), the properties that answer some of them, the registry of string
  references that answers the others (\<open>STRING_REF_CASCADE_RELATIONS\<close> of
  \<open>app/utils/cascade_delete.py\<close>), and the cache scopes of each model. A model class stands for
  the dotted path by which the registry names it.
\<close>

section \<open>Model classes\<close>

datatype model_class =
    Continent | Country | State | District | AreaType | Corporation | Municipality | TownPanchayat
  | PanchayatUnion | Panchayat | Ward | Department | Bins | VehicleCreation | StaffTemplate
  | Collection_point | TripPlan | TripPlanCollectionPoint | DailyTripLog | DailyTripCollectionPoint
  | DailyTripAssignment | DailyTripHouseholdCollection | VehicleBreakdown | BinCollectionEvent
  | WasteCollection | ComplaintTicket | StaffcreationOfficeDetails | ComplaintRoutingRule
  | ComplaintAddressChangeRequest | PanchayatLeaderLogin | DistrictLeaderLogin | StateLeaderLogin
  | StaffDataScope | UserScreenPermission | UserScreenColumnPermission | DashboardWidgetPermission
  | User | StaffAccessConfiguration | CustomerCreation | TripRetripRequest | UnassignedStaffPool

text \<open>The Python class name, as printed in a cascaded delete reason.\<close>

definition class_name :: "model_class \<Rightarrow> string" where
  "class_name m =
     (case m of
        Continent \<Rightarrow> ''Continent''
      | Country \<Rightarrow> ''Country''
      | State \<Rightarrow> ''State''
      | District \<Rightarrow> ''District''
      | AreaType \<Rightarrow> ''AreaType''
      | Corporation \<Rightarrow> ''Corporation''
      | Municipality \<Rightarrow> ''Municipality''
      | TownPanchayat \<Rightarrow> ''TownPanchayat''
      | PanchayatUnion \<Rightarrow> ''PanchayatUnion''
      | Panchayat \<Rightarrow> ''Panchayat''
      | Ward \<Rightarrow> ''Ward''
      | Department \<Rightarrow> ''Department''
      | Bins \<Rightarrow> ''Bins''
      | VehicleCreation \<Rightarrow> ''VehicleCreation''
      | StaffTemplate \<Rightarrow> ''StaffTemplate''
      | Collection_point \<Rightarrow> ''Collection_point''
      | TripPlan \<Rightarrow> ''TripPlan''
      | TripPlanCollectionPoint \<Rightarrow> ''TripPlanCollectionPoint''
      | DailyTripLog \<Rightarrow> ''DailyTripLog''
      | DailyTripCollectionPoint \<Rightarrow> ''DailyTripCollectionPoint''
      | DailyTripAssignment \<Rightarrow> ''DailyTripAssignment''
      | DailyTripHouseholdCollection \<Rightarrow> ''DailyTripHouseholdCollection''
      | VehicleBreakdown \<Rightarrow> ''VehicleBreakdown''
      | BinCollectionEvent \<Rightarrow> ''BinCollectionEvent''
      | WasteCollection \<Rightarrow> ''WasteCollection''
      | ComplaintTicket \<Rightarrow> ''ComplaintTicket''
      | StaffcreationOfficeDetails \<Rightarrow> ''StaffcreationOfficeDetails''
      | ComplaintRoutingRule \<Rightarrow> ''ComplaintRoutingRule''
      | ComplaintAddressChangeRequest \<Rightarrow> ''ComplaintAddressChangeRequest''
      | PanchayatLeaderLogin \<Rightarrow> ''PanchayatLeaderLogin''
      | DistrictLeaderLogin \<Rightarrow> ''DistrictLeaderLogin''
      | StateLeaderLogin \<Rightarrow> ''StateLeaderLogin''
      | StaffDataScope \<Rightarrow> ''StaffDataScope''
      | UserScreenPermission \<Rightarrow> ''UserScreenPermission''
      | UserScreenColumnPermission \<Rightarrow> ''UserScreenColumnPermission''
      | DashboardWidgetPermission \<Rightarrow> ''DashboardWidgetPermission''
      | User \<Rightarrow> ''User''
      | StaffAccessConfiguration \<Rightarrow> ''StaffAccessConfiguration''
      | CustomerCreation \<Rightarrow> ''CustomerCreation''
      | TripRetripRequest \<Rightarrow> ''TripRetripRequest''
      | UnassignedStaffPool \<Rightarrow> ''UnassignedStaffPool'')"

section \<open>Declared relations\<close>

definition Continent_cascade :: "string list" where
  "Continent_cascade =
     [''countries'', ''states'', ''districts'']"

definition Country_cascade :: "string list" where
  "Country_cascade =
     [''states'', ''districts'']"

definition State_cascade :: "string list" where
  "State_cascade =
     [''districts'', ''area_type'', ''corporations'', ''municipalities'', ''town_panchayats'',
      ''panchayat_unions'', ''panchayat'', ''wards'', ''leader_logins'', ''bins'',
      ''vehicles'', ''staff_templates'', ''collection_points'', ''trip_plans'',
      ''trip_plan_collection_points'', ''daily_trip_logs'', ''daily_trip_collection_points'',
      ''daily_trip_assignments'', ''daily_trip_household_collections'', ''vehicle_breakdowns'',
      ''secondary_bin_collection_events'', ''waste_collections'', ''complaint_routing_rules'',
      ''address_change_requests'', ''complaint_tickets'', ''scoped_staff'', ''staff_members'',
      ''userscreen_column_permissions'', ''dashboard_widget_permissions'',
      ''userscreenpermissions'', ''customer_creations'', ''staff_access_configurations'']"

definition District_cascade :: "string list" where
  "District_cascade =
     [''area_type'', ''corporations'', ''municipalities'', ''town_panchayats'',
      ''panchayat_unions'', ''panchayat'', ''wards'', ''leader_logins'', ''bins'',
      ''vehicles'', ''staff_templates'', ''collection_points'', ''trip_plans'',
      ''trip_plan_collection_points'', ''daily_trip_logs'', ''daily_trip_collection_points'',
      ''daily_trip_assignments'', ''daily_trip_household_collections'', ''vehicle_breakdowns'',
      ''secondary_bin_collection_events'', ''waste_collections'', ''complaint_routing_rules'',
      ''address_change_requests'', ''complaint_tickets'', ''scoped_staff'', ''staff_members'',
      ''userscreen_column_permissions'', ''dashboard_widget_permissions'',
      ''userscreenpermissions'', ''users_district'', ''customer_creations'',
      ''staff_access_configurations'']"

definition AreaType_cascade :: "string list" where
  "AreaType_cascade =
     [''corporations'', ''municipalities'', ''town_panchayats'', ''panchayat_unions'',
      ''panchayats'', ''wards'', ''bins'', ''vehicles'', ''staff_templates'',
      ''collection_points'', ''trip_plans'', ''trip_plan_collection_points'',
      ''daily_trip_logs'', ''daily_trip_collection_points'', ''daily_trip_assignments'',
      ''daily_trip_household_collections'', ''vehicle_breakdowns'',
      ''secondary_bin_collection_events'', ''waste_collections'', ''complaint_tickets'',
      ''address_change_requests'', ''scoped_staff'', ''staff_members'',
      ''userscreen_column_permissions'', ''dashboard_widget_permissions'',
      ''userscreenpermissions'', ''customer_creations'', ''staff_access_configurations'']"

definition Corporation_cascade :: "string list" where
  "Corporation_cascade =
     [''wards'', ''departments'', ''bins'', ''vehicles'', ''staff_templates'',
      ''collection_points'', ''trip_plans'', ''trip_plan_collection_points'',
      ''daily_trip_logs'', ''daily_trip_collection_points'', ''daily_trip_assignments'',
      ''daily_trip_household_collections'', ''vehicle_breakdowns'',
      ''secondary_bin_collection_events'', ''waste_collections'', ''complaint_routing_rules'',
      ''address_change_requests'', ''complaint_tickets'', ''staff_members'',
      ''customer_creations'', ''staff_access_configurations'']"

definition Municipality_cascade :: "string list" where
  "Municipality_cascade =
     [''wards'', ''bins'', ''vehicles'', ''staff_templates'', ''collection_points'',
      ''trip_plans'', ''trip_plan_collection_points'', ''daily_trip_logs'',
      ''daily_trip_collection_points'', ''daily_trip_assignments'',
      ''daily_trip_household_collections'', ''vehicle_breakdowns'',
      ''secondary_bin_collection_events'', ''waste_collections'', ''complaint_routing_rules'',
      ''address_change_requests'', ''complaint_tickets'', ''staff_members'',
      ''customer_creations'', ''staff_access_configurations'']"

definition TownPanchayat_cascade :: "string list" where
  "TownPanchayat_cascade =
     [''wards'', ''bins'', ''vehicles'', ''staff_templates'', ''collection_points'',
      ''trip_plans'', ''trip_plan_collection_points'', ''daily_trip_logs'',
      ''daily_trip_collection_points'', ''daily_trip_assignments'',
      ''daily_trip_household_collections'', ''vehicle_breakdowns'',
      ''secondary_bin_collection_events'', ''waste_collections'', ''complaint_routing_rules'',
      ''address_change_requests'', ''complaint_tickets'', ''staff_members'',
      ''customer_creations'', ''staff_access_configurations'']"

definition PanchayatUnion_cascade :: "string list" where
  "PanchayatUnion_cascade =
     [''wards'', ''bins'', ''vehicles'', ''staff_templates'', ''collection_points'',
      ''trip_plans'', ''trip_plan_collection_points'', ''daily_trip_logs'',
      ''daily_trip_collection_points'', ''daily_trip_assignments'',
      ''daily_trip_household_collections'', ''vehicle_breakdowns'',
      ''secondary_bin_collection_events'', ''waste_collections'', ''complaint_routing_rules'',
      ''address_change_requests'', ''complaint_tickets'', ''staff_members'',
      ''customer_creations'', ''staff_access_configurations'']"

definition Panchayat_cascade :: "string list" where
  "Panchayat_cascade =
     [''wards'', ''leader_logins'', ''bins'', ''vehicles'', ''staff_templates'',
      ''collection_points'', ''trip_plans'', ''trip_plan_collection_points'',
      ''daily_trip_logs'', ''daily_trip_collection_points'', ''daily_trip_assignments'',
      ''daily_trip_household_collections'', ''vehicle_breakdowns'',
      ''secondary_bin_collection_events'', ''waste_collections'', ''complaint_routing_rules'',
      ''address_change_requests'', ''complaint_tickets'', ''staff_members'',
      ''customer_creations'', ''staff_access_configurations'']"

definition Ward_cascade :: "string list" where
  "Ward_cascade =
     [''bins'', ''bin_collection_events'', ''waste_collections'', ''customers'',
      ''staff_access_configurations'']"

definition StaffTemplate_cascade :: "string list" where
  "StaffTemplate_cascade =
     [''trip_plans'', ''daily_trip_assignments'']"

definition TripPlan_cascade :: "string list" where
  "TripPlan_cascade =
     [''plan_collection_points'', ''daily_trip_assignments'']"

definition DailyTripAssignment_cascade :: "string list" where
  "DailyTripAssignment_cascade =
     [''trip_collection_points'', ''trip_household_collections'',
      ''secondary_bin_collection_events'', ''waste_collections'', ''daily_trip_log'',
      ''vehicle_breakdown'', ''retrip_requests'', ''unassignedstaffpool'']"

definition CASCADE_SOFT_DELETE :: "model_class \<Rightarrow> string list" where
  "CASCADE_SOFT_DELETE m =
     (case m of
        Continent \<Rightarrow> Continent_cascade
      | Country \<Rightarrow> Country_cascade
      | State \<Rightarrow> State_cascade
      | District \<Rightarrow> District_cascade
      | AreaType \<Rightarrow> AreaType_cascade
      | Corporation \<Rightarrow> Corporation_cascade
      | Municipality \<Rightarrow> Municipality_cascade
      | TownPanchayat \<Rightarrow> TownPanchayat_cascade
      | PanchayatUnion \<Rightarrow> PanchayatUnion_cascade
      | Panchayat \<Rightarrow> Panchayat_cascade
      | Ward \<Rightarrow> Ward_cascade
      | StaffTemplate \<Rightarrow> StaffTemplate_cascade
      | TripPlan \<Rightarrow> TripPlan_cascade
      | DailyTripAssignment \<Rightarrow> DailyTripAssignment_cascade
      | _ \<Rightarrow> [])"

section \<open>Relations answered by properties\<close>

text \<open>
  How a relation finds its rows: the column of the child that holds the parent's unique id, or
  the JSON list that contains it. A property returns the matching rows or the first of them.
\<close>

datatype reference = ColumnIs string | ListContains string
datatype relation = Rows model_class reference | FirstRow model_class reference

definition State_properties :: "(string \<times> relation) list" where
  "State_properties =
     [(''wards'', Rows Ward (ColumnIs ''state_id'')),
      (''customer_creations'', Rows CustomerCreation (ColumnIs ''state_id''))]"

definition District_properties :: "(string \<times> relation) list" where
  "District_properties =
     [(''wards'', Rows Ward (ColumnIs ''district_id'')),
      (''customer_creations'', Rows CustomerCreation (ColumnIs ''district_id''))]"

definition AreaType_properties :: "(string \<times> relation) list" where
  "AreaType_properties =
     [(''wards'', Rows Ward (ColumnIs ''area_type_id'')),
      (''customer_creations'', Rows CustomerCreation (ColumnIs ''area_type_id''))]"

definition Corporation_properties :: "(string \<times> relation) list" where
  "Corporation_properties =
     [(''wards'', Rows Ward (ColumnIs ''corporation_id'')),
      (''customer_creations'', Rows CustomerCreation (ColumnIs ''corporation_id''))]"

definition Municipality_properties :: "(string \<times> relation) list" where
  "Municipality_properties =
     [(''wards'', Rows Ward (ColumnIs ''municipality_id'')),
      (''customer_creations'', Rows CustomerCreation (ColumnIs ''municipality_id''))]"

definition TownPanchayat_properties :: "(string \<times> relation) list" where
  "TownPanchayat_properties =
     [(''wards'', Rows Ward (ColumnIs ''town_panchayat_id'')),
      (''customer_creations'', Rows CustomerCreation (ColumnIs ''town_panchayat_id''))]"

definition PanchayatUnion_properties :: "(string \<times> relation) list" where
  "PanchayatUnion_properties =
     [(''wards'', Rows Ward (ColumnIs ''panchayat_union_id'')),
      (''customer_creations'', Rows CustomerCreation (ColumnIs ''panchayat_union_id''))]"

definition Panchayat_properties :: "(string \<times> relation) list" where
  "Panchayat_properties =
     [(''wards'', Rows Ward (ColumnIs ''panchayat_id'')),
      (''customer_creations'', Rows CustomerCreation (ColumnIs ''panchayat_id''))]"

definition Ward_properties :: "(string \<times> relation) list" where
  "Ward_properties =
     [(''bins'', Rows Bins (ColumnIs ''ward_id'')),
      (''bin_collection_events'', Rows BinCollectionEvent (ColumnIs ''ward_id'')),
      (''waste_collections'', Rows WasteCollection (ColumnIs ''ward_id'')),
      (''customers'', Rows CustomerCreation (ColumnIs ''ward_id''))]"

definition TripPlan_properties :: "(string \<times> relation) list" where
  "TripPlan_properties =
     [(''plan_collection_points'', Rows TripPlanCollectionPoint (ColumnIs ''trip_plan_id'')),
      (''daily_trip_assignments'', Rows DailyTripAssignment (ColumnIs ''trip_plan_id''))]"

definition DailyTripAssignment_properties :: "(string \<times> relation) list" where
  "DailyTripAssignment_properties =
     [(''trip_collection_points'', Rows DailyTripCollectionPoint (ColumnIs ''trip_assignment_id'')),
      (''trip_household_collections'', Rows DailyTripHouseholdCollection (ColumnIs ''trip_assignment_id'')),
      (''secondary_bin_collection_events'', Rows BinCollectionEvent (ColumnIs ''trip_assignment_id'')),
      (''daily_trip_log'', FirstRow DailyTripLog (ColumnIs ''trip_assignment_id'')),
      (''retrip_requests'', Rows TripRetripRequest (ColumnIs ''assignment_id'')),
      (''vehicle_breakdown'', FirstRow VehicleBreakdown (ColumnIs ''trip_assignment_id'')),
      (''waste_collections'', Rows WasteCollection (ColumnIs ''trip_assignment_id''))]"

definition properties :: "model_class \<Rightarrow> (string \<times> relation) list" where
  "properties m =
     (case m of
        State \<Rightarrow> State_properties
      | District \<Rightarrow> District_properties
      | AreaType \<Rightarrow> AreaType_properties
      | Corporation \<Rightarrow> Corporation_properties
      | Municipality \<Rightarrow> Municipality_properties
      | TownPanchayat \<Rightarrow> TownPanchayat_properties
      | PanchayatUnion \<Rightarrow> PanchayatUnion_properties
      | Panchayat \<Rightarrow> Panchayat_properties
      | Ward \<Rightarrow> Ward_properties
      | TripPlan \<Rightarrow> TripPlan_properties
      | DailyTripAssignment \<Rightarrow> DailyTripAssignment_properties
      | _ \<Rightarrow> [])"

section \<open>The registry\<close>

text \<open>The \<open>_register\<close> calls, in the order and with the loops of the module.\<close>

type_synonym registration = "(model_class \<times> string) \<times> (model_class \<times> reference)"

definition register :: "model_class \<Rightarrow> string \<Rightarrow> model_class \<Rightarrow> string \<Rightarrow> registration" where
  "register declaring relation_name child filter_field =
     ((declaring, relation_name), (child, ColumnIs filter_field))"

definition continent_relations :: "registration list" where
  "continent_relations =
     [register Continent ''countries'' Country ''continent_id'',
      register Continent ''states'' State ''continent_id'',
      register Continent ''districts'' District ''continent_id'',
      register Country ''states'' State ''country_id'',
      register Country ''districts'' District ''country_id'']"

definition PARENT_MODELS :: "model_class list" where
  "PARENT_MODELS =
     [State, District, AreaType, Corporation, Municipality, TownPanchayat, PanchayatUnion, Panchayat]"

definition PARENT_FIELD :: "model_class \<Rightarrow> string" where
  "PARENT_FIELD m =
     (case m of
        State \<Rightarrow> ''state_id''
      | District \<Rightarrow> ''district_id''
      | AreaType \<Rightarrow> ''area_type_id''
      | Corporation \<Rightarrow> ''corporation_id''
      | Municipality \<Rightarrow> ''municipality_id''
      | TownPanchayat \<Rightarrow> ''town_panchayat_id''
      | PanchayatUnion \<Rightarrow> ''panchayat_union_id''
      | Panchayat \<Rightarrow> ''panchayat_id''
      | _ \<Rightarrow> [])"

definition FLAT_GEO_CONSUMERS :: "(string \<times> model_class) list" where
  "FLAT_GEO_CONSUMERS =
     [(''bins'', Bins),
      (''vehicles'', VehicleCreation),
      (''staff_templates'', StaffTemplate),
      (''collection_points'', Collection_point),
      (''trip_plans'', TripPlan),
      (''trip_plan_collection_points'', TripPlanCollectionPoint),
      (''daily_trip_logs'', DailyTripLog),
      (''daily_trip_collection_points'', DailyTripCollectionPoint),
      (''daily_trip_assignments'', DailyTripAssignment),
      (''daily_trip_household_collections'', DailyTripHouseholdCollection),
      (''vehicle_breakdowns'', VehicleBreakdown),
      (''secondary_bin_collection_events'', BinCollectionEvent),
      (''waste_collections'', WasteCollection),
      (''complaint_tickets'', ComplaintTicket),
      (''staff_members'', StaffcreationOfficeDetails)]"

definition consumer_relations :: "registration list" where
  "consumer_relations =
     concat (map (\<lambda>parent. map (\<lambda>(rel_name, child). register parent rel_name child (PARENT_FIELD parent))
         FLAT_GEO_CONSUMERS) PARENT_MODELS)"

definition complaint_relations :: "registration list" where
  "complaint_relations =
     map (\<lambda>parent. register parent ''complaint_routing_rules'' ComplaintRoutingRule (PARENT_FIELD parent))
       [State, District, Corporation, Municipality, TownPanchayat, PanchayatUnion, Panchayat]
     @ map (\<lambda>parent. register parent ''address_change_requests'' ComplaintAddressChangeRequest
              (''new_'' @ PARENT_FIELD parent)) PARENT_MODELS"

definition hierarchy_relations :: "registration list" where
  "hierarchy_relations =
     [register State ''districts'' District ''state_id'',
      register State ''area_type'' AreaType ''state_id'',
      register District ''area_type'' AreaType ''district_id'']
     @ concat (map (\<lambda>parent.
         [register parent ''corporations'' Corporation (PARENT_FIELD parent),
          register parent ''municipalities'' Municipality (PARENT_FIELD parent),
          register parent ''town_panchayats'' TownPanchayat (PARENT_FIELD parent),
          register parent ''panchayat_unions'' PanchayatUnion (PARENT_FIELD parent)])
         [State, District, AreaType])
     @ [register State ''panchayat'' Panchayat ''state_id'',
        register District ''panchayat'' Panchayat ''district_id'',
        register AreaType ''panchayats'' Panchayat ''area_type_id'']"

definition leader_relations :: "registration list" where
  "leader_relations =
     [register Panchayat ''leader_logins'' PanchayatLeaderLogin ''panchayat_id'',
      register District ''leader_logins'' DistrictLeaderLogin ''district_id'',
      register State ''leader_logins'' StateLeaderLogin ''state_id'']"

definition permission_relations :: "registration list" where
  "permission_relations =
     concat (map (\<lambda>(parent, scope_field).
         [register parent ''scoped_staff'' StaffDataScope scope_field,
          register parent ''userscreen_column_permissions'' UserScreenColumnPermission (PARENT_FIELD parent),
          register parent ''dashboard_widget_permissions'' DashboardWidgetPermission (PARENT_FIELD parent),
          register parent ''userscreenpermissions'' UserScreenPermission (PARENT_FIELD parent)])
         [(State, ''state''), (District, ''district''), (AreaType, ''area_type'')])
     @ [register District ''users_district'' User ''district_id'']"

definition template_relations :: "registration list" where
  "template_relations =
     [register StaffTemplate ''trip_plans'' TripPlan ''staff_template_id'',
      register StaffTemplate ''daily_trip_assignments'' DailyTripAssignment ''staff_template_id'']"

definition access_relations :: "registration list" where
  "access_relations =
     map (\<lambda>(parent, ids_field). ((parent, ''staff_access_configurations''),
            (StaffAccessConfiguration, ListContains ids_field)))
       [(State, ''state_ids''), (District, ''district_ids''), (AreaType, ''area_type_ids''),
        (Corporation, ''corporation_ids''), (Municipality, ''municipality_ids''),
        (TownPanchayat, ''town_panchayat_ids''), (PanchayatUnion, ''panchayat_union_ids''),
        (Panchayat, ''panchayat_ids''), (Ward, ''ward_ids'')]
     @ [register Corporation ''departments'' Department ''corporation_id'']"

definition STRING_REF_CASCADE_RELATIONS :: "registration list" where
  "STRING_REF_CASCADE_RELATIONS =
     continent_relations @ consumer_relations @ complaint_relations @ hierarchy_relations
     @ leader_relations @ permission_relations @ template_relations @ access_relations"

text \<open>A dict keeps the latest registration of a key.\<close>

definition registered :: "model_class \<Rightarrow> string \<Rightarrow> (model_class \<times> reference) option" where
  "registered m rel_name = map_of (rev STRING_REF_CASCADE_RELATIONS) (m, rel_name)"

section \<open>Cache scopes\<close>

definition CACHE_SCOPES :: "model_class \<Rightarrow> string list" where
  "CACHE_SCOPES m =
     (case m of
        Continent \<Rightarrow> [''continent_list'', ''continent_detail'']
      | Country \<Rightarrow> [''country_list'', ''country_detail'']
      | State \<Rightarrow> [''state_list'', ''state_detail'']
      | District \<Rightarrow> [''district_list'', ''district_detail'']
      | AreaType \<Rightarrow> [''area_type_list'', ''area_type_detail'']
      | Corporation \<Rightarrow> [''corporation_list'', ''corporation_detail'']
      | Municipality \<Rightarrow> [''municipality_list'', ''municipality_detail'']
      | TownPanchayat \<Rightarrow> [''town_panchayat_list'', ''town_panchayat_detail'']
      | PanchayatUnion \<Rightarrow> [''panchayat_union_list'', ''panchayat_union_detail'']
      | Panchayat \<Rightarrow> [''panhayat_list'', ''panhayat_detail'']
      | Ward \<Rightarrow> [''ward_list'', ''ward_detail'']
      | Department \<Rightarrow> [''department_list'', ''department_detail'']
      | Bins \<Rightarrow> [''bins_list'', ''bins_detail'']
      | VehicleCreation \<Rightarrow> [''vehicle_creation_list'', ''vehicle_creation_detail'']
      | Collection_point \<Rightarrow> [''collection_point_list'', ''collection_point_detail'',
          ''trip_plan_list'', ''trip_plan_detail'']
      | StaffTemplate \<Rightarrow> [''staff_template_list'', ''staff_template_detail'', ''trip_plan_list'',
          ''trip_plan_detail'', ''alternative_staff_template_list'', ''alternative_staff_template_detail'']
      | TripPlan \<Rightarrow> [''trip_plan_list'', ''trip_plan_detail'']
      | ComplaintRoutingRule \<Rightarrow> [''complaint_routing_rule_list'', ''complaint_routing_rule_detail'']
      | _ \<Rightarrow> [])"

section \<open>Every declared relation is answered, but one\<close>

definition CASCADING_MODELS :: "model_class list" where
  "CASCADING_MODELS =
     [Continent, Country, State, District, AreaType, Corporation, Municipality, TownPanchayat,
      PanchayatUnion, Panchayat, Ward, StaffTemplate, TripPlan, DailyTripAssignment]"

lemma cascading_models: "CASCADE_SOFT_DELETE m \<noteq> [] \<Longrightarrow> m \<in> set CASCADING_MODELS"
  by (cases m) (simp_all add: CASCADE_SOFT_DELETE_def CASCADING_MODELS_def)

definition registered_names :: "model_class \<Rightarrow> registration list \<Rightarrow> string list" where
  "registered_names m rs = map (\<lambda>r. snd (fst r)) (filter (\<lambda>r. fst (fst r) = m) rs)"

lemma registered_names_simps:
  "registered_names m [] = []"
  "registered_names m (((p, rel), e) # rs) = (if p = m then [rel] else []) @ registered_names m rs"
  "registered_names m (register p rel c f # rs) = (if p = m then [rel] else []) @ registered_names m rs"
  "registered_names m (rs @ rs') = registered_names m rs @ registered_names m rs'"
  by (simp_all add: registered_names_def register_def)

lemma registered_names_group:
  "registered_names m (map (\<lambda>(rel, child). register p rel child f) xs) = (if p = m then map fst xs else [])"
  by (induction xs) (auto simp: registered_names_simps)

lemma registered_iff:
  "registered m rel \<noteq> None \<longleftrightarrow> rel \<in> set (registered_names m STRING_REF_CASCADE_RELATIONS)"
  by (force simp: registered_def registered_names_def map_of_eq_None_iff)

definition answered :: "model_class \<Rightarrow> string \<Rightarrow> bool" where
  "answered m rel \<longleftrightarrow> map_of (properties m) rel \<noteq> None \<or> registered m rel \<noteq> None"

definition answered_names :: "model_class \<Rightarrow> string list" where
  "answered_names m = map fst (properties m) @ registered_names m STRING_REF_CASCADE_RELATIONS"

lemma answered_iff: "answered m rel \<longleftrightarrow> rel \<in> set (answered_names m)"
  unfolding answered_def registered_iff by (simp add: answered_names_def map_of_eq_None_iff)

lemmas names_simps =
  answered_names_def properties_def STRING_REF_CASCADE_RELATIONS_def continent_relations_def
  consumer_relations_def complaint_relations_def hierarchy_relations_def leader_relations_def
  permission_relations_def template_relations_def access_relations_def PARENT_MODELS_def
  registered_names_simps registered_names_group model_class.case model_class.distinct simp_thms
  if_True if_False list.map concat.simps append.simps append_Nil2 prod.case fst_conv snd_conv
  FLAT_GEO_CONSUMERS_def CASCADE_SOFT_DELETE_def

text \<open>The declared names of a model that nothing answers.\<close>

definition unanswered :: "model_class \<Rightarrow> string list" where
  "unanswered m = filter (\<lambda>rel. rel \<notin> set (answered_names m)) (CASCADE_SOFT_DELETE m)"

lemma unanswered_Continent: "unanswered Continent = []"
  unfolding unanswered_def
  by (simp only: names_simps Continent_cascade_def) code_simp

lemma unanswered_Country: "unanswered Country = []"
  unfolding unanswered_def
  by (simp only: names_simps Country_cascade_def) code_simp

lemma unanswered_State: "unanswered State = []"
  unfolding unanswered_def
  by (simp only: names_simps State_cascade_def State_properties_def) code_simp

lemma unanswered_District: "unanswered District = []"
  unfolding unanswered_def
  by (simp only: names_simps District_cascade_def District_properties_def) code_simp

lemma unanswered_AreaType: "unanswered AreaType = []"
  unfolding unanswered_def
  by (simp only: names_simps AreaType_cascade_def AreaType_properties_def) code_simp

lemma unanswered_Corporation: "unanswered Corporation = []"
  unfolding unanswered_def
  by (simp only: names_simps Corporation_cascade_def Corporation_properties_def) code_simp

lemma unanswered_Municipality: "unanswered Municipality = []"
  unfolding unanswered_def
  by (simp only: names_simps Municipality_cascade_def Municipality_properties_def) code_simp

lemma unanswered_TownPanchayat: "unanswered TownPanchayat = []"
  unfolding unanswered_def
  by (simp only: names_simps TownPanchayat_cascade_def TownPanchayat_properties_def) code_simp

lemma unanswered_PanchayatUnion: "unanswered PanchayatUnion = []"
  unfolding unanswered_def
  by (simp only: names_simps PanchayatUnion_cascade_def PanchayatUnion_properties_def) code_simp

lemma unanswered_Panchayat: "unanswered Panchayat = []"
  unfolding unanswered_def
  by (simp only: names_simps Panchayat_cascade_def Panchayat_properties_def) code_simp

lemma unanswered_Ward: "unanswered Ward = []"
  unfolding unanswered_def
  by (simp only: names_simps Ward_cascade_def Ward_properties_def) code_simp

lemma unanswered_StaffTemplate: "unanswered StaffTemplate = []"
  unfolding unanswered_def
  by (simp only: names_simps StaffTemplate_cascade_def) code_simp

lemma unanswered_TripPlan: "unanswered TripPlan = []"
  unfolding unanswered_def
  by (simp only: names_simps TripPlan_cascade_def TripPlan_properties_def) code_simp

lemma unanswered_DailyTripAssignment: "unanswered DailyTripAssignment = [''unassignedstaffpool'']"
  unfolding unanswered_def
  by (simp only: names_simps DailyTripAssignment_cascade_def DailyTripAssignment_properties_def) code_simp

lemma unanswered_other: "CASCADE_SOFT_DELETE m = [] \<Longrightarrow> unanswered m = []"
  by (simp add: unanswered_def)

text \<open>Of all the relation names the models declare, every one is answered by a property or
  by the registry except the unassigned staff pool of a daily trip assignment, which nothing
  answers: those rows survive the deletion of their assignment.\<close>
theorem declared_relations_answered:
  "rel \<in> set (CASCADE_SOFT_DELETE m) \<and> \<not> answered m rel
     \<longleftrightarrow> m = DailyTripAssignment \<and> rel = ''unassignedstaffpool''"
proof -
  have "unanswered m = (if m = DailyTripAssignment then [''unassignedstaffpool''] else [])"
    by (cases m) (simp_all add: unanswered_Continent unanswered_Country unanswered_State unanswered_District unanswered_AreaType unanswered_Corporation unanswered_Municipality unanswered_TownPanchayat unanswered_PanchayatUnion unanswered_Panchayat unanswered_Ward unanswered_StaffTemplate unanswered_TripPlan unanswered_DailyTripAssignment unanswered_other
      CASCADE_SOFT_DELETE_def)
  moreover have "rel \<in> set (CASCADE_SOFT_DELETE m) \<and> \<not> answered m rel \<longleftrightarrow> rel \<in> set (unanswered m)"
    by (simp add: unanswered_def answered_iff)
  ultimately show ?thesis by auto
qed

end
