(* ===== verification/Graph_Walk.thy ===== *)
theory Graph_Walk
  imports Prelude
begin

text \<open>
  The traversal shared by the two walks of a cascading delete: depth first, in preorder, each
  node once. The recursive \<open>_walk\<close> with its mutable set of visited nodes is written with an
  explicit stack: a node is marked when it is taken from the stack, and its children are put
  in front of what is left, which is the order of the recursive calls.
\<close>

section \<open>The walk\<close>

text \<open>A node outside \<open>nodes\<close> has no children.\<close>

function walk :: "'a list \<Rightarrow> ('a \<Rightarrow> 'a list) \<Rightarrow> 'a list \<Rightarrow> 'a list \<Rightarrow> 'a list" where
  "walk nodes succs visited [] = visited"
| "walk nodes succs visited (x # stack) =
     (if x \<in> set visited then walk nodes succs visited stack
      else walk nodes succs (visited @ [x]) ((if x \<in> set nodes then succs x else []) @ stack))"
  by pat_completeness auto

termination walk
proof (relation "measures [\<lambda>(nodes, next, visited, stack). card (set nodes - set visited),
    \<lambda>(nodes, next, visited, stack). length stack]", goal_cases)
  case (3 nodes succs visited x stack)
  show ?case
  proof (cases "x \<in> set nodes")
    case True
    with 3 have "set nodes - insert x (set visited) \<subset> set nodes - set visited" by auto
    then have "card (set nodes - insert x (set visited)) < card (set nodes - set visited)"
      by (rule psubset_card_mono [rotated]) simp
    with True show ?thesis by simp
  next
    case False
    then have "set nodes - insert x (set visited) = set nodes - set visited" by auto
    with False show ?thesis by simp
  qed
qed simp_all

definition edges :: "'a list \<Rightarrow> ('a \<Rightarrow> 'a list) \<Rightarrow> ('a \<times> 'a) set" where
  "edges nodes succs = {(x, y). x \<in> set nodes \<and> y \<in> set (succs x)}"

lemma edges_iff [simp]: "(x, y) \<in> edges nodes succs \<longleftrightarrow> x \<in> set nodes \<and> y \<in> set (succs x)"
  by (simp add: edges_def)

section \<open>What it visits\<close>

lemma walk_keeps: "set visited \<subseteq> set (walk nodes succs visited stack)"
  by (induction nodes succs visited stack rule: walk.induct) auto

lemma walk_stack: "set stack \<subseteq> set (walk nodes succs visited stack)"
proof (induction nodes succs visited stack rule: walk.induct)
  case (2 nodes succs visited x stack)
  show ?case
  proof (cases "x \<in> set visited")
    case True
    with 2 walk_keeps [of visited nodes succs stack] show ?thesis by auto
  next
    case False
    with 2(2) walk_keeps [of "visited @ [x]" nodes succs] show ?thesis by fastforce
  qed
qed simp

lemma walk_distinct: "distinct visited \<Longrightarrow> distinct (walk nodes succs visited stack)"
  by (induction nodes succs visited stack rule: walk.induct) auto

lemma walk_sound:
  assumes "y \<in> set (walk nodes succs visited stack)"
  shows "y \<in> set visited \<or> (\<exists>x\<in>set stack. (x, y) \<in> (edges nodes succs)\<^sup>*)"
  using assms
proof (induction nodes succs visited stack rule: walk.induct)
  case (2 nodes succs visited x stack)
  show ?case
  proof (cases "x \<in> set visited")
    case True
    with 2 show ?thesis by auto
  next
    case False
    with 2(2,3) consider "y \<in> set visited" | "y = x"
      | z where "x \<in> set nodes" "z \<in> set (succs x)" "(z, y) \<in> (edges nodes succs)\<^sup>*"
      | z where "z \<in> set stack" "(z, y) \<in> (edges nodes succs)\<^sup>*"
      by (auto split: if_splits)
    then show ?thesis
      by cases (auto intro: converse_rtrancl_into_rtrancl)
  qed
qed simp

text \<open>The invariant: whatever a visited node leads to is visited or still on the stack.\<close>

lemma walk_closed:
  assumes "\<forall>x\<in>set visited. x \<in> set nodes \<longrightarrow> set (succs x) \<subseteq> set visited \<union> set stack"
    and "x \<in> set (walk nodes succs visited stack)" and "x \<in> set nodes"
  shows "set (succs x) \<subseteq> set (walk nodes succs visited stack)"
  using assms
proof (induction nodes succs visited stack rule: walk.induct)
  case (2 nodes succs visited y stack)
  show ?case
  proof (cases "y \<in> set visited")
    case True
    with 2 show ?thesis by auto
  next
    case False
    let ?stack = "(if y \<in> set nodes then succs y else []) @ stack"
    have "\<forall>z\<in>set (visited @ [y]). z \<in> set nodes \<longrightarrow> set (succs z) \<subseteq> set (visited @ [y]) \<union> set ?stack"
      using 2(3) by auto
    with 2(2,4,5) False show ?thesis by simp
  qed
qed simp

theorem walk_reaches:
  "set (walk nodes succs [] [r]) = {y. (r, y) \<in> (edges nodes succs)\<^sup>*}"
proof (intro set_eqI iffI)
  fix y
  assume "y \<in> set (walk nodes succs [] [r])"
  then show "y \<in> {y. (r, y) \<in> (edges nodes succs)\<^sup>*}" using walk_sound by fastforce
next
  fix y
  assume "y \<in> {y. (r, y) \<in> (edges nodes succs)\<^sup>*}"
  then have "(r, y) \<in> (edges nodes succs)\<^sup>*" by simp
  then show "y \<in> set (walk nodes succs [] [r])"
  proof (induction rule: rtrancl_induct)
    case base
    show ?case using walk_stack [of "[r]" nodes succs "[]"] by simp
  next
    case (step y z)
    then show ?case using walk_closed [of "[]" nodes succs "[r]" y] by auto
  qed
qed

end
