(* ===== verification/Cascade_Delete.thy ===== *)
theory Cascade_Delete
  imports Cascade_Tables Graph_Walk
begin

text \<open>
  Cascading soft delete (\<open>app/utils/cascade_delete.py\<close>, \<open>app/utils/delete_reason.py\<close>) and the
  DELETE handling of \<open>DeleteReasonMixin\<close> in \<open>app/utils/audit_mixin.py\<close>.

  All tables together are one list of rows; a row carries its model class, and the rows of one
  model stand in the order in which its manager returns them. \<open>mr_updated_by\<close> is the column
  \<open>updated_by\<close>, or \<open>updated_by_id\<close> where a model replaces it. The primary key is kept in
  its printed form.
\<close>

section \<open>Rows\<close>

record master_row =
  mr_model :: model_class
  mr_pk :: ident
  mr_unique_id :: ident
  mr_column :: "string \<Rightarrow> ident option"
  mr_id_list :: "string \<Rightarrow> ident list"
  mr_is_active :: bool
  mr_is_deleted :: bool
  mr_delete_reason :: "string option"
  mr_updated_by :: "ident option"
  mr_deleted_by :: "ident option"
  mr_updated_at :: "int option"
  mr_deleted_at :: "int option"

type_synonym row_key = "model_class \<times> ident"

definition row_key :: "master_row \<Rightarrow> row_key" where
  "row_key r = (mr_model r, mr_pk r)"

text \<open>The columns a model lacks: vehicles are no \<open>BaseMaster\<close>, customers rename \<open>updated_by\<close>.\<close>

definition model_has_field :: "model_class \<Rightarrow> string \<Rightarrow> bool" where
  "model_has_field m field \<longleftrightarrow>
     (if m = VehicleCreation then field \<in> {''is_active'', ''is_deleted'', ''updated_at''}
      else if m = CustomerCreation then
        field \<in> {''is_active'', ''is_deleted'', ''delete_reason'', ''updated_by_id'', ''deleted_by'',
                 ''updated_at'', ''deleted_at''}
      else field \<in> {''is_active'', ''is_deleted'', ''delete_reason'', ''updated_by'', ''deleted_by'',
                   ''updated_at'', ''deleted_at''})"

section \<open>The walk over rows\<close>

definition refers :: "reference \<Rightarrow> ident \<Rightarrow> master_row \<Rightarrow> bool" where
  "refers ref uid r =
     (case ref of ColumnIs c \<Rightarrow> mr_column r c = Some uid | ListContains c \<Rightarrow> uid \<in> set (mr_id_list r c))"

definition query :: "master_row list \<Rightarrow> model_class \<Rightarrow> reference \<Rightarrow> ident \<Rightarrow> master_row list" where
  "query rows child ref uid = filter (\<lambda>r. mr_model r = child \<and> refers ref uid r) rows"

definition registry_rows :: "master_row list \<Rightarrow> master_row \<Rightarrow> string \<Rightarrow> master_row list" where
  "registry_rows rows obj rel_name =
     (case registered (mr_model obj) rel_name of
        None \<Rightarrow> []
      | Some (child, ref) \<Rightarrow> query rows child ref (mr_unique_id obj))"

text \<open>\<open>_resolve_related_manager\<close>: a property wins; one that finds no row falls through to the registry.\<close>

definition resolve_related :: "master_row list \<Rightarrow> master_row \<Rightarrow> string \<Rightarrow> master_row list" where
  "resolve_related rows obj rel_name =
     (case map_of (properties (mr_model obj)) rel_name of
        Some (Rows child ref) \<Rightarrow> query rows child ref (mr_unique_id obj)
      | Some (FirstRow child ref) \<Rightarrow>
          (case query rows child ref (mr_unique_id obj) of
             [] \<Rightarrow> registry_rows rows obj rel_name
           | r # _ \<Rightarrow> [r])
      | None \<Rightarrow> registry_rows rows obj rel_name)"

definition cascade_children :: "master_row list \<Rightarrow> master_row \<Rightarrow> master_row list" where
  "cascade_children rows obj =
     concat (map (resolve_related rows obj) (CASCADE_SOFT_DELETE (mr_model obj)))"

definition find_row :: "master_row list \<Rightarrow> row_key \<Rightarrow> master_row option" where
  "find_row rows k = find (\<lambda>r. row_key r = k) rows"

definition child_keys :: "master_row list \<Rightarrow> row_key \<Rightarrow> row_key list" where
  "child_keys rows k =
     (case find_row rows k of None \<Rightarrow> [] | Some r \<Rightarrow> map row_key (cascade_children rows r))"

text \<open>The nested \<open>_walk\<close>; the result is the dict \<open>visited\<close>, as keys in the order they were added.\<close>

definition collect_rows :: "master_row list \<Rightarrow> row_key \<Rightarrow> row_key list" where
  "collect_rows rows root = walk (map row_key rows) (child_keys rows) [] [root]"

section \<open>The update\<close>

definition DELETE_REASON_MAX_LENGTH :: nat where "DELETE_REASON_MAX_LENGTH = 500"

definition cascaded_delete_reason :: "string \<Rightarrow> row_key \<Rightarrow> string" where
  "cascaded_delete_reason reason root =
     take DELETE_REASON_MAX_LENGTH
       (reason @ '' (cascaded from '' @ class_name (fst root) @ '' '' @ snd root @ '')'')"

definition effective_reason :: "string option \<Rightarrow> string option \<Rightarrow> string option" where
  "effective_reason delete_reason request_reason =
     (let reason = (if delete_reason = None then request_reason else delete_reason)
      in if truthy reason then map_option (take DELETE_REASON_MAX_LENGTH) reason else reason)"

text \<open>\<open>_stamp_actor\<close>: the column an actor is written to, if the model has one.\<close>

definition stampable :: "model_class \<Rightarrow> string \<Rightarrow> bool" where
  "stampable m field \<longleftrightarrow> model_has_field m field \<or> model_has_field m (field @ ''_id'')"

definition stamp_updated_by :: "model_class \<Rightarrow> ident option \<Rightarrow> master_row \<Rightarrow> master_row" where
  "stamp_updated_by m actor r =
     (if actor \<noteq> None \<and> stampable m ''updated_by'' then r\<lparr>mr_updated_by := actor\<rparr> else r)"

definition stamp_deleted_by :: "model_class \<Rightarrow> ident option \<Rightarrow> master_row \<Rightarrow> master_row" where
  "stamp_deleted_by m actor r =
     (if actor \<noteq> None \<and> stampable m ''deleted_by'' then r\<lparr>mr_deleted_by := actor\<rparr> else r)"

definition stamp_times :: "model_class \<Rightarrow> int \<Rightarrow> master_row \<Rightarrow> master_row" where
  "stamp_times m now r =
     r\<lparr>mr_deleted_at := (if model_has_field m ''deleted_at'' then Some now else mr_deleted_at r),
       mr_updated_at := (if model_has_field m ''updated_at'' then Some now else mr_updated_at r)\<rparr>"

text \<open>The values of \<open>update_fields\<close>.\<close>

definition update_fields ::
  "model_class \<Rightarrow> int \<Rightarrow> ident option \<Rightarrow> ident option \<Rightarrow> master_row \<Rightarrow> master_row" where
  "update_fields m now updated_by deleted_by r =
     stamp_times m now (stamp_deleted_by m deleted_by (stamp_updated_by m updated_by
       (r\<lparr>mr_is_deleted := True, mr_is_active := False\<rparr>)))"

text \<open>A bulk \<open>filter(...).update(...)\<close>.\<close>

definition update_where ::
  "(master_row \<Rightarrow> bool) \<Rightarrow> (master_row \<Rightarrow> master_row) \<Rightarrow> master_row list \<Rightarrow> master_row list" where
  "update_where p f = map (\<lambda>r. if p r then f r else r)"

text \<open>One turn of the loop over \<open>visited.items()\<close>: two updates with a reason, one without.\<close>

definition delete_model ::
  "int \<Rightarrow> ident option \<Rightarrow> ident option \<Rightarrow> string option \<Rightarrow> row_key \<Rightarrow> row_key list
     \<Rightarrow> model_class \<Rightarrow> master_row list \<Rightarrow> master_row list" where
  "delete_model now updated_by deleted_by reason root keys m rows =
     (let pks = map snd (filter (\<lambda>k. fst k = m) keys);
          live = (\<lambda>r. mr_model r = m \<and> mr_pk r \<in> set pks \<and> \<not> mr_is_deleted r);
          fields = update_fields m now updated_by deleted_by
      in if truthy reason \<and> model_has_field m ''delete_reason''
         then let child_pks = (if m = fst root then filter (\<lambda>pk. pk \<noteq> snd root) pks else pks);
                  tag = cascaded_delete_reason (the reason) root;
                  rows' = update_where (\<lambda>r. live r \<and> mr_pk r \<in> set child_pks)
                            (\<lambda>r. (fields r)\<lparr>mr_delete_reason := Some tag\<rparr>) rows
              in update_where (\<lambda>r. live r \<and> mr_pk r \<notin> set child_pks) fields rows'
         else update_where live fields rows)"

text \<open>What happens to the instance in memory.\<close>

definition stamp_instance ::
  "int \<Rightarrow> ident option \<Rightarrow> ident option \<Rightarrow> string option \<Rightarrow> master_row \<Rightarrow> master_row" where
  "stamp_instance now updated_by deleted_by reason obj =
     (let m = mr_model obj;
          stamped = stamp_updated_by m updated_by (stamp_times m now
            (obj\<lparr>mr_is_deleted := True, mr_is_active := False\<rparr>));
          stamped' = (if deleted_by \<noteq> None \<and> model_has_field m ''deleted_by''
            then stamped\<lparr>mr_deleted_by := deleted_by\<rparr> else stamped)
      in if truthy reason \<and> model_has_field m ''delete_reason''
         then stamped'\<lparr>mr_delete_reason := reason\<rparr> else stamped')"

definition cascade_soft_delete ::
  "int \<Rightarrow> ident option \<Rightarrow> string option \<Rightarrow> ident option \<Rightarrow> string option
     \<Rightarrow> master_row list \<Rightarrow> master_row \<Rightarrow> master_row \<times> master_row list" where
  "cascade_soft_delete now updated_by delete_reason deleted_by request_reason rows obj =
     (let reason = effective_reason delete_reason request_reason;
          deleter = (if deleted_by = None then updated_by else deleted_by);
          root = row_key obj;
          keys = collect_rows rows root;
          rows' = fold (delete_model now updated_by deleter reason root keys) (remdups (map fst keys)) rows;
          rows'' = (if truthy reason \<and> model_has_field (mr_model obj) ''delete_reason''
            then update_where (\<lambda>r. row_key r = root) (\<lambda>r. r\<lparr>mr_delete_reason := reason\<rparr>) rows'
            else rows')
      in (stamp_instance now updated_by deleter reason obj, rows''))"

section \<open>Cache scopes\<close>

text \<open>\<open>_resolve_child_model\<close>: the models have no reverse fields, and \<open>_meta\<close> knows no
  properties, so only the registry answers.\<close>

definition child_models :: "model_class \<Rightarrow> model_class list" where
  "child_models m =
     concat (map (\<lambda>rel. case registered m rel of None \<Rightarrow> [] | Some (child, _) \<Rightarrow> [child])
       (CASCADE_SOFT_DELETE m))"

definition collect_models :: "model_class \<Rightarrow> model_class list" where
  "collect_models m = walk CASCADING_MODELS child_models [] [m]"

definition collect_cascade_cache_scopes :: "model_class \<Rightarrow> string list" where
  "collect_cascade_cache_scopes m = remdups (concat (map CACHE_SCOPES (collect_models m)))"

section \<open>What one deletion does to each row\<close>

definition cascaded_row ::
  "int \<Rightarrow> ident option \<Rightarrow> ident option \<Rightarrow> string option \<Rightarrow> row_key \<Rightarrow> master_row \<Rightarrow> master_row" where
  "cascaded_row now updated_by deleted_by reason root r =
     (let r' = update_fields (mr_model r) now updated_by deleted_by r
      in if truthy reason \<and> model_has_field (mr_model r) ''delete_reason'' \<and> row_key r \<noteq> root
         then r'\<lparr>mr_delete_reason := Some (cascaded_delete_reason (the reason) root)\<rparr> else r')"

lemma update_fields_simps [simp]:
  "mr_model (update_fields m now u d r) = mr_model r"
  "mr_pk (update_fields m now u d r) = mr_pk r"
  "mr_unique_id (update_fields m now u d r) = mr_unique_id r"
  "mr_column (update_fields m now u d r) = mr_column r"
  "mr_id_list (update_fields m now u d r) = mr_id_list r"
  "mr_is_deleted (update_fields m now u d r)"
  "\<not> mr_is_active (update_fields m now u d r)"
  "mr_delete_reason (update_fields m now u d r) = mr_delete_reason r"
  by (simp_all add: update_fields_def stamp_times_def stamp_deleted_by_def stamp_updated_by_def)

lemma cascaded_row_simps [simp]:
  "mr_model (cascaded_row now u d reason root r) = mr_model r"
  "mr_pk (cascaded_row now u d reason root r) = mr_pk r"
  "mr_unique_id (cascaded_row now u d reason root r) = mr_unique_id r"
  "mr_column (cascaded_row now u d reason root r) = mr_column r"
  "mr_id_list (cascaded_row now u d reason root r) = mr_id_list r"
  "mr_is_deleted (cascaded_row now u d reason root r)"
  "\<not> mr_is_active (cascaded_row now u d reason root r)"
  by (simp_all add: cascaded_row_def Let_def)

lemma delete_model_map:
  "delete_model now u d reason root keys m rows =
     map (\<lambda>r. if mr_model r = m \<and> row_key r \<in> set keys \<and> \<not> mr_is_deleted r
              then cascaded_row now u d reason root r else r) rows"
proof -
  have pks: "pk \<in> set (map snd (filter (\<lambda>k. fst k = m) keys)) \<longleftrightarrow> (m, pk) \<in> set keys" for pk
    by force
  have child: "pk \<in> set (if m = fst root then filter (\<lambda>pk. pk \<noteq> snd root) pks else pks)
      \<longleftrightarrow> pk \<in> set pks \<and> (m, pk) \<noteq> root" for pk pks
    by (cases root) auto
  show ?thesis
    unfolding delete_model_def Let_def update_where_def pks child cascaded_row_def row_key_def
    by (auto simp: o_def)
qed

lemma delete_models_map:
  "fold (delete_model now u d reason root keys) ms rows =
     map (\<lambda>r. if mr_model r \<in> set ms \<and> row_key r \<in> set keys \<and> \<not> mr_is_deleted r
              then cascaded_row now u d reason root r else r) rows"
proof (induction ms arbitrary: rows)
  case (Cons m ms)
  have "fold (delete_model now u d reason root keys) (m # ms) rows
      = fold (delete_model now u d reason root keys) ms (delete_model now u d reason root keys m rows)"
    by simp
  also note Cons.IH
  also note delete_model_map
  finally show ?case by (auto simp: row_key_def)
qed simp

text \<open>The whole operation, row by row.\<close>

definition deleted_row ::
  "int \<Rightarrow> ident option \<Rightarrow> ident option \<Rightarrow> string option \<Rightarrow> row_key \<Rightarrow> bool \<Rightarrow> master_row \<Rightarrow> master_row" where
  "deleted_row now updated_by deleted_by reason root collected r =
     (let r' = (if collected \<and> \<not> mr_is_deleted r then cascaded_row now updated_by deleted_by reason root r else r)
      in if row_key r = root \<and> truthy reason \<and> model_has_field (mr_model r) ''delete_reason''
         then r'\<lparr>mr_delete_reason := reason\<rparr> else r')"

lemma deleted_row_simps [simp]:
  "mr_model (deleted_row now u d reason root c r) = mr_model r"
  "mr_pk (deleted_row now u d reason root c r) = mr_pk r"
  "mr_unique_id (deleted_row now u d reason root c r) = mr_unique_id r"
  "mr_column (deleted_row now u d reason root c r) = mr_column r"
  "mr_id_list (deleted_row now u d reason root c r) = mr_id_list r"
  "mr_is_deleted (deleted_row now u d reason root c r) \<longleftrightarrow> mr_is_deleted r \<or> c"
  by (auto simp: deleted_row_def Let_def)

lemma row_key_deleted_row [simp]: "row_key (deleted_row now u d reason root c r) = row_key r"
  by (simp add: row_key_def)

lemma cascade_rows:
  "snd (cascade_soft_delete now u reason d request_reason rows obj) =
     map (\<lambda>r. deleted_row now u (if d = None then u else d) (effective_reason reason request_reason)
        (row_key obj) (row_key r \<in> set (collect_rows rows (row_key obj))) r) rows"
proof -
  define R where "R = effective_reason reason request_reason"
  define D where "D = (if d = None then u else d)"
  define K where "K = row_key obj"
  define keys where "keys = collect_rows rows K"
  define f where "f = (\<lambda>r. if row_key r \<in> set keys \<and> \<not> mr_is_deleted r
      then cascaded_row now u D R K r else r)"
  have "mr_model r \<in> set (remdups (map fst keys)) \<and> row_key r \<in> set keys \<and> \<not> mr_is_deleted r
      \<longleftrightarrow> row_key r \<in> set keys \<and> \<not> mr_is_deleted r" for r
    by (force simp: row_key_def)
  then have all: "fold (delete_model now u D R K keys) (remdups (map fst keys)) rows = map f rows"
    by (simp only: delete_models_map f_def)
  have key: "row_key (f r) = row_key r" for r by (simp add: f_def row_key_def)
  have "snd (cascade_soft_delete now u reason d request_reason rows obj) =
      (if truthy R \<and> model_has_field (mr_model obj) ''delete_reason''
       then update_where (\<lambda>r. row_key r = K) (\<lambda>r. r\<lparr>mr_delete_reason := R\<rparr>) (map f rows) else map f rows)"
    by (simp only: cascade_soft_delete_def Let_def R_def [symmetric] D_def [symmetric] K_def [symmetric]
        keys_def [symmetric] all snd_conv)
  also have "\<dots> = map (\<lambda>r. if row_key r = K \<and> truthy R \<and> model_has_field (mr_model obj) ''delete_reason''
      then (f r)\<lparr>mr_delete_reason := R\<rparr> else f r) rows"
    by (auto simp: update_where_def key)
  also have "\<dots> = map (\<lambda>r. deleted_row now u D R K (row_key r \<in> set keys) r) rows"
  proof (intro map_cong refl)
    fix r
    have "mr_model r = mr_model obj" if "row_key r = K" using that by (simp add: K_def row_key_def)
    then show "(if row_key r = K \<and> truthy R \<and> model_has_field (mr_model obj) ''delete_reason''
      then (f r)\<lparr>mr_delete_reason := R\<rparr> else f r) = deleted_row now u D R K (row_key r \<in> set keys) r"
      unfolding deleted_row_def Let_def f_def by (cases "row_key r = K") simp_all
  qed
  finally show ?thesis by (simp only: R_def D_def K_def keys_def)
qed

section \<open>Reachable rows\<close>

text \<open>The specification: a row leads to the rows its declared relations return.\<close>

definition cascade_edges :: "master_row list \<Rightarrow> (row_key \<times> row_key) set" where
  "cascade_edges rows =
     {(row_key p, row_key c) | p c rel. p \<in> set rows \<and> rel \<in> set (CASCADE_SOFT_DELETE (mr_model p))
        \<and> c \<in> set (resolve_related rows p rel)}"

lemma find_row_distinct:
  "distinct (map row_key rows) \<Longrightarrow> r \<in> set rows \<Longrightarrow> find_row rows (row_key r) = Some r"
  unfolding find_row_def by (rule find_distinct)

lemma edges_child_keys:
  assumes "distinct (map row_key rows)"
  shows "edges (map row_key rows) (child_keys rows) = cascade_edges rows"
proof (intro set_eqI, clarify)
  fix a b c e
  show "((a, b), (c, e)) \<in> edges (map row_key rows) (child_keys rows)
      \<longleftrightarrow> ((a, b), (c, e)) \<in> cascade_edges rows"
  proof
    assume "((a, b), (c, e)) \<in> edges (map row_key rows) (child_keys rows)"
    then obtain p where p: "p \<in> set rows" "row_key p = (a, b)" and c: "(c, e) \<in> set (child_keys rows (a, b))"
      by fastforce
    from c have "(c, e) \<in> row_key ` set (cascade_children rows p)"
      by (simp add: child_keys_def p(2) [symmetric] find_row_distinct [OF assms p(1)])
    with p show "((a, b), (c, e)) \<in> cascade_edges rows"
      by (force simp: cascade_edges_def cascade_children_def)
  next
    assume "((a, b), (c, e)) \<in> cascade_edges rows"
    then obtain p q rel where p: "p \<in> set rows" "row_key p = (a, b)" "row_key q = (c, e)"
      and q: "rel \<in> set (CASCADE_SOFT_DELETE (mr_model p))" "q \<in> set (resolve_related rows p rel)"
      unfolding cascade_edges_def by fastforce
    have "(c, e) \<in> set (child_keys rows (a, b))"
      using q by (force simp: child_keys_def p(2) [symmetric] p(3) [symmetric]
          find_row_distinct [OF assms p(1)] cascade_children_def)
    moreover have "(a, b) \<in> set (map row_key rows)" using p by force
    ultimately show "((a, b), (c, e)) \<in> edges (map row_key rows) (child_keys rows)" by simp
  qed
qed

lemma collect_rows_reaches:
  "distinct (map row_key rows) \<Longrightarrow>
     set (collect_rows rows root) = {k. (root, k) \<in> (cascade_edges rows)\<^sup>*}"
  unfolding collect_rows_def walk_reaches by (simp only: edges_child_keys)

section \<open>Properties of a deletion\<close>

lemma cascade_deletes_exactly_reachable_parts:
  assumes "distinct (map row_key rows)"
    and "cascade_soft_delete now u reason d request_reason rows obj = (obj', rows')"
    and "(r, r') \<in> set (zip rows rows')"
  shows "row_key r' = row_key r"
    and "mr_is_deleted r' \<longleftrightarrow> mr_is_deleted r \<or> (row_key obj, row_key r) \<in> (cascade_edges rows)\<^sup>*"
    and "(row_key obj, row_key r) \<notin> (cascade_edges rows)\<^sup>* \<longrightarrow> r' = r"
proof -
  have "rows' = map (\<lambda>r. deleted_row now u (if d = None then u else d)
      (effective_reason reason request_reason) (row_key obj)
      ((row_key obj, row_key r) \<in> (cascade_edges rows)\<^sup>*) r) rows"
    using cascade_rows [of now u reason d request_reason rows obj] assms(2)
    by (simp add: collect_rows_reaches [OF assms(1)])
  then have r': "r' = deleted_row now u (if d = None then u else d)
      (effective_reason reason request_reason) (row_key obj)
      ((row_key obj, row_key r) \<in> (cascade_edges rows)\<^sup>*) r"
    using assms(3) by (auto simp: set_zip)
  from r' show "row_key r' = row_key r"
    and "mr_is_deleted r' \<longleftrightarrow> mr_is_deleted r \<or> (row_key obj, row_key r) \<in> (cascade_edges rows)\<^sup>*"
    by simp_all
  from r' show "(row_key obj, row_key r) \<notin> (cascade_edges rows)\<^sup>* \<longrightarrow> r' = r"
    by (auto simp: deleted_row_def)
qed

text \<open>C37: Deleting a row soft-deletes exactly the rows that the declared relations reach from it,
  in any number of steps, each once; every other row stays as it was.\<close>
theorem cascade_deletes_exactly_reachable:
  assumes "distinct (map row_key rows)"
    and "cascade_soft_delete now u reason d request_reason rows obj = (obj', rows')"
    and "(r, r') \<in> set (zip rows rows')"
  shows "(row_key r' = row_key r)
    \<and> (mr_is_deleted r' \<longleftrightarrow> mr_is_deleted r \<or> (row_key obj, row_key r) \<in> (cascade_edges rows)\<^sup>*)
    \<and> ((row_key obj, row_key r) \<notin> (cascade_edges rows)\<^sup>* \<longrightarrow> r' = r)"
  by (intro conjI cascade_deletes_exactly_reachable_parts [OF assms])

lemma cascade_records_parts:
  assumes "cascade_soft_delete now u reason d request_reason rows obj = (obj', rows')"
    and "(r, r') \<in> set (zip rows rows')"
  shows "mr_is_deleted r \<and> row_key r \<noteq> row_key obj \<longrightarrow> r' = r"
    and "\<not> mr_is_deleted r \<and> mr_is_deleted r' \<longrightarrow> \<not> mr_is_active r'
      \<and> (model_has_field (mr_model r) ''deleted_at'' \<longrightarrow> mr_deleted_at r' = Some now)
      \<and> (d = Some actor \<or> d = None \<and> u = Some actor \<longrightarrow>
           stampable (mr_model r) ''deleted_by'' \<longrightarrow> mr_deleted_by r' = Some actor)"
    and "\<not> mr_is_deleted r \<and> mr_is_deleted r' \<and> model_has_field (mr_model r) ''delete_reason''
      \<and> effective_reason reason request_reason = Some text \<and> text \<noteq> [] \<longrightarrow>
        mr_delete_reason r' = Some (if row_key r = row_key obj then text
          else cascaded_delete_reason text (row_key obj))"
proof -
  have "rows' = map (\<lambda>r. deleted_row now u (if d = None then u else d)
      (effective_reason reason request_reason) (row_key obj)
      (row_key r \<in> set (collect_rows rows (row_key obj))) r) rows"
    using cascade_rows [of now u reason d request_reason rows obj] assms(1) by simp
  then obtain c where r': "r' = deleted_row now u (if d = None then u else d)
      (effective_reason reason request_reason) (row_key obj) c r"
    using assms(2) by (auto simp: set_zip)
  from r' show "mr_is_deleted r \<and> row_key r \<noteq> row_key obj \<longrightarrow> r' = r"
    by (auto simp: deleted_row_def)
  from r' show "\<not> mr_is_deleted r \<and> mr_is_deleted r' \<longrightarrow> \<not> mr_is_active r'
      \<and> (model_has_field (mr_model r) ''deleted_at'' \<longrightarrow> mr_deleted_at r' = Some now)
      \<and> (d = Some actor \<or> d = None \<and> u = Some actor \<longrightarrow>
           stampable (mr_model r) ''deleted_by'' \<longrightarrow> mr_deleted_by r' = Some actor)"
    by (auto simp: deleted_row_def cascaded_row_def Let_def update_fields_def stamp_times_def
        stamp_deleted_by_def stamp_updated_by_def)
  from r' show "\<not> mr_is_deleted r \<and> mr_is_deleted r' \<and> model_has_field (mr_model r) ''delete_reason''
      \<and> effective_reason reason request_reason = Some text \<and> text \<noteq> [] \<longrightarrow>
        mr_delete_reason r' = Some (if row_key r = row_key obj then text
          else cascaded_delete_reason text (row_key obj))"
    by (auto simp: deleted_row_def cascaded_row_def Let_def)
qed

text \<open>What a newly deleted row records: the time, the actor where one is known, and the reason,
  in full on the row the user deleted and tagged with that row on the others, never longer than
  the column. A row that was deleted before keeps its own record, whoever deletes its parents
  later.\<close>
theorem cascade_records:
  assumes "cascade_soft_delete now u reason d request_reason rows obj = (obj', rows')"
    and "(r, r') \<in> set (zip rows rows')"
  shows "(mr_is_deleted r \<and> row_key r \<noteq> row_key obj \<longrightarrow> r' = r)
    \<and> (\<not> mr_is_deleted r \<and> mr_is_deleted r' \<longrightarrow> \<not> mr_is_active r'
      \<and> (model_has_field (mr_model r) ''deleted_at'' \<longrightarrow> mr_deleted_at r' = Some now)
      \<and> (d = Some actor \<or> d = None \<and> u = Some actor \<longrightarrow>
           stampable (mr_model r) ''deleted_by'' \<longrightarrow> mr_deleted_by r' = Some actor))
    \<and> (\<not> mr_is_deleted r \<and> mr_is_deleted r' \<and> model_has_field (mr_model r) ''delete_reason''
      \<and> effective_reason reason request_reason = Some text \<and> text \<noteq> [] \<longrightarrow>
        mr_delete_reason r' = Some (if row_key r = row_key obj then text
          else cascaded_delete_reason text (row_key obj)))"
  by (intro conjI cascade_records_parts [OF assms])

lemma reasons_fit:
  "effective_reason reason request_reason = Some text \<Longrightarrow> length text \<le> DELETE_REASON_MAX_LENGTH"
  "length (cascaded_delete_reason text root) \<le> DELETE_REASON_MAX_LENGTH"
  by (auto simp: effective_reason_def Let_def cascaded_delete_reason_def split: if_splits)

lemma stampable_deleted_by: "stampable m ''deleted_by'' = model_has_field m ''deleted_by''"
  by (simp add: stampable_def model_has_field_def)

lemma stamp_instance_row:
  assumes "\<not> mr_is_deleted obj"
  shows "deleted_row now u d reason (row_key obj) True obj = stamp_instance now u d reason obj"
proof -
  have "update_fields (mr_model obj) now u d obj
      = (let stamped = stamp_updated_by (mr_model obj) u (stamp_times (mr_model obj) now
            (obj\<lparr>mr_is_deleted := True, mr_is_active := False\<rparr>))
         in if d \<noteq> None \<and> model_has_field (mr_model obj) ''deleted_by''
            then stamped\<lparr>mr_deleted_by := d\<rparr> else stamped)"
    by (auto simp: update_fields_def stamp_times_def stamp_deleted_by_def stamp_updated_by_def
        stampable_deleted_by Let_def)
  with assms show ?thesis
    by (simp add: deleted_row_def cascaded_row_def stamp_instance_def Let_def)
qed

lemma stored_instance:
  assumes "distinct (map row_key rows)" and "obj \<in> set rows" and "\<not> mr_is_deleted obj"
    and "cascade_soft_delete now u reason d request_reason rows obj = (obj', rows')"
  shows "find_row rows' (row_key obj) = Some obj'"
proof -
  let ?D = "if d = None then u else d" and ?R = "effective_reason reason request_reason"
  have rows': "rows' = map (\<lambda>r. deleted_row now u ?D ?R (row_key obj)
      (row_key r \<in> set (collect_rows rows (row_key obj))) r) rows"
    using cascade_rows [of now u reason d request_reason rows obj] assms(4) by simp
  have self: "row_key obj \<in> set (collect_rows rows (row_key obj))"
    by (simp add: collect_rows_reaches [OF assms(1)])
  have "find_row rows' (row_key obj)
      = Some (deleted_row now u ?D ?R (row_key obj)
          (row_key obj \<in> set (collect_rows rows (row_key obj))) obj)"
    unfolding rows' find_row_def
    by (simp add: find_map_id find_row_distinct [OF assms(1,2), unfolded find_row_def])
  also have "\<dots> = Some (stamp_instance now u ?D ?R obj)"
    using self assms(3) by (simp add: stamp_instance_row)
  also have "stamp_instance now u ?D ?R obj = obj'"
    using assms(4) by (simp add: cascade_soft_delete_def Let_def)
  finally show ?thesis .
qed

text \<open>The instance a request goes on to use shows what is now stored for it.\<close>
theorem instance_matches_row:
  assumes "distinct (map row_key rows)" and "obj \<in> set rows" and "\<not> mr_is_deleted obj"
    and "cascade_soft_delete now u reason d request_reason rows obj = (obj', rows')"
  shows "find_row rows' (row_key obj) = Some obj'"
  using assms by (rule stored_instance)

section \<open>A deletion is written once\<close>

text \<open>Who deleted a row, when: no later deletion changes it. An event is a deletion with its
  arguments.\<close>

type_synonym deletion = "int \<times> ident option \<times> string option \<times> ident option \<times> master_row"

definition delete_event :: "deletion \<Rightarrow> master_row list \<Rightarrow> master_row list" where
  "delete_event = (\<lambda>(now, updated_by, reason, deleted_by, obj) rows.
     snd (cascade_soft_delete now updated_by reason deleted_by None rows obj))"

definition row_deleted :: "row_key \<Rightarrow> master_row list \<Rightarrow> bool" where
  "row_deleted k rows = (case find_row rows k of None \<Rightarrow> False | Some r \<Rightarrow> mr_is_deleted r)"

definition deletion_stamp :: "row_key \<Rightarrow> master_row list \<Rightarrow> (int option \<times> ident option) option" where
  "deletion_stamp k rows = map_option (\<lambda>r. (mr_deleted_at r, mr_deleted_by r)) (find_row rows k)"

lemma find_row_delete_event:
  "find_row (delete_event e rows) k = None \<longleftrightarrow> find_row rows k = None"
  "find_row rows k = Some r \<Longrightarrow> mr_is_deleted r \<Longrightarrow> \<exists>r'. find_row (delete_event e rows) k = Some r'
     \<and> mr_is_deleted r' \<and> mr_deleted_at r' = mr_deleted_at r \<and> mr_deleted_by r' = mr_deleted_by r"
  by (cases e; simp add: delete_event_def cascade_rows find_row_def find_map_id;
      simp add: deleted_row_def Let_def)+

interpretation deletion: write_once delete_event "row_deleted k" "deletion_stamp k"
proof unfold_locales
  fix rows e
  assume "row_deleted k rows"
  then obtain r where r: "find_row rows k = Some r" "mr_is_deleted r"
    by (auto simp: row_deleted_def split: option.splits)
  from find_row_delete_event(2) [OF r, of e] r
  show "row_deleted k (delete_event e rows)"
    and "deletion_stamp k (delete_event e rows) = deletion_stamp k rows"
    by (auto simp: row_deleted_def deletion_stamp_def)
qed

text \<open>Once a row is deleted, the time and the actor of its deletion stand, through any further
  deletions of it, of its parents or of other rows.\<close>
theorem deletion_recorded_once:
  assumes "row_deleted k (fold delete_event es rows)"
  shows "row_deleted k (fold delete_event (es @ es') rows)
    \<and> deletion_stamp k (fold delete_event (es @ es') rows) = deletion_stamp k (fold delete_event es rows)"
  using assms deletion.run_decided [of k "fold delete_event es rows" es']
    deletion.first_decision_wins [of k es rows es'] by simp

section \<open>Cache scopes of a deletion\<close>

definition model_edges :: "(model_class \<times> model_class) set" where
  "model_edges = {(m, child). \<exists>rel\<in>set (CASCADE_SOFT_DELETE m). \<exists>ref. registered m rel = Some (child, ref)}"

lemma child_models_iff:
  "child \<in> set (child_models m) \<longleftrightarrow> (m, child) \<in> model_edges"
proof -
  have "child \<in> set (case registered m rel of None \<Rightarrow> [] | Some (c, _) \<Rightarrow> [c])
      \<longleftrightarrow> (\<exists>ref. registered m rel = Some (child, ref))" for rel
    by (cases "registered m rel") auto
  then show ?thesis by (simp add: child_models_def model_edges_def)
qed

lemma edges_child_models: "edges CASCADING_MODELS child_models = model_edges"
proof -
  have "(m, child) \<in> model_edges \<Longrightarrow> m \<in> set CASCADING_MODELS" for m child
    by (rule cascading_models) (auto simp: model_edges_def)
  then show ?thesis by (auto simp: edges_def child_models_iff)
qed

text \<open>The scopes invalidated for a deletion are those of the models reached through registered
  relations, whether or not there are rows.\<close>
theorem cascade_scopes_spec:
  "scope \<in> set (collect_cascade_cache_scopes m) \<longleftrightarrow>
     (\<exists>m'. (m, m') \<in> model_edges\<^sup>* \<and> scope \<in> set (CACHE_SCOPES m'))"
  unfolding collect_cascade_cache_scopes_def collect_models_def set_remdups set_concat set_map
    walk_reaches edges_child_models by blast

lemma registered_not_ward: "registered m rel = Some (child, ref) \<Longrightarrow> child \<noteq> Ward"
proof -
  have "list_all (\<lambda>r. fst (snd r) \<noteq> Ward) STRING_REF_CASCADE_RELATIONS"
    by (simp add: STRING_REF_CASCADE_RELATIONS_def continent_relations_def consumer_relations_def
        complaint_relations_def hierarchy_relations_def leader_relations_def permission_relations_def
        template_relations_def access_relations_def register_def PARENT_MODELS_def FLAT_GEO_CONSUMERS_def)
  moreover assume "registered m rel = Some (child, ref)"
  then have "((m, rel), (child, ref)) \<in> set STRING_REF_CASCADE_RELATIONS"
    unfolding registered_def by (auto dest: map_of_SomeD)
  ultimately show ?thesis by (auto simp: list_all_iff)
qed

lemma ward_unreached: "(m, m') \<in> model_edges\<^sup>* \<Longrightarrow> m' = Ward \<Longrightarrow> m = Ward"
  by (induction rule: rtrancl_induct) (auto simp: model_edges_def dest: registered_not_ward)

lemma ward_list_scope: "''ward_list'' \<in> set (CACHE_SCOPES m) \<longleftrightarrow> m = Ward"
  by (cases m) (simp_all add: CACHE_SCOPES_def)

section \<open>A district with a ward and a bin\<close>

definition sample_row :: "model_class \<Rightarrow> ident \<Rightarrow> (string \<times> ident) list \<Rightarrow> master_row" where
  "sample_row m uid columns =
     \<lparr>mr_model = m, mr_pk = uid, mr_unique_id = uid, mr_column = map_of columns, mr_id_list = (\<lambda>_. []),
      mr_is_active = True, mr_is_deleted = False, mr_delete_reason = None, mr_updated_by = None,
      mr_deleted_by = None, mr_updated_at = None, mr_deleted_at = None\<rparr>"

definition erode_district :: master_row where "erode_district = sample_row District ''D1'' []"
definition erode_ward :: master_row where "erode_ward = sample_row Ward ''W1'' [(''district_id'', ''D1'')]"
definition ward_bin :: master_row where "ward_bin = sample_row Bins ''B1'' [(''ward_id'', ''W1'')]"

definition erode_rows :: "master_row list" where
  "erode_rows = [erode_district, erode_ward, ward_bin]"

lemma erode_simps [simp]:
  "row_key erode_district = (District, ''D1'')" "row_key erode_ward = (Ward, ''W1'')"
  "row_key ward_bin = (Bins, ''B1'')"
  "mr_model erode_district = District" "mr_model erode_ward = Ward" "mr_model ward_bin = Bins"
  "\<not> mr_is_deleted erode_district" "\<not> mr_is_deleted erode_ward" "\<not> mr_is_deleted ward_bin"
  by (simp_all add: erode_district_def erode_ward_def ward_bin_def sample_row_def row_key_def)

lemma erode_distinct: "distinct (map row_key erode_rows)"
  by (simp add: erode_rows_def)

lemma erode_edges:
  "((District, ''D1''), (Ward, ''W1'')) \<in> cascade_edges erode_rows"
  "((Ward, ''W1''), (Bins, ''B1'')) \<in> cascade_edges erode_rows"
proof -
  have "erode_ward \<in> set (resolve_related erode_rows erode_district ''wards'')"
    by (simp add: resolve_related_def properties_def District_properties_def query_def refers_def
        erode_rows_def erode_district_def erode_ward_def sample_row_def)
  moreover have "''wards'' \<in> set (CASCADE_SOFT_DELETE (mr_model erode_district))"
    by (simp add: CASCADE_SOFT_DELETE_def District_cascade_def)
  moreover have "erode_district \<in> set erode_rows" by (simp add: erode_rows_def)
  ultimately show "((District, ''D1''), (Ward, ''W1'')) \<in> cascade_edges erode_rows"
    unfolding cascade_edges_def by force
  have "ward_bin \<in> set (resolve_related erode_rows erode_ward ''bins'')"
    by (simp add: resolve_related_def properties_def Ward_properties_def query_def refers_def
        erode_rows_def ward_bin_def erode_ward_def sample_row_def)
  moreover have "''bins'' \<in> set (CASCADE_SOFT_DELETE (mr_model erode_ward))"
    by (simp add: CASCADE_SOFT_DELETE_def Ward_cascade_def)
  moreover have "erode_ward \<in> set erode_rows" by (simp add: erode_rows_def)
  ultimately show "((Ward, ''W1''), (Bins, ''B1'')) \<in> cascade_edges erode_rows"
    unfolding cascade_edges_def by force
qed

lemma erode_reach:
  "((District, ''D1''), (Ward, ''W1'')) \<in> (cascade_edges erode_rows)\<^sup>*"
  "((District, ''D1''), (Bins, ''B1'')) \<in> (cascade_edges erode_rows)\<^sup>*"
  using erode_edges by (auto intro: rtrancl_into_rtrancl)

lemma erode_deleted:
  obtains d w b obj' where
    "cascade_soft_delete 7 (Some ''A1'') (Some ''merged'') None None erode_rows erode_district
       = (obj', [d, w, b])"
    and "mr_is_deleted w" and "mr_is_deleted b"
proof -
  have collected: "(Ward, ''W1'') \<in> set (collect_rows erode_rows (District, ''D1''))"
    "(Bins, ''B1'') \<in> set (collect_rows erode_rows (District, ''D1''))"
    using erode_reach by (simp_all add: collect_rows_reaches [OF erode_distinct])
  let ?c = "cascade_soft_delete 7 (Some ''A1'') (Some ''merged'') None None erode_rows erode_district"
  let ?f = "\<lambda>r. deleted_row 7 (Some ''A1'') (Some ''A1'') (effective_reason (Some ''merged'') None)
      (District, ''D1'') (row_key r \<in> set (collect_rows erode_rows (District, ''D1''))) r"
  have "snd ?c = map ?f erode_rows" by (simp add: cascade_rows)
  then have "?c = (fst ?c, [?f erode_district, ?f erode_ward, ?f ward_bin])"
    by (simp add: erode_rows_def prod_eq_iff)
  then show thesis using that collected by simp
qed

theorem cascade_deletes_exactly_reachable_witness:
  "\<exists>obj' d w b. cascade_soft_delete 7 (Some ''A1'') (Some ''merged'') None None erode_rows erode_district
       = (obj', [d, w, b]) \<and> mr_is_deleted w \<and> mr_is_deleted b"
proof -
  obtain d w b obj' where c: "cascade_soft_delete 7 (Some ''A1'') (Some ''merged'') None None erode_rows
      erode_district = (obj', [d, w, b])"
    by (rule erode_deleted)
  have "mr_is_deleted w"
    using cascade_deletes_exactly_reachable [OF erode_distinct c, of erode_ward w] erode_reach
    by (simp add: erode_rows_def)
  moreover have "mr_is_deleted b"
    using cascade_deletes_exactly_reachable [OF erode_distinct c, of ward_bin b] erode_reach
    by (simp add: erode_rows_def)
  ultimately show ?thesis using c by blast
qed

theorem cascade_records_witness:
  "\<exists>obj' d w b. cascade_soft_delete 7 (Some ''A1'') (Some ''merged'') None None erode_rows erode_district
       = (obj', [d, w, b]) \<and> mr_deleted_by w = Some ''A1'' \<and> mr_deleted_at b = Some 7
       \<and> mr_delete_reason b = Some ''merged (cascaded from District D1)''"
proof -
  obtain d w b obj' where c: "cascade_soft_delete 7 (Some ''A1'') (Some ''merged'') None None erode_rows
      erode_district = (obj', [d, w, b])" and del: "mr_is_deleted w" "mr_is_deleted b"
    by (rule erode_deleted)
  have "effective_reason (Some ''merged'') None = Some ''merged''"
    by (simp add: effective_reason_def DELETE_REASON_MAX_LENGTH_def)
  moreover have "cascaded_delete_reason ''merged'' (District, ''D1'') = ''merged (cascaded from District D1)''"
    by (simp add: cascaded_delete_reason_def class_name_def DELETE_REASON_MAX_LENGTH_def)
  ultimately have "mr_delete_reason b = Some ''merged (cascaded from District D1)''"
    using cascade_records [OF c, of ward_bin b _ "''merged''"] del
    by (simp add: erode_rows_def model_has_field_def)
  moreover have "mr_deleted_by w = Some ''A1''"
    using cascade_records [OF c, of erode_ward w "''A1''"] del
    by (simp add: erode_rows_def stampable_deleted_by model_has_field_def)
  moreover have "mr_deleted_at b = Some 7"
    using cascade_records [OF c, of ward_bin b] del
    by (simp add: erode_rows_def model_has_field_def)
  ultimately show ?thesis using c by blast
qed

theorem instance_matches_row_witness:
  "\<exists>obj' rows'. cascade_soft_delete 7 (Some ''A1'') (Some ''merged'') None None erode_rows erode_district
       = (obj', rows') \<and> find_row rows' (District, ''D1'') = Some obj'"
proof -
  obtain d w b obj' where c: "cascade_soft_delete 7 (Some ''A1'') (Some ''merged'') None None erode_rows
      erode_district = (obj', [d, w, b])"
    by (rule erode_deleted)
  with instance_matches_row [OF erode_distinct _ _ c] show ?thesis by (simp add: erode_rows_def)
qed

theorem deletion_recorded_once_witness:
  "row_deleted (Ward, ''W1'')
     (fold delete_event ([(7, Some ''A1'', None, None, erode_district)]
        @ [(9, Some ''A2'', None, None, erode_ward)]) erode_rows)"
proof -
  have "(Ward, ''W1'') \<in> set (collect_rows erode_rows (District, ''D1''))"
    using erode_reach by (simp add: collect_rows_reaches [OF erode_distinct])
  then have "row_deleted (Ward, ''W1'')
      (fold delete_event [(7, Some ''A1'', None, None, erode_district)] erode_rows)"
    by (simp add: delete_event_def cascade_rows row_deleted_def find_row_def find_map_id)
       (simp add: erode_rows_def)
  from deletion_recorded_once [OF this] show ?thesis by blast
qed

text \<open>Deleting a district deletes its wards and their bins, but the ward list stays cached: the
  scopes of wards are collected for no other model, because a ward is reached through a property,
  which the walk over the models does not see.\<close>
theorem ward_scopes_missed:
  "(''ward_list'' \<in> set (collect_cascade_cache_scopes m) \<longleftrightarrow> m = Ward)
   \<and> (\<exists>obj' rows' r'. cascade_soft_delete 7 (Some ''A1'') (Some ''merged'') None None erode_rows
          erode_district = (obj', rows')
        \<and> mr_model erode_district = District \<and> mr_model erode_ward = Ward
        \<and> (erode_ward, r') \<in> set (zip erode_rows rows') \<and> \<not> mr_is_deleted erode_ward \<and> mr_is_deleted r')"
proof
  have "''ward_list'' \<in> set (collect_cascade_cache_scopes m) \<longleftrightarrow> (m, Ward) \<in> model_edges\<^sup>*"
    unfolding collect_cascade_cache_scopes_def collect_models_def set_remdups set_concat set_map
      walk_reaches edges_child_models
    using ward_list_scope by auto
  then show "''ward_list'' \<in> set (collect_cascade_cache_scopes m) \<longleftrightarrow> m = Ward"
    using ward_unreached by auto
  obtain d w b obj' where "cascade_soft_delete 7 (Some ''A1'') (Some ''merged'') None None erode_rows
      erode_district = (obj', [d, w, b])" "mr_is_deleted w"
    by (rule erode_deleted)
  then show "\<exists>obj' rows' r'. cascade_soft_delete 7 (Some ''A1'') (Some ''merged'') None None erode_rows
          erode_district = (obj', rows')
        \<and> mr_model erode_district = District \<and> mr_model erode_ward = Ward
        \<and> (erode_ward, r') \<in> set (zip erode_rows rows') \<and> \<not> mr_is_deleted erode_ward \<and> mr_is_deleted r'"
    by (intro exI [of _ obj'] exI [of _ "[d, w, b]"] exI [of _ w]) (simp add: erode_rows_def)
qed

section \<open>The DELETE request\<close>

text \<open>The reason sent in the body, else in the query string.\<close>

definition read_delete_reason :: "string option \<Rightarrow> string option \<Rightarrow> string" where
  "read_delete_reason body params =
     (case py_or body params of None \<Rightarrow> [] | Some v \<Rightarrow> py_strip v)"

datatype delete_error = ReasonRequired | ReasonTooLong

text \<open>\<open>DeleteReasonMixin.initial\<close>: before anything is touched.\<close>

definition check_delete_reason :: "string option \<Rightarrow> string option \<Rightarrow> delete_error + string" where
  "check_delete_reason body params =
     (let reason = read_delete_reason body params
      in if reason = [] then Inl ReasonRequired
         else if DELETE_REASON_MAX_LENGTH < length reason then Inl ReasonTooLong
         else Inr reason)"

text \<open>\<open>_record_delete_reason\<close>, once the response is a success.\<close>

definition record_delete_reason ::
  "int \<Rightarrow> ident option \<Rightarrow> string \<Rightarrow> row_key \<Rightarrow> master_row list \<Rightarrow> master_row list" where
  "record_delete_reason now account reason k =
     update_where (\<lambda>r. row_key r = k)
       (\<lambda>r. r\<lparr>mr_delete_reason :=
                (if model_has_field (mr_model r) ''delete_reason'' then Some reason else mr_delete_reason r),
              mr_deleted_at :=
                (if model_has_field (mr_model r) ''deleted_at'' \<and> mr_deleted_at r = None then Some now
                 else mr_deleted_at r),
              mr_deleted_by :=
                (if account \<noteq> None \<and> model_has_field (mr_model r) ''deleted_by'' then account
                 else mr_deleted_by r),
              mr_updated_at :=
                (if model_has_field (mr_model r) ''updated_at'' then Some now else mr_updated_at r)\<rparr>)"

text \<open>A DELETE of a row by the account of the requesting user: \<open>initial\<close>, \<open>perform_destroy\<close>,
  \<open>finalize_response\<close>.\<close>

definition delete_request ::
  "int \<Rightarrow> int \<Rightarrow> ident option \<Rightarrow> string option \<Rightarrow> string option \<Rightarrow> master_row list \<Rightarrow> master_row
     \<Rightarrow> delete_error + master_row list" where
  "delete_request now later account body params rows obj =
     (case check_delete_reason body params of
        Inl e \<Rightarrow> Inl e
      | Inr reason \<Rightarrow> Inr (record_delete_reason later account reason (row_key obj)
          (snd (cascade_soft_delete now account None None (Some reason) rows obj))))"

lemma find_row_update_where:
  assumes "\<And>r. row_key (f r) = row_key r"
  shows "find_row (update_where (\<lambda>r. row_key r = k) f rows) k = map_option f (find_row rows k)"
  unfolding find_row_def update_where_def
  by (induction rows) (auto simp: assms)

lemma find_record_delete_reason:
  assumes "find_row rows k = Some r" and "model_has_field (mr_model r) ''delete_reason''"
    and "mr_is_deleted r" and "mr_deleted_at r = Some now"
  shows "\<exists>r'. find_row (record_delete_reason later account reason k rows) k = Some r'
    \<and> mr_is_deleted r' \<and> mr_delete_reason r' = Some reason \<and> mr_deleted_at r' = Some now
    \<and> (account = Some actor \<longrightarrow> mr_deleted_by r' = Some actor)"
proof -
  have "model_has_field (mr_model r) ''deleted_by''"
    using assms(2) by (auto simp: model_has_field_def split: if_splits)
  then show ?thesis
    using assms unfolding record_delete_reason_def
    by (subst find_row_update_where) (simp_all add: row_key_def)
qed

lemma delete_request_outcome_parts:
  assumes "distinct (map row_key rows)" and "obj \<in> set rows" and "\<not> mr_is_deleted obj"
    and "model_has_field (mr_model obj) ''delete_reason''"
  shows "(\<exists>rows'. delete_request now later account body params rows obj = Inr rows') \<longleftrightarrow>
      read_delete_reason body params \<noteq> []
      \<and> length (read_delete_reason body params) \<le> DELETE_REASON_MAX_LENGTH"
    and "delete_request now later account body params rows obj = Inr rows' \<longrightarrow>
      (\<exists>r. find_row rows' (row_key obj) = Some r \<and> mr_is_deleted r
         \<and> mr_delete_reason r = Some (read_delete_reason body params)
         \<and> mr_deleted_at r = Some now \<and> (account = Some actor \<longrightarrow> mr_deleted_by r = Some actor))"
proof -
  show "(\<exists>rows'. delete_request now later account body params rows obj = Inr rows') \<longleftrightarrow>
      read_delete_reason body params \<noteq> []
      \<and> length (read_delete_reason body params) \<le> DELETE_REASON_MAX_LENGTH"
    by (auto simp: delete_request_def check_delete_reason_def Let_def)
  have fields: "model_has_field (mr_model obj) ''deleted_at''"
    using assms(4) by (auto simp: model_has_field_def split: if_splits)
  show "delete_request now later account body params rows obj = Inr rows' \<longrightarrow>
      (\<exists>r. find_row rows' (row_key obj) = Some r \<and> mr_is_deleted r
         \<and> mr_delete_reason r = Some (read_delete_reason body params)
         \<and> mr_deleted_at r = Some now \<and> (account = Some actor \<longrightarrow> mr_deleted_by r = Some actor))"
  proof
    let ?reason = "read_delete_reason body params"
    let ?c = "cascade_soft_delete now account None None (Some ?reason) rows obj"
    assume "delete_request now later account body params rows obj = Inr rows'"
    then have rows': "rows' = record_delete_reason later account ?reason (row_key obj) (snd ?c)"
      by (auto simp: delete_request_def check_delete_reason_def Let_def split: if_splits)
    have stored: "find_row (snd ?c) (row_key obj) = Some (fst ?c)"
      by (rule stored_instance [OF assms(1-3)]) simp
    have "mr_is_deleted (fst ?c)" "mr_deleted_at (fst ?c) = Some now" "mr_model (fst ?c) = mr_model obj"
      using fields by (simp_all add: cascade_soft_delete_def Let_def stamp_instance_def stamp_times_def
          stamp_updated_by_def)
    then show "\<exists>r. find_row rows' (row_key obj) = Some r \<and> mr_is_deleted r
         \<and> mr_delete_reason r = Some ?reason
         \<and> mr_deleted_at r = Some now \<and> (account = Some actor \<longrightarrow> mr_deleted_by r = Some actor)"
      using find_record_delete_reason [OF stored] assms(4) by (simp only: rows')
  qed
qed

text \<open>A DELETE without a reason, or with one that does not fit the column, changes nothing; any
  other leaves the row deleted with the reason as it was given, the account of the user and the
  time of the deletion.\<close>
theorem delete_request_outcome:
  assumes "distinct (map row_key rows)" and "obj \<in> set rows" and "\<not> mr_is_deleted obj"
    and "model_has_field (mr_model obj) ''delete_reason''"
  shows "((\<exists>rows'. delete_request now later account body params rows obj = Inr rows') \<longleftrightarrow>
      read_delete_reason body params \<noteq> []
      \<and> length (read_delete_reason body params) \<le> DELETE_REASON_MAX_LENGTH)
    \<and> (delete_request now later account body params rows obj = Inr rows' \<longrightarrow>
      (\<exists>r. find_row rows' (row_key obj) = Some r \<and> mr_is_deleted r
         \<and> mr_delete_reason r = Some (read_delete_reason body params)
         \<and> mr_deleted_at r = Some now \<and> (account = Some actor \<longrightarrow> mr_deleted_by r = Some actor)))"
  by (intro conjI delete_request_outcome_parts [OF assms])

theorem delete_request_outcome_witness:
  "\<exists>rows' r. delete_request 7 8 (Some ''A1'') (Some '' merged '') None erode_rows erode_district = Inr rows'
     \<and> find_row rows' (District, ''D1'') = Some r \<and> mr_delete_reason r = Some ''merged''"
proof -
  have reason: "read_delete_reason (Some '' merged '') None = ''merged''"
    by (simp add: read_delete_reason_def py_or_def py_strip_def is_space_def)
  have obj: "erode_district \<in> set erode_rows" "\<not> mr_is_deleted erode_district"
    "model_has_field (mr_model erode_district) ''delete_reason''"
    by (simp_all add: erode_rows_def model_has_field_def)
  obtain rows' where rows': "delete_request 7 8 (Some ''A1'') (Some '' merged '') None erode_rows
      erode_district = Inr rows'"
    using delete_request_outcome [OF erode_distinct obj, of 7 8 "Some ''A1''" "Some '' merged ''" None]
      reason by (auto simp: DELETE_REASON_MAX_LENGTH_def)
  with delete_request_outcome [OF erode_distinct obj, of 7 8 "Some ''A1''" "Some '' merged ''" None rows']
    reason show ?thesis by auto
qed

end
