(* ===== verification/Trip_Stops.thy ===== *)
theory Trip_Stops
  imports Scope_Resolution
begin

text \<open>
  A day's trips and their stops: the lifecycle of \<open>DailyTripAssignment\<close>, the status changes of
  its bin and household stops (\<open>app/models/core_modules/daily_operations\<close>), and the copying of
  a trip plan's stops onto a new assignment (\<open>app/signals/trip_plan_signals.py\<close>).

  Times are seconds since the epoch, weights hundredths of a kilogram. The flat geography that
  the models copy onto trips and stops is left out: nothing modelled here reads it there. A row
  of a master table that a plan stop names exists.
\<close>

section \<open>Rows\<close>

datatype trip_status = TripScheduled | TripInProgress | TripCompleted | TripCancelled
datatype approval_status = ApprovalPending | ApprovalApproved | ApprovalRejected

record trip =
  tr_unique_id :: ident
  tr_trip_plan_id :: ident
  tr_staff_template_id :: "ident option"
  tr_alt_staff_template_id :: "ident option"
  tr_vehicle_id :: "ident option"
  tr_trip_date :: int
  tr_scheduled_time :: "int option"
  tr_status :: trip_status
  tr_approval_status :: approval_status
  tr_remarks :: "string option"
  tr_waste_type_ids :: "ident list"
  tr_ward_ids :: "ident list"
  tr_actual_start_at :: "int option"
  tr_actual_start_time :: "int option"
  tr_actual_end_at :: "int option"
  tr_actual_end_time :: "int option"
  tr_is_active :: bool
  tr_is_deleted :: bool

datatype bin_status = BinPending | BinInProgress | BinCollected | BinSkipped | BinMissed

record bin_stop =
  bs_unique_id :: ident
  bs_trip_assignment_id :: ident
  bs_collection_point_id :: ident
  bs_bin_id :: ident
  bs_sequence :: nat
  bs_is_collected :: bool
  bs_collected_at :: "int option"
  bs_collected_by_id :: "ident option"
  bs_collected_weight_kg :: "int option"
  bs_status :: bin_status
  bs_status_reason :: "string option"
  bs_status_latitude :: "int option"
  bs_status_longitude :: "int option"
  bs_carried_to_assignment_id :: "ident option"
  bs_is_deleted :: bool

datatype household_status =
    HouseholdPending | HouseholdCollected | HouseholdCollectLater | HouseholdMissed
  | HouseholdNotCollected | HouseholdSkipped

datatype collection_type = BinCollection | HouseholdCollection | BulkCollection

record household_stop =
  hs_unique_id :: ident
  hs_trip_assignment_id :: ident
  hs_customer_id :: ident
  hs_collection_type :: collection_type
  hs_waste_collection_id :: "ident option"
  hs_sequence :: nat
  hs_is_collected :: bool
  hs_collected_at :: "int option"
  hs_collected_weight_kg :: "int option"
  hs_status :: household_status
  hs_status_reason :: "string option"
  hs_status_latitude :: "int option"
  hs_status_longitude :: "int option"
  hs_status_evidence_image :: "string option"
  hs_customer_available_at :: "int option"
  hs_customer_available_note :: "string option"
  hs_carried_to_assignment_id :: "ident option"
  hs_is_deleted :: bool

record trip_plan =
  tp_unique_id :: ident
  tp_staff_template_id :: ident
  tp_vehicle_id :: ident
  tp_supervisor_id :: "ident option"
  tp_scheduled_time :: "int option"
  tp_waste_type_ids :: "ident list"
  tp_ward_ids :: "ident list"
  tp_collection_type :: collection_type
  tp_geo :: geo
  tp_is_auto_assign :: bool
  tp_repeat_days :: "string list"
  tp_approval_status :: approval_status
  tp_is_active_plan :: bool
  tp_is_deleted :: bool

text \<open>\<open>tp_repeat_days\<close>: the entries of the JSON list (integers or strings), as \<open>str\<close> shows them.\<close>

record plan_stop =
  ps_trip_plan_id :: ident
  ps_collection_type :: collection_type
  ps_collection_point_id :: "ident option"
  ps_bin_id :: "ident option"
  ps_customer_id :: "ident option"
  ps_sequence :: nat
  ps_geo :: geo
  ps_is_active :: bool
  ps_is_deleted :: bool

record customer_row =
  cu_unique_id :: ident
  cu_ward_id :: "ident option"
  cu_geo :: geo
  cu_is_bulkwaste_generator :: bool
  cu_is_active :: bool
  cu_is_deleted :: bool

text \<open>The tables. \<open>td_ward_ids\<close> are the ids of the rows of the ward master.\<close>

record trip_db =
  td_trips :: "trip list"
  td_bins :: "bin_stop list"
  td_households :: "household_stop list"
  td_plans :: "trip_plan list"
  td_plan_stops :: "plan_stop list"
  td_customers :: "customer_row list"
  td_ward_ids :: "ident list"

definition find_trip :: "trip_db \<Rightarrow> ident \<Rightarrow> trip option" where
  "find_trip db uid = find (\<lambda>t. tr_unique_id t = uid) (td_trips db)"

definition trip_plan_of :: "trip_db \<Rightarrow> trip \<Rightarrow> trip_plan option" where
  "trip_plan_of db t = find (\<lambda>p. tp_unique_id p = tr_trip_plan_id t) (td_plans db)"

definition update_trip :: "ident \<Rightarrow> (trip \<Rightarrow> trip) \<Rightarrow> trip_db \<Rightarrow> trip_db" where
  "update_trip uid f db =
     db\<lparr>td_trips := map (\<lambda>t. if tr_unique_id t = uid then f t else t) (td_trips db)\<rparr>"

section \<open>Lifecycle of a trip\<close>

text \<open>\<open>timezone.localtime(t).time()\<close> in the project's zone, five and a half hours ahead of UTC.\<close>

definition local_time :: "int \<Rightarrow> int" where
  "local_time t = (t + 19800) mod 86400"

definition stamp_start :: "int \<Rightarrow> trip \<Rightarrow> trip" where
  "stamp_start at t =
     (if tr_actual_start_at t = None
      then t\<lparr>tr_actual_start_at := Some at, tr_actual_start_time := Some (local_time at)\<rparr> else t)"

definition stamp_end :: "int \<Rightarrow> trip \<Rightarrow> trip" where
  "stamp_end at t =
     (if tr_actual_end_at t = None
      then t\<lparr>tr_actual_end_at := Some at, tr_actual_end_time := Some (local_time at)\<rparr> else t)"

text \<open>The row after the call, and its return value.\<close>

definition mark_started :: "int \<Rightarrow> trip \<Rightarrow> trip \<times> bool" where
  "mark_started at t =
     (if tr_status t \<in> {TripCompleted, TripCancelled} then (t, False)
      else if tr_status t = TripInProgress \<and> tr_actual_start_at t \<noteq> None then (t, False)
      else (stamp_start at (t\<lparr>tr_status := TripInProgress\<rparr>), True))"

definition mark_ended :: "int \<Rightarrow> trip \<Rightarrow> trip \<times> bool" where
  "mark_ended at t =
     (if tr_status t = TripCompleted then (t, False)
      else (stamp_start at (stamp_end at (t\<lparr>tr_status := TripCompleted\<rparr>)), True))"

definition VALID_TRANSITIONS :: "trip_status \<Rightarrow> trip_status list" where
  "VALID_TRANSITIONS s =
     (case s of TripScheduled \<Rightarrow> [TripInProgress] | TripInProgress \<Rightarrow> [TripCompleted] | _ \<Rightarrow> [])"

text \<open>\<open>update_status\<close> of the viewset after \<open>validate_status\<close>; \<open>None\<close> is the refusal.\<close>

definition update_status :: "int \<Rightarrow> trip_status \<Rightarrow> trip \<Rightarrow> trip option" where
  "update_status now value t =
     (if value \<noteq> TripCancelled \<and> value \<notin> set (VALID_TRANSITIONS (tr_status t)) then None
      else if value = TripInProgress then Some (fst (mark_started now t))
      else if value = TripCompleted then Some (fst (mark_ended now t))
      else Some (t\<lparr>tr_status := value\<rparr>))"

text \<open>\<open>perform_destroy\<close> of the viewset.\<close>

definition destroy_trip :: "trip \<Rightarrow> trip" where
  "destroy_trip t = t\<lparr>tr_is_deleted := True, tr_is_active := False, tr_status := TripCancelled\<rparr>"

definition total_trip_time :: "int \<Rightarrow> trip \<Rightarrow> int option" where
  "total_trip_time now t =
     (case tr_actual_start_at t of
        None \<Rightarrow> None
      | Some start \<Rightarrow>
          let diff = (case tr_actual_end_at t of None \<Rightarrow> now | Some e \<Rightarrow> e) - start
          in Some (if diff \<ge> 0 then diff else 0))"

section \<open>Stops\<close>

definition pending_bin_stops :: "trip_db \<Rightarrow> ident \<Rightarrow> bin_stop list" where
  "pending_bin_stops db trip_id =
     filter (\<lambda>s. bs_trip_assignment_id s = trip_id \<and> \<not> bs_is_deleted s
       \<and> bs_status s \<notin> {BinCollected, BinMissed}) (td_bins db)"

definition pending_household_stops :: "trip_db \<Rightarrow> ident \<Rightarrow> household_stop list" where
  "pending_household_stops db trip_id =
     filter (\<lambda>s. hs_trip_assignment_id s = trip_id \<and> \<not> hs_is_deleted s
       \<and> hs_status s \<notin> {HouseholdCollected, HouseholdMissed}) (td_households db)"

definition has_pending_stops :: "trip_db \<Rightarrow> ident \<Rightarrow> bool" where
  "has_pending_stops db trip_id \<longleftrightarrow>
     pending_bin_stops db trip_id \<noteq> [] \<or> pending_household_stops db trip_id \<noteq> []"

text \<open>\<open>mark_completed_if_all_cps_collected\<close>: the trips after the call, and the answer.\<close>

definition mark_completed_if_all_cps_collected :: "int \<Rightarrow> bool \<Rightarrow> trip \<Rightarrow> trip_db \<Rightarrow> trip_db \<times> bool" where
  "mark_completed_if_all_cps_collected now auto_end t db =
     (let children = filter (\<lambda>s. bs_trip_assignment_id s = tr_unique_id t \<and> \<not> bs_is_deleted s) (td_bins db)
      in if children = [] then (db, False)
         else if list_ex (\<lambda>s. bs_status s \<notin> {BinCollected, BinMissed}) children then (db, False)
         else if tr_status t = TripCompleted then (db, True)
         else if \<not> auto_end then (db, True)
         else (update_trip (tr_unique_id t) (\<lambda>r. fst (mark_ended now r)) db, True))"

definition bin_mark_collected :: "int \<Rightarrow> ident option \<Rightarrow> int \<Rightarrow> bin_stop \<Rightarrow> bin_stop" where
  "bin_mark_collected weight_kg collected_by at s =
     s\<lparr>bs_collected_weight_kg := Some weight_kg, bs_collected_by_id := collected_by,
       bs_collected_at := Some at, bs_is_collected := True, bs_status := BinCollected,
       bs_status_reason := None, bs_status_latitude := None, bs_status_longitude := None\<rparr>"

definition bin_mark_status ::
  "bin_status \<Rightarrow> string option \<Rightarrow> int option \<Rightarrow> int option \<Rightarrow> bin_stop \<Rightarrow> bin_stop" where
  "bin_mark_status status reason latitude longitude s =
     (let s' = s\<lparr>bs_status := status, bs_status_reason := reason, bs_status_latitude := latitude,
                bs_status_longitude := longitude, bs_is_collected := False,
                bs_collected_at := None, bs_collected_by_id := None\<rparr>
      in if status \<in> {BinSkipped, BinMissed} then s'\<lparr>bs_collected_weight_kg := None\<rparr> else s')"

text \<open>The second component says whether a missed-pickup ticket is raised.\<close>

definition household_mark_status ::
  "household_status \<Rightarrow> string option \<Rightarrow> int option \<Rightarrow> int option \<Rightarrow> string option \<Rightarrow> household_stop
     \<Rightarrow> household_stop \<times> bool" where
  "household_mark_status status reason latitude longitude evidence s =
     (let s' = s\<lparr>hs_status := status, hs_status_reason := reason, hs_status_latitude := latitude,
                hs_status_longitude := longitude, hs_status_evidence_image := evidence,
                hs_is_collected := False, hs_collected_at := None\<rparr>;
          s'' = (if status = HouseholdMissed then s'\<lparr>hs_collected_weight_kg := None\<rparr> else s')
      in (s'', status = HouseholdMissed \<and> hs_customer_available_at s'' \<noteq> None))"

definition household_mark_collected :: "ident \<Rightarrow> int \<Rightarrow> int \<Rightarrow> household_stop \<Rightarrow> household_stop" where
  "household_mark_collected waste_collection_id total_quantity at s =
     s\<lparr>hs_waste_collection_id := Some waste_collection_id, hs_collected_weight_kg := Some total_quantity,
       hs_collected_at := Some at, hs_is_collected := True, hs_status := HouseholdCollected\<rparr>"

section \<open>Copying the plan's stops\<close>

text \<open>Most specific level first.\<close>

definition GEO_MATCH_FIELDS :: "scope_field list" where
  "GEO_MATCH_FIELDS =
     [PanchayatId, PanchayatUnionId, TownPanchayatId, MunicipalityId, CorporationId, DistrictId, StateId]"

definition geo_filter_for :: "geo \<Rightarrow> (scope_field \<times> string) option" where
  "geo_filter_for geo =
     map_option (\<lambda>f. (f, the (geo f))) (find (\<lambda>f. truthy (geo f)) GEO_MATCH_FIELDS)"

definition customers_for_household_stop ::
  "trip_db \<Rightarrow> plan_stop \<Rightarrow> geo option \<Rightarrow> ident list \<Rightarrow> customer_row list" where
  "customers_for_household_stop db stop plan_geo ward_ids =
     (let is_bulk = (ps_collection_type stop = BulkCollection)
      in if truthy (ps_customer_id stop)
         then filter (\<lambda>c. Some (cu_unique_id c) = ps_customer_id stop \<and> \<not> cu_is_deleted c
                \<and> cu_is_bulkwaste_generator c = is_bulk) (td_customers db)
         else case (case geo_filter_for (ps_geo stop) of
                      Some f \<Rightarrow> Some f
                    | None \<Rightarrow> (case plan_geo of None \<Rightarrow> None | Some g \<Rightarrow> geo_filter_for g)) of
           None \<Rightarrow> []
         | Some (field, value) \<Rightarrow>
             filter (\<lambda>c. \<not> cu_is_deleted c \<and> cu_is_active c \<and> cu_is_bulkwaste_generator c = is_bulk
                 \<and> cu_geo c field = Some value
                 \<and> (ward_ids = [] \<or> (\<exists>w\<in>set ward_ids. cu_ward_id c = Some w))) (td_customers db))"

text \<open>New stops get their ids from \<open>new_bin\<close> and \<open>new_household\<close>, the id generator's answers
  for the key of the row.\<close>

record stop_ids =
  new_bin :: "ident \<times> ident \<times> ident \<Rightarrow> ident"
  new_household :: "ident \<times> ident \<times> collection_type \<Rightarrow> ident"

definition blank_bin_stop :: "stop_ids \<Rightarrow> ident \<Rightarrow> ident \<Rightarrow> ident \<Rightarrow> nat \<Rightarrow> bin_stop" where
  "blank_bin_stop ids trip_id cp bin sequence =
     \<lparr>bs_unique_id = new_bin ids (trip_id, cp, bin), bs_trip_assignment_id = trip_id,
      bs_collection_point_id = cp, bs_bin_id = bin, bs_sequence = sequence, bs_is_collected = False,
      bs_collected_at = None, bs_collected_by_id = None, bs_collected_weight_kg = None,
      bs_status = BinPending, bs_status_reason = None, bs_status_latitude = None,
      bs_status_longitude = None, bs_carried_to_assignment_id = None, bs_is_deleted = False\<rparr>"

definition blank_household_stop ::
  "stop_ids \<Rightarrow> ident \<Rightarrow> ident \<Rightarrow> collection_type \<Rightarrow> nat \<Rightarrow> household_stop" where
  "blank_household_stop ids trip_id customer ct sequence =
     \<lparr>hs_unique_id = new_household ids (trip_id, customer, ct), hs_trip_assignment_id = trip_id,
      hs_customer_id = customer, hs_collection_type = ct, hs_waste_collection_id = None,
      hs_sequence = sequence, hs_is_collected = False, hs_collected_at = None,
      hs_collected_weight_kg = None, hs_status = HouseholdPending, hs_status_reason = None,
      hs_status_latitude = None, hs_status_longitude = None, hs_status_evidence_image = None,
      hs_customer_available_at = None, hs_customer_available_note = None,
      hs_carried_to_assignment_id = None, hs_is_deleted = False\<rparr>"

text \<open>The two \<open>get_or_create\<close> calls; the counter goes up when a row is created.\<close>

definition ensure_bin_stop ::
  "stop_ids \<Rightarrow> ident \<Rightarrow> ident \<Rightarrow> ident \<Rightarrow> nat \<Rightarrow> trip_db \<times> nat \<Rightarrow> trip_db \<times> nat" where
  "ensure_bin_stop ids trip_id cp bin sequence = (\<lambda>(db, added).
     if list_ex (\<lambda>s. bs_trip_assignment_id s = trip_id \<and> bs_collection_point_id s = cp
          \<and> bs_bin_id s = bin) (td_bins db)
     then (db, added)
     else (db\<lparr>td_bins := td_bins db @ [blank_bin_stop ids trip_id cp bin sequence]\<rparr>, added + 1))"

definition ensure_household_stop ::
  "stop_ids \<Rightarrow> ident \<Rightarrow> ident \<Rightarrow> collection_type \<Rightarrow> nat \<Rightarrow> trip_db \<times> nat \<Rightarrow> trip_db \<times> nat" where
  "ensure_household_stop ids trip_id customer ct sequence = (\<lambda>(db, added).
     if list_ex (\<lambda>s. hs_trip_assignment_id s = trip_id \<and> hs_customer_id s = customer
          \<and> hs_collection_type s = ct) (td_households db)
     then (db, added)
     else (db\<lparr>td_households := td_households db @ [blank_household_stop ids trip_id customer ct sequence]\<rparr>,
           added + 1))"

definition stop_household_type :: "plan_stop \<Rightarrow> collection_type" where
  "stop_household_type stop =
     (if ps_collection_type stop = BulkCollection then BulkCollection else HouseholdCollection)"

definition create_daily_household_collections ::
  "stop_ids \<Rightarrow> trip \<Rightarrow> plan_stop \<Rightarrow> trip_db \<times> nat \<Rightarrow> trip_db \<times> nat" where
  "create_daily_household_collections ids t stop acc =
     (let db = fst acc;
          wards = filter (\<lambda>w. w \<in> set (tr_ward_ids t)) (td_ward_ids db);
          customers = customers_for_household_stop db stop (map_option tp_geo (trip_plan_of db t)) wards
      in fold (\<lambda>(offset, c). ensure_household_stop ids (tr_unique_id t) (cu_unique_id c)
               (stop_household_type stop) (ps_sequence stop + offset))
           (zip [0..<length customers] customers) acc)"

text \<open>One plan stop. A bin stop without a bin violates the column's NOT NULL: \<open>None\<close>.\<close>

definition clone_stop :: "stop_ids \<Rightarrow> trip \<Rightarrow> plan_stop \<Rightarrow> (trip_db \<times> nat) option \<Rightarrow> (trip_db \<times> nat) option" where
  "clone_stop ids t stop acc =
     (case acc of
        None \<Rightarrow> None
      | Some a \<Rightarrow>
          if ps_collection_type stop = BinCollection then
            (if \<not> truthy (ps_collection_point_id stop) then Some a
             else case ps_bin_id stop of
               None \<Rightarrow> None
             | Some bin \<Rightarrow> Some (ensure_bin_stop ids (tr_unique_id t) (the (ps_collection_point_id stop)) bin
                 (ps_sequence stop) a))
          else Some (create_daily_household_collections ids t stop a))"

definition plan_stops_of :: "trip_db \<Rightarrow> trip \<Rightarrow> plan_stop list" where
  "plan_stops_of db t =
     (case trip_plan_of db t of
        None \<Rightarrow> []
      | Some p \<Rightarrow> sort_key ps_sequence
          (filter (\<lambda>s. ps_trip_plan_id s = tr_trip_plan_id t \<and> ps_collection_type s = tp_collection_type p
             \<and> ps_is_active s \<and> \<not> ps_is_deleted s) (td_plan_stops db)))"

text \<open>The pending households outside the selected wards are deleted.\<close>

definition drop_outside_wards :: "trip \<Rightarrow> trip_db \<Rightarrow> trip_db" where
  "drop_outside_wards t db =
     (let selected = filter (\<lambda>w. w \<in> set (tr_ward_ids t)) (td_ward_ids db);
          inside = map cu_unique_id
            (filter (\<lambda>c. \<exists>w\<in>set selected. cu_ward_id c = Some w) (td_customers db))
      in if selected = [] then db
         else db\<lparr>td_households := filter (\<lambda>s. \<not> (hs_trip_assignment_id s = tr_unique_id t
               \<and> \<not> hs_is_collected s \<and> \<not> hs_is_deleted s \<and> hs_customer_id s \<notin> set inside))
             (td_households db)\<rparr>)"

definition sync_daily_assignment_stops_from_plan ::
  "stop_ids \<Rightarrow> trip \<Rightarrow> trip_db \<Rightarrow> (trip_db \<times> nat) option" where
  "sync_daily_assignment_stops_from_plan ids t db =
     (if tr_trip_plan_id t = [] then Some (db, 0)
      else fold (clone_stop ids t) (plan_stops_of db t) (Some (drop_outside_wards t db, 0)))"

text \<open>\<open>save\<close> of a new assignment: defaults from its plan, the insert, the signal.\<close>

definition with_plan_defaults :: "trip_db \<Rightarrow> trip \<Rightarrow> trip" where
  "with_plan_defaults db t =
     (case trip_plan_of db t of
        None \<Rightarrow> t
      | Some p \<Rightarrow>
          t\<lparr>tr_staff_template_id := py_or (tr_staff_template_id t) (Some (tp_staff_template_id p)),
            tr_vehicle_id := py_or (tr_vehicle_id t) (Some (tp_vehicle_id p)),
            tr_scheduled_time := (case tr_scheduled_time t of None \<Rightarrow> tp_scheduled_time p | s \<Rightarrow> s),
            tr_waste_type_ids := (if tr_waste_type_ids t = [] then tp_waste_type_ids p else tr_waste_type_ids t),
            tr_ward_ids := (if tr_ward_ids t = [] then tp_ward_ids p else tr_ward_ids t)\<rparr>)"

definition insert_trip :: "stop_ids \<Rightarrow> trip \<Rightarrow> trip_db \<Rightarrow> (trip \<times> trip_db) option" where
  "insert_trip ids t db =
     (let t' = with_plan_defaults db t
      in map_option (\<lambda>(db', _). (t', db'))
           (sync_daily_assignment_stops_from_plan ids t' (db\<lparr>td_trips := td_trips db @ [t']\<rparr>)))"

section \<open>Lifecycle: the stamps are written once\<close>

text \<open>The calls that change a trip's row, each with its instant.\<close>

datatype trip_call = StartTrip int | EndTrip int | SetTripStatus int trip_status | DestroyTrip

fun trip_event :: "trip_call \<Rightarrow> trip \<Rightarrow> trip" where
  "trip_event (StartTrip at) t = fst (mark_started at t)"
| "trip_event (EndTrip at) t = fst (mark_ended at t)"
| "trip_event (SetTripStatus at s) t = (case update_status at s t of None \<Rightarrow> t | Some t' \<Rightarrow> t')"
| "trip_event DestroyTrip t = destroy_trip t"

lemmas lifecycle_defs =
  mark_started_def mark_ended_def update_status_def destroy_trip_def stamp_start_def stamp_end_def

interpretation trip_start: write_once trip_event "\<lambda>t. tr_actual_start_at t \<noteq> None"
    "\<lambda>t. (tr_actual_start_at t, tr_actual_start_time t)"
proof unfold_locales
  fix t :: trip and e
  assume "tr_actual_start_at t \<noteq> None"
  then show "tr_actual_start_at (trip_event e t) \<noteq> None"
    and "(tr_actual_start_at (trip_event e t), tr_actual_start_time (trip_event e t))
      = (tr_actual_start_at t, tr_actual_start_time t)"
    by (cases e; auto simp: lifecycle_defs split: if_splits)+
qed

interpretation trip_end: write_once trip_event "\<lambda>t. tr_actual_end_at t \<noteq> None"
    "\<lambda>t. (tr_actual_end_at t, tr_actual_end_time t)"
proof unfold_locales
  fix t :: trip and e
  assume "tr_actual_end_at t \<noteq> None"
  then show "tr_actual_end_at (trip_event e t) \<noteq> None"
    and "(tr_actual_end_at (trip_event e t), tr_actual_end_time (trip_event e t))
      = (tr_actual_end_at t, tr_actual_end_time t)"
    by (cases e; auto simp: lifecycle_defs split: if_splits)+
qed

section \<open>Lifecycle: reachable trips\<close>

text \<open>The life of a trip under a clock that does not run backwards; the state carries the latest
  instant used.\<close>

fun event_time :: "trip_call \<Rightarrow> int option" where
  "event_time (StartTrip at) = Some at"
| "event_time (EndTrip at) = Some at"
| "event_time (SetTripStatus at s) = Some at"
| "event_time DestroyTrip = None"

inductive trip_reachable :: "int \<Rightarrow> trip \<Rightarrow> bool" where
  created: "tr_actual_start_at t = None \<Longrightarrow> tr_actual_end_at t = None \<Longrightarrow> tr_status t \<noteq> TripCompleted \<Longrightarrow>
     trip_reachable now t"
| event: "trip_reachable now t \<Longrightarrow> event_time e = None \<or> event_time e = Some later \<Longrightarrow> now \<le> later \<Longrightarrow>
     trip_reachable later (trip_event e t)"

definition trip_ok :: "int \<Rightarrow> trip \<Rightarrow> bool" where
  "trip_ok now t \<longleftrightarrow>
     (case tr_actual_start_at t of
        None \<Rightarrow> tr_actual_end_at t = None \<and> tr_status t \<noteq> TripCompleted
      | Some s \<Rightarrow> s \<le> now \<and>
          (case tr_actual_end_at t of
             None \<Rightarrow> tr_status t \<noteq> TripCompleted
           | Some e \<Rightarrow> s \<le> e \<and> e \<le> now))"

lemma trip_ok_later: "trip_ok now t \<Longrightarrow> now \<le> later \<Longrightarrow> trip_ok later t"
  by (auto simp: trip_ok_def split: option.splits)

lemma trip_ok_started: "trip_ok now t \<Longrightarrow> trip_ok now (fst (mark_started now t))"
  by (auto simp: trip_ok_def mark_started_def stamp_start_def split: option.splits)

lemma trip_ok_ended: "trip_ok now t \<Longrightarrow> trip_ok now (fst (mark_ended now t))"
  by (auto simp: trip_ok_def mark_ended_def stamp_start_def stamp_end_def split: option.splits)

lemma trip_ok_status: "trip_ok now t \<Longrightarrow> s \<noteq> TripCompleted \<Longrightarrow> trip_ok now (t\<lparr>tr_status := s\<rparr>)"
  by (auto simp: trip_ok_def split: option.splits)

lemma trip_ok_event:
  assumes "trip_ok now t" and "event_time e = None \<or> event_time e = Some now"
  shows "trip_ok now (trip_event e t)"
proof (cases e)
  case (SetTripStatus at s)
  with assms show ?thesis
    by (auto simp: update_status_def trip_ok_started trip_ok_ended trip_ok_status)
next
  case DestroyTrip
  with assms show ?thesis by (auto simp: destroy_trip_def trip_ok_def split: option.splits)
qed (use assms in \<open>auto simp: trip_ok_started trip_ok_ended\<close>)

lemma reachable_ok: "trip_reachable now t \<Longrightarrow> trip_ok now t"
proof (induction rule: trip_reachable.induct)
  case (event now t e later)
  then have "trip_ok later t" using trip_ok_later by blast
  with event show ?case using trip_ok_event by blast
qed (simp add: trip_ok_def)

text \<open>Through any sequence of starts, ends, status changes and deletions, a completed trip has a
  start and an end, no end comes before its start, and its duration is the time between them.\<close>
theorem completed_trip_has_duration:
  assumes "trip_reachable now t" and "tr_status t = TripCompleted"
  shows "\<exists>s e. tr_actual_start_at t = Some s \<and> tr_actual_end_at t = Some e \<and> s \<le> e \<and> e \<le> now
    \<and> total_trip_time later t = Some (e - s)"
proof -
  have "trip_ok now t" by (rule reachable_ok [OF assms(1)])
  with assms(2) obtain s e where "tr_actual_start_at t = Some s" "tr_actual_end_at t = Some e" "s \<le> e" "e \<le> now"
    by (auto simp: trip_ok_def split: option.splits)
  then show ?thesis by (simp add: total_trip_time_def Let_def)
qed

text \<open>The start and the end of a trip are stamped once: whatever is called afterwards, they stand.\<close>
theorem trip_times_written_once:
  "(tr_actual_start_at t = Some s \<longrightarrow> tr_actual_start_at (fold trip_event es t) = Some s)
   \<and> (tr_actual_end_at t = Some e \<longrightarrow> tr_actual_end_at (fold trip_event es t) = Some e)"
  using trip_start.run_stamp [of t es] trip_end.run_stamp [of t es] by auto

section \<open>All stops resolved\<close>

text \<open>The check that a trip's bin stops are all done agrees with the list of pending ones: it
  answers yes exactly when the trip has a bin stop and none is pending; it closes the trip only
  when asked to, and never touches a stop.\<close>
theorem all_collected_iff_none_pending:
  "(snd (mark_completed_if_all_cps_collected now auto_end t db) \<longleftrightarrow>
      pending_bin_stops db (tr_unique_id t) = []
      \<and> (\<exists>s. s \<in> set (td_bins db) \<and> bs_trip_assignment_id s = tr_unique_id t \<and> \<not> bs_is_deleted s))
   \<and> fst (mark_completed_if_all_cps_collected now False t db) = db
   \<and> td_bins (fst (mark_completed_if_all_cps_collected now auto_end t db)) = td_bins db
   \<and> td_households (fst (mark_completed_if_all_cps_collected now auto_end t db)) = td_households db"
proof -
  let ?cs = "filter (\<lambda>s. bs_trip_assignment_id s = tr_unique_id t \<and> \<not> bs_is_deleted s) (td_bins db)"
  have "pending_bin_stops db (tr_unique_id t) = filter (\<lambda>s. bs_status s \<notin> {BinCollected, BinMissed}) ?cs"
    unfolding pending_bin_stops_def filter_filter by (rule filter_cong) auto
  then have "list_ex (\<lambda>s. bs_status s \<notin> {BinCollected, BinMissed}) ?cs
      \<longleftrightarrow> pending_bin_stops db (tr_unique_id t) \<noteq> []"
    by (auto simp: list_ex_iff filter_empty_conv)
  moreover have "?cs = [] \<longleftrightarrow>
      \<not> (\<exists>s. s \<in> set (td_bins db) \<and> bs_trip_assignment_id s = tr_unique_id t \<and> \<not> bs_is_deleted s)"
    by (auto simp: filter_empty_conv)
  ultimately show ?thesis
    unfolding mark_completed_if_all_cps_collected_def Let_def update_trip_def by auto
qed

section \<open>What copying the plan adds\<close>

text \<open>\<open>db'\<close> has the tables of \<open>db\<close> and, at the end of the two stop tables, new pending stops of one
  trip.\<close>

definition extends :: "stop_ids \<Rightarrow> ident \<Rightarrow> trip_db \<Rightarrow> trip_db \<Rightarrow> bool" where
  "extends ids trip_id db db' \<longleftrightarrow>
     (\<exists>bs hs. db' = db\<lparr>td_bins := td_bins db @ bs, td_households := td_households db @ hs\<rparr>
        \<and> (\<forall>s\<in>set bs. \<exists>cp bin n. s = blank_bin_stop ids trip_id cp bin n)
        \<and> (\<forall>s\<in>set hs. \<exists>c ct n. s = blank_household_stop ids trip_id c ct n))"

lemma extends_refl [simp, intro]: "extends ids trip_id db db"
  unfolding extends_def by (intro exI [of _ "[]"]) simp

lemma extends_trans:
  assumes "extends ids trip_id a b" and "extends ids trip_id b c"
  shows "extends ids trip_id a c"
proof -
  from assms obtain bs hs bs' hs' where
    b: "b = a\<lparr>td_bins := td_bins a @ bs, td_households := td_households a @ hs\<rparr>"
      "\<forall>s\<in>set bs. \<exists>cp bin n. s = blank_bin_stop ids trip_id cp bin n"
      "\<forall>s\<in>set hs. \<exists>c ct n. s = blank_household_stop ids trip_id c ct n"
    and c: "c = b\<lparr>td_bins := td_bins b @ bs', td_households := td_households b @ hs'\<rparr>"
      "\<forall>s\<in>set bs'. \<exists>cp bin n. s = blank_bin_stop ids trip_id cp bin n"
      "\<forall>s\<in>set hs'. \<exists>c ct n. s = blank_household_stop ids trip_id c ct n"
    unfolding extends_def by blast
  show ?thesis
    unfolding extends_def
    by (intro exI [of _ "bs @ bs'"] exI [of _ "hs @ hs'"]) (use b c in auto)
qed

lemma extends_ensure_bin:
  "extends ids trip_id (fst acc) (fst (ensure_bin_stop ids trip_id cp bin n acc))"
proof -
  obtain db k where acc: "acc = (db, k)" by fastforce
  have "extends ids trip_id db (db\<lparr>td_bins := td_bins db @ [blank_bin_stop ids trip_id cp bin n]\<rparr>)"
    unfolding extends_def
    by (intro exI [of _ "[blank_bin_stop ids trip_id cp bin n]"] exI [of _ "[]"]) auto
  with acc show ?thesis by (simp add: ensure_bin_stop_def)
qed

lemma extends_ensure_household:
  "extends ids trip_id (fst acc) (fst (ensure_household_stop ids trip_id c ct n acc))"
proof -
  obtain db k where acc: "acc = (db, k)" by fastforce
  have "extends ids trip_id db
      (db\<lparr>td_households := td_households db @ [blank_household_stop ids trip_id c ct n]\<rparr>)"
    unfolding extends_def
    by (intro exI [of _ "[]"] exI [of _ "[blank_household_stop ids trip_id c ct n]"]) auto
  with acc show ?thesis by (simp add: ensure_household_stop_def)
qed

lemma extends_fold:
  assumes "\<And>x acc. extends ids trip_id (fst acc) (fst (f x acc))"
  shows "extends ids trip_id (fst acc) (fst (fold f xs acc))"
proof (induction xs arbitrary: acc)
  case (Cons x xs)
  show ?case using extends_trans [OF assms [of acc x] Cons.IH [of "f x acc"]] by simp
qed simp

lemma extends_create_households:
  "extends ids (tr_unique_id t) (fst a) (fst (create_daily_household_collections ids t stop a))"
  unfolding create_daily_household_collections_def Let_def
  by (rule extends_fold) (simp only: split_beta extends_ensure_household)

lemma extends_clone_stop:
  "clone_stop ids t stop (Some a) = Some b \<Longrightarrow> extends ids (tr_unique_id t) (fst a) (fst b)"
  by (auto simp: clone_stop_def extends_ensure_bin extends_create_households
      split: if_splits option.splits)

lemma clone_stop_None [simp]: "clone_stop ids t stop None = None"
  by (simp add: clone_stop_def)

lemma clone_stops_None [simp]: "fold (clone_stop ids t) stops None = None"
  by (induction stops) auto

lemma extends_clone_stops:
  "fold (clone_stop ids t) stops (Some a) = Some b \<Longrightarrow> extends ids (tr_unique_id t) (fst a) (fst b)"
proof (induction stops arbitrary: a)
  case (Cons s stops)
  show ?case
  proof (cases "clone_stop ids t s (Some a)")
    case None
    with Cons.prems show ?thesis by simp
  next
    case (Some a')
    with Cons.prems have "fold (clone_stop ids t) stops (Some a') = Some b" by simp
    from extends_trans [OF extends_clone_stop [OF Some] Cons.IH [OF this]] show ?thesis .
  qed
qed simp

lemma extends_insert_trip:
  assumes "insert_trip ids t db = Some (t', db')"
    and "\<forall>s\<in>set (td_households db). hs_trip_assignment_id s \<noteq> tr_unique_id t"
  shows "t' = with_plan_defaults db t"
    and "extends ids (tr_unique_id t) (db\<lparr>td_trips := td_trips db @ [t']\<rparr>) db'"
proof -
  have uid: "tr_unique_id (with_plan_defaults db t) = tr_unique_id t"
    by (simp add: with_plan_defaults_def split: option.splits)
  from assms(1) show t': "t' = with_plan_defaults db t"
    by (auto simp: insert_trip_def Let_def)
  let ?db = "db\<lparr>td_trips := td_trips db @ [t']\<rparr>"
  have "drop_outside_wards t' ?db = ?db"
    using assms(2) uid t' by (simp add: drop_outside_wards_def Let_def)
  moreover obtain k where "sync_daily_assignment_stops_from_plan ids t' ?db = Some (db', k)"
    using assms(1) t' by (auto simp: insert_trip_def Let_def)
  ultimately show "extends ids (tr_unique_id t) ?db db'"
    using extends_clone_stops [of ids t' "plan_stops_of ?db t'" "(?db, 0)" "(db', k)"] uid t'
    by (auto simp: sync_daily_assignment_stops_from_plan_def split: if_splits)
qed

section \<open>No stop twice, no stop forgotten\<close>

text \<open>The keys of the two unique constraints.\<close>

definition bin_key :: "bin_stop \<Rightarrow> ident \<times> ident \<times> ident" where
  "bin_key s = (bs_trip_assignment_id s, bs_collection_point_id s, bs_bin_id s)"

definition household_key :: "household_stop \<Rightarrow> ident \<times> ident \<times> collection_type" where
  "household_key s = (hs_trip_assignment_id s, hs_customer_id s, hs_collection_type s)"

definition stop_keys_distinct :: "trip_db \<Rightarrow> bool" where
  "stop_keys_distinct db \<longleftrightarrow>
     distinct (map bin_key (td_bins db)) \<and> distinct (map household_key (td_households db))"

lemma bins_create_households [simp]:
  "td_bins (fst (create_daily_household_collections ids t stop a)) = td_bins (fst a)"
proof -
  have "td_bins (fst (fold (\<lambda>(n, c). ensure_household_stop ids (tr_unique_id t) (cu_unique_id c) ct (m + n)) xs acc))
      = td_bins (fst acc)" for xs acc ct m
    by (induction xs arbitrary: acc) (auto simp: ensure_household_stop_def split_beta)
  then show ?thesis by (simp add: create_daily_household_collections_def Let_def)
qed

lemma keys_ensure_bin:
  "stop_keys_distinct (fst acc) \<Longrightarrow> stop_keys_distinct (fst (ensure_bin_stop ids trip_id cp bin n acc))"
  by (auto simp: stop_keys_distinct_def ensure_bin_stop_def blank_bin_stop_def bin_key_def list_ex_iff
      split: prod.splits)

lemma keys_ensure_household:
  "stop_keys_distinct (fst acc) \<Longrightarrow> stop_keys_distinct (fst (ensure_household_stop ids trip_id c ct n acc))"
  by (auto simp: stop_keys_distinct_def ensure_household_stop_def blank_household_stop_def
      household_key_def list_ex_iff split: prod.splits)

lemma keys_fold:
  assumes "\<And>x acc. stop_keys_distinct (fst acc) \<Longrightarrow> stop_keys_distinct (fst (f x acc))"
  shows "stop_keys_distinct (fst acc) \<Longrightarrow> stop_keys_distinct (fst (fold f xs acc))"
proof (induction xs arbitrary: acc)
  case (Cons x xs)
  show ?case using Cons.IH [OF assms [OF Cons.prems]] by simp
qed simp

lemma keys_create_households:
  "stop_keys_distinct (fst a) \<Longrightarrow> stop_keys_distinct (fst (create_daily_household_collections ids t stop a))"
  unfolding create_daily_household_collections_def Let_def
  by (rule keys_fold) (simp_all only: split_beta keys_ensure_household)

lemma keys_clone_stops:
  "fold (clone_stop ids t) stops (Some a) = Some b \<Longrightarrow> stop_keys_distinct (fst a) \<Longrightarrow>
     stop_keys_distinct (fst b)"
proof (induction stops arbitrary: a)
  case (Cons s stops)
  show ?case
  proof (cases "clone_stop ids t s (Some a)")
    case (Some a')
    then have "stop_keys_distinct (fst a')"
      using Cons.prems(2)
      by (auto simp: clone_stop_def keys_ensure_bin keys_create_households split: if_splits option.splits)
    with Cons Some show ?thesis by simp
  qed (use Cons.prems in simp)
qed simp

text \<open>A plan stop has its daily stops.\<close>

definition plan_customers :: "trip_db \<Rightarrow> trip \<Rightarrow> plan_stop \<Rightarrow> customer_row list" where
  "plan_customers db t stop =
     customers_for_household_stop db stop (map_option tp_geo (trip_plan_of db t))
       (filter (\<lambda>w. w \<in> set (tr_ward_ids t)) (td_ward_ids db))"

definition stop_cloned :: "trip \<Rightarrow> plan_stop \<Rightarrow> trip_db \<Rightarrow> bool" where
  "stop_cloned t stop db \<longleftrightarrow>
     (if ps_collection_type stop = BinCollection
      then truthy (ps_collection_point_id stop) \<longrightarrow>
        (\<exists>s\<in>set (td_bins db). bs_trip_assignment_id s = tr_unique_id t
           \<and> Some (bs_collection_point_id s) = ps_collection_point_id stop \<and> Some (bs_bin_id s) = ps_bin_id stop)
      else \<forall>c\<in>set (plan_customers db t stop). \<exists>s\<in>set (td_households db).
           household_key s = (tr_unique_id t, cu_unique_id c, stop_household_type stop))"

lemma extends_reads:
  assumes "extends ids trip_id db db'"
  shows "plan_customers db' t stop = plan_customers db t stop"
    and "set (td_bins db) \<subseteq> set (td_bins db')" and "set (td_households db) \<subseteq> set (td_households db')"
    and "td_trips db' = td_trips db"
proof -
  obtain bs hs where "db' = db\<lparr>td_bins := td_bins db @ bs, td_households := td_households db @ hs\<rparr>"
    using assms unfolding extends_def by blast
  then show "plan_customers db' t stop = plan_customers db t stop"
    and "set (td_bins db) \<subseteq> set (td_bins db')" and "set (td_households db) \<subseteq> set (td_households db')"
    and "td_trips db' = td_trips db"
    by (simp_all add: plan_customers_def customers_for_household_stop_def trip_plan_of_def Let_def
        cong: option.case_cong)
qed

lemma stop_cloned_extends:
  assumes "extends ids trip_id db db'" and "stop_cloned t stop db"
  shows "stop_cloned t stop db'"
  using assms(2) extends_reads(1) [OF assms(1), of t stop] extends_reads(2,3) [OF assms(1)]
  unfolding stop_cloned_def by (cases "ps_collection_type stop = BinCollection") fastforce+

lemma ensure_household_present:
  "\<exists>s\<in>set (td_households (fst (ensure_household_stop ids trip_id c ct n acc))).
     household_key s = (trip_id, c, ct)"
  by (auto simp: ensure_household_stop_def blank_household_stop_def household_key_def list_ex_iff
      split: prod.splits)

lemma create_households_present:
  assumes "c \<in> set (plan_customers (fst a) t stop)"
  shows "\<exists>s\<in>set (td_households (fst (create_daily_household_collections ids t stop a))).
    household_key s = (tr_unique_id t, cu_unique_id c, stop_household_type stop)"
proof -
  let ?f = "\<lambda>(offset, c). ensure_household_stop ids (tr_unique_id t) (cu_unique_id c)
      (stop_household_type stop) (ps_sequence stop + offset)"
  have step: "extends ids (tr_unique_id t) (fst acc) (fst (?f x acc))" for x acc
    by (simp only: split_beta extends_ensure_household)
  have present: "\<exists>s\<in>set (td_households (fst (fold ?f xs acc))).
      household_key s = (tr_unique_id t, cu_unique_id c, stop_household_type stop)"
    if "c \<in> snd ` set xs" for xs acc
    using that
  proof (induction xs arbitrary: acc)
    case (Cons x xs)
    show ?case
    proof (cases "snd x = c")
      case True
      then obtain s where "s \<in> set (td_households (fst (?f x acc)))"
          "household_key s = (tr_unique_id t, cu_unique_id c, stop_household_type stop)"
        using ensure_household_present
          [of ids "tr_unique_id t" "cu_unique_id c" "stop_household_type stop" "ps_sequence stop + fst x" acc]
        unfolding split_beta by blast
      moreover have "set (td_households (fst (?f x acc))) \<subseteq> set (td_households (fst (fold ?f xs (?f x acc))))"
        by (rule extends_reads(3) [OF extends_fold]) (rule step)
      ultimately show ?thesis by auto
    qed (use Cons in auto)
  qed simp
  have "c \<in> snd ` set (zip [0..<length (plan_customers (fst a) t stop)] (plan_customers (fst a) t stop))"
    using assms by (metis length_map map_nth map_snd_zip set_map length_upt diff_zero)
  from present [OF this] show ?thesis
    by (simp add: create_daily_household_collections_def plan_customers_def Let_def)
qed

lemma clone_stop_cloned:
  assumes "clone_stop ids t stop (Some a) = Some b"
  shows "stop_cloned t stop (fst b)"
proof (cases "ps_collection_type stop = BinCollection")
  case True
  show ?thesis
  proof (cases "truthy (ps_collection_point_id stop)")
    case cp: True
    then obtain cp where cp: "ps_collection_point_id stop = Some cp" "cp \<noteq> []" by blast
    from assms True cp obtain bin where bin: "ps_bin_id stop = Some bin"
      and b: "b = ensure_bin_stop ids (tr_unique_id t) cp bin (ps_sequence stop) a"
      by (auto simp: clone_stop_def split: option.splits)
    show ?thesis
      unfolding b using True cp bin
      by (auto simp: stop_cloned_def ensure_bin_stop_def blank_bin_stop_def list_ex_iff split: prod.splits)
  qed (use True in \<open>simp add: stop_cloned_def\<close>)
next
  case False
  with assms have b: "b = create_daily_household_collections ids t stop a" by (simp add: clone_stop_def)
  have "plan_customers (fst b) t stop = plan_customers (fst a) t stop"
    using extends_reads(1) [OF extends_clone_stop [OF assms]] .
  with False create_households_present [of _ a t stop ids] show ?thesis
    unfolding stop_cloned_def b by simp
qed

lemma clone_stops_cloned:
  "fold (clone_stop ids t) stops (Some a) = Some b \<Longrightarrow> stop \<in> set stops \<Longrightarrow> stop_cloned t stop (fst b)"
proof (induction stops arbitrary: a)
  case (Cons s stops)
  show ?case
  proof (cases "clone_stop ids t s (Some a)")
    case (Some a')
    with Cons.prems have rest: "fold (clone_stop ids t) stops (Some a') = Some b" by simp
    show ?thesis
    proof (cases "stop = s")
      case True
      then show ?thesis
        using stop_cloned_extends [OF extends_clone_stops [OF rest] clone_stop_cloned] Some by blast
    qed (use Cons rest in auto)
  qed (use Cons.prems in simp)
qed simp

text \<open>What asks for a daily stop of a trip.\<close>

definition asks_for_bin :: "plan_stop list \<Rightarrow> bin_stop \<Rightarrow> bool" where
  "asks_for_bin stops s \<longleftrightarrow>
     (\<exists>stop\<in>set stops. ps_collection_type stop = BinCollection
        \<and> ps_collection_point_id stop = Some (bs_collection_point_id s) \<and> ps_bin_id stop = Some (bs_bin_id s))"

definition asks_for_household :: "trip_db \<Rightarrow> trip \<Rightarrow> plan_stop list \<Rightarrow> household_stop \<Rightarrow> bool" where
  "asks_for_household db t stops s \<longleftrightarrow>
     (\<exists>stop\<in>set stops. ps_collection_type stop \<noteq> BinCollection
        \<and> (\<exists>c\<in>set (plan_customers db t stop).
             household_key s = (tr_unique_id t, cu_unique_id c, stop_household_type stop)))"

text \<open>A household still to be served whose customer is in none of the wards the trip selects, if it selects any.\<close>

definition outside_wards :: "trip_db \<Rightarrow> trip \<Rightarrow> household_stop \<Rightarrow> bool" where
  "outside_wards db t s \<longleftrightarrow>
     hs_trip_assignment_id s = tr_unique_id t \<and> \<not> hs_is_collected s \<and> \<not> hs_is_deleted s
     \<and> set (tr_ward_ids t) \<inter> set (td_ward_ids db) \<noteq> {}
     \<and> (\<nexists>c w. c \<in> set (td_customers db) \<and> cu_unique_id c = hs_customer_id s \<and> cu_ward_id c = Some w
          \<and> w \<in> set (tr_ward_ids t) \<inter> set (td_ward_ids db))"

lemma drop_outside_exact:
  "drop_outside_wards t db = db\<lparr>td_households := filter (\<lambda>s. \<not> outside_wards db t s) (td_households db)\<rparr>"
proof (cases "filter (\<lambda>w. w \<in> set (tr_ward_ids t)) (td_ward_ids db) = []")
  case True
  then have "\<not> outside_wards db t s" for s by (auto simp: outside_wards_def filter_empty_conv)
  with True show ?thesis by (simp add: drop_outside_wards_def Let_def)
next
  case False
  then have "outside_wards db t s \<longleftrightarrow> hs_trip_assignment_id s = tr_unique_id t \<and> \<not> hs_is_collected s \<and> \<not> hs_is_deleted s
      \<and> hs_customer_id s \<notin> set (map cu_unique_id
          (filter (\<lambda>c. \<exists>w\<in>set (filter (\<lambda>w. w \<in> set (tr_ward_ids t)) (td_ward_ids db)). cu_ward_id c = Some w) (td_customers db)))"
    for s by (auto simp: outside_wards_def filter_empty_conv image_iff)
  with False show ?thesis by (simp add: drop_outside_wards_def Let_def)
qed

lemma create_households_sound:
  assumes "s \<in> set (td_households (fst (create_daily_household_collections ids t stop a)))"
  shows "s \<in> set (td_households (fst a))
    \<or> (\<exists>c\<in>set (plan_customers (fst a) t stop). household_key s = (tr_unique_id t, cu_unique_id c, stop_household_type stop))"
proof -
  let ?f = "\<lambda>(offset, c). ensure_household_stop ids (tr_unique_id t) (cu_unique_id c)
      (stop_household_type stop) (ps_sequence stop + offset)"
  have "s \<in> set (td_households (fst acc))
      \<or> (\<exists>c\<in>snd ` set xs. household_key s = (tr_unique_id t, cu_unique_id c, stop_household_type stop))"
    if "s \<in> set (td_households (fst (fold ?f xs acc)))" for xs acc
    using that
  proof (induction xs arbitrary: acc)
    case (Cons x xs)
    have "s \<in> set (td_households (fst acc)) \<or> household_key s = (tr_unique_id t, cu_unique_id (snd x), stop_household_type stop)"
      if "s \<in> set (td_households (fst (?f x acc)))"
      using that by (auto simp: split_beta ensure_household_stop_def blank_household_stop_def household_key_def split: if_splits)
    with Cons show ?case by fastforce
  qed simp
  moreover have "snd ` set (zip [0..<length (plan_customers (fst a) t stop)] (plan_customers (fst a) t stop))
      \<subseteq> set (plan_customers (fst a) t stop)" by (auto dest: set_zip_rightD)
  ultimately show ?thesis
    using assms unfolding create_daily_household_collections_def plan_customers_def Let_def by blast
qed

lemma clone_stops_sound:
  assumes "fold (clone_stop ids t) stops (Some a) = Some b"
  shows "(\<forall>s\<in>set (td_bins (fst b)). s \<in> set (td_bins (fst a)) \<or> asks_for_bin stops s)
    \<and> (\<forall>s\<in>set (td_households (fst b)). s \<in> set (td_households (fst a)) \<or> asks_for_household (fst a) t stops s)"
  using assms
proof (induction stops arbitrary: a)
  case (Cons p stops)
  then obtain a' where one: "clone_stop ids t p (Some a) = Some a'" and rest: "fold (clone_stop ids t) stops (Some a') = Some b"
    by (cases "clone_stop ids t p (Some a)") auto
  have same: "plan_customers (fst a') t stop = plan_customers (fst a) t stop" for stop
    using extends_reads(1) [OF extends_clone_stop [OF one]] .
  have bins: "s \<in> set (td_bins (fst a)) \<or> asks_for_bin [p] s" if "s \<in> set (td_bins (fst a'))" for s
  proof (cases "ps_collection_type p = BinCollection")
    case True
    with one that show ?thesis
      by (auto simp: clone_stop_def asks_for_bin_def ensure_bin_stop_def blank_bin_stop_def split: if_splits option.splits prod.splits)
  next
    case False
    with one have "a' = create_daily_household_collections ids t p a" by (simp add: clone_stop_def)
    then have "td_bins (fst a') = td_bins (fst a)" by (simp add: bins_create_households)
    with that show ?thesis by simp
  qed
  have households: "s \<in> set (td_households (fst a)) \<or> asks_for_household (fst a) t [p] s"
    if "s \<in> set (td_households (fst a'))" for s
  proof (cases "ps_collection_type p = BinCollection")
    case True
    with one have "td_households (fst a') = td_households (fst a)"
      by (auto simp: clone_stop_def ensure_bin_stop_def split: if_splits option.splits prod.splits)
    with that show ?thesis by simp
  next
    case False
    with one have "a' = create_daily_household_collections ids t p a" by (simp add: clone_stop_def)
    with that False create_households_sound [of s ids t p a] show ?thesis by (auto simp: asks_for_household_def)
  qed
  from Cons.IH [OF rest] bins households show ?case
    by (simp add: asks_for_bin_def asks_for_household_def same) blast
qed simp

lemma sync_parts:
  assumes "sync_daily_assignment_stops_from_plan ids t db = Some (db', added)" and "tr_trip_plan_id t \<noteq> []"
  shows "stop_keys_distinct db \<Longrightarrow> stop_keys_distinct db'"
    and "stop \<in> set (plan_stops_of db t) \<Longrightarrow> stop_cloned t stop db'"
    and "\<exists>bs hs. db' = db\<lparr>td_bins := td_bins db @ bs,
         td_households := filter (\<lambda>s. \<not> outside_wards db t s) (td_households db) @ hs\<rparr>
       \<and> (\<forall>s\<in>set bs. \<exists>cp bin n. s = blank_bin_stop ids (tr_unique_id t) cp bin n)
       \<and> (\<forall>s\<in>set hs. \<exists>c ct n. s = blank_household_stop ids (tr_unique_id t) c ct n)"
    and "s \<in> set (td_bins db') \<Longrightarrow> s \<in> set (td_bins db) \<or> asks_for_bin (plan_stops_of db t) s"
    and "h \<in> set (td_households db') \<Longrightarrow> h \<in> set (td_households db) \<or> asks_for_household db t (plan_stops_of db t) h"
proof -
  let ?start = "drop_outside_wards t db"
  have run: "fold (clone_stop ids t) (plan_stops_of db t) (Some (?start, 0)) = Some (db', added)"
    using assms by (simp add: sync_daily_assignment_stops_from_plan_def)
  show "stop_keys_distinct db'" if "stop_keys_distinct db"
    using keys_clone_stops [OF run] that
    by (auto simp: drop_outside_exact stop_keys_distinct_def distinct_map_filter)
  show "stop \<in> set (plan_stops_of db t) \<Longrightarrow> stop_cloned t stop db'"
    using clone_stops_cloned [OF run] by simp
  have "extends ids (tr_unique_id t) ?start db'" using extends_clone_stops [OF run] by simp
  then show "\<exists>bs hs. db' = db\<lparr>td_bins := td_bins db @ bs,
         td_households := filter (\<lambda>s. \<not> outside_wards db t s) (td_households db) @ hs\<rparr>
       \<and> (\<forall>s\<in>set bs. \<exists>cp bin n. s = blank_bin_stop ids (tr_unique_id t) cp bin n)
       \<and> (\<forall>s\<in>set hs. \<exists>c ct n. s = blank_household_stop ids (tr_unique_id t) c ct n)"
    unfolding extends_def drop_outside_exact by auto
  have "plan_customers ?start t p = plan_customers db t p" for p
    by (simp add: drop_outside_exact plan_customers_def customers_for_household_stop_def trip_plan_of_def Let_def
        cong: option.case_cong)
  then have "asks_for_household ?start t stops = asks_for_household db t stops" for stops
    by (simp add: asks_for_household_def fun_eq_iff)
  then show "s \<in> set (td_bins db') \<Longrightarrow> s \<in> set (td_bins db) \<or> asks_for_bin (plan_stops_of db t) s"
    and "h \<in> set (td_households db') \<Longrightarrow> h \<in> set (td_households db) \<or> asks_for_household db t (plan_stops_of db t) h"
    using clone_stops_sound [OF run] by (auto simp: drop_outside_exact)
qed

lemma sync_keys:
  "sync_daily_assignment_stops_from_plan ids t db = Some (db', added) \<Longrightarrow> stop_keys_distinct db \<Longrightarrow> stop_keys_distinct db'"
  using sync_parts(1) by (cases "tr_trip_plan_id t = []") (auto simp: sync_daily_assignment_stops_from_plan_def)

text \<open>C38: Copying its plan onto a trip, as often as it is done, leaves no stop twice and no active plan stop without
  its daily stops. Of the stops that were there it removes exactly the trip's households still to be served whose
  customer is outside the wards the trip selects, when it selects any; every other one stays as it was, in its place.
  What it adds comes after them: blank stops of this trip, each asked for by an active stop of the plan. It changes
  no other table.\<close>
theorem sync_complete_and_unique:
  assumes "sync_daily_assignment_stops_from_plan ids t db = Some (db', added)" and "tr_trip_plan_id t \<noteq> []"
    and "stop_keys_distinct db"
  shows "stop_keys_distinct db'
    \<and> (\<forall>stop. stop \<in> set (plan_stops_of db t) \<longrightarrow> stop_cloned t stop db')
    \<and> (\<exists>bs hs. db' = db\<lparr>td_bins := td_bins db @ bs,
           td_households := filter (\<lambda>s. \<not> outside_wards db t s) (td_households db) @ hs\<rparr>
         \<and> (\<forall>s\<in>set bs. \<exists>cp bin n. s = blank_bin_stop ids (tr_unique_id t) cp bin n)
         \<and> (\<forall>s\<in>set hs. \<exists>c ct n. s = blank_household_stop ids (tr_unique_id t) c ct n))
    \<and> (\<forall>s. s \<in> set (td_bins db') \<longrightarrow> s \<in> set (td_bins db) \<or> asks_for_bin (plan_stops_of db t) s)
    \<and> (\<forall>s. s \<in> set (td_households db') \<longrightarrow>
         s \<in> set (td_households db) \<or> asks_for_household db t (plan_stops_of db t) s)"
  using sync_parts [OF assms(1,2)] assms(3) by blast

text \<open>An id that no trip has and no stop names.\<close>

definition unused_trip :: "ident \<Rightarrow> trip_db \<Rightarrow> bool" where
  "unused_trip new_id db \<longleftrightarrow>
     (\<forall>t\<in>set (td_trips db). tr_unique_id t \<noteq> new_id)
     \<and> (\<forall>s\<in>set (td_bins db). bs_trip_assignment_id s \<noteq> new_id)
     \<and> (\<forall>s\<in>set (td_households db). hs_trip_assignment_id s \<noteq> new_id)"

section \<open>When a plan can be copied\<close>

lemma with_plan_defaults_id [simp]: "tr_unique_id (with_plan_defaults db t) = tr_unique_id t"
  by (simp add: with_plan_defaults_def split: option.splits)

lemma with_plan_defaults_plan [simp]: "tr_trip_plan_id (with_plan_defaults db t) = tr_trip_plan_id t"
  by (simp add: with_plan_defaults_def split: option.splits)

text \<open>Every bin stop of the plan that is copied names its bin.\<close>

definition plan_stop_ok :: "plan_stop \<Rightarrow> bool" where
  "plan_stop_ok stop \<longleftrightarrow>
     (ps_collection_type stop = BinCollection \<and> truthy (ps_collection_point_id stop) \<longrightarrow> ps_bin_id stop \<noteq> None)"

definition plan_ok :: "trip_db \<Rightarrow> trip \<Rightarrow> bool" where
  "plan_ok db t \<longleftrightarrow> tr_trip_plan_id t = [] \<or> (\<forall>stop\<in>set (plan_stops_of db t). plan_stop_ok stop)"

lemma clone_stop_Some: "clone_stop ids t stop (Some a) = None \<longleftrightarrow> \<not> plan_stop_ok stop"
  by (simp add: clone_stop_def plan_stop_ok_def split: option.splits)

lemma clone_stops_Some: "fold (clone_stop ids t) stops (Some a) = None \<longleftrightarrow> (\<exists>stop\<in>set stops. \<not> plan_stop_ok stop)"
proof (induction stops arbitrary: a)
  case (Cons s stops)
  show ?case
  proof (cases "clone_stop ids t s (Some a)")
    case None
    then show ?thesis using clone_stop_Some [of ids t s a] by auto
  next
    case (Some b)
    then show ?thesis using clone_stop_Some [of ids t s a] Cons.IH [of b] by auto
  qed
qed simp

lemma plan_stops_of_cong:
  "td_plans db = td_plans db' \<Longrightarrow> td_plan_stops db = td_plan_stops db' \<Longrightarrow> tr_trip_plan_id t = tr_trip_plan_id t' \<Longrightarrow>
     plan_stops_of db t = plan_stops_of db' t'"
  by (simp add: plan_stops_of_def trip_plan_of_def cong: option.case_cong)

lemma insert_trip_None: "insert_trip ids t db = None \<longleftrightarrow> \<not> plan_ok db t"
proof -
  let ?t = "with_plan_defaults db t"
  have "plan_stops_of (db\<lparr>td_trips := td_trips db @ [?t]\<rparr>) ?t = plan_stops_of db t"
    by (rule plan_stops_of_cong) simp_all
  then show ?thesis
    by (simp add: insert_trip_def Let_def sync_daily_assignment_stops_from_plan_def plan_ok_def clone_stops_Some)
qed

lemma keys_insert_trip:
  assumes "insert_trip ids t db = Some (t', db')" and "stop_keys_distinct db"
  shows "stop_keys_distinct db'"
proof -
  let ?db = "db\<lparr>td_trips := td_trips db @ [with_plan_defaults db t]\<rparr>"
  obtain k where "sync_daily_assignment_stops_from_plan ids (with_plan_defaults db t) ?db = Some (db', k)"
    using assms(1) by (auto simp: insert_trip_def Let_def)
  moreover have "stop_keys_distinct ?db" using assms(2) by (simp add: stop_keys_distinct_def)
  ultimately show ?thesis by (rule sync_keys)
qed

text \<open>A trip of one bin stop, and a household trip that covers one of two wards.\<close>

definition sample_trip :: "ident list \<Rightarrow> trip" where
  "sample_trip wards =
     \<lparr>tr_unique_id = ''T1'', tr_trip_plan_id = ''P1'', tr_staff_template_id = Some ''ST'',
      tr_alt_staff_template_id = None, tr_vehicle_id = Some ''V'', tr_trip_date = 20000,
      tr_scheduled_time = None, tr_status = TripScheduled, tr_approval_status = ApprovalPending,
      tr_remarks = None, tr_waste_type_ids = [], tr_ward_ids = wards, tr_actual_start_at = None,
      tr_actual_start_time = None, tr_actual_end_at = None, tr_actual_end_time = None,
      tr_is_active = True, tr_is_deleted = False\<rparr>"

definition sample_ids :: "stop_ids" where
  "sample_ids = \<lparr>new_bin = (\<lambda>(t, cp, b). ''B-'' @ t @ cp @ b), new_household = (\<lambda>(t, c, ct). ''H-'' @ t @ c)\<rparr>"

definition sample_plan :: "collection_type \<Rightarrow> trip_plan" where
  "sample_plan ct =
     \<lparr>tp_unique_id = ''P1'', tp_staff_template_id = ''ST'', tp_vehicle_id = ''V'', tp_supervisor_id = Some ''SUP'',
      tp_scheduled_time = None, tp_waste_type_ids = [], tp_ward_ids = [], tp_collection_type = ct,
      tp_geo = (\<lambda>_. None), tp_is_auto_assign = True, tp_repeat_days = [''0''],
      tp_approval_status = ApprovalApproved, tp_is_active_plan = True, tp_is_deleted = False\<rparr>"

definition sample_plan_stop :: "collection_type \<Rightarrow> ident option \<Rightarrow> ident option \<Rightarrow> ident option \<Rightarrow> plan_stop" where
  "sample_plan_stop ct cp bin customer =
     \<lparr>ps_trip_plan_id = ''P1'', ps_collection_type = ct, ps_collection_point_id = cp, ps_bin_id = bin,
      ps_customer_id = customer, ps_sequence = 1, ps_geo = (\<lambda>_. None), ps_is_active = True, ps_is_deleted = False\<rparr>"

definition bin_db :: "trip_db" where
  "bin_db = \<lparr>td_trips = [sample_trip []], td_bins = [], td_households = [], td_plans = [sample_plan BinCollection],
     td_plan_stops = [sample_plan_stop BinCollection (Some ''CP'') (Some ''BIN'') None],
     td_customers = [], td_ward_ids = []\<rparr>"

lemmas sample_defs = sample_trip_def sample_ids_def sample_plan_def sample_plan_stop_def bin_db_def

lemma bin_db_synced:
  "sync_daily_assignment_stops_from_plan sample_ids (sample_trip []) bin_db
     = Some (bin_db\<lparr>td_bins := [blank_bin_stop sample_ids ''T1'' ''CP'' ''BIN'' 1]\<rparr>, 1)"
  by (simp add: sync_daily_assignment_stops_from_plan_def drop_outside_wards_def plan_stops_of_def
      trip_plan_of_def clone_stop_def ensure_bin_stop_def sample_defs)

lemma sync_complete_and_unique_witness:
  "stop_cloned (sample_trip []) (sample_plan_stop BinCollection (Some ''CP'') (Some ''BIN'') None)
     (bin_db\<lparr>td_bins := [blank_bin_stop sample_ids ''T1'' ''CP'' ''BIN'' 1]\<rparr>)
   \<and> stop_keys_distinct (bin_db\<lparr>td_bins := [blank_bin_stop sample_ids ''T1'' ''CP'' ''BIN'' 1]\<rparr>)"
proof -
  have keys: "stop_keys_distinct bin_db" by (simp add: stop_keys_distinct_def bin_db_def)
  have plan: "tr_trip_plan_id (sample_trip []) \<noteq> []" by (simp add: sample_trip_def)
  have "sample_plan_stop BinCollection (Some ''CP'') (Some ''BIN'') None \<in> set (plan_stops_of bin_db (sample_trip []))"
    by (simp add: plan_stops_of_def trip_plan_of_def sample_defs)
  then show ?thesis using sync_complete_and_unique [OF bin_db_synced plan keys] by blast
qed

lemma completed_trip_has_duration_witness:
  "\<exists>s e. tr_actual_start_at (fst (mark_ended 9 (sample_trip []))) = Some s
    \<and> tr_actual_end_at (fst (mark_ended 9 (sample_trip []))) = Some e \<and> s \<le> e \<and> e \<le> 9
    \<and> total_trip_time 11 (fst (mark_ended 9 (sample_trip []))) = Some (e - s)"
proof -
  have "trip_reachable 5 (sample_trip [])"
    by (rule trip_reachable.created) (simp_all add: sample_trip_def)
  from trip_reachable.event [OF this, of "EndTrip 9" 9]
  have "trip_reachable 9 (fst (mark_ended 9 (sample_trip [])))" by simp
  moreover have "tr_status (fst (mark_ended 9 (sample_trip []))) = TripCompleted"
    by (simp add: mark_ended_def stamp_start_def stamp_end_def sample_trip_def)
  ultimately show ?thesis by (rule completed_trip_has_duration)
qed

lemma trip_times_written_once_witness:
  "tr_actual_start_at (fold trip_event [EndTrip 9, SetTripStatus 12 TripCancelled]
     (fst (mark_started 4 (sample_trip [])))) = Some 4"
proof -
  have "tr_actual_start_at (fst (mark_started 4 (sample_trip []))) = Some 4"
    by (simp add: mark_started_def stamp_start_def sample_trip_def)
  then show ?thesis using trip_times_written_once by blast
qed

section \<open>Progress that a second copy forgets\<close>

lemma ensure_new_households_blank:
  assumes "extends ids trip_id db db'" and "s \<in> set (td_households db')" and "s \<notin> set (td_households db)"
  shows "hs_status s = HouseholdPending \<and> hs_customer_available_at s = None"
proof -
  obtain bs hs where db': "db' = db\<lparr>td_bins := td_bins db @ bs, td_households := td_households db @ hs\<rparr>"
    and blank: "\<forall>s\<in>set hs. \<exists>c ct n. s = blank_household_stop ids trip_id c ct n"
    using assms(1) unfolding extends_def by blast
  from db' assms(2,3) have "s \<in> set hs" by auto
  with blank obtain c ct n where "s = blank_household_stop ids trip_id c ct n" by blast
  then show ?thesis by (simp add: blank_household_stop_def)
qed

text \<open>The copy is announced as additive only, but an uncollected household of the trip whose
  customer lives outside the trip's selected wards does not survive it: neither the driver's
  remark on it (Collect Later, Not Available, Skipped) nor the customer's announcement of being
  at home is left, even when the plan names the customer and the stop is created again.\<close>
theorem sync_forgets_progress:
  assumes "sync_daily_assignment_stops_from_plan ids t db = Some (db', added)"
    and "tr_trip_plan_id t \<noteq> []" and "w \<in> set (tr_ward_ids t)" and "w \<in> set (td_ward_ids db)"
    and "hs_trip_assignment_id s = tr_unique_id t" and "\<not> hs_is_collected s" and "\<not> hs_is_deleted s"
    and "\<forall>c. c \<in> set (td_customers db) \<and> cu_unique_id c = hs_customer_id s \<longrightarrow>
        (\<forall>v. v \<in> set (tr_ward_ids t) \<longrightarrow> cu_ward_id c \<noteq> Some v)"
    and "hs_status s \<noteq> HouseholdPending \<or> hs_customer_available_at s \<noteq> None"
  shows "s \<notin> set (td_households db')"
proof
  assume present: "s \<in> set (td_households db')"
  have "fold (clone_stop ids t) (plan_stops_of db t) (Some (drop_outside_wards t db, 0)) = Some (db', added)"
    using assms(1,2) by (simp add: sync_daily_assignment_stops_from_plan_def)
  from extends_clone_stops [OF this]
  have ext: "extends ids (tr_unique_id t) (drop_outside_wards t db) db'" by simp
  have "filter (\<lambda>w. w \<in> set (tr_ward_ids t)) (td_ward_ids db) \<noteq> []"
    using assms(3,4) by (auto simp: filter_empty_conv)
  then have "s \<notin> set (td_households (drop_outside_wards t db))"
    using assms(5-8) by (auto simp: drop_outside_wards_def Let_def)
  from ensure_new_households_blank [OF ext present this] assms(9) show False by simp
qed

definition waiting_stop :: "household_stop" where
  "waiting_stop = (blank_household_stop sample_ids ''T1'' ''C1'' HouseholdCollection 1)
     \<lparr>hs_status := HouseholdCollectLater, hs_customer_available_at := Some 100\<rparr>"

definition other_ward_customer :: "customer_row" where
  "other_ward_customer = \<lparr>cu_unique_id = ''C1'', cu_ward_id = Some ''W2'', cu_geo = (\<lambda>_. None),
     cu_is_bulkwaste_generator = False, cu_is_active = True, cu_is_deleted = False\<rparr>"

definition household_db :: "trip_db" where
  "household_db = \<lparr>td_trips = [sample_trip [''W1'']], td_bins = [], td_households = [waiting_stop],
     td_plans = [sample_plan HouseholdCollection],
     td_plan_stops = [sample_plan_stop HouseholdCollection None None (Some ''C1'')],
     td_customers = [other_ward_customer], td_ward_ids = [''W1'', ''W2'']\<rparr>"

lemma household_db_dropped:
  "drop_outside_wards (sample_trip [''W1'']) household_db = household_db\<lparr>td_households := []\<rparr>"
  by (simp add: drop_outside_wards_def Let_def household_db_def other_ward_customer_def waiting_stop_def blank_household_stop_def
      sample_trip_def)

lemma household_db_plan:
  "trip_plan_of household_db (sample_trip [''W1'']) = Some (sample_plan HouseholdCollection)"
  "plan_stops_of household_db (sample_trip [''W1''])
     = [sample_plan_stop HouseholdCollection None None (Some ''C1'')]"
  by (simp_all add: plan_stops_of_def trip_plan_of_def household_db_def sample_trip_def sample_plan_def
      sample_plan_stop_def)

lemma household_db_customers:
  "customers_for_household_stop (household_db\<lparr>td_households := []\<rparr>)
     (sample_plan_stop HouseholdCollection None None (Some ''C1'')) g ws = [other_ward_customer]"
  by (simp add: customers_for_household_stop_def household_db_def sample_plan_stop_def other_ward_customer_def)

lemma household_db_created:
  "create_daily_household_collections sample_ids (sample_trip [''W1''])
     (sample_plan_stop HouseholdCollection None None (Some ''C1'')) (household_db\<lparr>td_households := []\<rparr>, 0)
   = (household_db\<lparr>td_households := [blank_household_stop sample_ids ''T1'' ''C1'' HouseholdCollection 1]\<rparr>, 1)"
proof -
  have kind: "stop_household_type (sample_plan_stop HouseholdCollection None None (Some ''C1'')) = HouseholdCollection"
    and seq: "ps_sequence (sample_plan_stop HouseholdCollection None None (Some ''C1'')) = 1"
    and uid: "tr_unique_id (sample_trip [''W1'']) = ''T1''"
    by (simp_all add: stop_household_type_def sample_plan_stop_def sample_trip_def)
  have customer: "cu_unique_id other_ward_customer = ''C1''" by (simp add: other_ward_customer_def)
  show ?thesis
    unfolding create_daily_household_collections_def Let_def fst_conv household_db_customers kind seq uid
    by (simp add: ensure_household_stop_def customer)
qed

lemma household_db_synced:
  "sync_daily_assignment_stops_from_plan sample_ids (sample_trip [''W1'']) household_db
     = Some (household_db\<lparr>td_households := [blank_household_stop sample_ids ''T1'' ''C1'' HouseholdCollection 1]\<rparr>, 1)"
proof -
  have "tr_trip_plan_id (sample_trip [''W1'']) \<noteq> []" by (simp add: sample_trip_def)
  moreover have "ps_collection_type (sample_plan_stop HouseholdCollection None None (Some ''C1'')) \<noteq> BinCollection"
    by (simp add: sample_plan_stop_def)
  ultimately show ?thesis
    by (simp add: sync_daily_assignment_stops_from_plan_def household_db_plan household_db_dropped
        clone_stop_def household_db_created)
qed

lemma sync_forgets_progress_witness:
  "waiting_stop \<notin> set (td_households (household_db
     \<lparr>td_households := [blank_household_stop sample_ids ''T1'' ''C1'' HouseholdCollection 1]\<rparr>))"
  by (rule sync_forgets_progress [OF household_db_synced, of "''W1''"])
    (simp_all add: household_db_def other_ward_customer_def waiting_stop_def blank_household_stop_def sample_trip_def)

end
