(* ===== verification/Retrip.thy ===== *)
theory Retrip
  imports Trip_Stops
begin

text \<open>
  Re-trips: the request to close a trip that still has stops, its deadlines, and the
  continuation that takes the rest over (\<open>app/services/retrip_service.py\<close>,
  \<open>app/services/retrip_timeout_service.py\<close>, the model \<open>TripRetripRequest\<close>, and the driver's end of a
  trip in \<open>trip_lifecycle_viewset.py\<close>).

  Times are seconds. Where the code reads the clock more than once, the first reading and the
  later ones are separate arguments. An alert keeps the recipient, the event and the ids of its
  data; its wording is left out, as are the geography of the copied rows and the trip log that
  an approval saves again.
\<close>

section \<open>Rows and state\<close>

datatype retrip_status = RetripPending | RetripApproved | RetripRejected | RetripExpired

record bin_snapshot =
  bn_unique_id :: ident
  bn_sequence :: nat
  bn_status :: bin_status
  bn_collection_point_id :: ident
  bn_bin_id :: ident

record household_snapshot =
  hn_unique_id :: ident
  hn_sequence :: nat
  hn_status :: household_status
  hn_customer_id :: ident

record retrip =
  rr_unique_id :: ident
  rr_assignment_id :: ident
  rr_requested_by_id :: "ident option"
  rr_reason :: string
  rr_status :: retrip_status
  rr_pending_bin_count :: nat
  rr_pending_household_count :: nat
  rr_pending_bins :: "bin_snapshot list"
  rr_pending_households :: "household_snapshot list"
  rr_reviewed_by_id :: "ident option"
  rr_reviewed_at :: "int option"
  rr_review_remarks :: "string option"
  rr_new_assignment_id :: "ident option"
  rr_expires_at :: "int option"
  rr_reminder_sent_at :: "int option"
  rr_escalated_at :: "int option"
  rr_created_at :: int
  rr_is_deleted :: bool

text \<open>The staff templates, substituted ones included, and the ids of the staff rows.\<close>

record crew_template =
  ct_unique_id :: ident
  ct_driver_id :: ident
  ct_operator_id :: ident

record directory =
  di_templates :: "crew_template list"
  di_alt_templates :: "crew_template list"
  di_staff :: "ident list"

datatype retrip_event =
    RequestRaised | RequestReminder | RequestEscalated | RequestExpiry | RequestApproval
  | RequestRejection | BreakdownContinuation

record alert =
  al_recipient :: ident
  al_event :: retrip_event
  al_request :: "ident option"
  al_assignment :: ident
  al_new_assignment :: "ident option"

record retrip_state =
  rs_db :: trip_db
  rs_requests :: "retrip list"
  rs_alerts :: "alert list"

text \<open>An environment variable as \<open>int\<close> reads it: \<open>None\<close> when it is unset, \<open>Some None\<close> when it is no number.\<close>

type_synonym environment = "string \<Rightarrow> int option option"

datatype retrip_error =
    RequestMissing | AlreadyDecided retrip_status | TripMissing | StopNotPending
  | NothingToCarry | TripClosed | DatabaseError

section \<open>Windows\<close>

definition minutes_of :: "environment \<Rightarrow> string \<Rightarrow> int \<Rightarrow> int" where
  "minutes_of env name preset =
     (case env name of
        None \<Rightarrow> max 1 preset
      | Some None \<Rightarrow> preset
      | Some (Some n) \<Rightarrow> max 1 n)"

definition timeout_minutes :: "environment \<Rightarrow> int" where
  "timeout_minutes env = minutes_of env ''RETRIP_EXPIRY_MINUTES'' 30"

definition reminder_minutes :: "environment \<Rightarrow> int" where
  "reminder_minutes env = min (minutes_of env ''RETRIP_REMINDER_MINUTES'' 10) (timeout_minutes env)"

definition escalation_minutes :: "environment \<Rightarrow> int" where
  "escalation_minutes env = min (minutes_of env ''RETRIP_ESCALATION_MINUTES'' 20) (timeout_minutes env)"

definition deadline_for :: "environment \<Rightarrow> retrip \<Rightarrow> int" where
  "deadline_for env r =
     (case rr_expires_at r of Some at \<Rightarrow> at | None \<Rightarrow> rr_created_at r + 60 * timeout_minutes env)"

definition is_pending :: "retrip \<Rightarrow> bool" where
  "is_pending r \<longleftrightarrow> rr_status r = RetripPending"

section \<open>Who is told\<close>

text \<open>\<open>ref_cache.get\<close>: the row of an id, or nothing.\<close>

definition staff_of :: "directory \<Rightarrow> ident option \<Rightarrow> ident list" where
  "staff_of dir v = (if truthy v \<and> the v \<in> set (di_staff dir) then [the v] else [])"

definition template_of :: "crew_template list \<Rightarrow> ident option \<Rightarrow> crew_template option" where
  "template_of ts v = (if truthy v then find (\<lambda>t. Some (ct_unique_id t) = v) ts else None)"

definition effective_template :: "directory \<Rightarrow> trip \<Rightarrow> crew_template option" where
  "effective_template dir t =
     (case template_of (di_alt_templates dir) (tr_alt_staff_template_id t) of
        Some a \<Rightarrow> Some a
      | None \<Rightarrow> template_of (di_templates dir) (tr_staff_template_id t))"

definition crew_of :: "directory \<Rightarrow> trip \<Rightarrow> ident list" where
  "crew_of dir t =
     (case effective_template dir t of
        None \<Rightarrow> []
      | Some c \<Rightarrow> staff_of dir (Some (ct_driver_id c)) @ staff_of dir (Some (ct_operator_id c)))"

definition supervisors_for :: "directory \<Rightarrow> trip_db \<Rightarrow> trip \<Rightarrow> ident list" where
  "supervisors_for dir db t =
     (case trip_plan_of db t of None \<Rightarrow> [] | Some p \<Rightarrow> staff_of dir (tp_supervisor_id p))"

text \<open>The same two, from a request whose trip may be gone.\<close>

definition request_supervisors :: "directory \<Rightarrow> trip_db \<Rightarrow> retrip \<Rightarrow> ident list" where
  "request_supervisors dir db r =
     (case find_trip db (rr_assignment_id r) of None \<Rightarrow> [] | Some t \<Rightarrow> supervisors_for dir db t)"

definition request_crew :: "directory \<Rightarrow> trip_db \<Rightarrow> retrip \<Rightarrow> ident list" where
  "request_crew dir db r =
     (case find_trip db (rr_assignment_id r) of None \<Rightarrow> [] | Some t \<Rightarrow> crew_of dir t)"

definition notify_request :: "ident list \<Rightarrow> retrip_event \<Rightarrow> retrip \<Rightarrow> ident option \<Rightarrow> alert list" where
  "notify_request recipients event r continuation =
     map (\<lambda>staff. \<lparr>al_recipient = staff, al_event = event, al_request = Some (rr_unique_id r),
       al_assignment = rr_assignment_id r, al_new_assignment = continuation\<rparr>) recipients"

section \<open>The request table\<close>

definition find_request :: "retrip_state \<Rightarrow> ident \<Rightarrow> retrip option" where
  "find_request st uid = find (\<lambda>r. rr_unique_id r = uid) (rs_requests st)"

definition update_request :: "retrip \<Rightarrow> retrip_state \<Rightarrow> retrip_state" where
  "update_request r st =
     st\<lparr>rs_requests := map (\<lambda>x. if rr_unique_id x = rr_unique_id r then r else x) (rs_requests st)\<rparr>"

definition send_alerts :: "alert list \<Rightarrow> retrip_state \<Rightarrow> retrip_state" where
  "send_alerts as st = st\<lparr>rs_alerts := rs_alerts st @ as\<rparr>"

definition mark_reviewed ::
  "retrip_status \<Rightarrow> ident option \<Rightarrow> int \<Rightarrow> string option \<Rightarrow> ident option \<Rightarrow> retrip \<Rightarrow> retrip" where
  "mark_reviewed status by now remarks new_assignment r =
     (let r' = r\<lparr>rr_status := status, rr_reviewed_by_id := by, rr_reviewed_at := Some now,
                rr_review_remarks := remarks\<rparr>
      in case new_assignment of None \<Rightarrow> r' | Some a \<Rightarrow> r'\<lparr>rr_new_assignment_id := Some a\<rparr>)"

section \<open>Expiry\<close>

definition expired_remarks :: "environment \<Rightarrow> string" where
  "expired_remarks env = ''Expired automatically after '' @ show_nat (nat (timeout_minutes env))
     @ '' minutes without a supervisor decision.''"

text \<open>\<open>_expire_locked\<close>: the row and the alerts of the transition, \<open>None\<close> when there is none.\<close>

definition expire_locked ::
  "environment \<Rightarrow> directory \<Rightarrow> trip_db \<Rightarrow> int \<Rightarrow> retrip \<Rightarrow> (retrip \<times> alert list) option" where
  "expire_locked env dir db now r =
     (if \<not> is_pending r \<or> now < deadline_for env r then None
      else
        let r' = r\<lparr>rr_status := RetripExpired, rr_expires_at := Some (deadline_for env r),
                   rr_reviewed_at := Some now, rr_review_remarks := Some (expired_remarks env)\<rparr>
        in Some (r', notify_request (request_supervisors dir db r') RequestExpiry r' None
                   @ notify_request (request_crew dir db r') RequestExpiry r' None))"

definition expire_retrip_if_due ::
  "environment \<Rightarrow> directory \<Rightarrow> int \<Rightarrow> ident \<Rightarrow> retrip_state \<Rightarrow> retrip_error + bool \<times> retrip_state" where
  "expire_retrip_if_due env dir now uid st =
     (case find_request st uid of
        None \<Rightarrow> Inl RequestMissing
      | Some r \<Rightarrow>
          (case expire_locked env dir (rs_db st) now r of
             None \<Rightarrow> Inr (False, st)
           | Some (r', as) \<Rightarrow> Inr (True, send_alerts as (update_request r' st))))"

section \<open>The sweep\<close>

datatype sweep_outcome = SweptExpired | SweptEscalated | SweptReminded | SweptNothing

text \<open>One pending row of the sweep.\<close>

definition sweep_row ::
  "environment \<Rightarrow> directory \<Rightarrow> trip_db \<Rightarrow> int \<Rightarrow> retrip \<Rightarrow> retrip \<times> alert list \<times> sweep_outcome" where
  "sweep_row env dir db now row =
     (let r = row\<lparr>rr_expires_at := Some (deadline_for env row)\<rparr>
      in case expire_locked env dir db now r of
           Some (r', as) \<Rightarrow> (r', as, SweptExpired)
         | None \<Rightarrow>
             if now - rr_created_at r \<ge> 60 * escalation_minutes env \<and> rr_escalated_at r = None then
               (let r' = r\<lparr>rr_escalated_at := Some now,
                     rr_reminder_sent_at := (case rr_reminder_sent_at r of None \<Rightarrow> Some now | s \<Rightarrow> s)\<rparr>
                in (r', notify_request (request_supervisors dir db r') RequestEscalated r' None, SweptEscalated))
             else if now - rr_created_at r \<ge> 60 * reminder_minutes env \<and> rr_reminder_sent_at r = None then
               (let r' = r\<lparr>rr_reminder_sent_at := Some now\<rparr>
                in (r', notify_request (request_supervisors dir db r') RequestReminder r' None, SweptReminded))
             else (r, [], SweptNothing))"

record sweep_result =
  sw_reminded :: nat
  sw_escalated :: nat
  sw_expired :: nat

definition count_outcome :: "sweep_outcome \<Rightarrow> sweep_result \<Rightarrow> sweep_result" where
  "count_outcome oc c =
     (case oc of
        SweptExpired \<Rightarrow> c\<lparr>sw_expired := sw_expired c + 1\<rparr>
      | SweptEscalated \<Rightarrow> c\<lparr>sw_escalated := sw_escalated c + 1\<rparr>
      | SweptReminded \<Rightarrow> c\<lparr>sw_reminded := sw_reminded c + 1\<rparr>
      | SweptNothing \<Rightarrow> c)"

definition sweepable :: "retrip \<Rightarrow> bool" where
  "sweepable r \<longleftrightarrow> rr_status r = RetripPending \<and> \<not> rr_is_deleted r"

text \<open>The loop body: the row is read again under its lock.\<close>

definition sweep_step ::
  "environment \<Rightarrow> directory \<Rightarrow> int \<Rightarrow> ident \<Rightarrow> retrip_state \<times> sweep_result \<Rightarrow> retrip_state \<times> sweep_result" where
  "sweep_step env dir now uid acc =
     (let st = fst acc
      in case find (\<lambda>r. rr_unique_id r = uid \<and> sweepable r) (rs_requests st) of
           None \<Rightarrow> acc
         | Some r \<Rightarrow>
             (let s = sweep_row env dir (rs_db st) now r
              in (send_alerts (fst (snd s)) (update_request (fst s) st), count_outcome (snd (snd s)) (snd acc))))"

definition process_retrip_timeouts ::
  "environment \<Rightarrow> directory \<Rightarrow> int \<Rightarrow> retrip_state \<Rightarrow> retrip_state \<times> sweep_result" where
  "process_retrip_timeouts env dir now st =
     fold (sweep_step env dir now) (map rr_unique_id (filter sweepable (rs_requests st)))
       (st, \<lparr>sw_reminded = 0, sw_escalated = 0, sw_expired = 0\<rparr>)"

section \<open>Raising a request\<close>

definition build_pending_snapshot :: "trip_db \<Rightarrow> ident \<Rightarrow> bin_snapshot list \<times> household_snapshot list" where
  "build_pending_snapshot db trip_id =
     (map (\<lambda>s. \<lparr>bn_unique_id = bs_unique_id s, bn_sequence = bs_sequence s, bn_status = bs_status s,
             bn_collection_point_id = bs_collection_point_id s, bn_bin_id = bs_bin_id s\<rparr>)
        (pending_bin_stops db trip_id),
      map (\<lambda>s. \<lparr>hn_unique_id = hs_unique_id s, hn_sequence = hs_sequence s, hn_status = hs_status s,
             hn_customer_id = hs_customer_id s\<rparr>)
        (pending_household_stops db trip_id))"

definition request_retrip ::
  "environment \<Rightarrow> directory \<Rightarrow> int \<Rightarrow> ident \<Rightarrow> ident option \<Rightarrow> string \<Rightarrow> trip \<Rightarrow> retrip_state
     \<Rightarrow> retrip \<times> retrip_state" where
  "request_retrip env dir now uid requested_by reason t st =
     (let snapshot = build_pending_snapshot (rs_db st) (tr_unique_id t);
          r = \<lparr>rr_unique_id = uid, rr_assignment_id = tr_unique_id t, rr_requested_by_id = requested_by,
               rr_reason = reason, rr_status = RetripPending,
               rr_pending_bin_count = length (fst snapshot),
               rr_pending_household_count = length (snd snapshot),
               rr_pending_bins = fst snapshot, rr_pending_households = snd snapshot,
               rr_reviewed_by_id = None, rr_reviewed_at = None, rr_review_remarks = None,
               rr_new_assignment_id = None, rr_expires_at = Some (now + 60 * timeout_minutes env),
               rr_reminder_sent_at = None, rr_escalated_at = None, rr_created_at = now,
               rr_is_deleted = False\<rparr>
      in (r, send_alerts (notify_request (supervisors_for dir (rs_db st) t) RequestRaised r None)
               (st\<lparr>rs_requests := rs_requests st @ [r]\<rparr>)))"

section \<open>The continuation\<close>

text \<open>\<open>_create_continuation_assignment\<close> before its save; the id comes from the generator.\<close>

definition continuation_of ::
  "ident \<Rightarrow> int \<Rightarrow> ident option \<Rightarrow> ident option \<Rightarrow> string option \<Rightarrow> trip \<Rightarrow> trip" where
  "continuation_of new_id now vehicle_id alt_staff_template_id remarks source =
     \<lparr>tr_unique_id = new_id, tr_trip_plan_id = tr_trip_plan_id source,
      tr_staff_template_id = tr_staff_template_id source,
      tr_alt_staff_template_id = py_or alt_staff_template_id (tr_alt_staff_template_id source),
      tr_vehicle_id = py_or vehicle_id (tr_vehicle_id source), tr_trip_date = tr_trip_date source,
      tr_scheduled_time = Some (local_time now), tr_status = TripScheduled,
      tr_approval_status = ApprovalApproved,
      tr_remarks = py_or remarks (Some (''Re-Trip continuation of '' @ tr_unique_id source)),
      tr_waste_type_ids = tr_waste_type_ids source, tr_ward_ids = tr_ward_ids source,
      tr_actual_start_at = None, tr_actual_start_time = None, tr_actual_end_at = None,
      tr_actual_end_time = None, tr_is_active = True, tr_is_deleted = False\<rparr>"

definition ensure_live_continuation_stops ::
  "stop_ids \<Rightarrow> ident \<Rightarrow> bin_stop list \<Rightarrow> household_stop list \<Rightarrow> trip_db \<Rightarrow> trip_db" where
  "ensure_live_continuation_stops ids cid bins households db =
     fst (fold (\<lambda>s. ensure_household_stop ids cid (hs_customer_id s) (hs_collection_type s) (hs_sequence s))
            households
       (fold (\<lambda>s. ensure_bin_stop ids cid (bs_collection_point_id s) (bs_bin_id s) (bs_sequence s))
            bins (db, 0)))"

definition prune_continuation :: "ident \<Rightarrow> bin_stop list \<Rightarrow> household_stop list \<Rightarrow> trip_db \<Rightarrow> trip_db" where
  "prune_continuation cid bins households db =
     (let carry_bin_keys = map (\<lambda>s. (bs_collection_point_id s, bs_bin_id s)) bins;
          carry_customer_ids = map hs_customer_id households
      in db\<lparr>td_bins := filter (\<lambda>s. bs_trip_assignment_id s = cid \<longrightarrow>
               (bs_collection_point_id s, bs_bin_id s) \<in> set carry_bin_keys) (td_bins db),
            td_households := filter (\<lambda>s. hs_trip_assignment_id s = cid \<longrightarrow>
               hs_customer_id s \<in> set carry_customer_ids) (td_households db)\<rparr>)"

text \<open>The customers who announced themselves are still waiting.\<close>

definition carry_announcement :: "ident \<Rightarrow> household_stop \<Rightarrow> household_stop \<Rightarrow> household_stop" where
  "carry_announcement cid stop x =
     (if hs_customer_available_at stop \<noteq> None \<and> hs_trip_assignment_id x = cid
         \<and> hs_customer_id x = hs_customer_id stop
      then x\<lparr>hs_customer_available_at := hs_customer_available_at stop,
             hs_customer_available_note := hs_customer_available_note stop\<rparr>
      else x)"

definition carry_announcements :: "ident \<Rightarrow> household_stop list \<Rightarrow> trip_db \<Rightarrow> trip_db" where
  "carry_announcements cid households db =
     db\<lparr>td_households := fold (\<lambda>stop. map (carry_announcement cid stop)) households (td_households db)\<rparr>"

definition point_source_stops :: "ident \<Rightarrow> bin_stop list \<Rightarrow> household_stop list \<Rightarrow> trip_db \<Rightarrow> trip_db" where
  "point_source_stops cid bins households db =
     db\<lparr>td_bins := map (\<lambda>s. if bs_unique_id s \<in> set (map bs_unique_id bins)
               then s\<lparr>bs_carried_to_assignment_id := Some cid\<rparr> else s) (td_bins db),
        td_households := map (\<lambda>s. if hs_unique_id s \<in> set (map hs_unique_id households)
               then s\<lparr>hs_carried_to_assignment_id := Some cid\<rparr> else s) (td_households db)\<rparr>"

text \<open>Which pending stops are carried: all, or the selected ones, each of which must be pending.\<close>

definition select_stops ::
  "ident list option \<Rightarrow> bin_stop list \<Rightarrow> household_stop list
     \<Rightarrow> retrip_error + bin_stop list \<times> household_stop list" where
  "select_stops selection bins households =
     (case selection of
        None \<Rightarrow> Inr (bins, households)
      | Some selected \<Rightarrow>
          if list_ex (\<lambda>uid. uid \<notin> set (map bs_unique_id bins @ map hs_unique_id households)) selected
          then Inl StopNotPending
          else Inr (filter (\<lambda>s. bs_unique_id s \<in> set selected) bins,
                    filter (\<lambda>s. hs_unique_id s \<in> set selected) households))"

definition carry_over ::
  "stop_ids \<Rightarrow> ident \<Rightarrow> bin_stop list \<Rightarrow> household_stop list \<Rightarrow> trip_db \<Rightarrow> trip_db" where
  "carry_over ids cid bins households db =
     point_source_stops cid bins households
       (carry_announcements cid households
         (prune_continuation cid bins households
           (ensure_live_continuation_stops ids cid bins households db)))"

section \<open>The decision\<close>

text \<open>How both decisions begin: the request is expired when it is due (\<open>None\<close>), refused when it is
  decided, else locked. \<open>now\<close> is the clock of the first expiry check, \<open>later\<close> of what follows.\<close>

definition lock_for_decision ::
  "environment \<Rightarrow> directory \<Rightarrow> int \<Rightarrow> int \<Rightarrow> ident \<Rightarrow> retrip_state
     \<Rightarrow> retrip_error + retrip option \<times> retrip_state" where
  "lock_for_decision env dir now later uid st =
     (case expire_retrip_if_due env dir now uid st of
        Inl e \<Rightarrow> Inl e
      | Inr (True, st') \<Rightarrow> Inr (None, st')
      | Inr (False, _) \<Rightarrow>
     (case find_request st uid of
        None \<Rightarrow> Inl RequestMissing
      | Some r \<Rightarrow>
          if \<not> is_pending r then Inl (AlreadyDecided (rr_status r))
          else if later \<ge> deadline_for env r then
            (case expire_retrip_if_due env dir later uid st of
               Inl e \<Rightarrow> Inl e | Inr (_, st') \<Rightarrow> Inr (None, st'))
          else Inr (Some r, st)))"

text \<open>The stops an approval carries, read live.\<close>

definition carried_stops ::
  "ident list option \<Rightarrow> trip_db \<Rightarrow> trip \<Rightarrow> retrip_error + bin_stop list \<times> household_stop list" where
  "carried_stops selection db source =
     (case select_stops selection (pending_bin_stops db (tr_unique_id source))
             (pending_household_stops db (tr_unique_id source)) of
        Inl e \<Rightarrow> Inl e
      | Inr ([], []) \<Rightarrow> Inl NothingToCarry
      | Inr stops \<Rightarrow> Inr stops)"

definition open_continuation ::
  "stop_ids \<Rightarrow> int \<Rightarrow> ident \<Rightarrow> ident list option \<Rightarrow> trip \<Rightarrow> trip_db \<Rightarrow> retrip_error + ident \<times> trip_db" where
  "open_continuation ids now new_id selection source db =
     (case carried_stops selection db source of
        Inl e \<Rightarrow> Inl e
      | Inr (bins, households) \<Rightarrow>
     (case insert_trip ids (continuation_of new_id now None None None source) db of
        None \<Rightarrow> Inl DatabaseError
      | Some (continuation, db') \<Rightarrow>
          let cid = tr_unique_id continuation
          in Inr (cid, update_trip (tr_unique_id source) (\<lambda>t. fst (mark_ended now t))
               (carry_over ids cid bins households db'))))"

text \<open>\<open>Inl\<close> rolls the transaction back; the answer \<open>None\<close> says that the request had expired.\<close>

definition approve_retrip ::
  "environment \<Rightarrow> directory \<Rightarrow> stop_ids \<Rightarrow> int \<Rightarrow> int \<Rightarrow> ident \<Rightarrow> ident \<Rightarrow> ident option \<Rightarrow> ident list option
     \<Rightarrow> string option \<Rightarrow> retrip_state \<Rightarrow> retrip_error + ident option \<times> retrip_state" where
  "approve_retrip env dir ids now later new_id uid reviewed_by selection remarks st =
     (case lock_for_decision env dir now later uid st of
        Inl e \<Rightarrow> Inl e
      | Inr (None, st') \<Rightarrow> Inr (None, st')
      | Inr (Some r, _) \<Rightarrow>
     (case find_trip (rs_db st) (rr_assignment_id r) of
        None \<Rightarrow> Inl TripMissing
      | Some source \<Rightarrow>
     (case open_continuation ids later new_id selection source (rs_db st) of
        Inl e \<Rightarrow> Inl e
      | Inr (cid, db) \<Rightarrow>
          let r' = mark_reviewed RetripApproved reviewed_by later remarks (Some cid) r
          in Inr (Some cid, send_alerts (notify_request (crew_of dir source) RequestApproval r' (Some cid))
                (update_request r' (st\<lparr>rs_db := db\<rparr>))))))"

definition reject_retrip ::
  "environment \<Rightarrow> directory \<Rightarrow> int \<Rightarrow> int \<Rightarrow> ident \<Rightarrow> ident option \<Rightarrow> string option \<Rightarrow> retrip_state
     \<Rightarrow> retrip_error + retrip_status \<times> retrip_state" where
  "reject_retrip env dir now later uid reviewed_by remarks st =
     (case lock_for_decision env dir now later uid st of
        Inl e \<Rightarrow> Inl e
      | Inr (None, st') \<Rightarrow> Inr (RetripExpired, st')
      | Inr (Some r, _) \<Rightarrow>
     (case find_trip (rs_db st) (rr_assignment_id r) of
        None \<Rightarrow> Inl TripMissing
      | Some source \<Rightarrow>
          let r' = mark_reviewed RetripRejected reviewed_by later remarks None r
          in Inr (RetripRejected, send_alerts (notify_request (crew_of dir source) RequestRejection r' None)
               (update_request r' st))))"

text \<open>The one-step version of the web screen: the request and its approval.\<close>

definition proceed_to_next_trip ::
  "environment \<Rightarrow> directory \<Rightarrow> stop_ids \<Rightarrow> int \<Rightarrow> int \<Rightarrow> int \<Rightarrow> ident \<Rightarrow> ident \<Rightarrow> trip \<Rightarrow> ident option
     \<Rightarrow> ident list option \<Rightarrow> string \<Rightarrow> retrip_state \<Rightarrow> retrip_error + (ident \<times> ident option) \<times> retrip_state" where
  "proceed_to_next_trip env dir ids now now' later uid new_id t actor selection remarks st =
     (if tr_status t \<in> {TripCompleted, TripCancelled} then Inl TripClosed
      else
        let (r, st') = request_retrip env dir now uid actor remarks t st
        in case approve_retrip env dir ids now' later new_id (rr_unique_id r) actor selection (Some remarks) st' of
             Inl e \<Rightarrow> Inl e
           | Inr (continuation, st'') \<Rightarrow> Inr ((rr_unique_id r, continuation), st''))"

text \<open>The continuation after a vehicle breakdown: no request, other vehicle and crew, and the
  source trip stays open.\<close>

definition create_breakdown_continuation ::
  "directory \<Rightarrow> stop_ids \<Rightarrow> int \<Rightarrow> ident \<Rightarrow> trip \<Rightarrow> ident option \<Rightarrow> ident option \<Rightarrow> ident list option
     \<Rightarrow> retrip_state \<Rightarrow> retrip_error + ident \<times> retrip_state" where
  "create_breakdown_continuation dir ids now new_id source vehicle_id alt_staff_template_id selection st =
     (let bins = pending_bin_stops (rs_db st) (tr_unique_id source);
          households = pending_household_stops (rs_db st) (tr_unique_id source);
          unknown = (case selection of None \<Rightarrow> False
            | Some selected \<Rightarrow> list_ex (\<lambda>uid. uid \<notin> set (map bs_unique_id bins)) selected);
          carried = (case selection of None \<Rightarrow> bins
            | Some selected \<Rightarrow> filter (\<lambda>s. bs_unique_id s \<in> set selected) bins)
      in if unknown then Inl StopNotPending
         else if carried = [] \<and> households = [] then Inl NothingToCarry
         else case insert_trip ids (continuation_of new_id now vehicle_id alt_staff_template_id
               (Some (''Vehicle Breakdown continuation of '' @ tr_unique_id source)) source) (rs_db st) of
           None \<Rightarrow> Inl DatabaseError
         | Some (continuation, db) \<Rightarrow>
             let cid = tr_unique_id continuation;
                 db' = point_source_stops cid carried households (prune_continuation cid carried households db)
             in Inr (cid, send_alerts
                  (map (\<lambda>staff. \<lparr>al_recipient = staff, al_event = BreakdownContinuation, al_request = None,
                     al_assignment = tr_unique_id source, al_new_assignment = Some cid\<rparr>) (crew_of dir source))
                  (st\<lparr>rs_db := db'\<rparr>)))"

section \<open>Handlers\<close>

text \<open>The driver ends a trip.\<close>

datatype end_answer =
    AlreadyEnded | TripIsCancelled | AwaitingApproval ident | ReasonRequired nat nat | Ended
  | RetripRequested ident

definition open_request :: "retrip_state \<Rightarrow> ident \<Rightarrow> retrip option" where
  "open_request st trip_id =
     (let rs = filter (\<lambda>r. rr_assignment_id r = trip_id \<and> is_pending r) (rs_requests st)
      in if rs = [] then None else Some (hd (sort_desc rr_created_at rs)))"

definition end_trip ::
  "environment \<Rightarrow> directory \<Rightarrow> int \<Rightarrow> ident \<Rightarrow> ident option \<Rightarrow> string \<Rightarrow> trip \<Rightarrow> retrip_state
     \<Rightarrow> end_answer \<times> retrip_state" where
  "end_trip env dir now uid operator reason_data t st =
     (if tr_status t = TripCompleted then (AlreadyEnded, st)
      else if tr_status t = TripCancelled then (TripIsCancelled, st)
      else
        let st' = (case open_request st (tr_unique_id t) of
                     None \<Rightarrow> st
                   | Some r \<Rightarrow> (case expire_retrip_if_due env dir now (rr_unique_id r) st of
                        Inl e \<Rightarrow> st | Inr (_, st1) \<Rightarrow> st1));
            existing = (case open_request st (tr_unique_id t) of
                     None \<Rightarrow> None | Some r \<Rightarrow> find_request st' (rr_unique_id r));
            pending_bins = length (pending_bin_stops (rs_db st') (tr_unique_id t));
            pending_households = length (pending_household_stops (rs_db st') (tr_unique_id t));
            reason = py_strip reason_data
        in case filter is_pending (case existing of None \<Rightarrow> [] | Some r \<Rightarrow> [r]) of
             r # _ \<Rightarrow> (AwaitingApproval (rr_unique_id r), st')
           | [] \<Rightarrow>
               if pending_bins = 0 \<and> pending_households = 0 then
                 (Ended, st'\<lparr>rs_db := update_trip (tr_unique_id t) (\<lambda>t. fst (mark_ended now t)) (rs_db st')\<rparr>)
               else if reason = [] then (ReasonRequired pending_bins pending_households, st')
               else (let (r, st'') = request_retrip env dir now uid operator reason t st'
                     in (RetripRequested (rr_unique_id r), st'')))"

text \<open>The status codes of the review endpoints, once the body's list of stops is read. The view reads the request itself before it calls
  the service; \<open>seen\<close> is what it read. \<open>AlreadyDecided\<close> is a \<open>ValueError\<close> too, and that clause
  comes first.\<close>

definition approve_view ::
  "bool \<Rightarrow> retrip option \<Rightarrow> (retrip_error + ident option \<times> retrip_state) \<Rightarrow> nat" where
  "approve_view can_manage seen outcome =
     (if \<not> can_manage then 403
      else case seen of
        None \<Rightarrow> 404
      | Some r \<Rightarrow>
          if \<not> is_pending r then 409
          else case outcome of
            Inl (AlreadyDecided s) \<Rightarrow> 400
          | Inl StopNotPending \<Rightarrow> 400
          | Inl NothingToCarry \<Rightarrow> 400
          | Inl e \<Rightarrow> 500
          | Inr (None, _) \<Rightarrow> 409
          | Inr (Some c, _) \<Rightarrow> 200)"

definition reject_view ::
  "bool \<Rightarrow> retrip option \<Rightarrow> (retrip_error + retrip_status \<times> retrip_state) \<Rightarrow> nat" where
  "reject_view can_manage seen outcome =
     (if \<not> can_manage then 403
      else case seen of
        None \<Rightarrow> 404
      | Some r \<Rightarrow>
          if \<not> is_pending r then 409
          else case outcome of
            Inl (AlreadyDecided s) \<Rightarrow> 409
          | Inl e \<Rightarrow> 500
          | Inr (s, _) \<Rightarrow> if s = RetripExpired then 409 else 200)"

abbreviation stop_pair :: "bin_stop \<Rightarrow> ident \<times> ident" where
  "stop_pair s \<equiv> (bs_collection_point_id s, bs_bin_id s)"

section \<open>A sample request\<close>

definition no_env :: environment where "no_env = (\<lambda>_. None)"
definition sample_directory :: directory where
  "sample_directory = \<lparr>di_templates = [], di_alt_templates = [], di_staff = [''SUP'']\<rparr>"

definition waiting_bin :: bin_stop where
  "waiting_bin = blank_bin_stop sample_ids ''T1'' ''CP'' ''BIN'' 1"

definition sample_request :: retrip where
  "sample_request = \<lparr>rr_unique_id = ''R1'', rr_assignment_id = ''T1'', rr_requested_by_id = None,
     rr_reason = ''full'', rr_status = RetripPending, rr_pending_bin_count = 1, rr_pending_household_count = 0,
     rr_pending_bins = [], rr_pending_households = [], rr_reviewed_by_id = None, rr_reviewed_at = None,
     rr_review_remarks = None, rr_new_assignment_id = None, rr_expires_at = None, rr_reminder_sent_at = None,
     rr_escalated_at = None, rr_created_at = 0, rr_is_deleted = False\<rparr>"

definition sample_state :: retrip_state where
  "sample_state = \<lparr>rs_db = bin_db\<lparr>td_bins := [waiting_bin]\<rparr>, rs_requests = [sample_request], rs_alerts = []\<rparr>"

lemma sample_facts:
  "find_request sample_state ''R1'' = Some sample_request" "is_pending sample_request"
  "deadline_for no_env sample_request = 1800" "rr_assignment_id sample_request = ''T1''"
  "distinct (map rr_unique_id (rs_requests sample_state))" "rr_unique_id ` set (rs_requests sample_state) = {''R1''}"
  by (simp_all add: find_request_def sample_state_def sample_request_def is_pending_def deadline_for_def
      timeout_minutes_def minutes_of_def no_env_def)

lemma sample_trip_id [simp]: "tr_unique_id (sample_trip []) = ''T1''" "tr_status (sample_trip []) = TripScheduled"
  by (simp_all add: sample_trip_def)

lemma sample_db_facts:
  "find_trip (rs_db sample_state) ''T1'' = Some (sample_trip [])"
  "pending_bin_stops (rs_db sample_state) ''T1'' = [waiting_bin]"
  "pending_household_stops (rs_db sample_state) ''T1'' = []"
  "bs_unique_id waiting_bin = ''B-T1CPBIN''" "stop_pair waiting_bin = (''CP'', ''BIN'')"
  "plan_stops_of (rs_db sample_state) (sample_trip []) = [sample_plan_stop BinCollection (Some ''CP'') (Some ''BIN'') None]"
  by (simp_all add: find_trip_def pending_bin_stops_def pending_household_stops_def sample_state_def bin_db_def
      waiting_bin_def blank_bin_stop_def sample_ids_def plan_stops_of_def trip_plan_of_def sample_plan_def
      sample_plan_stop_def sample_trip_def)

end
