(* ===== verification/Retrip_Life.thy ===== *)
theory Retrip_Life
  imports Retrip
begin

text \<open>
  What happens to a re-trip request over time: every call moves it along its life (\<open>retrip_step\<close>),
  a decision is final, and the sweep of the timeouts settles each request once.
\<close>

section \<open>The life of a request\<close>

text \<open>What may happen to a request at an instant: nothing; its expiry, not before its deadline; a
  review, before its deadline; the stamps of a reminder. Everything but the first needs a
  pending request.\<close>

inductive retrip_step :: "environment \<Rightarrow> int \<Rightarrow> retrip \<Rightarrow> retrip \<Rightarrow> bool" for env now where
  stay: "retrip_step env now r r"
| expiry: "is_pending r \<Longrightarrow> deadline_for env r \<le> now \<Longrightarrow>
     retrip_step env now r (r\<lparr>rr_status := RetripExpired, rr_expires_at := Some (deadline_for env r),
       rr_reviewed_at := Some now, rr_review_remarks := Some (expired_remarks env)\<rparr>)"
| review: "is_pending r \<Longrightarrow> now < deadline_for env r \<Longrightarrow>
     s = RetripApproved \<and> a \<noteq> None \<or> s = RetripRejected \<and> a = None \<Longrightarrow>
     retrip_step env now r (mark_reviewed s by now remarks a r)"
| reminder: "is_pending r \<Longrightarrow> now < deadline_for env r \<Longrightarrow>
     retrip_step env now r (r\<lparr>rr_expires_at := Some (deadline_for env r),
       rr_reminder_sent_at := rem, rr_escalated_at := esc\<rparr>)"

inductive_cases retrip_stepE: "retrip_step env now r r'"

lemma retrip_step_decided: "retrip_step env now r r' \<Longrightarrow> \<not> is_pending r \<Longrightarrow> r' = r"
  by (erule retrip_stepE) auto

lemma mark_reviewed_keeps [simp]:
  "rr_unique_id (mark_reviewed s by now remarks a r) = rr_unique_id r"
  "rr_assignment_id (mark_reviewed s by now remarks a r) = rr_assignment_id r"
  "rr_status (mark_reviewed s by now remarks a r) = s"
  "rr_reminder_sent_at (mark_reviewed s by now remarks a r) = rr_reminder_sent_at r"
  "rr_escalated_at (mark_reviewed s by now remarks a r) = rr_escalated_at r"
  "rr_created_at (mark_reviewed s by now remarks a r) = rr_created_at r"
  "rr_is_deleted (mark_reviewed s by now remarks a r) = rr_is_deleted r"
  by (simp_all add: mark_reviewed_def Let_def split: option.splits)

lemma retrip_step_keeps:
  assumes "retrip_step env now r r'"
  shows "rr_unique_id r' = rr_unique_id r \<and> rr_assignment_id r' = rr_assignment_id r"
  using assms by cases simp_all

section \<open>Reading the request table\<close>

lemma find_request_id: "find_request st uid = Some r \<Longrightarrow> rr_unique_id r = uid"
  by (auto simp: find_request_def find_Some_iff)

lemma find_replace:
  "find (\<lambda>x. g x = u) (map (\<lambda>x. if g x = g r then r else x) xs)
     = (if u = g r then map_option (\<lambda>_. r) (find (\<lambda>x. g x = u) xs) else find (\<lambda>x. g x = u) xs)"
  by (induction xs) auto

lemma find_update_request:
  "find_request (update_request r st) uid
     = (if uid = rr_unique_id r then map_option (\<lambda>_. r) (find_request st uid) else find_request st uid)"
  by (simp add: find_request_def update_request_def find_replace)

lemma request_frame [simp]:
  "find_request (send_alerts as st) uid = find_request st uid"
  "find_request (st\<lparr>rs_db := db\<rparr>) uid = find_request st uid"
  "rs_db (send_alerts as st) = rs_db st" "rs_db (update_request r st) = rs_db st"
  "rs_requests (send_alerts as st) = rs_requests st"
  "rs_alerts (send_alerts as st) = rs_alerts st @ as" "rs_alerts (update_request r st) = rs_alerts st"
  by (simp_all add: find_request_def send_alerts_def update_request_def)

lemma ids_update_request [simp]:
  "map rr_unique_id (rs_requests (update_request r st)) = map rr_unique_id (rs_requests st)"
  by (auto simp: update_request_def)

section \<open>Calls\<close>

text \<open>A call changes no request but along \<open>retrip_step\<close>, and keeps the ids.\<close>

definition steps_requests :: "environment \<Rightarrow> int \<Rightarrow> retrip_state \<Rightarrow> retrip_state \<Rightarrow> bool" where
  "steps_requests env now st st' \<longleftrightarrow>
     (\<forall>uid r. find_request st uid = Some r \<longrightarrow>
        (\<exists>r'. find_request st' uid = Some r' \<and> retrip_step env now r r'))
     \<and> (distinct (map rr_unique_id (rs_requests st)) \<longrightarrow> distinct (map rr_unique_id (rs_requests st')))"

text \<open>What a call announces; and that it leaves the reminders alone.\<close>

definition announces :: "retrip_event set \<Rightarrow> retrip_state \<Rightarrow> retrip_state \<Rightarrow> bool" where
  "announces events st st' \<longleftrightarrow>
     (\<exists>as. rs_alerts st' = rs_alerts st @ as \<and> (\<forall>a\<in>set as. al_event a \<in> events))
     \<and> (\<forall>uid r. find_request st uid = Some r \<longrightarrow>
        (\<exists>r'. find_request st' uid = Some r' \<and> rr_reminder_sent_at r' = rr_reminder_sent_at r
           \<and> rr_escalated_at r' = rr_escalated_at r))"

lemma steps_refl [simp]: "steps_requests env now st st"
  by (auto simp: steps_requests_def intro: retrip_step.stay)

lemma announces_refl [simp]: "announces events st st"
  by (auto simp: announces_def)

lemma announces_trans:
  assumes "announces A a b" and "announces A b c"
  shows "announces A a c"
proof -
  obtain as bs where "rs_alerts b = rs_alerts a @ as" "\<forall>x\<in>set as. al_event x \<in> A"
    and "rs_alerts c = rs_alerts b @ bs" "\<forall>x\<in>set bs. al_event x \<in> A"
    using assms unfolding announces_def by blast
  then have "rs_alerts c = rs_alerts a @ (as @ bs) \<and> (\<forall>x\<in>set (as @ bs). al_event x \<in> A)" by auto
  moreover have "\<exists>r'. find_request c uid = Some r' \<and> rr_reminder_sent_at r' = rr_reminder_sent_at r
      \<and> rr_escalated_at r' = rr_escalated_at r" if "find_request a uid = Some r" for uid r
    using assms that unfolding announces_def by metis
  ultimately show ?thesis unfolding announces_def by blast
qed

lemma steps_decide:
  assumes "find_request st uid = Some r" and "retrip_step env now r r'"
    and "rr_reminder_sent_at r' = rr_reminder_sent_at r" and "rr_escalated_at r' = rr_escalated_at r"
    and "\<forall>a\<in>set as. al_event a \<in> events"
  shows "steps_requests env now st (send_alerts as (update_request r' (st\<lparr>rs_db := db\<rparr>)))"
    and "announces events st (send_alerts as (update_request r' (st\<lparr>rs_db := db\<rparr>)))"
proof -
  have id: "rr_unique_id r' = uid"
    using retrip_step_keeps [OF assms(2)] find_request_id [OF assms(1)] by simp
  have found: "find_request (update_request r' (st\<lparr>rs_db := db\<rparr>)) u
      = (if u = uid then Some r' else find_request st u)" for u
    using assms(1) by (simp add: find_update_request id)
  show "steps_requests env now st (send_alerts as (update_request r' (st\<lparr>rs_db := db\<rparr>)))"
    unfolding steps_requests_def using assms(1,2) by (auto simp: found intro: retrip_step.stay)
  show "announces events st (send_alerts as (update_request r' (st\<lparr>rs_db := db\<rparr>)))"
    unfolding announces_def using assms(1,3-5) by (auto simp: found)
qed

lemma same_ids:
  "map rr_unique_id (rs_requests a) = map rr_unique_id (rs_requests b) \<Longrightarrow>
     rr_unique_id ` set (rs_requests a) = rr_unique_id ` set (rs_requests b)"
  by (metis set_map)

lemma notify_event: "a \<in> set (notify_request rs e r c) \<Longrightarrow> al_event a = e"
  by (auto simp: notify_request_def)

lemma expire_effect:
  assumes "expire_retrip_if_due env dir now uid st = Inr (b, st')"
  shows "steps_requests env now st st'" and "announces {RequestExpiry} st st'"
    and "rs_db st' = rs_db st" and "b \<or> st' = st"
    and "rr_unique_id ` set (rs_requests st') = rr_unique_id ` set (rs_requests st)"
proof -
  obtain r where r: "find_request st uid = Some r"
    using assms by (auto simp: expire_retrip_if_due_def split: option.splits)
  have "steps_requests env now st st' \<and> announces {RequestExpiry} st st' \<and> rs_db st' = rs_db st
      \<and> (b \<or> st' = st) \<and> rr_unique_id ` set (rs_requests st') = rr_unique_id ` set (rs_requests st)"
  proof (cases "expire_locked env dir (rs_db st) now r")
    case None
    with assms r show ?thesis by (simp add: expire_retrip_if_due_def)
  next
    case (Some p)
    obtain r' as where p: "p = (r', as)" by fastforce
    have cond: "is_pending r" "deadline_for env r \<le> now"
      using Some by (auto simp: expire_locked_def split: if_splits)
    have r': "r' = r\<lparr>rr_status := RetripExpired, rr_expires_at := Some (deadline_for env r),
        rr_reviewed_at := Some now, rr_review_remarks := Some (expired_remarks env)\<rparr>"
      and as: "\<forall>a\<in>set as. al_event a \<in> {RequestExpiry}"
      using Some p by (auto simp: expire_locked_def Let_def notify_event split: if_splits)
    have st': "st' = send_alerts as (update_request r' (st\<lparr>rs_db := rs_db st\<rparr>))" "b"
      using assms r Some p by (auto simp: expire_retrip_if_due_def)
    have step: "retrip_step env now r r'" unfolding r' by (rule retrip_step.expiry [OF cond])
    have ids: "rr_unique_id ` set (rs_requests st') = rr_unique_id ` set (rs_requests st)"
      unfolding st' by (rule same_ids) simp
    show ?thesis
      using steps_decide [OF r step _ _ as, of "rs_db st"] ids st' unfolding r' by simp
  qed
  then show "steps_requests env now st st'" and "announces {RequestExpiry} st st'"
    and "rs_db st' = rs_db st" and "b \<or> st' = st"
    and "rr_unique_id ` set (rs_requests st') = rr_unique_id ` set (rs_requests st)" by simp_all
qed

lemma request_effect:
  assumes "request_retrip env dir now uid by reason t st = (r, st')"
    and "uid \<notin> rr_unique_id ` set (rs_requests st)"
  shows "steps_requests env now' st st'" and "announces {RequestRaised} st st'"
    and "rs_db st' = rs_db st" and "find_request st' uid = Some r" and "rr_unique_id r = uid"
    and "find_request st u = Some q \<Longrightarrow> find_request st' u = Some q"
proof -
  have st': "rs_requests st' = rs_requests st @ [r]" "rs_db st' = rs_db st" and id: "rr_unique_id r = uid"
    and al: "rs_alerts st' = rs_alerts st @ notify_request (supervisors_for dir (rs_db st) t) RequestRaised r None"
    using assms(1) by (auto simp: request_retrip_def Let_def send_alerts_def)
  have keep: "find_request st u = Some q \<Longrightarrow> find_request st' u = Some q" for u q
    unfolding find_request_def st' by (simp add: find_append)
  then show "find_request st u = Some q \<Longrightarrow> find_request st' u = Some q" .
  show "rs_db st' = rs_db st" "rr_unique_id r = uid" using st' id by simp_all
  have "find (\<lambda>x. rr_unique_id x = uid) (rs_requests st) = None"
    using assms(2) by (auto simp: find_None_iff)
  then show "find_request st' uid = Some r"
    unfolding find_request_def st' using id by (simp add: find_append)
  show "steps_requests env now' st st'"
    unfolding steps_requests_def st' using keep assms(2) id by (auto intro: retrip_step.stay)
  show "announces {RequestRaised} st st'"
    unfolding announces_def al using keep by (auto simp: notify_event)
qed

section \<open>What a decision does to the requests\<close>

lemma expire_locked_None:
  "expire_locked env dir db now r = None \<longleftrightarrow> is_pending r \<longrightarrow> now < deadline_for env r"
  by (auto simp: expire_locked_def Let_def)

lemma expire_False:
  assumes "expire_retrip_if_due env dir now uid st = Inr (False, st')" and "find_request st uid = Some r"
  shows "is_pending r \<longrightarrow> now < deadline_for env r"
  using assms expire_locked_None [of env dir "rs_db st" now r]
  by (auto simp: expire_retrip_if_due_def split: option.splits)

lemma lock_Some:
  assumes "lock_for_decision env dir now later uid st = Inr (Some r, st')"
  shows "find_request st uid = Some r" and "is_pending r" and "now < deadline_for env r"
    and "later < deadline_for env r" and "st' = st"
proof -
  obtain st1 where e: "expire_retrip_if_due env dir now uid st = Inr (False, st1)"
    using assms by (auto simp: lock_for_decision_def split: sum.splits bool.splits)
  then show r: "find_request st uid = Some r" and p: "is_pending r"
    and "later < deadline_for env r" and "st' = st"
    using assms by (auto simp: lock_for_decision_def split: option.splits if_splits sum.splits)
  show "now < deadline_for env r" using expire_False [OF e r] p by simp
qed

lemma lock_None:
  assumes "lock_for_decision env dir now later uid st = Inr (None, st')"
  obtains t b where "t = now \<or> t = later" and "expire_retrip_if_due env dir t uid st = Inr (b, st')"
  using assms
  by (force simp: lock_for_decision_def split: sum.splits bool.splits option.splits if_splits)

lemma steps_review:
  assumes "find_request st uid = Some r" and "is_pending r" and "later < deadline_for env r"
    and "s = RetripApproved \<and> a \<noteq> None \<or> s = RetripRejected \<and> a = None"
    and "e \<notin> {RequestReminder, RequestEscalated}"
  shows "steps_requests env later st (send_alerts (notify_request staff e q c)
      (update_request (mark_reviewed s by later remarks a r) (st\<lparr>rs_db := db\<rparr>)))"
    and "announces (- {RequestReminder, RequestEscalated}) st (send_alerts (notify_request staff e q c)
      (update_request (mark_reviewed s by later remarks a r) (st\<lparr>rs_db := db\<rparr>)))"
proof -
  have step: "retrip_step env later r (mark_reviewed s by later remarks a r)"
    using assms(2-4) by (rule retrip_step.review)
  have alerts: "\<forall>x\<in>set (notify_request staff e q c). al_event x \<in> - {RequestReminder, RequestEscalated}"
    using assms(5) by (auto dest: notify_event)
  show "steps_requests env later st (send_alerts (notify_request staff e q c)
      (update_request (mark_reviewed s by later remarks a r) (st\<lparr>rs_db := db\<rparr>)))"
    by (rule steps_decide(1) [OF assms(1) step _ _ alerts]) simp_all
  show "announces (- {RequestReminder, RequestEscalated}) st (send_alerts (notify_request staff e q c)
      (update_request (mark_reviewed s by later remarks a r) (st\<lparr>rs_db := db\<rparr>)))"
    by (rule steps_decide(2) [OF assms(1) step _ _ alerts]) simp_all
qed

lemma announces_mono: "announces A st st' \<Longrightarrow> A \<subseteq> B \<Longrightarrow> announces B st st'"
  unfolding announces_def by blast

lemma approve_cases:
  assumes "approve_retrip env dir ids now later new_id uid by selection remarks st = Inr (c, st')"
  obtains
    (expired) t b where "c = None" "t = now \<or> t = later" "expire_retrip_if_due env dir t uid st = Inr (b, st')"
  | (approved) r source cid db where "c = Some cid" "find_request st uid = Some r" "is_pending r"
      "now < deadline_for env r" "later < deadline_for env r"
      "find_trip (rs_db st) (rr_assignment_id r) = Some source"
      "open_continuation ids later new_id selection source (rs_db st) = Inr (cid, db)"
      "st' = send_alerts (notify_request (crew_of dir source) RequestApproval
           (mark_reviewed RetripApproved by later remarks (Some cid) r) (Some cid))
         (update_request (mark_reviewed RetripApproved by later remarks (Some cid) r) (st\<lparr>rs_db := db\<rparr>))"
proof (cases "lock_for_decision env dir now later uid st")
  case (Inr p)
  show thesis
  proof (cases "fst p")
    case None
    with Inr have l: "lock_for_decision env dir now later uid st = Inr (None, snd p)" by (cases p) simp
    with assms have "c = None" "st' = snd p" by (auto simp: approve_retrip_def)
    with lock_None [OF l] expired show thesis by metis
  next
    case (Some r)
    with Inr have l: "lock_for_decision env dir now later uid st = Inr (Some r, snd p)" by (cases p) simp
    note lk = lock_Some [OF l]
    from assms l show thesis
      by (auto simp: approve_retrip_def Let_def split: option.splits sum.splits
          intro!: approved [OF _ lk(1-4)])
  qed
qed (use assms in \<open>simp add: approve_retrip_def\<close>)

lemma reject_cases:
  assumes "reject_retrip env dir now later uid by remarks st = Inr (s, st')"
  obtains
    (expired) t b where "s = RetripExpired" "t = now \<or> t = later" "expire_retrip_if_due env dir t uid st = Inr (b, st')"
  | (rejected) r source where "s = RetripRejected" "find_request st uid = Some r" "is_pending r"
      "now < deadline_for env r" "later < deadline_for env r"
      "find_trip (rs_db st) (rr_assignment_id r) = Some source"
      "st' = send_alerts (notify_request (crew_of dir source) RequestRejection
           (mark_reviewed RetripRejected by later remarks None r) None)
         (update_request (mark_reviewed RetripRejected by later remarks None r) (st\<lparr>rs_db := rs_db st\<rparr>))"
proof (cases "lock_for_decision env dir now later uid st")
  case (Inr p)
  show thesis
  proof (cases "fst p")
    case None
    with Inr have l: "lock_for_decision env dir now later uid st = Inr (None, snd p)" by (cases p) simp
    with assms have "s = RetripExpired" "st' = snd p" by (auto simp: reject_retrip_def)
    with lock_None [OF l] expired show thesis by metis
  next
    case (Some r)
    with Inr have l: "lock_for_decision env dir now later uid st = Inr (Some r, snd p)" by (cases p) simp
    note lk = lock_Some [OF l]
    from assms l show thesis
      by (auto simp: reject_retrip_def Let_def split: option.splits intro!: rejected [OF _ lk(1-4)])
  qed
qed (use assms in \<open>simp add: reject_retrip_def\<close>)

text \<open>What every decision may do.\<close>

definition regular :: "environment \<Rightarrow> int set \<Rightarrow> retrip_state \<Rightarrow> retrip_state \<Rightarrow> bool" where
  "regular env instants st st' \<longleftrightarrow>
     (\<exists>t\<in>instants. steps_requests env t st st')
     \<and> announces (- {RequestReminder, RequestEscalated}) st st'"

lemma regularI:
  "steps_requests env t st st' \<Longrightarrow> announces A st st' \<Longrightarrow> t \<in> T \<Longrightarrow>
     A \<inter> {RequestReminder, RequestEscalated} = {} \<Longrightarrow> regular env T st st'"
  unfolding regular_def using announces_mono [of A] by blast

lemma regular_expire:
  assumes "expire_retrip_if_due env dir t uid st = Inr (b, st')" and "t \<in> T"
  shows "regular env T st st'"
  by (rule regularI [OF expire_effect(1) [OF assms(1)] expire_effect(2) [OF assms(1)] assms(2)]) simp

lemma regular_review:
  assumes "find_request st uid = Some r" and "is_pending r" and "later < deadline_for env r"
    and "s = RetripApproved \<and> a \<noteq> None \<or> s = RetripRejected \<and> a = None"
    and "e \<notin> {RequestReminder, RequestEscalated}" and "later \<in> T"
  shows "regular env T st (send_alerts (notify_request staff e q c)
      (update_request (mark_reviewed s by later remarks a r) (st\<lparr>rs_db := db\<rparr>)))"
  by (rule regularI [OF steps_review(1) steps_review(2)]) (use assms in simp_all)

lemma approve_regular:
  assumes "approve_retrip env dir ids now later new_id uid by selection remarks st = Inr (c, st')"
  shows "regular env {now, later} st st'"
  using assms
proof (cases rule: approve_cases)
  case (approved r source cid db)
  then show ?thesis using regular_review [OF approved(2,3,5)] by simp
qed (auto intro: regular_expire)

lemma reject_regular:
  assumes "reject_retrip env dir now later uid by remarks st = Inr (s, st')"
  shows "regular env {now, later} st st'"
  using assms
proof (cases rule: reject_cases)
  case (rejected r source)
  show ?thesis unfolding rejected(7) by (rule regular_review [OF rejected(2,3,5)]) simp_all
qed (auto intro: regular_expire)

lemma regular_after_request:
  assumes "request_retrip env dir now uid by reason t st = (r, st1)"
    and "uid \<notin> rr_unique_id ` set (rs_requests st)" and "regular env A st1 st'"
  shows "regular env A st st'"
proof -
  note q = request_effect [OF assms(1,2)]
  from assms(3) obtain u where u: "u \<in> A" "steps_requests env u st1 st'"
    and a: "announces (- {RequestReminder, RequestEscalated}) st1 st'"
    unfolding regular_def by blast
  have "steps_requests env u st st'"
    using u(2) q(1) [of u] q(6) unfolding steps_requests_def by blast
  moreover have "announces (- {RequestReminder, RequestEscalated}) st st'"
    by (rule announces_trans [OF announces_mono [OF q(2)] a]) simp
  ultimately show ?thesis using u(1) unfolding regular_def by blast
qed

lemma proceed_regular:
  assumes "proceed_to_next_trip env dir ids now now' later uid new_id t actor selection remarks st = Inr (p, st')"
    and "uid \<notin> rr_unique_id ` set (rs_requests st)"
  shows "regular env {now', later} st st'"
  using assms
  by (auto simp: proceed_to_next_trip_def split: if_splits prod.splits sum.splits
      intro: regular_after_request approve_regular)

lemma ids_expire:
  "expire_retrip_if_due env dir now uid st = Inr (b, st') \<Longrightarrow>
     rr_unique_id ` set (rs_requests st') = rr_unique_id ` set (rs_requests st)"
  by (rule expire_effect(5))

lemma end_trip_regular:
  assumes "end_trip env dir now uid operator reason t st = (a, st')"
    and "uid \<notin> rr_unique_id ` set (rs_requests st)"
  shows "regular env {now} st st'"
proof -
  define st1 where "st1 = (case open_request st (tr_unique_id t) of None \<Rightarrow> st
     | Some r \<Rightarrow> (case expire_retrip_if_due env dir now (rr_unique_id r) st of Inl e \<Rightarrow> st | Inr (_, st1) \<Rightarrow> st1))"
  have st1: "regular env {now} st st1 \<and> rr_unique_id ` set (rs_requests st1) = rr_unique_id ` set (rs_requests st)"
    unfolding st1_def
    by (auto simp: ids_expire intro: regular_expire regularI [of _ _ _ _ "{}"] split: option.splits sum.splits)
  have frame: "regular env {now} st (st1\<lparr>rs_db := db\<rparr>)" for db
    using st1 by (simp add: regular_def steps_requests_def announces_def)
  have ask: "regular env {now} st st2" if "request_retrip env dir now uid operator reason' t st1 = (r, st2)" for reason' r st2
  proof -
    have "uid \<notin> rr_unique_id ` set (rs_requests st1)" using assms(2) st1 by simp
    note q = request_effect [OF that this]
    from st1 have "steps_requests env now st st1" and a: "announces (- {RequestReminder, RequestEscalated}) st st1"
      by (auto simp: regular_def)
    then have "steps_requests env now st st2"
      using q(1) [of now] q(6) unfolding steps_requests_def by metis
    moreover have "announces (- {RequestReminder, RequestEscalated}) st st2"
      by (rule announces_trans [OF a announces_mono [OF q(2)]]) simp
    ultimately show ?thesis by (auto simp: regular_def)
  qed
  have "regular env {now} st st" by (rule regularI [of _ _ _ _ "{}"]) simp_all
  then show ?thesis
    using assms(1) st1 frame ask
    by (auto simp: end_trip_def Let_def st1_def [symmetric] split: if_splits list.splits prod.splits)
qed

section \<open>The sweep, row by row\<close>

definition swept :: "environment \<Rightarrow> directory \<Rightarrow> trip_db \<Rightarrow> int \<Rightarrow> retrip \<Rightarrow> retrip" where
  "swept env dir db now r = (if sweepable r then fst (sweep_row env dir db now r) else r)"

definition swept_alerts :: "environment \<Rightarrow> directory \<Rightarrow> trip_db \<Rightarrow> int \<Rightarrow> retrip \<Rightarrow> alert list" where
  "swept_alerts env dir db now r = (if sweepable r then fst (snd (sweep_row env dir db now r)) else [])"

definition swept_outcomes :: "environment \<Rightarrow> directory \<Rightarrow> trip_db \<Rightarrow> int \<Rightarrow> retrip list \<Rightarrow> sweep_outcome list" where
  "swept_outcomes env dir db now rs = map (\<lambda>r. snd (snd (sweep_row env dir db now r))) (filter sweepable rs)"

lemma sweep_row_id [simp]: "rr_unique_id (fst (sweep_row env dir db now r)) = rr_unique_id r"
  by (auto simp: sweep_row_def expire_locked_def Let_def split: option.splits)

lemma swept_id [simp]: "rr_unique_id (swept env dir db now r) = rr_unique_id r"
  by (simp add: swept_def)

lemma sweep_step_row:
  assumes "distinct (map rr_unique_id (pre @ r # rest))" and "sweepable r" and "rs_requests st = pre @ r # rest"
  shows "sweep_step env dir now (rr_unique_id r) (st, c)
    = (st\<lparr>rs_requests := (pre @ [swept env dir (rs_db st) now r]) @ rest,
          rs_alerts := rs_alerts st @ swept_alerts env dir (rs_db st) now r\<rparr>,
       count_outcome (snd (snd (sweep_row env dir (rs_db st) now r))) c)"
proof -
  have pre: "map (\<lambda>x. if rr_unique_id x = rr_unique_id r then y else x) pre = pre" for y
    using assms(1) by (intro map_idI) (auto simp: image_iff)
  have rest: "map (\<lambda>x. if rr_unique_id x = rr_unique_id r then y else x) rest = rest" for y
    using assms(1) by (intro map_idI) (auto simp: image_iff)
  have "find (\<lambda>x. rr_unique_id x = rr_unique_id r \<and> sweepable x) pre = None"
    using assms(1) by (auto simp: find_None_iff image_iff)
  then have "find (\<lambda>x. rr_unique_id x = rr_unique_id r \<and> sweepable x) (rs_requests st) = Some r"
    using assms(2,3) by (simp add: find_append)
  then show ?thesis
    using assms(2,3) pre rest
    by (simp add: sweep_step_def Let_def send_alerts_def update_request_def swept_def swept_alerts_def)
qed

lemma retrip_sweep_fold:
  assumes "distinct (map rr_unique_id (pre @ rs))" and "rs_requests st = pre @ rs"
  shows "fold (sweep_step env dir now) (map rr_unique_id (filter sweepable rs)) (st, c)
    = (st\<lparr>rs_requests := pre @ map (swept env dir (rs_db st) now) rs,
          rs_alerts := rs_alerts st @ concat (map (swept_alerts env dir (rs_db st) now) rs)\<rparr>,
       fold count_outcome (swept_outcomes env dir (rs_db st) now rs) c)"
  using assms
proof (induction rs arbitrary: pre st c)
  case Nil
  then show ?case by (simp add: swept_outcomes_def)
next
  case (Cons r rs)
  let ?r = "swept env dir (rs_db st) now r"
  have d: "distinct (map rr_unique_id ((pre @ [?r]) @ rs))" using Cons.prems(1) by simp
  show ?case
  proof (cases "sweepable r")
    case True
    let ?st = "st\<lparr>rs_requests := (pre @ [?r]) @ rs, rs_alerts := rs_alerts st @ swept_alerts env dir (rs_db st) now r\<rparr>"
    have "rs_requests ?st = (pre @ [?r]) @ rs" by simp
    from Cons.IH [OF d this] True show ?thesis
      by (simp add: sweep_step_row [OF Cons.prems(1) True Cons.prems(2)] swept_outcomes_def)
  next
    case False
    then have r: "?r = r" and a: "swept_alerts env dir (rs_db st) now r = []"
      by (simp_all add: swept_def swept_alerts_def)
    have "rs_requests st = (pre @ [?r]) @ rs" using Cons.prems(2) r by simp
    from Cons.IH [OF d this] False show ?thesis by (simp add: r a swept_outcomes_def)
  qed
qed

lemma sweep_eq:
  assumes "distinct (map rr_unique_id (rs_requests st))"
  shows "process_retrip_timeouts env dir now st
    = (st\<lparr>rs_requests := map (swept env dir (rs_db st) now) (rs_requests st),
          rs_alerts := rs_alerts st @ concat (map (swept_alerts env dir (rs_db st) now) (rs_requests st))\<rparr>,
       fold count_outcome (swept_outcomes env dir (rs_db st) now (rs_requests st))
         \<lparr>sw_reminded = 0, sw_escalated = 0, sw_expired = 0\<rparr>)"
  using retrip_sweep_fold [of "[]" "rs_requests st" st] assms by (simp add: process_retrip_timeouts_def)

lemma expire_locked_Some:
  assumes "is_pending r" and "deadline_for env r \<le> now"
  obtains as where "expire_locked env dir db now r = Some (r\<lparr>rr_status := RetripExpired,
      rr_expires_at := Some (deadline_for env r), rr_reviewed_at := Some now,
      rr_review_remarks := Some (expired_remarks env)\<rparr>, as)"
    and "\<forall>a\<in>set as. al_event a = RequestExpiry \<and> al_request a = Some (rr_unique_id r)"
  using assms by (simp add: expire_locked_def Let_def notify_request_def ball_Un)

lemma deadline_stamped [simp]: "deadline_for env (r\<lparr>rr_expires_at := Some d\<rparr>) = d"
  by (simp add: deadline_for_def)

text \<open>A pending row after a sweep: in time, with the reminders that are due sent.\<close>

definition settled :: "environment \<Rightarrow> int \<Rightarrow> retrip \<Rightarrow> bool" where
  "settled env now r \<longleftrightarrow>
     now < deadline_for env r
     \<and> (now - rr_created_at r \<ge> 60 * escalation_minutes env \<longrightarrow> rr_escalated_at r \<noteq> None)
     \<and> (now - rr_created_at r \<ge> 60 * reminder_minutes env \<longrightarrow> rr_reminder_sent_at r \<noteq> None)"

lemma sweep_row_expiry:
  assumes "sweepable r" and "deadline_for env r \<le> now"
  shows "retrip_step env now r (fst (sweep_row env dir db now r))"
    and "\<not> sweepable (fst (sweep_row env dir db now r))"
    and "\<forall>a\<in>set (fst (snd (sweep_row env dir db now r))). al_event a = RequestExpiry"
proof -
  let ?r = "r\<lparr>rr_expires_at := Some (deadline_for env r)\<rparr>"
  have p: "is_pending ?r" "deadline_for env ?r \<le> now"
    using assms by (simp_all add: sweepable_def is_pending_def)
  obtain as where e: "expire_locked env dir db now ?r = Some (?r\<lparr>rr_status := RetripExpired,
      rr_expires_at := Some (deadline_for env ?r), rr_reviewed_at := Some now,
      rr_review_remarks := Some (expired_remarks env)\<rparr>, as)"
    and as: "\<forall>a\<in>set as. al_event a = RequestExpiry \<and> al_request a = Some (rr_unique_id ?r)"
    by (rule expire_locked_Some [OF p])
  have row: "sweep_row env dir db now r = (r\<lparr>rr_status := RetripExpired, rr_expires_at := Some (deadline_for env r),
      rr_reviewed_at := Some now, rr_review_remarks := Some (expired_remarks env)\<rparr>, as, SweptExpired)"
    using e by (simp add: sweep_row_def)
  have "is_pending r" using assms(1) by (simp add: sweepable_def is_pending_def)
  from retrip_step.expiry [OF this assms(2)]
  show "retrip_step env now r (fst (sweep_row env dir db now r))" by (simp add: row)
  show "\<not> sweepable (fst (sweep_row env dir db now r))" by (simp add: row sweepable_def)
  show "\<forall>a\<in>set (fst (snd (sweep_row env dir db now r))). al_event a = RequestExpiry"
    using as by (simp add: row)
qed

lemma sweep_row_in_time:
  assumes "now < deadline_for env r"
  shows "sweep_row env dir db now r =
    (let esc = now - rr_created_at r \<ge> 60 * escalation_minutes env \<and> rr_escalated_at r = None;
         rem = \<not> esc \<and> now - rr_created_at r \<ge> 60 * reminder_minutes env \<and> rr_reminder_sent_at r = None;
         r' = r\<lparr>rr_expires_at := Some (deadline_for env r),
                rr_reminder_sent_at := (if (esc \<or> rem) \<and> rr_reminder_sent_at r = None then Some now
                  else rr_reminder_sent_at r),
                rr_escalated_at := (if esc then Some now else rr_escalated_at r)\<rparr>
     in (r', if esc then notify_request (request_supervisors dir db r) RequestEscalated r None
             else if rem then notify_request (request_supervisors dir db r) RequestReminder r None else [],
         if esc then SweptEscalated else if rem then SweptReminded else SweptNothing))"
proof -
  have "expire_locked env dir db now (r\<lparr>rr_expires_at := Some (deadline_for env r)\<rparr>) = None"
    using assms by (simp add: expire_locked_None)
  then show ?thesis
    by (simp add: sweep_row_def Let_def request_supervisors_def notify_request_def split: option.splits)
qed

lemma swept_step:
  "retrip_step env now r (swept env dir db now r)"
proof (cases "sweepable r")
  case True
  show ?thesis
  proof (cases "now < deadline_for env r")
    case t: True
    have "is_pending r" using True by (simp add: sweepable_def is_pending_def)
    from retrip_step.reminder [OF this t] True show ?thesis
      by (simp add: swept_def sweep_row_in_time [OF t] Let_def)
  next
    case False
    then show ?thesis using True sweep_row_expiry(1) [of r env now dir db] by (simp add: swept_def)
  qed
qed (simp add: swept_def retrip_step.stay)

lemma swept_settled: "sweepable (swept env dir db now r) \<Longrightarrow> settled env now (swept env dir db now r)
    \<and> rr_expires_at (swept env dir db now r) \<noteq> None"
proof (cases "sweepable r")
  case True
  assume s: "sweepable (swept env dir db now r)"
  show ?thesis
  proof (cases "now < deadline_for env r")
    case t: True
    show ?thesis using True t
      by (auto simp: swept_def sweep_row_in_time [OF t] Let_def settled_def deadline_for_def)
  next
    case False
    then show ?thesis using True s sweep_row_expiry(2) [of r env now dir db] by (simp add: swept_def)
  qed
qed (simp add: swept_def)

lemma sweep_row_settled:
  assumes "settled env now r" and "rr_expires_at r \<noteq> None"
  shows "sweep_row env dir db now r = (r, [], SweptNothing)"
proof -
  have t: "now < deadline_for env r" using assms(1) by (simp add: settled_def)
  have exp: "rr_expires_at r = Some (deadline_for env r)"
    using assms(2) by (auto simp: deadline_for_def)
  have "\<not> (60 * escalation_minutes env \<le> now - rr_created_at r \<and> rr_escalated_at r = None)"
    and "\<not> (60 * reminder_minutes env \<le> now - rr_created_at r \<and> rr_reminder_sent_at r = None)"
    using assms(1) by (auto simp: settled_def)
  then have "sweep_row env dir db now r = (r\<lparr>rr_expires_at := Some (deadline_for env r),
      rr_reminder_sent_at := rr_reminder_sent_at r, rr_escalated_at := rr_escalated_at r\<rparr>, [], SweptNothing)"
    by (simp add: sweep_row_in_time [OF t] Let_def) auto
  also have "r\<lparr>rr_expires_at := Some (deadline_for env r),
      rr_reminder_sent_at := rr_reminder_sent_at r, rr_escalated_at := rr_escalated_at r\<rparr> = r"
    using exp by (cases r) simp
  finally show ?thesis .
qed

lemma swept_idle:
  assumes "sweepable r \<longrightarrow> settled env now r \<and> rr_expires_at r \<noteq> None"
  shows "swept env dir db now r = r" and "swept_alerts env dir db now r = []"
  using assms sweep_row_settled [of env now r dir db] by (simp_all add: swept_def swept_alerts_def)

lemma count_nothing: "set os \<subseteq> {SweptNothing} \<Longrightarrow> fold count_outcome os c = c"
  by (induction os arbitrary: c) (auto simp: count_outcome_def)

lemma sweep_idle:
  assumes "\<forall>r\<in>set rs. sweepable r \<longrightarrow> settled env now r \<and> rr_expires_at r \<noteq> None"
  shows "map (swept env dir db now) rs = rs" and "concat (map (swept_alerts env dir db now) rs) = []"
    and "fold count_outcome (swept_outcomes env dir db now rs) c = c"
proof -
  show "map (swept env dir db now) rs = rs" using assms by (intro map_idI) (simp add: swept_idle)
  show "concat (map (swept_alerts env dir db now) rs) = []" using assms by (simp add: swept_idle)
  have "snd (snd (sweep_row env dir db now r)) = SweptNothing" if "r \<in> set rs" "sweepable r" for r
    using assms that by (simp add: sweep_row_settled)
  then show "fold count_outcome (swept_outcomes env dir db now rs) c = c"
    by (intro count_nothing) (auto simp: swept_outcomes_def)
qed

text \<open>After a sweep every request that is still pending has time left, has been escalated when its
  escalation is due and reminded of when its reminder is; a second sweep at the same instant
  changes nothing, tells nobody and counts nothing.\<close>
theorem sweep_settles_and_repeats:
  assumes "distinct (map rr_unique_id (rs_requests st))"
    and "process_retrip_timeouts env dir now st = (st', c)"
  shows "(\<forall>r. r \<in> set (rs_requests st') \<and> sweepable r \<longrightarrow> settled env now r)
    \<and> process_retrip_timeouts env dir now st' = (st', \<lparr>sw_reminded = 0, sw_escalated = 0, sw_expired = 0\<rparr>)"
proof -
  from assms(2) have st': "rs_requests st' = map (swept env dir (rs_db st) now) (rs_requests st)"
    "rs_db st' = rs_db st"
    by (auto simp: sweep_eq [OF assms(1)])
  have settled: "\<forall>r\<in>set (rs_requests st'). sweepable r \<longrightarrow> settled env now r \<and> rr_expires_at r \<noteq> None"
    unfolding st' using swept_settled by auto
  have "distinct (map rr_unique_id (rs_requests st'))"
    using assms(1) by (simp add: st' comp_def)
  from sweep_eq [OF this] settled show ?thesis
    by (simp add: sweep_idle [OF settled])
qed

section \<open>Sequences of calls\<close>

text \<open>The calls that touch a request. A request id comes from a generator of fresh ids: a raise with a
  used one does not happen. A call that raises changes nothing.\<close>

datatype retrip_call =
    Raise int ident "ident option" string ident
  | Approve int int ident ident "ident option" "ident list option" "string option"
  | Reject int int ident "ident option" "string option"
  | Proceed int int int ident ident ident "ident option" "ident list option" string
  | EndOfTrip int ident "ident option" string ident
  | Sweep int

fun retrip_run :: "environment \<Rightarrow> directory \<Rightarrow> stop_ids \<Rightarrow> retrip_call \<Rightarrow> retrip_state \<Rightarrow> retrip_state" where
  "retrip_run env dir ids (Raise now uid by reason trip_id) st =
     (case find_trip (rs_db st) trip_id of
        None \<Rightarrow> st
      | Some t \<Rightarrow> if uid \<in> rr_unique_id ` set (rs_requests st) then st
                else snd (request_retrip env dir now uid by reason t st))"
| "retrip_run env dir ids (Approve now later new_id uid by selection remarks) st =
     (case approve_retrip env dir ids now later new_id uid by selection remarks st of
        Inl e \<Rightarrow> st | Inr (_, st') \<Rightarrow> st')"
| "retrip_run env dir ids (Reject now later uid by remarks) st =
     (case reject_retrip env dir now later uid by remarks st of Inl e \<Rightarrow> st | Inr (_, st') \<Rightarrow> st')"
| "retrip_run env dir ids (Proceed now now' later uid new_id trip_id actor selection remarks) st =
     (case find_trip (rs_db st) trip_id of
        None \<Rightarrow> st
      | Some t \<Rightarrow> if uid \<in> rr_unique_id ` set (rs_requests st) then st
                else (case proceed_to_next_trip env dir ids now now' later uid new_id t actor selection remarks st of
                        Inl e \<Rightarrow> st | Inr (_, st') \<Rightarrow> st'))"
| "retrip_run env dir ids (EndOfTrip now uid operator reason trip_id) st =
     (case find_trip (rs_db st) trip_id of
        None \<Rightarrow> st
      | Some t \<Rightarrow> if uid \<in> rr_unique_id ` set (rs_requests st) then st
                else snd (end_trip env dir now uid operator reason t st))"
| "retrip_run env dir ids (Sweep now) st = fst (process_retrip_timeouts env dir now st)"

fun call_times :: "retrip_call \<Rightarrow> int set" where
  "call_times (Raise now uid by reason trip_id) = {now}"
| "call_times (Approve now later new_id uid by selection remarks) = {now, later}"
| "call_times (Reject now later uid by remarks) = {now, later}"
| "call_times (Proceed now now' later uid new_id trip_id actor selection remarks) = {now', later}"
| "call_times (EndOfTrip now uid operator reason trip_id) = {now}"
| "call_times (Sweep now) = {now}"

lemma call_times_nonempty: "\<exists>t. t \<in> call_times c"
  by (cases c) auto

lemma regular_same: "regular env (call_times c) st st"
proof -
  obtain t where "t \<in> call_times c" using call_times_nonempty by blast
  then show ?thesis by (intro regularI [of _ t _ _ "{}"]) simp_all
qed

lemma run_regular:
  assumes "\<forall>now. c \<noteq> Sweep now"
  shows "regular env (call_times c) st (retrip_run env dir ids c st)"
proof (cases c)
  case (Raise now uid who reason trip_id)
  have "regular env {now} st (snd (request_retrip env dir now uid who reason t st))"
    if "uid \<notin> rr_unique_id ` set (rs_requests st)" for t
  proof (cases "request_retrip env dir now uid who reason t st")
    case (Pair r st')
    from request_effect(1,2) [OF Pair that] show ?thesis
      unfolding Pair snd_conv by (rule regularI) simp_all
  qed
  then show ?thesis using Raise regular_same [of env c st] by (simp split: option.splits)
next
  case (Approve now later new_id uid who selection remarks)
  with regular_same [of env c st] show ?thesis
    by (auto split: sum.splits intro: approve_regular)
next
  case (Reject now later uid who remarks)
  with regular_same [of env c st] show ?thesis
    by (auto split: sum.splits intro: reject_regular)
next
  case (Proceed now now' later uid new_id trip_id actor selection remarks)
  with regular_same [of env c st] show ?thesis
    by (auto split: option.splits sum.splits intro: proceed_regular)
next
  case (EndOfTrip now uid operator reason trip_id)
  have "regular env {now} st (snd (end_trip env dir now uid operator reason t st))"
    if "uid \<notin> rr_unique_id ` set (rs_requests st)" for t
    using end_trip_regular [OF _ that] by (metis prod.collapse)
  then show ?thesis using EndOfTrip regular_same [of env c st] by (simp split: option.splits)
qed (use assms in simp)

lemma find_request_sweep:
  assumes "distinct (map rr_unique_id (rs_requests st))"
  shows "find_request (fst (process_retrip_timeouts env dir now st)) uid
    = map_option (swept env dir (rs_db st) now) (find_request st uid)"
  by (simp add: sweep_eq [OF assms] find_request_def find_map_id)

lemma run_steps:
  assumes "distinct (map rr_unique_id (rs_requests st))"
  shows "\<exists>t\<in>call_times c. steps_requests env t st (retrip_run env dir ids c st)"
proof (cases "\<exists>now. c = Sweep now")
  case True
  then obtain now where c: "c = Sweep now" by blast
  have "map rr_unique_id (rs_requests (fst (process_retrip_timeouts env dir now st)))
      = map rr_unique_id (rs_requests st)"
    by (simp add: sweep_eq [OF assms])
  then have "steps_requests env now st (fst (process_retrip_timeouts env dir now st))"
    unfolding steps_requests_def using assms swept_step
    by (simp add: find_request_sweep [OF assms])
  with c show ?thesis by simp
next
  case False
  with run_regular [of c env st dir ids] show ?thesis by (auto simp: regular_def)
qed

text \<open>C39: Whatever is called on a state with distinct request ids, a request stays in the table and
  follows its life: it is only ever expired at or after its deadline, approved or rejected before
  it, and left alone once decided.\<close>
theorem retrip_calls_follow_life:
  assumes "distinct (map rr_unique_id (rs_requests st))" and "find_request st uid = Some r"
  shows "\<exists>t r'. t \<in> call_times c \<and> find_request (retrip_run env dir ids c st) uid = Some r'
    \<and> retrip_step env t r r'"
  using run_steps [OF assms(1), of c env dir ids] assms(2) unfolding steps_requests_def by blast

definition request_decided :: "ident \<Rightarrow> retrip_state \<Rightarrow> bool" where
  "request_decided uid st \<longleftrightarrow> distinct (map rr_unique_id (rs_requests st))
     \<and> (\<exists>r. find_request st uid = Some r \<and> \<not> is_pending r)"

lemma run_keeps_decision:
  assumes "request_decided uid st"
  shows "request_decided uid (retrip_run env dir ids c st)"
    and "find_request (retrip_run env dir ids c st) uid = find_request st uid"
proof -
  obtain r where d: "distinct (map rr_unique_id (rs_requests st))"
    and r: "find_request st uid = Some r" "\<not> is_pending r"
    using assms unfolding request_decided_def by blast
  obtain t where "steps_requests env t st (retrip_run env dir ids c st)"
    using run_steps [OF d] by blast
  then have "distinct (map rr_unique_id (rs_requests (retrip_run env dir ids c st)))"
    and "find_request (retrip_run env dir ids c st) uid = Some r"
    using d r retrip_step_decided unfolding steps_requests_def by blast+
  with r show "request_decided uid (retrip_run env dir ids c st)"
    and "find_request (retrip_run env dir ids c st) uid = find_request st uid"
    by (auto simp: request_decided_def)
qed

interpretation decision: write_once "retrip_run env dir ids" "request_decided uid" "\<lambda>st. find_request st uid"
  for env dir ids uid
  by unfold_locales (auto intro: run_keeps_decision(1) simp: run_keeps_decision(2))

text \<open>A decided request never changes again: not its decision, its reviewer or remarks, its
  continuation or any other column, whatever is called afterwards.\<close>
theorem decided_once:
  assumes "distinct (map rr_unique_id (rs_requests st))"
    and "find_request st uid = Some r" and "rr_status r \<noteq> RetripPending"
  shows "find_request (fold (retrip_run env dir ids) cs st) uid = Some r"
proof -
  have "request_decided uid st" using assms by (auto simp: request_decided_def is_pending_def)
  from decision.run_stamp [OF this] assms(2) show ?thesis by simp
qed

section \<open>Reminders are sent once\<close>

definition told :: "retrip_event \<Rightarrow> ident \<Rightarrow> alert list \<Rightarrow> nat" where
  "told e uid as = length (filter (\<lambda>a. al_event a = e \<and> al_request a = Some uid) as)"

definition told_at :: "retrip_event \<Rightarrow> retrip \<Rightarrow> int option" where
  "told_at e r = (if e = RequestEscalated then rr_escalated_at r else rr_reminder_sent_at r)"

lemma told_append [simp]: "told e uid (as @ bs) = told e uid as + told e uid bs"
  by (simp add: told_def)

lemma told_none: "\<forall>a\<in>set as. al_event a = e \<longrightarrow> al_request a \<noteq> Some uid \<Longrightarrow> told e uid as = 0"
  by (auto simp: told_def filter_empty_conv)

lemma staff_of_one: "length (staff_of dir v) \<le> Suc 0"
  by (simp add: staff_of_def)

lemma request_supervisors_one: "length (request_supervisors dir db r) \<le> Suc 0"
  by (simp add: request_supervisors_def supervisors_for_def staff_of_one split: option.splits)

lemma told_notify: "told e uid (notify_request staff e' r c) \<le> (if e = e' \<and> uid = rr_unique_id r then length staff else 0)"
  by (auto simp: told_def notify_request_def filter_map comp_def filter_empty_conv)

lemma told_supervisors: "told e uid (notify_request (request_supervisors dir db r) e' r c) \<le> Suc 0"
  using told_notify [of e uid "request_supervisors dir db r" e' r c] request_supervisors_one [of dir db r]
  by (simp split: if_splits)

lemma swept_alerts_request:
  "a \<in> set (swept_alerts env dir db now r) \<Longrightarrow> al_request a = Some (rr_unique_id r)"
  by (auto simp: swept_alerts_def sweep_row_def expire_locked_def notify_request_def Let_def
      split: if_splits option.splits)

lemma told_swept:
  assumes "distinct (map rr_unique_id rs)"
  shows "told e uid (concat (map (swept_alerts env dir db now) rs))
    = (case find (\<lambda>r. rr_unique_id r = uid) rs of None \<Rightarrow> 0 | Some r \<Rightarrow> told e uid (swept_alerts env dir db now r))"
  using assms
proof (induction rs)
  case (Cons r rs)
  show ?case
  proof (cases "rr_unique_id r = uid")
    case True
    have "told e uid (concat (map (swept_alerts env dir db now) rs)) = 0"
      using Cons.prems True by (intro told_none) (auto simp: image_iff dest!: swept_alerts_request)
    with True show ?thesis by simp
  next
    case False
    then have "told e uid (swept_alerts env dir db now r) = 0"
      by (intro told_none) (auto dest: swept_alerts_request)
    with False Cons show ?thesis by simp
  qed
qed (simp add: told_def)

lemma told_row:
  assumes "e = RequestReminder \<or> e = RequestEscalated"
  shows "told e uid (swept_alerts env dir db now r)
    \<le> (if told_at e r = None \<and> told_at e (swept env dir db now r) \<noteq> None then 1 else 0)
    \<and> (told_at e r \<noteq> None \<longrightarrow> told_at e (swept env dir db now r) \<noteq> None)"
proof (cases "sweepable r")
  case True
  show ?thesis
  proof (cases "now < deadline_for env r")
    case t: True
    let ?n = "\<lambda>e. notify_request (request_supervisors dir db r) e r None"
    have other: "told RequestReminder uid (?n RequestEscalated) = 0" "told RequestEscalated uid (?n RequestReminder) = 0"
      by (auto intro!: told_none dest: notify_event)
    have one: "told e uid (?n e) \<le> Suc 0" for e by (rule told_supervisors)
    have nil: "told e uid [] = 0" for e by (simp add: told_def)
    show ?thesis using True assms
      by (auto simp: swept_def swept_alerts_def sweep_row_in_time [OF t] Let_def told_at_def other nil
          intro: one)
  next
    case False
    then have d: "deadline_for env r \<le> now" by simp
    have "told e uid (swept_alerts env dir db now r) = 0"
      using sweep_row_expiry(3) [OF True d, of dir db] assms True
      by (intro told_none) (auto simp: swept_alerts_def)
    moreover have "told_at e r \<noteq> None \<longrightarrow> told_at e (swept env dir db now r) \<noteq> None"
      using True d by (auto simp: swept_def sweep_row_def expire_locked_def Let_def told_at_def
          sweepable_def is_pending_def)
    ultimately show ?thesis by simp
  qed
qed (simp add: swept_def swept_alerts_def told_def)

definition told_right :: "retrip_event \<Rightarrow> ident \<Rightarrow> retrip_state \<Rightarrow> bool" where
  "told_right e uid st \<longleftrightarrow> distinct (map rr_unique_id (rs_requests st))
     \<and> told e uid (rs_alerts st) \<le>
        (case find_request st uid of None \<Rightarrow> 0 | Some r \<Rightarrow> if told_at e r = None then 0 else 1)"

lemma told_right_announces:
  assumes "announces (- {RequestReminder, RequestEscalated}) st st'" and "e = RequestReminder \<or> e = RequestEscalated"
    and "told_right e uid st" and "distinct (map rr_unique_id (rs_requests st'))"
  shows "told_right e uid st'"
proof -
  obtain as where "rs_alerts st' = rs_alerts st @ as" "\<forall>a\<in>set as. al_event a \<in> - {RequestReminder, RequestEscalated}"
    using assms(1) unfolding announces_def by blast
  then have same: "told e uid (rs_alerts st') = told e uid (rs_alerts st)"
    using assms(2) by (auto intro!: told_none)
  show ?thesis
  proof (cases "find_request st uid")
    case None
    then have "told e uid (rs_alerts st') = 0" using same assms(3) by (simp add: told_right_def)
    then show ?thesis using assms(4) by (simp add: told_right_def split: option.splits)
  next
    case (Some r)
    then obtain r' where "find_request st' uid = Some r'" "told_at e r' = told_at e r"
      using assms(1) unfolding announces_def told_at_def by (metis)
    then show ?thesis using assms(3,4) same Some by (simp add: told_right_def)
  qed
qed

lemma told_right_sweep:
  assumes "told_right e uid st" and "e = RequestReminder \<or> e = RequestEscalated"
  shows "told_right e uid (fst (process_retrip_timeouts env dir now st))"
proof -
  have d: "distinct (map rr_unique_id (rs_requests st))" using assms(1) by (simp add: told_right_def)
  have al: "rs_alerts (fst (process_retrip_timeouts env dir now st))
      = rs_alerts st @ concat (map (swept_alerts env dir (rs_db st) now) (rs_requests st))"
    and ids: "map rr_unique_id (rs_requests (fst (process_retrip_timeouts env dir now st)))
      = map rr_unique_id (rs_requests st)"
    by (simp_all add: sweep_eq [OF d])
  have told: "told e uid (concat (map (swept_alerts env dir (rs_db st) now) (rs_requests st)))
      = (case find_request st uid of None \<Rightarrow> 0 | Some r \<Rightarrow> told e uid (swept_alerts env dir (rs_db st) now r))"
    using told_swept [OF d] by (simp add: find_request_def)
  show ?thesis
  proof (cases "find_request st uid")
    case None
    then show ?thesis using assms(1) d ids told
      by (simp add: told_right_def al find_request_sweep [OF d])
  next
    case (Some r)
    then show ?thesis
      using assms(1) d ids told told_row [OF assms(2), of uid env dir "rs_db st" now r]
      by (auto simp: told_right_def al find_request_sweep [OF d] split: if_splits)
  qed
qed

lemma told_right_run:
  assumes "told_right e uid st" and "e = RequestReminder \<or> e = RequestEscalated"
  shows "told_right e uid (retrip_run env dir ids c st)"
proof (cases "\<exists>now. c = Sweep now")
  case True
  then show ?thesis using told_right_sweep [OF assms] by auto
next
  case False
  have d: "distinct (map rr_unique_id (rs_requests st))" using assms(1) by (simp add: told_right_def)
  have "announces (- {RequestReminder, RequestEscalated}) st (retrip_run env dir ids c st)"
    using run_regular [of c env st dir ids] False by (auto simp: regular_def)
  moreover have "distinct (map rr_unique_id (rs_requests (retrip_run env dir ids c st)))"
    using run_steps [OF d] d unfolding steps_requests_def by blast
  ultimately show ?thesis by (rule told_right_announces [OF _ assms(2,1)])
qed

lemma told_right_runs:
  "told_right e uid st \<Longrightarrow> e = RequestReminder \<or> e = RequestEscalated \<Longrightarrow>
     told_right e uid (fold (retrip_run env dir ids) cs st)"
  by (induction cs arbitrary: st) (simp_all add: told_right_run)

text \<open>However the sweeps, decisions, requests and ends of trips follow one another, a request is
  announced to its supervisor by at most one reminder and at most one escalation.\<close>
theorem reminded_once:
  assumes "distinct (map rr_unique_id (rs_requests st))"
    and "told RequestReminder uid (rs_alerts st) = 0" and "told RequestEscalated uid (rs_alerts st) = 0"
  shows "told RequestReminder uid (rs_alerts (fold (retrip_run env dir ids) cs st)) \<le> 1
    \<and> told RequestEscalated uid (rs_alerts (fold (retrip_run env dir ids) cs st)) \<le> 1"
proof -
  have "told_right e uid st \<Longrightarrow> told e uid (rs_alerts st) \<le> 1" for e st
    by (auto simp: told_right_def split: option.splits if_splits)
  moreover have "told_right RequestReminder uid st" "told_right RequestEscalated uid st"
    using assms by (simp_all add: told_right_def)
  ultimately show ?thesis using told_right_runs by blast
qed

section \<open>Applied to the sample\<close>

lemma sweep_settles_and_repeats_witness:
  "process_retrip_timeouts no_env sample_directory 700
      (fst (process_retrip_timeouts no_env sample_directory 700 sample_state))
    = (fst (process_retrip_timeouts no_env sample_directory 700 sample_state),
       \<lparr>sw_reminded = 0, sw_escalated = 0, sw_expired = 0\<rparr>)"
  using sweep_settles_and_repeats [OF sample_facts(5), of no_env sample_directory 700] by (metis prod.collapse)

lemma retrip_calls_follow_life_witness:
  "\<exists>r'. find_request (retrip_run no_env sample_directory sample_ids (Sweep 2000) sample_state) ''R1'' = Some r'
     \<and> retrip_step no_env 2000 sample_request r'"
  using retrip_calls_follow_life [OF sample_facts(5,1), of "Sweep 2000" no_env sample_directory sample_ids] by simp

definition rejected_state :: retrip_state where
  "rejected_state = sample_state\<lparr>rs_requests := [mark_reviewed RetripRejected (Some ''SUP'') 60 None None sample_request]\<rparr>"

lemma rejected_facts:
  "find_request rejected_state ''R1'' = Some (mark_reviewed RetripRejected (Some ''SUP'') 60 None None sample_request)"
  "distinct (map rr_unique_id (rs_requests rejected_state))"
  "\<not> is_pending (mark_reviewed RetripRejected (Some ''SUP'') 60 None None sample_request)"
  using sample_facts(6) by (simp_all add: rejected_state_def find_request_def is_pending_def sample_request_def)

lemma decided_once_witness:
  "find_request (fold (retrip_run no_env sample_directory sample_ids)
      [Sweep 700, Approve 800 800 ''T2'' ''R1'' None None None, Sweep 9000] rejected_state) ''R1''
    = Some (mark_reviewed RetripRejected (Some ''SUP'') 60 None None sample_request)"
  by (rule decided_once [OF rejected_facts(2,1)]) simp

lemma reminded_once_witness:
  "told RequestReminder ''R1'' (rs_alerts (fold (retrip_run no_env sample_directory sample_ids)
      [Sweep 700, Sweep 760, Sweep 1300] sample_state)) \<le> 1"
proof -
  have "told e ''R1'' (rs_alerts sample_state) = 0" for e by (simp add: sample_state_def told_def)
  then show ?thesis using reminded_once [OF sample_facts(5)] by blast
qed

end
