(* ===== verification/Retrip_Carry.thy ===== *)
theory Retrip_Carry
  imports Retrip_Life
begin

text \<open>
  What an approval does to the trips and their stops, when it succeeds, and how the handlers of the
  driver, of the web screen and of the vehicle breakdown compose with it.
\<close>

section \<open>What an approval carries\<close>

lemma continuation_id [simp]: "tr_unique_id (continuation_of new_id now v a rem source) = new_id"
  by (simp add: continuation_of_def)

lemma continuation_plan [simp]: "tr_trip_plan_id (continuation_of new_id now v a rem source) = tr_trip_plan_id source"
  by (simp add: continuation_of_def)

lemma extends_fold_bins:
  "extends ids cid (fst acc) (fst (fold (\<lambda>s. ensure_bin_stop ids cid (cp s) (b s) (n s)) xs acc))"
  by (rule extends_fold) (rule extends_ensure_bin)

lemma extends_fold_households:
  "extends ids cid (fst acc) (fst (fold (\<lambda>s. ensure_household_stop ids cid (c s) (ct s) (n s)) xs acc))"
  by (rule extends_fold) (rule extends_ensure_household)

lemma extends_live: "extends ids cid db (ensure_live_continuation_stops ids cid bins households db)"
  unfolding ensure_live_continuation_stops_def
  using extends_trans [OF extends_fold_bins [of ids cid "(db, 0)"] extends_fold_households] by simp

lemma fold_present:
  assumes step: "\<And>x acc. extends ids cid (fst acc) (fst (f x acc))"
    and here: "\<And>acc. P (fst (f x acc))"
    and kept: "\<And>a b. extends ids cid a b \<Longrightarrow> P a \<Longrightarrow> P b"
    and "x \<in> set xs"
  shows "P (fst (fold f xs acc))"
  using \<open>x \<in> set xs\<close>
proof (induction xs arbitrary: acc)
  case (Cons y ys)
  show ?case
  proof (cases "x = y")
    case True
    have "extends ids cid (fst (f y acc)) (fst (fold f ys (f y acc)))" by (rule extends_fold) (rule step)
    from kept [OF this] here [of acc] True show ?thesis by simp
  qed (use Cons in simp)
qed simp

lemma ensure_bin_present:
  "\<exists>s\<in>set (td_bins (fst (ensure_bin_stop ids cid cp bin n acc))). bin_key s = (cid, cp, bin)"
  by (auto simp: ensure_bin_stop_def blank_bin_stop_def bin_key_def list_ex_iff split: prod.splits)

lemma live_present:
  shows "x \<in> set bins \<Longrightarrow> \<exists>s\<in>set (td_bins (ensure_live_continuation_stops ids cid bins households db)).
      bin_key s = (cid, bs_collection_point_id x, bs_bin_id x)"
    and "y \<in> set households \<Longrightarrow> \<exists>s\<in>set (td_households (ensure_live_continuation_stops ids cid bins households db)).
      household_key s = (cid, hs_customer_id y, hs_collection_type y)"
proof -
  let ?f = "\<lambda>s. ensure_bin_stop ids cid (bs_collection_point_id s) (bs_bin_id s) (bs_sequence s)"
  let ?g = "\<lambda>s. ensure_household_stop ids cid (hs_customer_id s) (hs_collection_type s) (hs_sequence s)"
  show "\<exists>s\<in>set (td_bins (ensure_live_continuation_stops ids cid bins households db)).
      bin_key s = (cid, bs_collection_point_id x, bs_bin_id x)" if "x \<in> set bins"
  proof -
    have "\<exists>s\<in>set (td_bins (fst (fold ?f bins (db, 0)))). bin_key s = (cid, bs_collection_point_id x, bs_bin_id x)"
    proof (rule fold_present [where f = ?f and x = x and ids = ids and cid = cid])
      show "\<exists>s\<in>set (td_bins (fst (?f x acc))). bin_key s = (cid, bs_collection_point_id x, bs_bin_id x)" for acc
        by (rule ensure_bin_present)
    qed (use that extends_ensure_bin extends_reads(2) in blast)+
    then show ?thesis
      unfolding ensure_live_continuation_stops_def
      using extends_reads(2) [OF extends_fold_households [of ids cid "fold ?f bins (db, 0)"]] by blast
  qed
  show "\<exists>s\<in>set (td_households (ensure_live_continuation_stops ids cid bins households db)).
      household_key s = (cid, hs_customer_id y, hs_collection_type y)" if "y \<in> set households"
    unfolding ensure_live_continuation_stops_def
  proof (rule fold_present [where f = ?g and x = y and ids = ids and cid = cid])
    show "\<exists>s\<in>set (td_households (fst (?g y acc))). household_key s = (cid, hs_customer_id y, hs_collection_type y)" for acc
      by (rule ensure_household_present)
  qed (use that extends_ensure_household extends_reads(3) in blast)+
qed

text \<open>The stop tables after the whole carry-over, as one map over one filter.\<close>

definition announce :: "ident \<Rightarrow> household_stop list \<Rightarrow> household_stop \<Rightarrow> household_stop" where
  "announce cid households = fold (carry_announcement cid) households"

lemma fold_map_rows: "fold (\<lambda>x. map (f x)) xs ys = map (fold f xs) ys"
  by (induction xs arbitrary: ys) (simp_all add: comp_def)

definition point_bin :: "ident \<Rightarrow> bin_stop list \<Rightarrow> bin_stop \<Rightarrow> bin_stop" where
  "point_bin cid bins s = (if bs_unique_id s \<in> set (map bs_unique_id bins)
     then s\<lparr>bs_carried_to_assignment_id := Some cid\<rparr> else s)"

definition point_household :: "ident \<Rightarrow> household_stop list \<Rightarrow> household_stop \<Rightarrow> household_stop" where
  "point_household cid households s = (if hs_unique_id s \<in> set (map hs_unique_id households)
     then s\<lparr>hs_carried_to_assignment_id := Some cid\<rparr> else s)"

lemma carry_over_tables:
  fixes ids cid bins households db
  defines "live \<equiv> ensure_live_continuation_stops ids cid bins households db"
  shows "td_bins (carry_over ids cid bins households db)
      = map (point_bin cid bins) (filter (\<lambda>s. bs_trip_assignment_id s = cid \<longrightarrow>
          (bs_collection_point_id s, bs_bin_id s) \<in> (\<lambda>s. (bs_collection_point_id s, bs_bin_id s)) ` set bins)
          (td_bins live))"
    and "td_households (carry_over ids cid bins households db)
      = map (\<lambda>s. point_household cid households (announce cid households s))
          (filter (\<lambda>s. hs_trip_assignment_id s = cid \<longrightarrow> hs_customer_id s \<in> hs_customer_id ` set households)
            (td_households live))"
    and "td_trips (carry_over ids cid bins households db) = td_trips live"
    and "td_plans (carry_over ids cid bins households db) = td_plans live"
    and "td_plan_stops (carry_over ids cid bins households db) = td_plan_stops live"
  by (simp_all add: carry_over_def point_source_stops_def carry_announcements_def prune_continuation_def
      live_def fold_map_rows announce_def comp_def point_bin_def [abs_def] point_household_def [abs_def])

lemma point_bin_keeps [simp]:
  "bs_unique_id (point_bin cid bins s) = bs_unique_id s"
  "bs_trip_assignment_id (point_bin cid bins s) = bs_trip_assignment_id s"
  "bs_collection_point_id (point_bin cid bins s) = bs_collection_point_id s"
  "bs_bin_id (point_bin cid bins s) = bs_bin_id s" "bs_status (point_bin cid bins s) = bs_status s"
  "bs_is_collected (point_bin cid bins s) = bs_is_collected s"
  "bs_is_deleted (point_bin cid bins s) = bs_is_deleted s"
  by (simp_all add: point_bin_def)

lemma point_household_keeps [simp]:
  "hs_unique_id (point_household cid hs s) = hs_unique_id s"
  "hs_trip_assignment_id (point_household cid hs s) = hs_trip_assignment_id s"
  "hs_customer_id (point_household cid hs s) = hs_customer_id s"
  "hs_collection_type (point_household cid hs s) = hs_collection_type s"
  "hs_status (point_household cid hs s) = hs_status s"
  "hs_is_collected (point_household cid hs s) = hs_is_collected s"
  "hs_is_deleted (point_household cid hs s) = hs_is_deleted s"
  "hs_customer_available_at (point_household cid hs s) = hs_customer_available_at s"
  by (simp_all add: point_household_def)

lemma announce_keeps [simp]:
  "hs_unique_id (announce cid hs s) = hs_unique_id s"
  "hs_trip_assignment_id (announce cid hs s) = hs_trip_assignment_id s"
  "hs_customer_id (announce cid hs s) = hs_customer_id s"
  "hs_collection_type (announce cid hs s) = hs_collection_type s"
  "hs_status (announce cid hs s) = hs_status s" "hs_is_collected (announce cid hs s) = hs_is_collected s"
  "hs_is_deleted (announce cid hs s) = hs_is_deleted s"
  unfolding announce_def by (induction hs arbitrary: s) (simp_all add: carry_announcement_def)

lemma announce_other: "hs_trip_assignment_id s \<noteq> cid \<Longrightarrow> announce cid hs s = s"
  unfolding announce_def by (induction hs) (simp_all add: carry_announcement_def)

lemma announced_stays: "hs_customer_available_at s \<noteq> None \<Longrightarrow> hs_customer_available_at (announce cid hs s) \<noteq> None"
  unfolding announce_def by (induction hs arbitrary: s) (simp_all add: carry_announcement_def)

lemma announced:
  assumes "h \<in> set hs" and "hs_customer_available_at h \<noteq> None" and "hs_trip_assignment_id s = cid"
    and "hs_customer_id s = hs_customer_id h"
  shows "hs_customer_available_at (announce cid hs s) \<noteq> None"
  using assms
proof (induction hs arbitrary: s)
  case (Cons x xs)
  let ?s = "carry_announcement cid x s"
  have keep: "hs_trip_assignment_id ?s = cid" "hs_customer_id ?s = hs_customer_id h"
    using Cons.prems by (simp_all add: carry_announcement_def)
  show ?case
  proof (cases "h \<in> set xs")
    case True
    from Cons.IH [OF True Cons.prems(2) keep] show ?thesis by (simp add: announce_def)
  next
    case False
    with Cons.prems have "x = h" by simp
    then have "hs_customer_available_at ?s \<noteq> None" using Cons.prems by (simp add: carry_announcement_def)
    from announced_stays [OF this, of cid xs] show ?thesis by (simp add: announce_def)
  qed
qed simp

lemma mark_ended_id [simp]: "tr_unique_id (fst (mark_ended now t)) = tr_unique_id t"
  by (simp add: mark_ended_def stamp_start_def stamp_end_def)

lemma update_trip_tables [simp]:
  "td_bins (update_trip uid f db) = td_bins db" "td_households (update_trip uid f db) = td_households db"
  "td_plans (update_trip uid f db) = td_plans db" "td_plan_stops (update_trip uid f db) = td_plan_stops db"
  by (simp_all add: update_trip_def)

lemma blank_bin_fields [simp]:
  "bs_trip_assignment_id (blank_bin_stop ids t cp b n) = t" "bs_status (blank_bin_stop ids t cp b n) = BinPending"
  "\<not> bs_is_collected (blank_bin_stop ids t cp b n)"
  by (simp_all add: blank_bin_stop_def)

lemma blank_household_fields [simp]:
  "hs_trip_assignment_id (blank_household_stop ids t c ct n) = t"
  "hs_status (blank_household_stop ids t c ct n) = HouseholdPending"
  "\<not> hs_is_collected (blank_household_stop ids t c ct n)"
  by (simp_all add: blank_household_stop_def)

lemma keys_live:
  "stop_keys_distinct db \<Longrightarrow> stop_keys_distinct (ensure_live_continuation_stops ids cid bins households db)"
  unfolding ensure_live_continuation_stops_def
  by (rule keys_fold, rule keys_ensure_household, assumption, rule keys_fold, rule keys_ensure_bin, assumption)
    simp

lemma stop_keys_moved [simp]:
  "bin_key (point_bin cid bins s) = bin_key s" "household_key (point_household cid hs x) = household_key x"
  "household_key (announce cid hs x) = household_key x"
  by (simp_all add: bin_key_def household_key_def)

lemma keys_carry_over:
  "stop_keys_distinct (ensure_live_continuation_stops ids cid bins households db) \<Longrightarrow>
     stop_keys_distinct (carry_over ids cid bins households db)"
  by (simp add: stop_keys_distinct_def carry_over_tables comp_def distinct_map_filter)

lemma keys_update_trip [simp]: "stop_keys_distinct (update_trip uid f db) = stop_keys_distinct db"
  by (simp add: stop_keys_distinct_def)

text \<open>The tables after an approval: the old rows, the new stops of the continuation, the new trip.\<close>

lemma continuation_tables:
  assumes "open_continuation ids now new_id selection source db = Inr (cid, db')"
    and "carried_stops selection db source = Inr (bins, households)" and "unused_trip new_id db"
  obtains bs hs cont where "cid = new_id" and "tr_unique_id cont = new_id"
    and "td_trips db' = map (\<lambda>t. if tr_unique_id t = tr_unique_id source then fst (mark_ended now t) else t)
          (td_trips db @ [cont])"
    and "td_bins db' = map (point_bin cid bins) (td_bins db @ bs)"
    and "td_households db' = map (\<lambda>s. point_household cid households (announce cid households s))
          (td_households db @ hs)"
    and "\<forall>s\<in>set bs. \<exists>cp b n. s = blank_bin_stop ids cid cp b n"
    and "\<forall>s\<in>set hs. \<exists>c ct n. s = blank_household_stop ids cid c ct n"
    and "stop_pair ` set bs = stop_pair ` set bins" and "hs_customer_id ` set hs = hs_customer_id ` set households"
    and "stop_keys_distinct db \<longrightarrow> stop_keys_distinct db'"
    and "td_plans db' = td_plans db" and "td_plan_stops db' = td_plan_stops db"
proof -
  obtain cont db1 where ins: "insert_trip ids (continuation_of new_id now None None None source) db = Some (cont, db1)"
    and cid: "cid = tr_unique_id cont"
    and db': "db' = update_trip (tr_unique_id source) (\<lambda>t. fst (mark_ended now t)) (carry_over ids cid bins households db1)"
    using assms(1,2) by (auto simp: open_continuation_def Let_def split: option.splits)
  have fresh: "\<forall>s\<in>set (td_households db). hs_trip_assignment_id s \<noteq> new_id"
    "\<forall>s\<in>set (td_bins db). bs_trip_assignment_id s \<noteq> new_id"
    using assms(3) by (simp_all add: unused_trip_def)
  from extends_insert_trip [OF ins] fresh(1)
  have id: "cid = new_id" and ext1: "extends ids new_id (db\<lparr>td_trips := td_trips db @ [cont]\<rparr>) db1"
    using cid by simp_all
  define live where "live = ensure_live_continuation_stops ids cid bins households db1"
  have "extends ids cid (db\<lparr>td_trips := td_trips db @ [cont]\<rparr>) live"
    unfolding live_def id by (rule extends_trans [OF ext1 extends_live])
  then obtain bs hs where
    live: "live = db\<lparr>td_trips := td_trips db @ [cont], td_bins := td_bins db @ bs, td_households := td_households db @ hs\<rparr>"
    and bs: "\<forall>s\<in>set bs. \<exists>cp b n. s = blank_bin_stop ids cid cp b n"
    and hs: "\<forall>s\<in>set hs. \<exists>c ct n. s = blank_household_stop ids cid c ct n"
    unfolding extends_def by auto
  have bs_trip: "bs_trip_assignment_id s = cid" if "s \<in> set bs" for s
    using bs that blank_bin_fields(1) by metis
  have hs_trip: "hs_trip_assignment_id s = cid" if "s \<in> set hs" for s
    using hs that blank_household_fields(1) by metis
  let ?bs = "filter (\<lambda>s. stop_pair s \<in> stop_pair ` set bins) bs"
  let ?hs = "filter (\<lambda>s. hs_customer_id s \<in> hs_customer_id ` set households) hs"
  have "filter (\<lambda>s. bs_trip_assignment_id s = cid \<longrightarrow> stop_pair s \<in> stop_pair ` set bins) (td_bins live)
      = td_bins db @ ?bs"
    using fresh(2) bs_trip id by (simp add: live filter_id_conv cong: filter_cong)
  moreover have "filter (\<lambda>s. hs_trip_assignment_id s = cid \<longrightarrow> hs_customer_id s \<in> hs_customer_id ` set households)
      (td_households live) = td_households db @ ?hs"
    using fresh(1) hs_trip id by (simp add: live filter_id_conv cong: filter_cong)
  moreover note tables = carry_over_tables [of ids cid bins households db1, folded live_def]
  ultimately have rows: "td_bins db' = map (point_bin cid bins) (td_bins db @ ?bs)"
    "td_households db' = map (\<lambda>s. point_household cid households (announce cid households s)) (td_households db @ ?hs)"
    by (simp_all add: db')
  show thesis
  proof (rule that [OF id _ _ rows])
    show "tr_unique_id cont = new_id" using cid id by simp
    show "td_trips db' = map (\<lambda>t. if tr_unique_id t = tr_unique_id source then fst (mark_ended now t) else t)
        (td_trips db @ [cont])"
      by (simp add: db' update_trip_def tables live)
    show "\<forall>s\<in>set ?bs. \<exists>cp b n. s = blank_bin_stop ids cid cp b n" using bs by auto
    show "\<forall>s\<in>set ?hs. \<exists>c ct n. s = blank_household_stop ids cid c ct n" using hs by auto
    have "\<exists>s\<in>set bs. stop_pair s = stop_pair x" if x: "x \<in> set bins" for x
    proof -
      obtain s where s: "s \<in> set (td_bins db @ bs)" "bin_key s = (cid, stop_pair x)"
        using live_present(1) [OF x, of ids cid households db1] unfolding live_def [symmetric] live by auto
      then have "s \<in> set bs" using fresh(2) id by (auto simp: bin_key_def)
      with s show ?thesis by (auto simp: bin_key_def)
    qed
    then show "stop_pair ` set ?bs = stop_pair ` set bins" by (force simp: image_iff)
    have "\<exists>s\<in>set hs. hs_customer_id s = hs_customer_id x" if x: "x \<in> set households" for x
    proof -
      obtain s where s: "s \<in> set (td_households db @ hs)"
          "household_key s = (cid, hs_customer_id x, hs_collection_type x)"
        using live_present(2) [OF x, of ids cid bins db1] unfolding live_def [symmetric] live by auto
      then have "s \<in> set hs" using fresh(1) id by (auto simp: household_key_def)
      with s show ?thesis by (auto simp: household_key_def)
    qed
    then show "hs_customer_id ` set ?hs = hs_customer_id ` set households" by (force simp: image_iff)
    show "stop_keys_distinct db \<longrightarrow> stop_keys_distinct db'"
      using keys_insert_trip [OF ins] keys_live keys_carry_over by (auto simp: db')
    show "td_plans db' = td_plans db" "td_plan_stops db' = td_plan_stops db"
      by (simp_all add: db' tables live)
  qed
qed

lemma rows_of_map:
  assumes "zs = map f (xs @ ys)" and "\<And>x. g (f x) = g x" and "\<forall>x\<in>set xs. g x \<noteq> v" and "\<And>y. y \<in> set ys \<Longrightarrow> g y = v"
  shows "{z. z \<in> set zs \<and> g z = v} = f ` set ys"
  unfolding assms(1) using assms(2-4) by (auto simp: image_iff)

text \<open>C40: An approval opens one continuation whose stops are exactly the carried ones: the same pairs of
  collection point and bin, the same customers, all still to do, none twice, and a customer who
  announced being at home is still announced there.\<close>
theorem approve_carries_exactly:
  assumes "open_continuation ids now new_id selection source db = Inr (cid, db')"
    and "carried_stops selection db source = Inr (bins, households)" and "unused_trip new_id db"
    and "stop_keys_distinct db"
  shows "cid = new_id \<and> stop_keys_distinct db'
    \<and> stop_pair ` {s. s \<in> set (td_bins db') \<and> bs_trip_assignment_id s = cid} = stop_pair ` set bins
    \<and> hs_customer_id ` {s. s \<in> set (td_households db') \<and> hs_trip_assignment_id s = cid}
        = hs_customer_id ` set households
    \<and> (\<forall>s. s \<in> set (td_bins db') \<and> bs_trip_assignment_id s = cid \<longrightarrow> bs_status s = BinPending)
    \<and> (\<forall>s. s \<in> set (td_households db') \<and> hs_trip_assignment_id s = cid \<longrightarrow> hs_status s = HouseholdPending
         \<and> ((\<exists>h. h \<in> set households \<and> hs_customer_id h = hs_customer_id s \<and> hs_customer_available_at h \<noteq> None)
              \<longrightarrow> hs_customer_available_at s \<noteq> None))"
  using assms(1-3)
proof (rule continuation_tables)
  fix bs hs cont
  assume cid: "cid = new_id"
    and b: "td_bins db' = map (point_bin cid bins) (td_bins db @ bs)"
    and h: "td_households db' = map (\<lambda>s. point_household cid households (announce cid households s)) (td_households db @ hs)"
    and bs: "\<forall>s\<in>set bs. \<exists>cp b n. s = blank_bin_stop ids cid cp b n"
    and hs: "\<forall>s\<in>set hs. \<exists>c ct n. s = blank_household_stop ids cid c ct n"
    and pairs: "stop_pair ` set bs = stop_pair ` set bins"
    and customers: "hs_customer_id ` set hs = hs_customer_id ` set households"
    and keys: "stop_keys_distinct db \<longrightarrow> stop_keys_distinct db'"
  have fresh: "\<forall>s\<in>set (td_bins db). bs_trip_assignment_id s \<noteq> cid"
    "\<forall>s\<in>set (td_households db). hs_trip_assignment_id s \<noteq> cid"
    using assms(3) cid by (simp_all add: unused_trip_def)
  have bs': "bs_trip_assignment_id s = cid \<and> bs_status s = BinPending" if "s \<in> set bs" for s
    using bs that blank_bin_fields(1,2) by metis
  have hs': "hs_trip_assignment_id s = cid \<and> hs_status s = HouseholdPending" if "s \<in> set hs" for s
    using hs that blank_household_fields(1,2) by metis
  have B: "{s. s \<in> set (td_bins db') \<and> bs_trip_assignment_id s = cid} = point_bin cid bins ` set bs"
    by (rule rows_of_map [where g = bs_trip_assignment_id, OF b]) (use fresh(1) bs' in simp_all)
  have H: "{s. s \<in> set (td_households db') \<and> hs_trip_assignment_id s = cid}
      = (\<lambda>s. point_household cid households (announce cid households s)) ` set hs"
    by (rule rows_of_map [where g = hs_trip_assignment_id, OF h]) (use fresh(2) hs' in simp_all)
  have "stop_pair ` {s. s \<in> set (td_bins db') \<and> bs_trip_assignment_id s = cid} = stop_pair ` set bins"
    unfolding B pairs [symmetric] by (simp add: image_image)
  moreover have "hs_customer_id ` {s. s \<in> set (td_households db') \<and> hs_trip_assignment_id s = cid}
      = hs_customer_id ` set households"
    unfolding H customers [symmetric] by (simp add: image_image)
  moreover have "\<forall>s. s \<in> set (td_bins db') \<and> bs_trip_assignment_id s = cid \<longrightarrow> bs_status s = BinPending"
  proof (intro allI impI)
    fix s assume "s \<in> set (td_bins db') \<and> bs_trip_assignment_id s = cid"
    with B obtain x where "x \<in> set bs" "s = point_bin cid bins x" by blast
    then show "bs_status s = BinPending" using bs' by simp
  qed
  moreover have "\<forall>s. s \<in> set (td_households db') \<and> hs_trip_assignment_id s = cid \<longrightarrow> hs_status s = HouseholdPending
         \<and> ((\<exists>h. h \<in> set households \<and> hs_customer_id h = hs_customer_id s \<and> hs_customer_available_at h \<noteq> None)
              \<longrightarrow> hs_customer_available_at s \<noteq> None)"
  proof (intro allI impI)
    fix s assume "s \<in> set (td_households db') \<and> hs_trip_assignment_id s = cid"
    with H obtain x where x: "x \<in> set hs" "s = point_household cid households (announce cid households x)" by blast
    then show "hs_status s = HouseholdPending
         \<and> ((\<exists>h. h \<in> set households \<and> hs_customer_id h = hs_customer_id s \<and> hs_customer_available_at h \<noteq> None)
              \<longrightarrow> hs_customer_available_at s \<noteq> None)"
      using hs' [OF x(1)] announced [of _ households x cid] by auto
  qed
  ultimately show ?thesis using cid keys assms(4) by blast
qed

section \<open>What an approval does to the source\<close>

lemma filter_moved:
  assumes "\<And>x. P (f x) = P x" and "\<forall>y\<in>set ys. \<not> P y" and "\<And>x. x \<in> set xs \<Longrightarrow> P x \<Longrightarrow> f x = g x"
  shows "filter P (map f (xs @ ys)) = map g (filter P xs)"
  using assms by (simp add: filter_map comp_def filter_False)

lemma pending_after_approval:
  assumes "open_continuation ids now new_id selection source db = Inr (cid, db')"
    and "carried_stops selection db source = Inr (bins, households)" and "unused_trip new_id db"
    and "uid \<noteq> new_id"
  shows "pending_bin_stops db' uid = map (point_bin cid bins) (pending_bin_stops db uid)"
    and "pending_household_stops db' uid = map (point_household cid households) (pending_household_stops db uid)"
proof -
  obtain bs hs cont where cid: "cid = new_id"
    and b: "td_bins db' = map (point_bin cid bins) (td_bins db @ bs)"
    and h: "td_households db' = map (\<lambda>s. point_household cid households (announce cid households s)) (td_households db @ hs)"
    and bs: "\<forall>s\<in>set bs. \<exists>cp b n. s = blank_bin_stop ids cid cp b n"
    and hs: "\<forall>s\<in>set hs. \<exists>c ct n. s = blank_household_stop ids cid c ct n"
    by (rule continuation_tables [OF assms(1-3)])
  have bs': "\<forall>s\<in>set bs. bs_trip_assignment_id s = new_id" using bs cid blank_bin_fields(1) by metis
  have hs': "\<forall>s\<in>set hs. hs_trip_assignment_id s = new_id" using hs cid blank_household_fields(1) by metis
  show "pending_bin_stops db' uid = map (point_bin cid bins) (pending_bin_stops db uid)"
    unfolding pending_bin_stops_def b by (rule filter_moved) (use bs' assms(4) in auto)
  show "pending_household_stops db' uid = map (point_household cid households) (pending_household_stops db uid)"
    unfolding pending_household_stops_def h
    by (rule filter_moved) (use hs' assms(4) cid in \<open>auto simp: announce_other\<close>)
qed

lemma find_trip_after_approval:
  assumes "open_continuation ids now new_id selection source db = Inr (cid, db')"
    and "carried_stops selection db source = Inr (bins, households)" and "unused_trip new_id db"
    and "find_trip db uid = Some t"
  shows "find_trip db' uid = Some (if uid = tr_unique_id source then fst (mark_ended now t) else t)"
proof -
  obtain cont where "td_trips db' = map (\<lambda>t. if tr_unique_id t = tr_unique_id source then fst (mark_ended now t) else t)
      (td_trips db @ [cont])"
    by (rule continuation_tables [OF assms(1-3)])
  moreover have "tr_unique_id t = uid" using assms(4) by (auto simp: find_trip_def find_Some_iff)
  ultimately show ?thesis
    using assms(4) by (simp add: find_trip_def find_map_id find_append)
qed

text \<open>The approved trip is closed, whatever its status was: it is Completed, with a start and an end.
  Its stops keep their status, so those that were pending still are, and only point at the
  continuation when they are carried; no other trip changes.\<close>
theorem approval_closes_source:
  assumes "open_continuation ids now new_id selection source db = Inr (cid, db')"
    and "carried_stops selection db source = Inr (bins, households)" and "unused_trip new_id db"
    and "find_trip db (tr_unique_id source) = Some source"
  shows "find_trip db' (tr_unique_id source) = Some (fst (mark_ended now source))
    \<and> tr_status (fst (mark_ended now source)) = TripCompleted
    \<and> pending_bin_stops db' (tr_unique_id source)
        = map (point_bin cid bins) (pending_bin_stops db (tr_unique_id source))
    \<and> pending_household_stops db' (tr_unique_id source)
        = map (point_household cid households) (pending_household_stops db (tr_unique_id source))
    \<and> (\<forall>uid t. find_trip db uid = Some t \<and> uid \<noteq> tr_unique_id source \<longrightarrow> find_trip db' uid = Some t)"
proof -
  have "tr_unique_id source \<noteq> new_id"
    using assms(3,4) by (auto simp: unused_trip_def find_trip_def find_Some_iff)
  then show ?thesis
    using assms(4) find_trip_after_approval [OF assms(1-3)] pending_after_approval [OF assms(1-3)]
    by (auto simp: mark_ended_def stamp_start_def stamp_end_def)
qed

section \<open>When an approval succeeds\<close>

lemma open_continuation_Inr:
  "(\<exists>p. open_continuation ids now new_id selection source db = Inr p) \<longleftrightarrow>
     (\<exists>q. carried_stops selection db source = Inr q) \<and> plan_ok db source"
proof -
  have "plan_ok db (continuation_of new_id now None None None source) = plan_ok db source"
    using plan_stops_of_cong [of db db "continuation_of new_id now None None None source" source]
    by (simp add: plan_ok_def)
  with insert_trip_None [of ids "continuation_of new_id now None None None source" db] show ?thesis
    by (auto simp: open_continuation_def Let_def split: sum.splits option.splits)
qed

lemma open_continuation_id:
  assumes "open_continuation ids now new_id selection source db = Inr (cid, db')"
  shows "cid = new_id"
  using assms by (auto simp: open_continuation_def insert_trip_def Let_def split: sum.splits option.splits)

lemma carried_stops_Inr:
  "(\<exists>q. carried_stops selection db source = Inr q) \<longleftrightarrow>
     (case selection of
        None \<Rightarrow> has_pending_stops db (tr_unique_id source)
      | Some selected \<Rightarrow> selected \<noteq> []
          \<and> set selected \<subseteq> bs_unique_id ` set (pending_bin_stops db (tr_unique_id source))
              \<union> hs_unique_id ` set (pending_household_stops db (tr_unique_id source)))"
proof (cases selection)
  case None
  then show ?thesis
    by (auto simp: carried_stops_def select_stops_def has_pending_stops_def split: list.splits)
next
  case (Some selected)
  let ?B = "pending_bin_stops db (tr_unique_id source)"
  let ?H = "pending_household_stops db (tr_unique_id source)"
  have sel: "select_stops selection ?B ?H = (if \<not> set selected \<subseteq> bs_unique_id ` set ?B \<union> hs_unique_id ` set ?H
      then Inl StopNotPending
      else Inr (filter (\<lambda>s. bs_unique_id s \<in> set selected) ?B, filter (\<lambda>s. hs_unique_id s \<in> set selected) ?H))"
    by (auto simp: select_stops_def Some list_ex_iff)
  have "filter (\<lambda>s. bs_unique_id s \<in> set selected) ?B = [] \<and> filter (\<lambda>s. hs_unique_id s \<in> set selected) ?H = []
      \<longleftrightarrow> selected = []" if "set selected \<subseteq> bs_unique_id ` set ?B \<union> hs_unique_id ` set ?H"
    using that by (cases selected) (auto simp: filter_empty_conv)
  then show ?thesis
    unfolding carried_stops_def sel by (auto simp: Some split: list.splits if_splits)
qed

text \<open>A pending request with time left, whose trip exists, is approved exactly when the selection
  (all stops, where none is sent) names at least one stop, only stops that are pending on the
  trip, and the trip's plan can be copied; the status of the trip does not matter. Otherwise the
  approval fails and, as for every error, nothing is stored.\<close>
theorem approve_succeeds_iff:
  assumes "find_request st uid = Some r" and "is_pending r" and "now < deadline_for env r"
    and "later < deadline_for env r" and "find_trip (rs_db st) (rr_assignment_id r) = Some source"
  shows "(\<exists>st'. approve_retrip env dir ids now later new_id uid by selection remarks st = Inr (Some new_id, st'))
    \<longleftrightarrow> (case selection of
          None \<Rightarrow> has_pending_stops (rs_db st) (tr_unique_id source)
        | Some selected \<Rightarrow> selected \<noteq> []
            \<and> set selected \<subseteq> bs_unique_id ` set (pending_bin_stops (rs_db st) (tr_unique_id source))
                \<union> hs_unique_id ` set (pending_household_stops (rs_db st) (tr_unique_id source)))
      \<and> plan_ok (rs_db st) source"
proof -
  have "expire_locked env dir (rs_db st) now r = None" using assms(3) by (simp add: expire_locked_None)
  then have lock: "lock_for_decision env dir now later uid st = Inr (Some r, st)"
    using assms by (simp add: lock_for_decision_def expire_retrip_if_due_def)
  have "(\<exists>st'. approve_retrip env dir ids now later new_id uid by selection remarks st = Inr (Some new_id, st'))
      \<longleftrightarrow> (\<exists>p. open_continuation ids later new_id selection source (rs_db st) = Inr p)"
    using assms(5) by (auto simp: approve_retrip_def lock Let_def open_continuation_id split: sum.splits)
  then show ?thesis by (simp only: open_continuation_Inr carried_stops_Inr)
qed

section \<open>A trip continued twice\<close>

lemma unused_after_approval:
  assumes "open_continuation ids now new_id selection source db = Inr (cid, db')"
    and "carried_stops selection db source = Inr (bins, households)" and "unused_trip new_id db"
    and "unused_trip other db" and "other \<noteq> new_id"
  shows "unused_trip other db'"
proof -
  obtain bs hs cont where cid: "cid = new_id" "tr_unique_id cont = new_id"
    and t: "td_trips db' = map (\<lambda>t. if tr_unique_id t = tr_unique_id source then fst (mark_ended now t) else t)
        (td_trips db @ [cont])"
    and b: "td_bins db' = map (point_bin cid bins) (td_bins db @ bs)"
    and h: "td_households db' = map (\<lambda>s. point_household cid households (announce cid households s)) (td_households db @ hs)"
    and bs: "\<forall>s\<in>set bs. \<exists>cp b n. s = blank_bin_stop ids cid cp b n"
    and hs: "\<forall>s\<in>set hs. \<exists>c ct n. s = blank_household_stop ids cid c ct n"
    by (rule continuation_tables [OF assms(1-3)])
  have "\<forall>s\<in>set bs. bs_trip_assignment_id s = new_id" using bs cid blank_bin_fields(1) by metis
  moreover have "\<forall>s\<in>set hs. hs_trip_assignment_id s = new_id" using hs cid blank_household_fields(1) by metis
  ultimately show ?thesis using assms(4,5) cid by (auto simp: unused_trip_def t b h)
qed

lemma carried_pending:
  assumes "carried_stops selection db source = Inr q"
  shows "has_pending_stops db (tr_unique_id source)"
proof (rule ccontr)
  assume "\<not> has_pending_stops db (tr_unique_id source)"
  then have "pending_bin_stops db (tr_unique_id source) = []" "pending_household_stops db (tr_unique_id source) = []"
    and "\<not> has_pending_stops db (tr_unique_id source)"
    by (simp_all add: has_pending_stops_def)
  then show False
    using assms carried_stops_Inr [of selection db source] by (cases selection) auto
qed

text \<open>Closing a trip from the web does not settle a re-trip request that its driver had raised: the
  request stays pending, and approving it within its window opens a second continuation of the
  trip that was closed already, with the same stops once more.\<close>
theorem closed_trip_continued_again:
  assumes "find_request st uid = Some r" and "is_pending r" and "rr_assignment_id r = tr_unique_id t"
    and "find_trip (rs_db st) (tr_unique_id t) = Some t"
    and "proceed_to_next_trip env dir ids now now' later uid' new_id t actor selection remarks st
      = Inr ((u, Some c), st')"
    and "uid' \<notin> rr_unique_id ` set (rs_requests st)" and "unused_trip new_id (rs_db st)"
    and "now2 < deadline_for env r" and "later2 < deadline_for env r"
  shows "find_trip (rs_db st') (tr_unique_id t) = Some (fst (mark_ended later t))
    \<and> (\<exists>st''. approve_retrip env dir ids now2 later2 new_id2 uid who None remark st' = Inr (Some new_id2, st''))"
proof -
  obtain q st1 where q: "request_retrip env dir now uid' actor remarks t st = (q, st1)" by fastforce
  note raised = request_effect [OF q assms(6)]
  have appr: "approve_retrip env dir ids now' later new_id uid' actor selection (Some remarks) st1 = Inr (Some c, st')"
    using assms(5) raised(5) by (auto simp: proceed_to_next_trip_def q split: if_splits sum.splits)
  have q_trip: "rr_assignment_id q = tr_unique_id t" using q by (auto simp: request_retrip_def Let_def)
  from appr show ?thesis
  proof (cases rule: approve_cases)
    case (approved q' source cid db)
    have source: "source = t" using approved(2,6) raised(3,4) q_trip assms(4) by simp
    note opened = approved(7) [unfolded source raised(3)]
    then obtain bins households where carried: "carried_stops selection (rs_db st) t = Inr (bins, households)"
      using open_continuation_Inr [of ids later new_id selection t "rs_db st"] by auto
    have db': "rs_db st' = db" using approved(8) by simp
    have t: "find_trip db (tr_unique_id t) = Some (fst (mark_ended later t))"
      using find_trip_after_approval [OF opened carried assms(7,4)] by simp
    have "tr_unique_id t \<noteq> new_id" using assms(4,7) by (auto simp: unused_trip_def find_trip_def find_Some_iff)
    from pending_after_approval [OF opened carried assms(7) this] carried_pending [OF carried]
    have pend: "has_pending_stops db (tr_unique_id t)" by (simp add: has_pending_stops_def)
    obtain bs hs cont where "td_plans db = td_plans (rs_db st)" "td_plan_stops db = td_plan_stops (rs_db st)"
      by (rule continuation_tables [OF opened carried assms(7)])
    moreover have "tr_trip_plan_id (fst (mark_ended later t)) = tr_trip_plan_id t"
      by (simp add: mark_ended_def stamp_start_def stamp_end_def)
    moreover have "plan_ok (rs_db st) t"
      using open_continuation_Inr [of ids later new_id selection t "rs_db st"] opened by blast
    ultimately have plan: "plan_ok db (fst (mark_ended later t))"
      using plan_stops_of_cong [of db "rs_db st" "fst (mark_ended later t)" t] by (simp add: plan_ok_def)
    have "uid \<noteq> uid'" using assms(1,6) by (auto simp: find_request_def find_Some_iff)
    moreover have "rr_unique_id q' = uid'" using approved(2) find_request_id by blast
    ultimately have "find_request st' uid = Some r"
      using raised(6) [OF assms(1)] by (simp add: approved(8) find_update_request)
    from approve_succeeds_iff [OF this assms(2,8,9), of "fst (mark_ended later t)" dir ids new_id2 who None remark]
    show ?thesis using t pend plan assms(3) db' by simp
  qed simp
qed

section \<open>The driver's end\<close>

text \<open>The requests of a trip that still wait.\<close>

definition waiting :: "ident \<Rightarrow> retrip_state \<Rightarrow> retrip list" where
  "waiting trip_id st = filter (\<lambda>r. rr_assignment_id r = trip_id \<and> is_pending r) (rs_requests st)"

lemma open_request_None: "open_request st trip_id = None \<longleftrightarrow> waiting trip_id st = []"
  by (simp add: open_request_def waiting_def Let_def)

lemma open_request_in: "open_request st trip_id = Some r \<Longrightarrow> r \<in> set (waiting trip_id st)"
  unfolding open_request_def waiting_def Let_def
  using hd_sort_desc first_max_in by (fastforce split: if_splits)

lemma find_request_distinct:
  "distinct (map rr_unique_id (rs_requests st)) \<Longrightarrow> r \<in> set (rs_requests st) \<Longrightarrow>
     find_request st (rr_unique_id r) = Some r"
  unfolding find_request_def by (rule find_distinct)

lemma filter_replaced:
  "\<not> P y \<Longrightarrow> filter P (map (\<lambda>x. if f x then y else x) xs) = filter (\<lambda>x. \<not> f x) (filter P xs)"
  by (induction xs) auto

lemma expire_True:
  assumes "find_request st uid = Some r" and "expire_retrip_if_due env dir now uid st = Inr (True, st')"
  obtains r' where "find_request st' uid = Some r'" and "\<not> is_pending r'"
    and "\<And>trip_id. waiting trip_id st' = filter (\<lambda>x. rr_unique_id x \<noteq> uid) (waiting trip_id st)"
proof -
  obtain r' as where e: "expire_locked env dir (rs_db st) now r = Some (r', as)"
    and st': "st' = send_alerts as (update_request r' st)"
    using assms by (auto simp: expire_retrip_if_due_def split: option.splits)
  have r': "\<not> is_pending r'" "rr_unique_id r' = uid"
    using e find_request_id [OF assms(1)] by (auto simp: expire_locked_def Let_def is_pending_def split: if_splits)
  have "waiting trip_id st' = filter (\<lambda>x. rr_unique_id x \<noteq> uid) (waiting trip_id st)" for trip_id
    using filter_replaced [of "\<lambda>r. rr_assignment_id r = trip_id \<and> is_pending r" r'] r'
    by (simp add: waiting_def st' update_request_def)
  moreover have "find_request st' uid = Some r'"
    using assms(1) r' by (simp add: st' find_update_request)
  ultimately show thesis using that r' by blast
qed

lemma expire_total: "find_request st uid = Some r \<Longrightarrow> \<exists>b st'. expire_retrip_if_due env dir now uid st = Inr (b, st')"
  by (auto simp: expire_retrip_if_due_def split: option.splits)

text \<open>What the driver's end does first: the latest waiting request is expired when it is due.\<close>

definition after_expiry :: "environment \<Rightarrow> directory \<Rightarrow> int \<Rightarrow> ident \<Rightarrow> retrip_state \<Rightarrow> retrip_state" where
  "after_expiry env dir now trip_id st = (case open_request st trip_id of None \<Rightarrow> st
     | Some r \<Rightarrow> (case expire_retrip_if_due env dir now (rr_unique_id r) st of Inl e \<Rightarrow> st | Inr (_, st1) \<Rightarrow> st1))"

lemma after_expiry_waiting:
  fixes st :: retrip_state
  assumes "distinct (map rr_unique_id (rs_requests st))" and "length (waiting trip_id st) \<le> 1"
    and st1: "st1 = after_expiry env dir now trip_id st"
  shows "rs_db st1 = rs_db st" and "\<forall>r\<in>set (waiting trip_id st1). now < deadline_for env r"
    and "length (waiting trip_id st1) \<le> 1"
    and "filter is_pending (case open_request st trip_id of None \<Rightarrow> []
      | Some r \<Rightarrow> (case find_request st1 (rr_unique_id r) of None \<Rightarrow> [] | Some x \<Rightarrow> [x])) = waiting trip_id st1"
proof -
  have "rs_db st1 = rs_db st \<and> (\<forall>r\<in>set (waiting trip_id st1). now < deadline_for env r)
    \<and> length (waiting trip_id st1) \<le> 1
    \<and> filter is_pending (case open_request st trip_id of None \<Rightarrow> []
      | Some r \<Rightarrow> (case find_request st1 (rr_unique_id r) of None \<Rightarrow> [] | Some x \<Rightarrow> [x])) = waiting trip_id st1"
  proof (cases "open_request st trip_id")
    case None
    then have "waiting trip_id st = []" by (simp only: open_request_None)
    moreover have "st1 = st" by (simp add: None st1 after_expiry_def)
    ultimately show ?thesis by (simp add: None)
  next
    case (Some r)
    have mem: "r \<in> set (waiting trip_id st)" by (rule open_request_in [OF Some])
    with assms(2) have only: "waiting trip_id st = [r]" by (cases "waiting trip_id st") auto
    have found: "find_request st (rr_unique_id r) = Some r" and pend: "is_pending r"
      using mem find_request_distinct [OF assms(1)] by (simp_all add: waiting_def)
    obtain b st2 where e: "expire_retrip_if_due env dir now (rr_unique_id r) st = Inr (b, st2)"
      using expire_total [OF found] by blast
    then have st2: "st1 = st2" by (simp add: st1 after_expiry_def Some)
    show ?thesis
    proof (cases b)
      case True
      with e have e': "expire_retrip_if_due env dir now (rr_unique_id r) st = Inr (True, st2)" by simp
      obtain r' where "find_request st2 (rr_unique_id r) = Some r'" "\<not> is_pending r'"
        and "waiting trip_id st2 = filter (\<lambda>x. rr_unique_id x \<noteq> rr_unique_id r) (waiting trip_id st)"
        using expire_True [OF found e'] by metis
      then show ?thesis using only expire_effect(3) [OF e] by (simp add: Some st2)
    next
      case False
      then have "st2 = st" using expire_effect(4) [OF e] by blast
      with e False found only pend expire_False [of env dir now "rr_unique_id r" st st r] show ?thesis
        by (simp add: Some st2)
    qed
  qed
  then show "rs_db st1 = rs_db st" and "\<forall>r\<in>set (waiting trip_id st1). now < deadline_for env r"
    and "length (waiting trip_id st1) \<le> 1"
    and "filter is_pending (case open_request st trip_id of None \<Rightarrow> []
      | Some r \<Rightarrow> (case find_request st1 (rr_unique_id r) of None \<Rightarrow> [] | Some x \<Rightarrow> [x])) = waiting trip_id st1"
    by simp_all
qed

lemma end_trip_open:
  assumes "tr_status t \<noteq> TripCompleted" and "tr_status t \<noteq> TripCancelled"
    and "distinct (map rr_unique_id (rs_requests st))" and "length (waiting (tr_unique_id t) st) \<le> 1"
    and st1: "st1 = after_expiry env dir now (tr_unique_id t) st"
  shows "end_trip env dir now uid operator reason t st =
      (case waiting (tr_unique_id t) st1 of
         r # _ \<Rightarrow> (AwaitingApproval (rr_unique_id r), st1)
       | [] \<Rightarrow>
           if \<not> has_pending_stops (rs_db st) (tr_unique_id t) then
             (Ended, st1\<lparr>rs_db := update_trip (tr_unique_id t) (\<lambda>t. fst (mark_ended now t)) (rs_db st)\<rparr>)
           else if py_strip reason = [] then
             (ReasonRequired (length (pending_bin_stops (rs_db st) (tr_unique_id t)))
                (length (pending_household_stops (rs_db st) (tr_unique_id t))), st1)
           else (RetripRequested uid, snd (request_retrip env dir now uid operator (py_strip reason) t st1)))"
proof -
  note facts = after_expiry_waiting [OF assms(3,4) st1]
  have raised: "rr_unique_id (fst (request_retrip env dir now uid operator r t s)) = uid" for r s
    by (simp add: request_retrip_def Let_def)
  have "(case (case open_request st (tr_unique_id t) of None \<Rightarrow> None
      | Some r \<Rightarrow> find_request st1 (rr_unique_id r)) of None \<Rightarrow> [] | Some r \<Rightarrow> [r])
    = (case open_request st (tr_unique_id t) of None \<Rightarrow> []
      | Some r \<Rightarrow> (case find_request st1 (rr_unique_id r) of None \<Rightarrow> [] | Some x \<Rightarrow> [x]))"
    by (simp split: option.splits)
  with facts(1,4) assms(1,2) raised show ?thesis
    unfolding end_trip_def Let_def after_expiry_def [symmetric] st1 [symmetric]
    by (simp add: split_beta has_pending_stops_def split: list.splits)
qed

text \<open>A driver closes a trip alone only when nothing is pending on it; with stops left, a trip with a
  waiting request stays as it is, and one without gets a request when a reason is given. In every
  case the trip has at most one waiting request afterwards, with time left, when it had at most
  one before.\<close>
theorem end_trip_outcome:
  assumes "tr_status t \<noteq> TripCompleted" and "tr_status t \<noteq> TripCancelled"
    and "distinct (map rr_unique_id (rs_requests st))" and "length (waiting (tr_unique_id t) st) \<le> 1"
    and "end_trip env dir now uid operator reason t st = (answer, st')"
  shows "(answer = Ended \<longrightarrow> \<not> has_pending_stops (rs_db st) (tr_unique_id t))
    \<and> (answer \<noteq> Ended \<longrightarrow> rs_db st' = rs_db st)
    \<and> (answer = RetripRequested u \<longrightarrow> u = uid \<and> py_strip reason \<noteq> []
         \<and> (\<exists>r. waiting (tr_unique_id t) st' = [r] \<and> rr_unique_id r = uid \<and> rr_reason r = py_strip reason
              \<and> rr_pending_bin_count r = length (pending_bin_stops (rs_db st) (tr_unique_id t))
              \<and> rr_pending_household_count r = length (pending_household_stops (rs_db st) (tr_unique_id t))))
    \<and> length (waiting (tr_unique_id t) st') \<le> 1
    \<and> (\<forall>r. r \<in> set (waiting (tr_unique_id t) st') \<longrightarrow> now < deadline_for env r)"
proof -
  define st1 where "st1 = after_expiry env dir now (tr_unique_id t) st"
  note facts = after_expiry_waiting [OF assms(3,4) st1_def]
  have late: "0 < timeout_minutes env"
    by (simp add: timeout_minutes_def minutes_of_def less_max_iff_disj split: option.splits)
  have raised: "waiting (tr_unique_id t) (snd (request_retrip env dir now uid operator rs t st1))
      = waiting (tr_unique_id t) st1 @ [fst (request_retrip env dir now uid operator rs t st1)]" for rs
    by (simp add: request_retrip_def Let_def waiting_def send_alerts_def is_pending_def)
  have frame: "waiting tid (s\<lparr>rs_db := db\<rparr>) = waiting tid s" for tid s db
    by (simp add: waiting_def)
  have fields: "rr_unique_id (fst (request_retrip env dir now uid operator rs t st1)) = uid
    \<and> rr_reason (fst (request_retrip env dir now uid operator rs t st1)) = rs
    \<and> rr_pending_bin_count (fst (request_retrip env dir now uid operator rs t st1))
        = length (pending_bin_stops (rs_db st) (tr_unique_id t))
    \<and> rr_pending_household_count (fst (request_retrip env dir now uid operator rs t st1))
        = length (pending_household_stops (rs_db st) (tr_unique_id t))
    \<and> now < deadline_for env (fst (request_retrip env dir now uid operator rs t st1))
    \<and> rs_db (snd (request_retrip env dir now uid operator rs t st1)) = rs_db st" for rs
    using late facts(1)
    by (simp add: request_retrip_def Let_def build_pending_snapshot_def deadline_for_def send_alerts_def)
  show ?thesis
    using assms(5) facts(1-3) fields raised
    by (auto simp: end_trip_open [OF assms(1-4) st1_def] frame split: list.splits if_splits)
qed

section \<open>Two reviewers at once\<close>

text \<open>A supervisor whose page still shows the request as pending, when another one has decided it
  meanwhile, is answered 409 on a rejection but 400 on an approval: the clause for the decided
  request stands behind that of its superclass.\<close>
theorem raced_approval_answers_400:
  assumes "find_request st uid = Some q" and "\<not> is_pending q" and "is_pending seen"
  shows "approve_view True (Some seen) (approve_retrip env dir ids now later new_id uid by selection remarks st) = 400
    \<and> reject_view True (Some seen) (reject_retrip env dir now later uid by remarks st) = 409"
proof -
  have "expire_locked env dir (rs_db st) now q = None" using assms(2) by (simp add: expire_locked_None)
  then have "lock_for_decision env dir now later uid st = Inl (AlreadyDecided (rr_status q))"
    using assms(1,2) by (simp add: lock_for_decision_def expire_retrip_if_due_def)
  then show ?thesis
    using assms(3) by (simp add: approve_view_def reject_view_def approve_retrip_def reject_retrip_def)
qed

section \<open>A breakdown loses stops outside the plan\<close>

lemma bins_ensure_household: "td_bins (fst (ensure_household_stop ids u c ct n acc)) = td_bins (fst acc)"
  by (cases acc) (simp add: ensure_household_stop_def)

lemma bins_fold:
  assumes "\<And>x acc. td_bins (fst (f x acc)) = td_bins (fst acc)"
  shows "td_bins (fst (fold f xs acc)) = td_bins (fst acc)"
  by (induction xs arbitrary: acc) (simp_all add: assms)

lemma clone_stop_bins:
  assumes "clone_stop ids t stop (Some a) = Some b" and "s \<in> set (td_bins (fst b))"
  shows "s \<in> set (td_bins (fst a))
    \<or> (ps_collection_point_id stop = Some (bs_collection_point_id s) \<and> ps_bin_id stop = Some (bs_bin_id s))"
proof (cases "ps_collection_type stop = BinCollection \<and> truthy (ps_collection_point_id stop)")
  case True
  then obtain cp bin where stop: "ps_collection_point_id stop = Some cp" "ps_bin_id stop = Some bin"
    and b: "b = ensure_bin_stop ids (tr_unique_id t) cp bin (ps_sequence stop) a"
    using assms(1) by (auto simp: clone_stop_def split: option.splits)
  show ?thesis
  proof (cases "s \<in> set (td_bins (fst a))")
    case False
    obtain db k where a: "a = (db, k)" by fastforce
    have "s = blank_bin_stop ids (tr_unique_id t) cp bin (ps_sequence stop)"
      using assms(2) False by (simp add: b a ensure_bin_stop_def split: if_splits)
    then show ?thesis using stop by (simp add: blank_bin_stop_def)
  qed simp
next
  case False
  have same: "td_bins (fst (create_daily_household_collections ids t stop a)) = td_bins (fst a)"
    unfolding create_daily_household_collections_def Let_def
    by (rule bins_fold) (simp only: split_beta bins_ensure_household)
  show ?thesis using assms False by (auto simp: clone_stop_def same split: if_splits)
qed

lemma clone_stops_bins:
  assumes "fold (clone_stop ids t) stops (Some a) = Some b" and "s \<in> set (td_bins (fst b))"
    and "s \<notin> set (td_bins (fst a))"
  shows "\<exists>stop\<in>set stops. ps_collection_point_id stop = Some (bs_collection_point_id s) \<and> ps_bin_id stop = Some (bs_bin_id s)"
  using assms
proof (induction stops arbitrary: a)
  case (Cons x xs)
  show ?case
  proof (cases "clone_stop ids t x (Some a)")
    case (Some a')
    then show ?thesis using Cons.prems Cons.IH [of a'] clone_stop_bins [OF Some, of s] by auto
  qed (use Cons.prems in simp)
qed simp

lemma insert_trip_bins:
  assumes "insert_trip ids t db = Some (t', db')" and "\<forall>s\<in>set (td_households db). hs_trip_assignment_id s \<noteq> tr_unique_id t"
    and "s \<in> set (td_bins db')" and "s \<notin> set (td_bins db)"
  shows "\<exists>stop\<in>set (plan_stops_of db t).
    ps_collection_point_id stop = Some (bs_collection_point_id s) \<and> ps_bin_id stop = Some (bs_bin_id s)"
proof -
  let ?t = "with_plan_defaults db t"
  let ?db = "db\<lparr>td_trips := td_trips db @ [?t]\<rparr>"
  have drop: "drop_outside_wards ?t ?db = ?db"
    using assms(2) by (simp add: drop_outside_wards_def Let_def)
  obtain k where "sync_daily_assignment_stops_from_plan ids ?t ?db = Some (db', k)"
    using assms(1) by (auto simp: insert_trip_def Let_def)
  then consider "db' = ?db" | "fold (clone_stop ids ?t) (plan_stops_of ?db ?t) (Some (?db, 0)) = Some (db', k)"
    by (auto simp: sync_daily_assignment_stops_from_plan_def drop split: if_splits)
  then show ?thesis
  proof cases
    case 2
    have "plan_stops_of ?db ?t = plan_stops_of db t" by (rule plan_stops_of_cong) simp_all
    with clone_stops_bins [OF 2, of s] assms(3,4) show ?thesis by simp
  qed (use assms(3,4) in simp)
qed

text \<open>The continuation after a breakdown only has the stops of the plan: a pending bin stop outside
  it (one added to the trip later, or taken off the plan) is stored as carried to the
  continuation, which has no such stop, although an approved re-trip would carry it.\<close>
theorem breakdown_drops_unplanned:
  assumes "create_breakdown_continuation dir ids now new_id source v a None st = Inr (cid, st')"
    and "unused_trip new_id (rs_db st)"
    and "x \<in> set (pending_bin_stops (rs_db st) (tr_unique_id source))"
    and "\<forall>stop. stop \<in> set (plan_stops_of (rs_db st) source) \<longrightarrow>
      \<not> (ps_collection_point_id stop = Some (bs_collection_point_id x) \<and> ps_bin_id stop = Some (bs_bin_id x))"
  shows "(\<forall>s. s \<in> set (td_bins (rs_db st')) \<and> bs_trip_assignment_id s = cid \<longrightarrow> stop_pair s \<noteq> stop_pair x)
    \<and> (\<exists>s. s \<in> set (td_bins (rs_db st')) \<and> bs_unique_id s = bs_unique_id x
         \<and> bs_trip_assignment_id s = tr_unique_id source \<and> bs_carried_to_assignment_id s = Some cid)"
proof -
  let ?db = "rs_db st"
  let ?bins = "pending_bin_stops ?db (tr_unique_id source)"
  let ?households = "pending_household_stops ?db (tr_unique_id source)"
  let ?cont = "continuation_of new_id now v a
    (Some (''Vehicle Breakdown continuation of '' @ tr_unique_id source)) source"
  obtain cont db1 where ins: "insert_trip ids ?cont ?db = Some (cont, db1)" and cid: "cid = tr_unique_id cont"
    and db': "rs_db st' = point_source_stops cid ?bins ?households (prune_continuation cid ?bins ?households db1)"
    using assms(1) by (auto simp: create_breakdown_continuation_def Let_def split: if_splits option.splits)
  have fresh: "\<forall>s\<in>set (td_households ?db). hs_trip_assignment_id s \<noteq> tr_unique_id ?cont"
    using assms(2) by (simp add: unused_trip_def)
  note ext = extends_insert_trip [OF ins fresh]
  have id: "cid = new_id" using ext(1) cid by simp
  have bins': "td_bins (rs_db st') = map (point_bin cid ?bins) (filter (\<lambda>s. bs_trip_assignment_id s = cid \<longrightarrow>
      stop_pair s \<in> stop_pair ` set ?bins) (td_bins db1))"
    by (simp add: db' point_source_stops_def prune_continuation_def point_bin_def [abs_def])
  have "plan_stops_of ?db ?cont = plan_stops_of ?db source" by (rule plan_stops_of_cong) simp_all
  note plan = this
  have planned: "stop_pair s \<noteq> stop_pair x" if s: "s \<in> set (td_bins db1)" "bs_trip_assignment_id s = cid" for s
  proof
    assume same: "stop_pair s = stop_pair x"
    have "s \<notin> set (td_bins ?db)" using s(2) assms(2) id by (auto simp: unused_trip_def)
    from insert_trip_bins [OF ins fresh s(1) this] plan obtain stop where
      "stop \<in> set (plan_stops_of ?db source)" "ps_collection_point_id stop = Some (bs_collection_point_id s)"
      "ps_bin_id stop = Some (bs_bin_id s)" by auto
    with same assms(4) show False by auto
  qed
  have "x \<in> set (td_bins ?db)" "bs_trip_assignment_id x = tr_unique_id source"
    using assms(3) by (simp_all add: pending_bin_stops_def)
  then have x: "x \<in> set (td_bins db1)" "bs_trip_assignment_id x \<noteq> cid"
    using extends_reads(2) [OF ext(2)] assms(2) id by (auto simp: unused_trip_def)
  then have "point_bin cid ?bins x \<in> set (td_bins (rs_db st'))" by (simp add: bins')
  moreover have "bs_carried_to_assignment_id (point_bin cid ?bins x) = Some cid"
    using assms(3) by (simp add: point_bin_def)
  moreover have "\<forall>s. s \<in> set (td_bins (rs_db st')) \<and> bs_trip_assignment_id s = cid \<longrightarrow> stop_pair s \<noteq> stop_pair x"
  proof (intro allI impI)
    fix s assume "s \<in> set (td_bins (rs_db st')) \<and> bs_trip_assignment_id s = cid"
    then have "s \<in> set (td_bins (rs_db st'))" and c: "bs_trip_assignment_id s = cid" by simp_all
    then obtain y where y: "y \<in> set (td_bins db1)" "s = point_bin cid ?bins y"
      unfolding bins' set_map set_filter by blast
    with c planned [OF y(1)] show "stop_pair s \<noteq> stop_pair x" by simp
  qed
  ultimately show ?thesis
    using \<open>bs_trip_assignment_id x = tr_unique_id source\<close> by (intro conjI exI [of _ "point_bin cid ?bins x"]) simp_all
qed

section \<open>Applied to the sample\<close>

lemma sample_unused: "new_id \<noteq> ''T1'' \<Longrightarrow> unused_trip new_id (rs_db sample_state)"
  by (simp add: unused_trip_def sample_state_def bin_db_def waiting_bin_def)

lemma sample_plan_ok: "plan_ok (rs_db sample_state) (sample_trip [])"
  by (simp add: plan_ok_def sample_db_facts plan_stop_ok_def sample_plan_stop_def)

lemma sample_pending: "has_pending_stops (rs_db sample_state) ''T1''"
  by (simp add: has_pending_stops_def sample_db_facts)

lemma sample_carried: "carried_stops None (rs_db sample_state) (sample_trip []) = Inr ([waiting_bin], [])"
  by (simp add: carried_stops_def select_stops_def sample_db_facts)

lemma sample_keys: "stop_keys_distinct (rs_db sample_state)"
  by (simp add: stop_keys_distinct_def sample_state_def bin_db_def)

lemma sample_opened:
  obtains db where "open_continuation sample_ids 5 ''T2'' None (sample_trip []) (rs_db sample_state) = Inr (''T2'', db)"
proof -
  have "\<exists>p. open_continuation sample_ids 5 ''T2'' None (sample_trip []) (rs_db sample_state) = Inr p"
    by (simp only: open_continuation_Inr) (simp add: sample_carried sample_plan_ok)
  then show thesis using that open_continuation_id by (metis prod.collapse)
qed

lemma approve_carries_exactly_witness:
  "\<exists>db. open_continuation sample_ids 5 ''T2'' None (sample_trip []) (rs_db sample_state) = Inr (''T2'', db)
    \<and> stop_pair ` {s. s \<in> set (td_bins db) \<and> bs_trip_assignment_id s = ''T2''} = {(''CP'', ''BIN'')}
    \<and> {s. s \<in> set (td_households db) \<and> hs_trip_assignment_id s = ''T2''} = {}"
proof -
  obtain db where o: "open_continuation sample_ids 5 ''T2'' None (sample_trip []) (rs_db sample_state) = Inr (''T2'', db)"
    by (rule sample_opened)
  have "unused_trip ''T2'' (rs_db sample_state)" by (rule sample_unused) simp
  from approve_carries_exactly [OF o sample_carried this sample_keys] o show ?thesis
    by (auto simp: sample_db_facts(5))
qed

lemma approval_closes_source_witness:
  "\<exists>db. open_continuation sample_ids 5 ''T2'' None (sample_trip []) (rs_db sample_state) = Inr (''T2'', db)
    \<and> pending_bin_stops db ''T1'' = [point_bin ''T2'' [waiting_bin] waiting_bin]"
proof -
  obtain db where o: "open_continuation sample_ids 5 ''T2'' None (sample_trip []) (rs_db sample_state) = Inr (''T2'', db)"
    by (rule sample_opened)
  have "unused_trip ''T2'' (rs_db sample_state)" by (rule sample_unused) simp
  from approval_closes_source [OF o sample_carried this] o show ?thesis
    by (auto simp: sample_db_facts)
qed

lemma approve_succeeds_iff_witness:
  "(\<exists>st'. approve_retrip no_env sample_directory sample_ids 60 61 ''T2'' ''R1'' None None None sample_state
      = Inr (Some ''T2'', st'))
   \<and> \<not> (\<exists>st'. approve_retrip no_env sample_directory sample_ids 60 61 ''T2'' ''R1'' None (Some [''B9'']) None sample_state
      = Inr (Some ''T2'', st'))"
proof -
  have t: "find_trip (rs_db sample_state) (rr_assignment_id sample_request) = Some (sample_trip [])"
    by (simp add: sample_facts sample_db_facts)
  have "60 < deadline_for no_env sample_request" "61 < deadline_for no_env sample_request"
    by (simp_all add: sample_facts)
  note iff = approve_succeeds_iff [OF sample_facts(1,2) this t, of sample_directory sample_ids "''T2''"]
  show ?thesis by (simp add: iff sample_pending sample_plan_ok sample_db_facts)
qed

lemma end_trip_outcome_witness:
  "length (waiting ''T1'' (snd (end_trip no_env sample_directory 60 ''R2'' None '' full '' (sample_trip []) sample_state))) \<le> 1"
proof -
  have "length (waiting (tr_unique_id (sample_trip [])) sample_state) \<le> 1"
    by (simp add: waiting_def sample_state_def)
  from end_trip_outcome [OF _ _ sample_facts(5) this, of no_env sample_directory 60 "''R2''" None "'' full ''"]
  show ?thesis by (simp add: prod_eq_iff)
qed

lemma raced_approval_answers_400_witness:
  "approve_view True (Some sample_request)
     (approve_retrip no_env sample_directory sample_ids 60 61 ''T2'' ''R1'' None None None rejected_state) = 400"
  using raced_approval_answers_400 [OF rejected_facts(1,3) sample_facts(2)] by blast

lemma closed_trip_continued_again_witness:
  "\<exists>u st' st''. proceed_to_next_trip no_env sample_directory sample_ids 60 60 60 ''R2'' ''T2'' (sample_trip []) None None
       ''full'' sample_state = Inr ((u, Some ''T2''), st')
     \<and> approve_retrip no_env sample_directory sample_ids 90 90 ''T3'' ''R1'' None None None st' = Inr (Some ''T3'', st'')"
proof -
  obtain q st1 where q: "request_retrip no_env sample_directory 60 ''R2'' None ''full'' (sample_trip []) sample_state = (q, st1)"
    by fastforce
  have new: "''R2'' \<notin> rr_unique_id ` set (rs_requests sample_state)" by (simp add: sample_facts(6))
  note raised = request_effect [OF q new]
  have "rr_status q = RetripPending" "rr_assignment_id q = ''T1''" "deadline_for no_env q = 1860"
    using q by (auto simp: request_retrip_def Let_def deadline_for_def timeout_minutes_def minutes_of_def no_env_def)
  then have "\<exists>st'. approve_retrip no_env sample_directory sample_ids 60 60 ''T2'' ''R2'' None None (Some ''full'') st1
      = Inr (Some ''T2'', st')"
    using approve_succeeds_iff [OF raised(4), of 60 no_env 60 "sample_trip []" sample_directory sample_ids "''T2''" None None "Some ''full''"]
    by (simp add: is_pending_def raised(3) sample_db_facts(1) sample_pending sample_plan_ok)
  then obtain st' where "approve_retrip no_env sample_directory sample_ids 60 60 ''T2'' ''R2'' None None (Some ''full'') st1
      = Inr (Some ''T2'', st')" by blast
  then have p: "proceed_to_next_trip no_env sample_directory sample_ids 60 60 60 ''R2'' ''T2'' (sample_trip []) None None
       ''full'' sample_state = Inr ((''R2'', Some ''T2''), st')"
    using raised(5) by (simp add: proceed_to_next_trip_def q)
  have "unused_trip ''T2'' (rs_db sample_state)" by (rule sample_unused) simp
  from closed_trip_continued_again [OF sample_facts(1,2) _ _ p new this, of 90 90] p show ?thesis
    by (simp add: sample_facts sample_db_facts(1))
qed

definition extra_bin :: bin_stop where
  "extra_bin = blank_bin_stop sample_ids ''T1'' ''CP9'' ''BIN9'' 2"

definition extra_state :: retrip_state where
  "extra_state = \<lparr>rs_db = bin_db\<lparr>td_bins := [extra_bin]\<rparr>, rs_requests = [], rs_alerts = []\<rparr>"

lemma breakdown_drops_unplanned_witness:
  "\<exists>st' s. create_breakdown_continuation sample_directory sample_ids 5 ''T2'' (sample_trip []) (Some ''V2'') None None
      extra_state = Inr (''T2'', st')
    \<and> s \<in> set (td_bins (rs_db st')) \<and> bs_carried_to_assignment_id s = Some ''T2''
    \<and> (\<forall>x. x \<in> set (td_bins (rs_db st')) \<and> bs_trip_assignment_id x = ''T2'' \<longrightarrow> stop_pair x \<noteq> (''CP9'', ''BIN9''))"
proof -
  let ?source = "sample_trip []"
  let ?cont = "continuation_of ''T2'' 5 (Some ''V2'') None
    (Some (''Vehicle Breakdown continuation of '' @ tr_unique_id ?source)) ?source"
  have pend: "pending_bin_stops (rs_db extra_state) ''T1'' = [extra_bin]"
    and none: "pending_household_stops (rs_db extra_state) ''T1'' = []"
    and pair: "stop_pair extra_bin = (''CP9'', ''BIN9'')"
    by (simp_all add: pending_bin_stops_def pending_household_stops_def extra_state_def bin_db_def extra_bin_def
        blank_bin_stop_def)
  have plan: "plan_stops_of (rs_db extra_state) ?source = [sample_plan_stop BinCollection (Some ''CP'') (Some ''BIN'') None]"
    using sample_db_facts(6) plan_stops_of_cong [of "rs_db extra_state" "rs_db sample_state" ?source ?source]
    by (simp add: extra_state_def sample_state_def)
  have "plan_stops_of (rs_db extra_state) ?cont = plan_stops_of (rs_db extra_state) ?source"
    by (rule plan_stops_of_cong) simp_all
  then have "plan_ok (rs_db extra_state) ?cont"
    using plan by (simp add: plan_ok_def plan_stop_ok_def sample_plan_stop_def)
  then obtain cont db1 where ins: "insert_trip sample_ids ?cont (rs_db extra_state) = Some (cont, db1)"
    using insert_trip_None [of sample_ids ?cont "rs_db extra_state"] by fastforce
  then have "tr_unique_id cont = ''T2''" by (auto simp: insert_trip_def Let_def)
  with ins pend none obtain st' where c: "create_breakdown_continuation sample_directory sample_ids 5 ''T2''
      ?source (Some ''V2'') None None extra_state = Inr (''T2'', st')"
    by (simp add: create_breakdown_continuation_def Let_def)
  have "unused_trip ''T2'' (rs_db extra_state)"
    by (simp add: unused_trip_def extra_state_def bin_db_def extra_bin_def)
  from breakdown_drops_unplanned [OF c this, of extra_bin] pair
  show ?thesis using c by (simp add: pend plan sample_plan_stop_def) blast
qed

end
