(* ===== verification/Service_Notice.thy ===== *)
theory Service_Notice
  imports Trip_Stops
begin

text \<open>
  The notices that cancel a trip plan for a day (\<open>app/services/daily_service_notice.py\<close>).

  The plans stand newest first, the order \<open>TripPlan.Meta.ordering\<close> reads them in; the rows of every
  other table in the order they were created, a new row at the end. \<open>PlanMissing\<close> and
  \<open>NoticeMissing\<close> stand for \<open>DoesNotExist\<close>. Ids come from generators: \<open>new_trip\<close> and
  \<open>new_notice\<close> answer with the id of the next row of the table they are given. Message texts,
  the geography of a notice and the audit columns other than those named are left out.
\<close>

section \<open>Notices\<close>

definition REASON_CHOICES :: "(string \<times> string) list" where
  "REASON_CHOICES =
     [(''WEATHER'', ''Severe weather''), (''FLOOD'', ''Flooding''), (''HOLIDAY'', ''Public holiday''),
      (''STAFF_UNAVAILABLE'', ''Staff unavailable''), (''VEHICLE_TECHNICAL'', ''Vehicle or technical issue''),
      (''SAFETY'', ''Safety issue''), (''OTHER'', ''Other'')]"

datatype notice_status = NoticeActive | NoticeRevoked

record notice =
  dn_unique_id :: ident
  dn_trip_plan_id :: ident
  dn_supervisor_id :: "ident option"
  dn_service_date :: int
  dn_status :: notice_status
  dn_reason_code :: string
  dn_reason_text :: string
  dn_recipient_staff_ids :: "ident list"
  dn_recipient_customer_ids :: "ident list"
  dn_staff_notified_count :: nat
  dn_customer_notified_count :: nat
  dn_notification_failed_count :: nat
  dn_notified_at :: "int option"
  dn_revoked_at :: "int option"
  dn_revoked_by_id :: "ident option"
  dn_revoked_reason :: string
  dn_is_deleted :: bool

record service_template =
  sv_unique_id :: ident
  sv_driver_id :: ident
  sv_operator_id :: ident
  sv_extra_operator_id :: "ident list"
  sv_is_deleted :: bool

datatype service_alert =
    NoCollectionStaff ident ident | NoCollectionCustomer ident ident
  | RestoredStaff ident ident | RestoredCustomer ident ident

text \<open>\<open>sd_staff\<close>: the ids of the staff rows that are active and not deleted.\<close>

record service_db =
  sd_trips :: trip_db
  sd_notices :: "notice list"
  sd_templates :: "service_template list"
  sd_staff :: "ident list"
  sd_sent :: "service_alert list"

record service_ids =
  si_stops :: stop_ids
  new_trip :: "trip_db \<Rightarrow> ident"
  new_notice :: "notice list \<Rightarrow> ident"

datatype service_error =
    PlanMissing | InvalidReason | ExplanationMissing | AlreadyStarted | NoticeMissing | NoticeInactive
  | NoCollectionDeclared | ServiceDatabaseError

definition find_plan :: "service_db \<Rightarrow> ident \<Rightarrow> trip_plan option" where
  "find_plan sd uid = find (\<lambda>p. tp_unique_id p = uid) (td_plans (sd_trips sd))"

definition is_active_notice :: "ident \<Rightarrow> int \<Rightarrow> notice \<Rightarrow> bool" where
  "is_active_notice plan_id date n \<longleftrightarrow>
     dn_trip_plan_id n = plan_id \<and> dn_service_date n = date \<and> dn_status n = NoticeActive \<and> \<not> dn_is_deleted n"

definition active_notice_for_plan :: "service_db \<Rightarrow> ident \<Rightarrow> int \<Rightarrow> notice option" where
  "active_notice_for_plan sd plan_id date = find (is_active_notice plan_id date) (sd_notices sd)"

section \<open>Who is told\<close>

definition staff_ids :: "service_db \<Rightarrow> trip_plan \<Rightarrow> ident list" where
  "staff_ids sd p =
     (let supervisor = (if truthy (tp_supervisor_id p) then [the (tp_supervisor_id p)] else []);
          template = find (\<lambda>t. sv_unique_id t = tp_staff_template_id p \<and> \<not> sv_is_deleted t) (sd_templates sd);
          team = (case template of None \<Rightarrow> []
            | Some t \<Rightarrow> filter (\<lambda>i. i \<noteq> []) ([sv_driver_id t, sv_operator_id t] @ sv_extra_operator_id t))
      in sort (remdups (supervisor @ team)))"

definition customer_ids :: "service_db \<Rightarrow> trip_plan \<Rightarrow> ident list" where
  "customer_ids sd p =
     (if tp_collection_type p \<notin> {HouseholdCollection, BulkCollection} then []
      else
        let db = sd_trips sd;
            stops = filter (\<lambda>s. ps_trip_plan_id s = tp_unique_id p \<and> ps_collection_type s = tp_collection_type p
              \<and> ps_is_active s \<and> \<not> ps_is_deleted s) (td_plan_stops db);
            wards = filter (\<lambda>w. w \<in> set (tp_ward_ids p)) (td_ward_ids db)
        in sort (remdups (concat (map (\<lambda>s. map cu_unique_id
             (customers_for_household_stop db s (Some (tp_geo p)) wards)) stops))))"

definition active_staff :: "service_db \<Rightarrow> ident list \<Rightarrow> ident list" where
  "active_staff sd wanted = filter (\<lambda>i. i \<in> set wanted) (sd_staff sd)"

definition active_customers :: "service_db \<Rightarrow> ident list \<Rightarrow> ident list" where
  "active_customers sd wanted = map cu_unique_id
     (filter (\<lambda>c. cu_unique_id c \<in> set wanted \<and> \<not> cu_is_deleted c \<and> cu_is_active c) (td_customers (sd_trips sd)))"

section \<open>Who sees it\<close>

text \<open>The newest notice of the date that names the customer, and all that name the staff member.\<close>

definition notices_of :: "service_db \<Rightarrow> int \<Rightarrow> notice list" where
  "notices_of sd date = filter (\<lambda>n. dn_service_date n = date \<and> dn_status n = NoticeActive \<and> \<not> dn_is_deleted n)
     (sd_notices sd)"

definition notice_for_customer :: "service_db \<Rightarrow> ident option \<Rightarrow> int \<Rightarrow> notice option" where
  "notice_for_customer sd customer date =
     (if \<not> truthy customer then None
      else find (\<lambda>n. the customer \<in> set (dn_recipient_customer_ids n)) (rev (notices_of sd date)))"

definition notices_for_staff :: "service_db \<Rightarrow> ident option \<Rightarrow> int \<Rightarrow> notice list" where
  "notices_for_staff sd staff date =
     (if \<not> truthy staff then []
      else filter (\<lambda>n. the staff \<in> set (dn_recipient_staff_ids n)) (notices_of sd date))"

section \<open>Declaring and revoking\<close>

text \<open>The trips of a plan on a date.\<close>

definition day_trip :: "ident \<Rightarrow> int \<Rightarrow> trip \<Rightarrow> bool" where
  "day_trip plan_id date t \<longleftrightarrow>
     tr_trip_plan_id t = plan_id \<and> tr_trip_date t = date \<and> \<not> tr_is_deleted t"

definition has_collection_activity :: "trip_db \<Rightarrow> ident \<Rightarrow> int \<Rightarrow> bool" where
  "has_collection_activity db plan_id date =
     (let ids = map tr_unique_id (filter (day_trip plan_id date) (td_trips db))
      in list_ex (\<lambda>s. bs_trip_assignment_id s \<in> set ids \<and> \<not> bs_is_deleted s \<and> bs_is_collected s) (td_bins db)
         \<or> list_ex (\<lambda>s. hs_trip_assignment_id s \<in> set ids \<and> \<not> hs_is_deleted s \<and> hs_is_collected s) (td_households db))"

definition NO_COLLECTION_PREFIX :: string where
  "NO_COLLECTION_PREFIX = ''No collection today:''"

definition cancel_scheduled :: "ident \<Rightarrow> int \<Rightarrow> string \<Rightarrow> trip_db \<Rightarrow> trip_db" where
  "cancel_scheduled plan_id date detail db =
     db\<lparr>td_trips := map (\<lambda>t. if day_trip plan_id date t \<and> tr_status t = TripScheduled
          then t\<lparr>tr_status := TripCancelled, tr_remarks := Some (NO_COLLECTION_PREFIX @ '' '' @ detail)\<rparr>
          else t) (td_trips db)\<rparr>"

definition starts_with :: "string \<Rightarrow> string \<Rightarrow> bool" where
  "starts_with p s \<longleftrightarrow> take (length p) s = p"

definition restore_cancelled :: "ident \<Rightarrow> int \<Rightarrow> string \<Rightarrow> trip_db \<Rightarrow> trip_db" where
  "restore_cancelled plan_id date reason db =
     db\<lparr>td_trips := map (\<lambda>t. if day_trip plan_id date t \<and> tr_status t = TripCancelled
          \<and> (case tr_remarks t of None \<Rightarrow> False | Some r \<Rightarrow> starts_with NO_COLLECTION_PREFIX r)
          then t\<lparr>tr_status := TripScheduled, tr_remarks := Some (''Service restored: '' @
            (if reason = [] then ''No-collection notice withdrawn'' else reason))\<rparr>
          else t) (td_trips db)\<rparr>"

text \<open>\<open>_dispatch_notice\<close>, run after the commit; \<open>push\<close> says whether a push was queued.\<close>

definition dispatch_notice :: "(ident \<Rightarrow> bool) \<Rightarrow> int \<Rightarrow> ident \<Rightarrow> service_db \<Rightarrow> service_db" where
  "dispatch_notice push now uid sd =
     (case find (\<lambda>n. dn_unique_id n = uid) (sd_notices sd) of
        None \<Rightarrow> sd
      | Some n \<Rightarrow>
          if dn_status n \<noteq> NoticeActive then sd
          else
            let staff = active_staff sd (dn_recipient_staff_ids n);
                customers = active_customers sd (dn_recipient_customer_ids n)
            in sd\<lparr>sd_sent := sd_sent sd @ map (\<lambda>i. NoCollectionStaff i uid) staff
                    @ map (\<lambda>i. NoCollectionCustomer i uid) (filter push customers),
                  sd_notices := map (\<lambda>x. if dn_unique_id x = uid
                    then x\<lparr>dn_staff_notified_count := length staff,
                           dn_customer_notified_count := length (filter push customers),
                           dn_notification_failed_count := length (filter (\<lambda>c. \<not> push c) customers),
                           dn_notified_at := Some now\<rparr> else x) (sd_notices sd)\<rparr>)"

definition dispatch_restoration :: "(ident \<Rightarrow> bool) \<Rightarrow> ident \<Rightarrow> service_db \<Rightarrow> service_db" where
  "dispatch_restoration push uid sd =
     (case find (\<lambda>n. dn_unique_id n = uid) (sd_notices sd) of
        None \<Rightarrow> sd
      | Some n \<Rightarrow>
          if dn_status n \<noteq> NoticeRevoked then sd
          else sd\<lparr>sd_sent := sd_sent sd @ map (\<lambda>i. RestoredStaff i uid) (active_staff sd (dn_recipient_staff_ids n))
                 @ map (\<lambda>i. RestoredCustomer i uid) (filter push (active_customers sd (dn_recipient_customer_ids n)))\<rparr>)"

text \<open>\<open>update_or_create\<close> on the pair (plan, date).\<close>

definition store_notice :: "ident \<Rightarrow> ident \<Rightarrow> int \<Rightarrow> (notice \<Rightarrow> notice) \<Rightarrow> notice \<Rightarrow> notice list \<Rightarrow> ident \<times> notice list" where
  "store_notice new_id plan_id date f blank ns =
     (case find (\<lambda>n. dn_trip_plan_id n = plan_id \<and> dn_service_date n = date) ns of
        Some n \<Rightarrow> (dn_unique_id n, map (\<lambda>x. if dn_unique_id x = dn_unique_id n then f x else x) ns)
      | None \<Rightarrow> (new_id, ns @ [f blank]))"

definition declare_no_collection ::
  "service_ids \<Rightarrow> (ident \<Rightarrow> bool) \<Rightarrow> int \<Rightarrow> ident \<Rightarrow> int \<Rightarrow> string \<Rightarrow> string \<Rightarrow> service_db
     \<Rightarrow> service_error + ident \<times> service_db" where
  "declare_no_collection ids push now plan_id date reason_code reason_data sd =
     (case find_plan sd plan_id of
        None \<Rightarrow> Inl PlanMissing
      | Some p \<Rightarrow>
     (case map_of REASON_CHOICES reason_code of
        None \<Rightarrow> Inl InvalidReason
      | Some label \<Rightarrow>
          let reason_text = py_strip reason_data
          in if reason_code = ''OTHER'' \<and> reason_text = [] then Inl ExplanationMissing
             else case active_notice_for_plan sd plan_id date of
               Some existing \<Rightarrow> Inr (dn_unique_id existing, sd)
             | None \<Rightarrow>
                 if list_ex (\<lambda>t. day_trip plan_id date t \<and> tr_status t \<in> {TripInProgress, TripCompleted})
                      (td_trips (sd_trips sd))
                   \<or> has_collection_activity (sd_trips sd) plan_id date
                 then Inl AlreadyStarted
                 else
                   let db = cancel_scheduled plan_id date (if reason_text = [] then label else reason_text) (sd_trips sd);
                       fill = (\<lambda>n. n\<lparr>dn_supervisor_id := tp_supervisor_id p, dn_status := NoticeActive,
                         dn_reason_code := reason_code, dn_reason_text := reason_text,
                         dn_recipient_staff_ids := staff_ids sd p, dn_recipient_customer_ids := customer_ids sd p,
                         dn_staff_notified_count := 0, dn_customer_notified_count := 0,
                         dn_notification_failed_count := 0, dn_notified_at := None, dn_revoked_at := None,
                         dn_revoked_by_id := None, dn_revoked_reason := [], dn_is_deleted := False\<rparr>);
                       blank = \<lparr>dn_unique_id = new_notice ids (sd_notices sd), dn_trip_plan_id = plan_id,
                         dn_supervisor_id = None, dn_service_date = date, dn_status = NoticeActive,
                         dn_reason_code = reason_code, dn_reason_text = [], dn_recipient_staff_ids = [],
                         dn_recipient_customer_ids = [], dn_staff_notified_count = 0,
                         dn_customer_notified_count = 0, dn_notification_failed_count = 0,
                         dn_notified_at = None, dn_revoked_at = None, dn_revoked_by_id = None,
                         dn_revoked_reason = [], dn_is_deleted = False\<rparr>;
                       (uid, notices) = store_notice (new_notice ids (sd_notices sd)) plan_id date fill blank (sd_notices sd)
                   in Inr (uid, dispatch_notice push now uid (sd\<lparr>sd_trips := db, sd_notices := notices\<rparr>))))"

definition revoke_no_collection ::
  "(ident \<Rightarrow> bool) \<Rightarrow> int \<Rightarrow> ident option \<Rightarrow> string \<Rightarrow> ident \<Rightarrow> service_db \<Rightarrow> service_error + service_db" where
  "revoke_no_collection push now actor reason uid sd =
     (case find (\<lambda>n. dn_unique_id n = uid) (sd_notices sd) of
        None \<Rightarrow> Inl NoticeMissing
      | Some n \<Rightarrow>
          if dn_status n \<noteq> NoticeActive then Inl NoticeInactive
          else
            let sd' = sd\<lparr>sd_notices := map (\<lambda>x. if dn_unique_id x = uid
                    then x\<lparr>dn_status := NoticeRevoked, dn_revoked_at := Some now, dn_revoked_by_id := actor,
                           dn_revoked_reason := py_strip reason\<rparr> else x) (sd_notices sd),
                  sd_trips := restore_cancelled (dn_trip_plan_id n) (dn_service_date n) (py_strip reason) (sd_trips sd)\<rparr>
            in Inr (dispatch_restoration push uid sd'))"

section \<open>One notice per plan and day\<close>

definition notice_day :: "notice \<Rightarrow> ident \<times> int" where
  "notice_day n = (dn_trip_plan_id n, dn_service_date n)"

text \<open>The primary key and the unique constraint of the table.\<close>

definition notice_keys :: "notice list \<Rightarrow> bool" where
  "notice_keys ns \<longleftrightarrow> distinct (map dn_unique_id ns) \<and> distinct (map notice_day ns)"

definition noticed :: "service_db \<Rightarrow> ident \<Rightarrow> int \<Rightarrow> bool" where
  "noticed sd plan_id date \<longleftrightarrow> (\<exists>n\<in>set (sd_notices sd). is_active_notice plan_id date n)"

lemma active_notice_None: "active_notice_for_plan sd plan_id date = None \<longleftrightarrow> \<not> noticed sd plan_id date"
  by (auto simp: active_notice_for_plan_def noticed_def find_None_iff)

lemma active_notice_Some: "active_notice_for_plan sd plan_id date = Some n \<Longrightarrow> n \<in> set (sd_notices sd) \<and> is_active_notice plan_id date n"
  by (auto simp: active_notice_for_plan_def find_Some_iff)

text \<open>What the pushes of a notice leave alone.\<close>

definition notice_view ::
  "notice \<Rightarrow> ident \<times> (ident \<times> int) \<times> notice_status \<times> bool \<times> ident list \<times> ident list" where
  "notice_view n = (dn_unique_id n, notice_day n, dn_status n, dn_is_deleted n,
     dn_recipient_staff_ids n, dn_recipient_customer_ids n)"

definition same_notices :: "service_db \<Rightarrow> service_db \<Rightarrow> bool" where
  "same_notices sd sd' \<longleftrightarrow> map notice_view (sd_notices sd') = map notice_view (sd_notices sd)"

lemma dispatch_same [simp]:
  "same_notices sd (dispatch_notice push now uid sd)" "sd_trips (dispatch_notice push now uid sd) = sd_trips sd"
  "sd_notices (dispatch_restoration push uid sd) = sd_notices sd"
  "sd_trips (dispatch_restoration push uid sd) = sd_trips sd"
  by (simp_all add: same_notices_def dispatch_notice_def dispatch_restoration_def Let_def notice_view_def
      notice_day_def split: option.splits)

lemma same_notices_view:
  assumes "same_notices sd sd'"
  shows "P \<circ> notice_view = Q \<Longrightarrow> (\<exists>n\<in>set (sd_notices sd'). Q n) \<longleftrightarrow> (\<exists>n\<in>set (sd_notices sd). Q n)"
    and "g \<circ> notice_view = h \<Longrightarrow> map h (sd_notices sd') = map h (sd_notices sd)"
proof -
  have *: "map notice_view (sd_notices sd') = map notice_view (sd_notices sd)"
    using assms by (simp add: same_notices_def)
  show "map h (sd_notices sd') = map h (sd_notices sd)" if "g \<circ> notice_view = h"
    using arg_cong [OF *, of "map g"] that by simp
  show "(\<exists>n\<in>set (sd_notices sd'). Q n) \<longleftrightarrow> (\<exists>n\<in>set (sd_notices sd). Q n)" if "P \<circ> notice_view = Q"
    using arg_cong [OF *, of "\<lambda>vs. \<exists>v\<in>set vs. P v"] that by (auto simp: comp_def)
qed

lemma same_notices_noticed: "same_notices sd sd' \<Longrightarrow> noticed sd' p d \<longleftrightarrow> noticed sd p d"
  unfolding noticed_def
  by (rule same_notices_view(1) [where P = "\<lambda>(i, k, s, del, _, _). k = (p, d) \<and> s = NoticeActive \<and> \<not> del"])
    (auto simp: fun_eq_iff notice_view_def notice_day_def is_active_notice_def)

lemma same_notices_keys: "same_notices sd sd' \<Longrightarrow> notice_keys (sd_notices sd') \<longleftrightarrow> notice_keys (sd_notices sd)"
  unfolding notice_keys_def
  using same_notices_view(2) [of sd sd' fst dn_unique_id] same_notices_view(2) [of sd sd' "fst \<circ> snd" notice_day]
  by (simp add: fun_eq_iff notice_view_def)

text \<open>The row that \<open>update_or_create\<close> writes, and the rows it leaves.\<close>

lemma store_notice_rows:
  assumes stored: "store_notice new_id p d f blank ns = (uid, ns')"
    and keys: "notice_keys ns" and fresh: "new_id \<notin> dn_unique_id ` set ns"
    and blank: "dn_unique_id blank = new_id" "notice_day blank = (p, d)"
    and f: "\<And>n. dn_unique_id (f n) = dn_unique_id n \<and> notice_day (f n) = notice_day n"
  shows "notice_keys ns'" and "\<exists>n. f n \<in> set ns' \<and> dn_unique_id n = uid \<and> notice_day n = (p, d)"
    and "\<And>m. notice_day m \<noteq> (p, d) \<Longrightarrow> m \<in> set ns' \<longleftrightarrow> m \<in> set ns"
proof -
  let ?found = "find (\<lambda>n. dn_trip_plan_id n = p \<and> dn_service_date n = d) ns"
  have "notice_keys ns' \<and> (\<exists>n. f n \<in> set ns' \<and> dn_unique_id n = uid \<and> notice_day n = (p, d))
      \<and> (\<forall>m. notice_day m \<noteq> (p, d) \<longrightarrow> m \<in> set ns' \<longleftrightarrow> m \<in> set ns)"
  proof (cases ?found)
    case None
    then have "uid = new_id" "ns' = ns @ [f blank]" using stored by (simp_all add: store_notice_def)
    moreover have "(p, d) \<notin> notice_day ` set ns" using None by (auto simp: find_None_iff notice_day_def)
    ultimately show ?thesis using keys fresh blank f by (auto simp: notice_keys_def)
  next
    case (Some n)
    then have n: "n \<in> set ns" "notice_day n = (p, d)" by (auto simp: find_Some_iff notice_day_def)
    from Some stored have uid: "uid = dn_unique_id n"
      and ns': "ns' = map (\<lambda>x. if dn_unique_id x = dn_unique_id n then f x else x) ns"
      by (auto simp: store_notice_def)
    have one: "x = n" if "x \<in> set ns" "dn_unique_id x = dn_unique_id n" for x
      using that n(1) keys by (auto simp: notice_keys_def distinct_map inj_on_def)
    have "map dn_unique_id ns' = map dn_unique_id ns" "map notice_day ns' = map notice_day ns"
      using f by (auto simp: ns')
    then have "notice_keys ns'" using keys by (simp add: notice_keys_def)
    moreover have "f n \<in> set ns'" using n(1) by (force simp: ns')
    moreover have "m \<in> set ns' \<longleftrightarrow> m \<in> set ns" if "notice_day m \<noteq> (p, d)" for m
      using that n f one by (auto simp: ns' image_iff) metis+
    ultimately show ?thesis using n(2) uid by blast
  qed
  then show "notice_keys ns'" and "\<exists>n. f n \<in> set ns' \<and> dn_unique_id n = uid \<and> notice_day n = (p, d)"
    and "\<And>m. notice_day m \<noteq> (p, d) \<Longrightarrow> m \<in> set ns' \<longleftrightarrow> m \<in> set ns" by blast+
qed

section \<open>What a declaration does\<close>

definition started :: "trip_db \<Rightarrow> ident \<Rightarrow> int \<Rightarrow> bool" where
  "started db plan_id date \<longleftrightarrow>
     (\<exists>t\<in>set (td_trips db). day_trip plan_id date t \<and> tr_status t \<in> {TripInProgress, TripCompleted})
     \<or> has_collection_activity db plan_id date"

lemma declare_errors:
  "declare_no_collection ids push now plan_id date code words sd =
     (case find_plan sd plan_id of
        None \<Rightarrow> Inl PlanMissing
      | Some p \<Rightarrow>
          if code \<notin> fst ` set REASON_CHOICES then Inl InvalidReason
          else if code = ''OTHER'' \<and> py_strip words = [] then Inl ExplanationMissing
          else if \<not> noticed sd plan_id date \<and> started (sd_trips sd) plan_id date then Inl AlreadyStarted
          else declare_no_collection ids push now plan_id date code words sd)"
proof (cases "map_of REASON_CHOICES code")
  case None
  then have "code \<notin> fst ` set REASON_CHOICES" by (simp add: map_of_eq_None_iff)
  with None show ?thesis by (simp add: declare_no_collection_def split: option.splits)
next
  case (Some label)
  then have code: "code \<in> fst ` set REASON_CHOICES" by (metis domI dom_map_of_conv_image_fst)
  show ?thesis
  proof (cases "find_plan sd plan_id")
    case (Some p)
    have "started (sd_trips sd) plan_id date \<longleftrightarrow>
        list_ex (\<lambda>t. day_trip plan_id date t \<and> tr_status t \<in> {TripInProgress, TripCompleted}) (td_trips (sd_trips sd))
        \<or> has_collection_activity (sd_trips sd) plan_id date"
      by (simp add: started_def list_ex_iff)
    moreover have "\<not> noticed sd plan_id date \<Longrightarrow> active_notice_for_plan sd plan_id date = None"
      by (simp add: active_notice_None)
    ultimately show ?thesis
      using \<open>map_of REASON_CHOICES code = Some label\<close> Some code
      by (simp add: declare_no_collection_def Let_def)
  qed (simp add: declare_no_collection_def)
qed

text \<open>With no active notice: the day's scheduled trips are cancelled and one active notice stands.\<close>

lemma declare_effect:
  assumes run: "declare_no_collection ids push now plan_id date code words sd = Inr (uid, sd1)"
    and new: "\<not> noticed sd plan_id date"
    and keys: "notice_keys (sd_notices sd)" and fresh: "new_notice ids (sd_notices sd) \<notin> dn_unique_id ` set (sd_notices sd)"
  shows "\<not> started (sd_trips sd) plan_id date"
    and "\<exists>detail. sd_trips sd1 = cancel_scheduled plan_id date detail (sd_trips sd)"
    and "notice_keys (sd_notices sd1)"
    and "\<exists>p n. find_plan sd plan_id = Some p \<and> n \<in> set (sd_notices sd1) \<and> dn_unique_id n = uid \<and> is_active_notice plan_id date n
      \<and> dn_recipient_staff_ids n = staff_ids sd p \<and> dn_recipient_customer_ids n = customer_ids sd p"
    and "\<And>p' d'. (p', d') \<noteq> (plan_id, date) \<Longrightarrow> noticed sd1 p' d' \<longleftrightarrow> noticed sd p' d'"
proof -
  show not_started: "\<not> started (sd_trips sd) plan_id date"
    using run declare_errors [of ids push now plan_id date code words sd] new
    by (auto split: option.splits if_splits)
  from run obtain p label where p: "find_plan sd plan_id = Some p" and label: "map_of REASON_CHOICES code = Some label"
    by (auto simp: declare_no_collection_def split: option.splits)
  let ?text = "py_strip words"
  let ?new = "new_notice ids (sd_notices sd)"
  let ?fill = "\<lambda>n. n\<lparr>dn_supervisor_id := tp_supervisor_id p, dn_status := NoticeActive,
      dn_reason_code := code, dn_reason_text := ?text, dn_recipient_staff_ids := staff_ids sd p,
      dn_recipient_customer_ids := customer_ids sd p, dn_staff_notified_count := 0, dn_customer_notified_count := 0,
      dn_notification_failed_count := 0, dn_notified_at := None, dn_revoked_at := None,
      dn_revoked_by_id := None, dn_revoked_reason := [], dn_is_deleted := False\<rparr>"
  let ?blank = "\<lparr>dn_unique_id = ?new, dn_trip_plan_id = plan_id, dn_supervisor_id = None, dn_service_date = date,
      dn_status = NoticeActive, dn_reason_code = code, dn_reason_text = [], dn_recipient_staff_ids = [],
      dn_recipient_customer_ids = [], dn_staff_notified_count = 0, dn_customer_notified_count = 0,
      dn_notification_failed_count = 0, dn_notified_at = None, dn_revoked_at = None,
      dn_revoked_by_id = None, dn_revoked_reason = [], dn_is_deleted = False\<rparr>"
  let ?db = "cancel_scheduled plan_id date (if ?text = [] then label else ?text) (sd_trips sd)"
  obtain ns where stored: "store_notice ?new plan_id date ?fill ?blank (sd_notices sd) = (uid, ns)"
    and sd1: "sd1 = dispatch_notice push now uid (sd\<lparr>sd_trips := ?db, sd_notices := ns\<rparr>)"
    using run p label new unfolding active_notice_None[symmetric] declare_no_collection_def
    by (auto simp: Let_def split: if_splits prod.splits)
  have rows: "notice_keys ns" "\<exists>n. ?fill n \<in> set ns \<and> dn_unique_id n = uid \<and> notice_day n = (plan_id, date)"
    and others: "\<And>m. notice_day m \<noteq> (plan_id, date) \<Longrightarrow> m \<in> set ns \<longleftrightarrow> m \<in> set (sd_notices sd)"
    using store_notice_rows [OF stored keys fresh] by (simp_all add: notice_day_def)
  let ?sd = "sd\<lparr>sd_trips := ?db, sd_notices := ns\<rparr>"
  have same: "same_notices ?sd sd1" by (simp add: sd1)
  show "\<exists>detail. sd_trips sd1 = cancel_scheduled plan_id date detail (sd_trips sd)" by (auto simp: sd1)
  show "notice_keys (sd_notices sd1)" using rows(1) by (simp add: same_notices_keys [OF same])
  obtain n where n: "?fill n \<in> set ns" "dn_unique_id n = uid" "notice_day n = (plan_id, date)"
    using rows(2) by blast
  have "\<exists>m\<in>set (sd_notices ?sd). dn_unique_id m = uid \<and> is_active_notice plan_id date m
      \<and> dn_recipient_staff_ids m = staff_ids sd p \<and> dn_recipient_customer_ids m = customer_ids sd p"
    using n by (auto intro!: bexI [of _ "?fill n"] simp: is_active_notice_def notice_day_def)
  then have "\<exists>m\<in>set (sd_notices sd1). dn_unique_id m = uid \<and> is_active_notice plan_id date m
      \<and> dn_recipient_staff_ids m = staff_ids sd p \<and> dn_recipient_customer_ids m = customer_ids sd p"
    by (subst same_notices_view(1) [OF same, where P = "\<lambda>(i, k, s, del, ss, cs). i = uid \<and> k = (plan_id, date)
        \<and> s = NoticeActive \<and> \<not> del \<and> ss = staff_ids sd p \<and> cs = customer_ids sd p"])
      (auto simp: fun_eq_iff notice_view_def notice_day_def is_active_notice_def)
  with p show "\<exists>p n. find_plan sd plan_id = Some p \<and> n \<in> set (sd_notices sd1) \<and> dn_unique_id n = uid
      \<and> is_active_notice plan_id date n \<and> dn_recipient_staff_ids n = staff_ids sd p
      \<and> dn_recipient_customer_ids n = customer_ids sd p"
    by blast
  fix p' d' assume other: "(p', d') \<noteq> (plan_id, date)"
  have "is_active_notice p' d' m \<Longrightarrow> m \<in> set ns \<longleftrightarrow> m \<in> set (sd_notices sd)" for m
    using others [of m] other by (auto simp: is_active_notice_def notice_day_def)
  then have "noticed ?sd p' d' \<longleftrightarrow> noticed sd p' d'" by (auto simp: noticed_def)
  then show "noticed sd1 p' d' \<longleftrightarrow> noticed sd p' d'" by (simp add: same_notices_noticed [OF same])
qed

lemma noticed_dispatch: "noticed (dispatch_restoration push uid sd) p d = noticed sd p d"
  by (simp add: noticed_def)

lemma revoke_effect:
  assumes keys: "notice_keys (sd_notices sd)"
    and n: "n \<in> set (sd_notices sd)" "dn_unique_id n = uid" "dn_status n = NoticeActive"
  shows "\<exists>sd2. revoke_no_collection push now actor reason uid sd = Inr sd2
    \<and> sd_trips sd2 = restore_cancelled (dn_trip_plan_id n) (dn_service_date n) (py_strip reason) (sd_trips sd)
    \<and> notice_keys (sd_notices sd2)
    \<and> (\<forall>p d. noticed sd2 p d \<longleftrightarrow> noticed sd p d \<and> (p, d) \<noteq> notice_day n)"
proof -
  let ?revoke = "\<lambda>x. x\<lparr>dn_status := NoticeRevoked, dn_revoked_at := Some now, dn_revoked_by_id := actor,
      dn_revoked_reason := py_strip reason\<rparr>"
  define sd' where "sd' = sd\<lparr>sd_notices := map (\<lambda>x. if dn_unique_id x = uid then ?revoke x else x) (sd_notices sd),
      sd_trips := restore_cancelled (dn_trip_plan_id n) (dn_service_date n) (py_strip reason) (sd_trips sd)\<rparr>"
  then have sd': "sd_notices sd' = map (\<lambda>x. if dn_unique_id x = uid then ?revoke x else x) (sd_notices sd)"
    "sd_trips sd' = restore_cancelled (dn_trip_plan_id n) (dn_service_date n) (py_strip reason) (sd_trips sd)"
    by simp_all
  have "find (\<lambda>x. dn_unique_id x = uid) (sd_notices sd) = Some n"
    using n keys find_distinct [of dn_unique_id] by (auto simp: notice_keys_def)
  then have run: "revoke_no_collection push now actor reason uid sd = Inr (dispatch_restoration push uid sd')"
    using n(3) by (simp add: revoke_no_collection_def Let_def sd'_def)
  have one: "x = n" if "x \<in> set (sd_notices sd)" "dn_unique_id x = uid \<or> notice_day x = notice_day n" for x
    using that n(1,2) keys distinct_map_eq [of dn_unique_id "sd_notices sd" x n]
      distinct_map_eq [of notice_day "sd_notices sd" x n]
    unfolding notice_keys_def by metis
  have "map dn_unique_id (sd_notices sd') = map dn_unique_id (sd_notices sd)"
    "map notice_day (sd_notices sd') = map notice_day (sd_notices sd)"
    by (auto simp: sd' notice_day_def)
  then have "notice_keys (sd_notices sd')" using keys by (simp only: notice_keys_def)
  moreover have "noticed sd' p d \<longleftrightarrow> noticed sd p d \<and> (p, d) \<noteq> notice_day n" for p d
  proof -
    have "is_active_notice p d x \<and> dn_unique_id x \<noteq> uid \<longleftrightarrow> is_active_notice p d x \<and> (p, d) \<noteq> notice_day n"
      if "x \<in> set (sd_notices sd)" for x
      using one [OF that] n(2) by (auto simp: is_active_notice_def notice_day_def)
    moreover have "is_active_notice p d (if dn_unique_id x = uid then ?revoke x else x)
        \<longleftrightarrow> is_active_notice p d x \<and> dn_unique_id x \<noteq> uid" for x
      by (simp add: is_active_notice_def)
    ultimately have "(\<exists>x\<in>set (sd_notices sd). is_active_notice p d (if dn_unique_id x = uid then ?revoke x else x))
        \<longleftrightarrow> (\<exists>x\<in>set (sd_notices sd). is_active_notice p d x) \<and> (p, d) \<noteq> notice_day n"
      by blast
    then show ?thesis by (simp only: noticed_def sd'(1) set_map bex_simps)
  qed
  ultimately show ?thesis using run by (simp add: noticed_dispatch sd'(2))
qed

text \<open>No trip of the plan goes on that day.\<close>

definition cleared :: "trip_db \<Rightarrow> ident \<Rightarrow> int \<Rightarrow> bool" where
  "cleared db plan_id date \<longleftrightarrow>
     (\<forall>t\<in>set (td_trips db). day_trip plan_id date t \<longrightarrow> tr_status t = TripCancelled)"

lemma not_started_status:
  "\<not> started db p d \<Longrightarrow> t \<in> set (td_trips db) \<Longrightarrow> day_trip p d t \<Longrightarrow>
     tr_status t = TripScheduled \<or> tr_status t = TripCancelled"
  by (cases "tr_status t") (auto simp: started_def)

lemma day_trip_kept [simp]: "day_trip p d (t\<lparr>tr_status := s, tr_remarks := r\<rparr>) = day_trip p d t"
  by (simp add: day_trip_def)

lemma cancel_clears:
  assumes "\<not> started db p d"
  shows "cleared (cancel_scheduled p d detail db) p d"
  unfolding cleared_def cancel_scheduled_def
  using not_started_status [OF assms] by auto

lemma find_rev_exists: "x \<in> set xs \<Longrightarrow> P x \<Longrightarrow> \<exists>y. find P (rev xs) = Some y \<and> P y"
  by (metis find_None_iff find_Some_iff not_Some_eq set_rev)

text \<open>A declaration on a day without an active notice clears the day: each of the plan's trips is
  cancelled, every other trip and all stops stay as they were, and whoever the plan serves is shown
  an active notice that names them, as is its crew.\<close>
theorem declaration_clears_day:
  assumes "declare_no_collection ids push now plan_id date code words sd = Inr (uid, sd1)"
    and "\<not> noticed sd plan_id date" and "notice_keys (sd_notices sd)"
    and "new_notice ids (sd_notices sd) \<notin> dn_unique_id ` set (sd_notices sd)"
  shows "cleared (sd_trips sd1) plan_id date
    \<and> filter (\<lambda>t. \<not> day_trip plan_id date t) (td_trips (sd_trips sd1))
        = filter (\<lambda>t. \<not> day_trip plan_id date t) (td_trips (sd_trips sd))
    \<and> td_bins (sd_trips sd1) = td_bins (sd_trips sd) \<and> td_households (sd_trips sd1) = td_households (sd_trips sd)
    \<and> (\<exists>p. find_plan sd plan_id = Some p
        \<and> (\<forall>c. c \<in> set (customer_ids sd p) \<and> c \<noteq> [] \<longrightarrow>
             (\<exists>n. notice_for_customer sd1 (Some c) date = Some n \<and> c \<in> set (dn_recipient_customer_ids n)))
        \<and> (\<forall>s. s \<in> set (staff_ids sd p) \<and> s \<noteq> [] \<longrightarrow>
             (\<exists>n. n \<in> set (notices_for_staff sd1 (Some s) date) \<and> dn_trip_plan_id n = plan_id)))"
proof -
  note effect = declare_effect [OF assms]
  obtain detail where db: "sd_trips sd1 = cancel_scheduled plan_id date detail (sd_trips sd)"
    using effect(2) by blast
  have "filter (\<lambda>t. \<not> day_trip plan_id date t) (td_trips (sd_trips sd1))
      = filter (\<lambda>t. \<not> day_trip plan_id date t) (td_trips (sd_trips sd))"
    unfolding db cancel_scheduled_def by simp (rule filter_map_frame; auto simp: day_trip_def)
  moreover obtain p n where p: "find_plan sd plan_id = Some p" and n: "n \<in> set (sd_notices sd1)"
      "is_active_notice plan_id date n" "dn_recipient_staff_ids n = staff_ids sd p"
      "dn_recipient_customer_ids n = customer_ids sd p"
    using effect(4) by blast
  have "n \<in> set (notices_of sd1 date)" "dn_trip_plan_id n = plan_id"
    using n by (simp_all add: notices_of_def is_active_notice_def)
  then have "\<exists>m. notice_for_customer sd1 (Some c) date = Some m \<and> c \<in> set (dn_recipient_customer_ids m)"
    if "c \<in> set (customer_ids sd p)" "c \<noteq> []" for c
    using find_rev_exists [of n "notices_of sd1 date" "\<lambda>m. c \<in> set (dn_recipient_customer_ids m)"] that n
    by (simp add: notice_for_customer_def)
  moreover have "n \<in> set (notices_for_staff sd1 (Some s) date)" if "s \<in> set (staff_ids sd p)" "s \<noteq> []" for s
    using \<open>n \<in> set (notices_of sd1 date)\<close> that n by (simp add: notices_for_staff_def)
  ultimately show ?thesis
    using p cancel_clears [OF effect(1)] \<open>dn_trip_plan_id n = plan_id\<close>
    by (simp add: db) (auto simp: cancel_scheduled_def)
qed

section \<open>Revoking takes a declaration back\<close>

definition called_off :: "trip \<Rightarrow> bool" where
  "called_off t \<longleftrightarrow> \<not> tr_is_deleted t \<and> tr_status t = TripCancelled
     \<and> (case tr_remarks t of None \<Rightarrow> False | Some r \<Rightarrow> starts_with NO_COLLECTION_PREFIX r)"

text \<open>A day with a notice is clear, and a trip called off has its notice.\<close>

definition service_ok :: "service_db \<Rightarrow> bool" where
  "service_ok sd \<longleftrightarrow> notice_keys (sd_notices sd)
     \<and> (\<forall>p d. noticed sd p d \<longrightarrow> cleared (sd_trips sd) p d)
     \<and> (\<forall>t\<in>set (td_trips (sd_trips sd)). called_off t \<longrightarrow> noticed sd (tr_trip_plan_id t) (tr_trip_date t))"

definition unremarked :: "trip \<Rightarrow> trip" where
  "unremarked t = t\<lparr>tr_remarks := None\<rparr>"

lemma starts_with_append [simp]: "starts_with p (p @ s)"
  by (simp add: starts_with_def)

lemma restore_tables [simp]:
  "td_bins (restore_cancelled p d r db) = td_bins db" "td_households (restore_cancelled p d r db) = td_households db"
  "td_bins (cancel_scheduled p d s db) = td_bins db" "td_households (cancel_scheduled p d s db) = td_households db"
  "td_plans (restore_cancelled p d r db) = td_plans db" "td_plans (cancel_scheduled p d s db) = td_plans db"
  "td_plan_stops (restore_cancelled p d r db) = td_plan_stops db" "td_plan_stops (cancel_scheduled p d s db) = td_plan_stops db"
  by (simp_all add: restore_cancelled_def cancel_scheduled_def)

lemma called_off_kept [simp]:
  "called_off (t\<lparr>tr_status := TripCancelled, tr_remarks := Some (NO_COLLECTION_PREFIX @ s)\<rparr>) = (\<not> tr_is_deleted t)"
  "\<not> called_off (t\<lparr>tr_status := TripScheduled, tr_remarks := r\<rparr>)"
  by (simp_all add: called_off_def)

lemma restore_called_off:
  "restore_cancelled p d r db = db\<lparr>td_trips := map (\<lambda>t. if day_trip p d t \<and> called_off t
     then t\<lparr>tr_status := TripScheduled, tr_remarks := Some (''Service restored: '' @
       (if r = [] then ''No-collection notice withdrawn'' else r))\<rparr> else t) (td_trips db)\<rparr>"
  unfolding restore_cancelled_def
  by (rule arg_cong [where f = "\<lambda>ts. db\<lparr>td_trips := ts\<rparr>"], rule map_cong [OF refl])
    (simp add: called_off_def day_trip_def)

lemma restore_after_cancel:
  assumes "\<forall>t\<in>set (td_trips db). \<not> (day_trip p d t \<and> called_off t)"
  shows "map unremarked (td_trips (restore_cancelled p d r (cancel_scheduled p d s db))) = map unremarked (td_trips db)"
  unfolding restore_called_off cancel_scheduled_def
  using assms by (auto simp: unremarked_def day_trip_def)

text \<open>C26: Revoking the notice right after its declaration brings every trip back as it was, but for the
  remark, and no day has a notice that had none before.\<close>
theorem revoke_undoes_declaration:
  assumes run: "declare_no_collection ids push now plan_id date code words sd = Inr (uid, sd1)"
    and new: "\<not> noticed sd plan_id date" and ok: "service_ok sd"
    and fresh: "new_notice ids (sd_notices sd) \<notin> dn_unique_id ` set (sd_notices sd)"
  shows "\<exists>sd2. revoke_no_collection push' later actor reason uid sd1 = Inr sd2
    \<and> map unremarked (td_trips (sd_trips sd2)) = map unremarked (td_trips (sd_trips sd))
    \<and> td_bins (sd_trips sd2) = td_bins (sd_trips sd) \<and> td_households (sd_trips sd2) = td_households (sd_trips sd)
    \<and> (\<forall>p d. noticed sd2 p d \<longleftrightarrow> noticed sd p d)"
proof -
  have keys: "notice_keys (sd_notices sd)" using ok by (simp add: service_ok_def)
  note effect = declare_effect [OF run new keys fresh]
  obtain detail where db: "sd_trips sd1 = cancel_scheduled plan_id date detail (sd_trips sd)"
    using effect(2) by blast
  obtain n where n: "n \<in> set (sd_notices sd1)" "dn_unique_id n = uid" and active: "is_active_notice plan_id date n"
    using effect(4) by blast
  then have status: "dn_status n = NoticeActive" and day: "notice_day n = (plan_id, date)"
    and fields: "dn_trip_plan_id n = plan_id" "dn_service_date n = date"
    by (simp_all add: is_active_notice_def notice_day_def)
  obtain sd2 where sd2: "revoke_no_collection push' later actor reason uid sd1 = Inr sd2"
    and trips: "sd_trips sd2 = restore_cancelled plan_id date (py_strip reason) (sd_trips sd1)"
    and noticed: "\<forall>p d. noticed sd2 p d \<longleftrightarrow> noticed sd1 p d \<and> (p, d) \<noteq> (plan_id, date)"
    using revoke_effect [OF effect(3) n status, of push' later actor reason] day fields by auto
  have "\<forall>t\<in>set (td_trips (sd_trips sd)). \<not> (day_trip plan_id date t \<and> called_off t)"
    using ok new by (auto simp: service_ok_def day_trip_def)
  from restore_after_cancel [OF this]
  have "map unremarked (td_trips (sd_trips sd2)) = map unremarked (td_trips (sd_trips sd))"
    by (simp add: trips db)
  moreover have "noticed sd2 p d \<longleftrightarrow> noticed sd p d" for p d
    using noticed effect(5) [of p d] new by (cases "(p, d) = (plan_id, date)") auto
  ultimately show ?thesis using sd2 by (simp add: trips db)
qed

end
