(* ===== verification/Daily_Generation.thy ===== *)
theory Daily_Generation
  imports Service_Notice
begin

text \<open>
  The generation of a day's trips from the plans: for one plan
  (\<open>app/services/daily_trip_generation.py\<close>), by the night's run
  (\<open>app/management/commands/generate_daily_trips.py\<close>) and by a supervisor's choice, with the cards
  the supervisor chooses from (\<open>daily_trip_assignment_viewset.py\<close>); then what each of them
  creates, and what notices and generation keep in any order.

  A date counts days from a Monday. Log lines and the counts of the summary's details are left out.
\<close>

section \<open>Generating the day's trips\<close>

definition existing_assignment_for_plan :: "trip_db \<Rightarrow> ident \<Rightarrow> int \<Rightarrow> trip option" where
  "existing_assignment_for_plan db plan_id date = find (day_trip plan_id date) (td_trips db)"

text \<open>The second copy of the stops, behind the signal's.\<close>

definition clone_plan_stops :: "stop_ids \<Rightarrow> trip \<Rightarrow> trip_db \<Rightarrow> trip_db option" where
  "clone_plan_stops ids t db = map_option fst (fold (clone_stop ids t) (plan_stops_of db t) (Some (db, 0)))"

definition stop_count :: "trip_db \<Rightarrow> ident \<Rightarrow> nat" where
  "stop_count db trip_id =
     length (filter (\<lambda>s. bs_trip_assignment_id s = trip_id \<and> \<not> bs_is_deleted s) (td_bins db))
     + length (filter (\<lambda>s. hs_trip_assignment_id s = trip_id \<and> \<not> hs_is_deleted s) (td_households db))"

definition generated_trip :: "service_ids \<Rightarrow> trip_db \<Rightarrow> trip_plan \<Rightarrow> int \<Rightarrow> trip" where
  "generated_trip ids db p date =
     \<lparr>tr_unique_id = new_trip ids db, tr_trip_plan_id = tp_unique_id p,
      tr_staff_template_id = Some (tp_staff_template_id p), tr_alt_staff_template_id = None,
      tr_vehicle_id = Some (tp_vehicle_id p), tr_trip_date = date, tr_scheduled_time = tp_scheduled_time p,
      tr_status = TripScheduled, tr_approval_status = ApprovalPending, tr_remarks = None,
      tr_waste_type_ids = [], tr_ward_ids = [], tr_actual_start_at = None, tr_actual_start_time = None,
      tr_actual_end_at = None, tr_actual_end_time = None, tr_is_active = True, tr_is_deleted = False\<rparr>"

definition generate_assignment_for_plan ::
  "service_ids \<Rightarrow> ident \<Rightarrow> int \<Rightarrow> service_db \<Rightarrow> service_error + (trip \<times> bool \<times> nat) \<times> service_db" where
  "generate_assignment_for_plan ids plan_id date sd =
     (case find_plan sd plan_id of
        None \<Rightarrow> Inl PlanMissing
      | Some p \<Rightarrow>
          if active_notice_for_plan sd plan_id date \<noteq> None then Inl NoCollectionDeclared
          else case existing_assignment_for_plan (sd_trips sd) plan_id date of
            Some t \<Rightarrow> Inr ((t, False, stop_count (sd_trips sd) (tr_unique_id t)), sd)
          | None \<Rightarrow>
              (case insert_trip (si_stops ids) (generated_trip ids (sd_trips sd) p date) (sd_trips sd) of
                 None \<Rightarrow> Inl ServiceDatabaseError
               | Some (t, db) \<Rightarrow>
                   let t' = (if tr_waste_type_ids t = [] then t\<lparr>tr_waste_type_ids := tp_waste_type_ids p\<rparr> else t);
                       db' = (if tr_waste_type_ids t = []
                              then update_trip (tr_unique_id t) (\<lambda>r. r\<lparr>tr_waste_type_ids := tp_waste_type_ids p\<rparr>) db
                              else db)
                   in case clone_plan_stops (si_stops ids) t' db' of
                        None \<Rightarrow> Inl ServiceDatabaseError
                      | Some db'' \<Rightarrow> Inr ((t', True, stop_count db'' (tr_unique_id t')), sd\<lparr>sd_trips := db''\<rparr>)))"

definition weekday :: "int \<Rightarrow> int" where
  "weekday date = date mod 7"

text \<open>The nightly job for one plan.\<close>

datatype run_verdict = PlanSkipped | PlanCovered | PlanGenerates

definition run_verdict :: "bool \<Rightarrow> int \<Rightarrow> service_db \<Rightarrow> trip_plan \<Rightarrow> run_verdict" where
  "run_verdict force date sd p =
     (if \<not> force \<and> (tp_repeat_days p = [] \<or> list_ex (\<lambda>d. py_int d = None) (tp_repeat_days p)
           \<or> weekday date \<notin> set (List.map_filter py_int (tp_repeat_days p))) then PlanSkipped
      else if active_notice_for_plan sd (tp_unique_id p) date \<noteq> None then PlanSkipped
      else if existing_assignment_for_plan (sd_trips sd) (tp_unique_id p) date \<noteq> None then PlanCovered
      else PlanGenerates)"

record run_state =
  rn_db :: service_db
  rn_created :: nat
  rn_skipped :: nat
  rn_failed :: "service_error option"

text \<open>An error other than a notice's leaves the loop; what was generated before is committed.\<close>

definition run_plan :: "service_ids \<Rightarrow> bool \<Rightarrow> int \<Rightarrow> trip_plan \<Rightarrow> run_state \<Rightarrow> run_state" where
  "run_plan ids force date p rn =
     (if rn_failed rn \<noteq> None then rn
      else case run_verdict force date (rn_db rn) p of
        PlanSkipped \<Rightarrow> rn\<lparr>rn_skipped := rn_skipped rn + 1\<rparr>
      | PlanCovered \<Rightarrow> rn
      | PlanGenerates \<Rightarrow>
          (case generate_assignment_for_plan ids (tp_unique_id p) date (rn_db rn) of
             Inl NoCollectionDeclared \<Rightarrow> rn\<lparr>rn_skipped := rn_skipped rn + 1\<rparr>
           | Inl e \<Rightarrow> rn\<lparr>rn_failed := Some e\<rparr>
           | Inr ((t, created, _), sd) \<Rightarrow>
               if created then rn\<lparr>rn_db := sd, rn_created := rn_created rn + 1\<rparr> else rn\<lparr>rn_db := sd\<rparr>))"

definition auto_plans :: "bool \<Rightarrow> trip_plan list \<Rightarrow> trip_plan list" where
  "auto_plans force ps = filter (\<lambda>p. \<not> tp_is_deleted p \<and> tp_is_active_plan p \<and> tp_is_auto_assign p
     \<and> (force \<or> tp_approval_status p = ApprovalApproved)) ps"

definition run_for_date :: "service_ids \<Rightarrow> int \<Rightarrow> bool \<Rightarrow> service_db \<Rightarrow> run_state" where
  "run_for_date ids date force sd =
     fold (run_plan ids force date) (auto_plans force (td_plans (sd_trips sd)))
       \<lparr>rn_db = sd, rn_created = 0, rn_skipped = 0, rn_failed = None\<rparr>"

text \<open>The supervisor's choice of plans, after the checks of the request.\<close>

datatype block_reason =
    BlockInactive | BlockNotApproved | BlockNoTeam | BlockNoCollection | BlockWeekday

definition block_reason :: "int \<Rightarrow> service_db \<Rightarrow> trip_plan \<Rightarrow> block_reason option" where
  "block_reason date sd p =
     (if \<not> tp_is_active_plan p then Some BlockInactive
      else if tp_approval_status p \<noteq> ApprovalApproved then Some BlockNotApproved
      else if tp_staff_template_id p = [] \<or> tp_vehicle_id p = [] then Some BlockNoTeam
      else if active_notice_for_plan sd (tp_unique_id p) date \<noteq> None then Some BlockNoCollection
      else if tp_repeat_days p \<noteq> []
        \<and> weekday date \<notin> set (List.map_filter py_int (filter py_isdigit (tp_repeat_days p))) then Some BlockWeekday
      else None)"

record selection =
  sel_db :: service_db
  sel_created :: "ident list"
  sel_existing :: "ident list"
  sel_blocked :: "(ident \<times> block_reason) list"

text \<open>One transaction: an error rolls all of it back.\<close>

definition select_plan :: "service_ids \<Rightarrow> int \<Rightarrow> ident \<Rightarrow> service_error + selection \<Rightarrow> service_error + selection" where
  "select_plan ids date plan_id acc =
     (case acc of
        Inl e \<Rightarrow> Inl e
      | Inr s \<Rightarrow>
     (case find_plan (sel_db s) plan_id of
        None \<Rightarrow> Inl PlanMissing
      | Some p \<Rightarrow>
     (case block_reason date (sel_db s) p of
        Some r \<Rightarrow> Inr (s\<lparr>sel_blocked := sel_blocked s @ [(plan_id, r)]\<rparr>)
      | None \<Rightarrow>
     (case generate_assignment_for_plan ids plan_id date (sel_db s) of
        Inl e \<Rightarrow> Inl e
      | Inr ((t, created, _), sd) \<Rightarrow>
          Inr (if created then s\<lparr>sel_db := sd, sel_created := sel_created s @ [tr_unique_id t]\<rparr>
               else s\<lparr>sel_db := sd, sel_existing := sel_existing s @ [tr_unique_id t]\<rparr>)))))"

definition generate_selected :: "service_ids \<Rightarrow> int \<Rightarrow> ident list \<Rightarrow> service_db \<Rightarrow> service_error + selection" where
  "generate_selected ids date plan_ids sd =
     fold (select_plan ids date) plan_ids
       (Inr \<lparr>sel_db = sd, sel_created = [], sel_existing = [], sel_blocked = []\<rparr>)"

section \<open>What one plan's generation adds\<close>

text \<open>New trips and new stops at the ends of their tables, and nothing else.\<close>

definition grows :: "trip_db \<Rightarrow> trip list \<Rightarrow> trip_db \<Rightarrow> bool" where
  "grows db ts db' \<longleftrightarrow>
     (\<exists>bs hs. db' = db\<lparr>td_trips := td_trips db @ ts, td_bins := td_bins db @ bs, td_households := td_households db @ hs\<rparr>)"

lemma grows_refl [simp]: "grows db [] db"
  unfolding grows_def by (intro exI [of _ "[]"]) simp

lemma grows_trans:
  assumes "grows a ts b" and "grows b us c"
  shows "grows a (ts @ us) c"
proof -
  from assms obtain bs hs bs' hs' where
    "b = a\<lparr>td_trips := td_trips a @ ts, td_bins := td_bins a @ bs, td_households := td_households a @ hs\<rparr>"
    "c = b\<lparr>td_trips := td_trips b @ us, td_bins := td_bins b @ bs', td_households := td_households b @ hs'\<rparr>"
    unfolding grows_def by blast
  then show ?thesis
    unfolding grows_def by (intro exI [of _ "bs @ bs'"] exI [of _ "hs @ hs'"]) simp
qed

lemma grows_reads:
  assumes "grows db ts db'"
  shows "td_trips db' = td_trips db @ ts" and "td_plans db' = td_plans db"
    and "plan_stops_of db' t = plan_stops_of db t"
    and "stop_cloned t stop db \<Longrightarrow> stop_cloned t stop db'"
proof -
  obtain bs hs where db': "db' = db\<lparr>td_trips := td_trips db @ ts, td_bins := td_bins db @ bs, td_households := td_households db @ hs\<rparr>"
    using assms unfolding grows_def by blast
  then show "td_trips db' = td_trips db @ ts" "td_plans db' = td_plans db" by simp_all
  show "plan_stops_of db' t = plan_stops_of db t" by (rule plan_stops_of_cong) (simp_all add: db')
  have "plan_customers db' t stop = plan_customers db t stop"
    by (simp add: db' plan_customers_def customers_for_household_stop_def trip_plan_of_def Let_def
        cong: option.case_cong)
  then show "stop_cloned t stop db \<Longrightarrow> stop_cloned t stop db'"
    by (auto simp: stop_cloned_def db' split: if_splits)
qed

text \<open>Copying the stops once more finds each of them.\<close>

lemma ensure_household_idle:
  "\<exists>s\<in>set (td_households db). household_key s = (trip_id, c, ct) \<Longrightarrow>
     ensure_household_stop ids trip_id c ct n (db, k) = (db, k)"
  by (auto simp: ensure_household_stop_def household_key_def list_ex_iff)

lemma clone_stop_idle:
  assumes "stop_cloned t stop db" and "plan_stop_ok stop"
  shows "clone_stop ids t stop (Some (db, k)) = Some (db, k)"
proof (cases "ps_collection_type stop = BinCollection")
  case True
  with assms show ?thesis
    by (auto simp: clone_stop_def stop_cloned_def plan_stop_ok_def ensure_bin_stop_def list_ex_iff split: option.splits)
next
  case False
  let ?cs = "plan_customers db t stop"
  let ?f = "\<lambda>(offset, c). ensure_household_stop ids (tr_unique_id t) (cu_unique_id c)
      (stop_household_type stop) (ps_sequence stop + offset)"
  have "fold ?f xs (db, k) = (db, k)" if "\<forall>x\<in>set xs. snd x \<in> set ?cs" for xs
    using that
  proof (induction xs)
    case (Cons x xs)
    have "?f x (db, k) = (db, k)"
      using Cons.prems assms(1) False by (simp add: split_beta ensure_household_idle stop_cloned_def)
    with Cons show ?case by simp
  qed simp
  moreover have "\<forall>x\<in>set (zip [0..<length ?cs] ?cs). snd x \<in> set ?cs" by (auto dest: set_zip_rightD)
  ultimately show ?thesis
    using False by (simp add: clone_stop_def create_daily_household_collections_def plan_customers_def Let_def)
qed

lemma clone_stops_idle:
  "\<forall>stop\<in>set stops. stop_cloned t stop db \<and> plan_stop_ok stop \<Longrightarrow>
     fold (clone_stop ids t) stops (Some (db, k)) = Some (db, k)"
  by (induction stops) (simp_all add: clone_stop_idle)

lemma insert_trip_effect:
  assumes inserted: "insert_trip ids t db = Some (t', db')" and unused: "unused_trip (tr_unique_id t) db"
    and plan: "tr_trip_plan_id t \<noteq> []"
  shows "t' = with_plan_defaults db t" and "grows db [t'] db'"
    and "\<And>stop. stop \<in> set (plan_stops_of db t) \<Longrightarrow> stop_cloned t' stop db' \<and> plan_stop_ok stop"
proof -
  have none: "\<forall>s\<in>set (td_households db). hs_trip_assignment_id s \<noteq> tr_unique_id t"
    using unused by (simp add: unused_trip_def)
  note ext = extends_insert_trip [OF inserted none]
  show t': "t' = with_plan_defaults db t" by (rule ext(1))
  show "grows db [t'] db'" using ext(2) unfolding extends_def grows_def by auto
  let ?db = "db\<lparr>td_trips := td_trips db @ [t']\<rparr>"
  have stops: "plan_stops_of ?db t' = plan_stops_of db t"
    by (rule plan_stops_of_cong) (simp_all add: t')
  have "drop_outside_wards t' ?db = ?db"
    using none by (simp add: drop_outside_wards_def Let_def t')
  then obtain k where cloned: "fold (clone_stop ids t') (plan_stops_of db t) (Some (?db, 0)) = Some (db', k)"
    using inserted plan t' stops
    by (auto simp: insert_trip_def Let_def sync_daily_assignment_stops_from_plan_def)
  fix stop assume "stop \<in> set (plan_stops_of db t)"
  then show "stop_cloned t' stop db' \<and> plan_stop_ok stop"
    using clone_stops_cloned [OF cloned] clone_stops_Some [of ids t' "plan_stops_of db t" "(?db, 0)"] cloned by auto
qed

text \<open>The id of a new trip is on no row yet; the id of a new notice on no notice.\<close>

definition fresh_ids :: "service_ids \<Rightarrow> bool" where
  "fresh_ids ids \<longleftrightarrow> (\<forall>db. unused_trip (new_trip ids db) db) \<and> (\<forall>ns. new_notice ids ns \<notin> dn_unique_id ` set ns)"

definition plans_keyed :: "service_db \<Rightarrow> bool" where
  "plans_keyed sd \<longleftrightarrow> distinct (map tp_unique_id (td_plans (sd_trips sd))) \<and> [] \<notin> tp_unique_id ` set (td_plans (sd_trips sd))"

lemma find_plan_in: "plans_keyed sd \<Longrightarrow> p \<in> set (td_plans (sd_trips sd)) \<Longrightarrow> find_plan sd (tp_unique_id p) = Some p"
  by (simp add: find_plan_def plans_keyed_def find_distinct)

definition copyable :: "trip_db \<Rightarrow> trip_plan \<Rightarrow> bool" where
  "copyable db p \<longleftrightarrow> (\<forall>stop\<in>set (td_plan_stops db). ps_trip_plan_id stop = tp_unique_id p
     \<and> ps_collection_type stop = tp_collection_type p \<and> ps_is_active stop \<and> \<not> ps_is_deleted stop \<longrightarrow> plan_stop_ok stop)"

text \<open>The trip a plan gives a day.\<close>

definition trip_for :: "trip_plan \<Rightarrow> int \<Rightarrow> trip \<Rightarrow> bool" where
  "trip_for p date t \<longleftrightarrow> day_trip (tp_unique_id p) date t \<and> tr_status t = TripScheduled \<and> tr_remarks t = None
     \<and> tr_waste_type_ids t = tp_waste_type_ids p \<and> tr_ward_ids t = tp_ward_ids p
     \<and> tr_vehicle_id t = Some (tp_vehicle_id p) \<and> tr_staff_template_id t = Some (tp_staff_template_id p)"

lemma generate_effect:
  assumes p: "find_plan sd (tp_unique_id p) = Some p" "tp_unique_id p \<noteq> []" and ids: "fresh_ids ids"
    and new: "\<not> noticed sd (tp_unique_id p) date" "existing_assignment_for_plan (sd_trips sd) (tp_unique_id p) date = None"
  shows "if copyable (sd_trips sd) p
    then \<exists>t db n. generate_assignment_for_plan ids (tp_unique_id p) date sd = Inr ((t, True, n), sd\<lparr>sd_trips := db\<rparr>)
      \<and> grows (sd_trips sd) [t] db \<and> trip_for p date t \<and> (\<forall>stop\<in>set (plan_stops_of db t). stop_cloned t stop db)
      \<and> tr_unique_id t = new_trip ids (sd_trips sd)
    else generate_assignment_for_plan ids (tp_unique_id p) date sd = Inl ServiceDatabaseError"
proof -
  let ?db = "sd_trips sd"
  let ?g = "generated_trip ids ?db p date"
  have g: "tr_unique_id ?g = new_trip ids ?db" "tr_trip_plan_id ?g = tp_unique_id p" by (simp_all add: generated_trip_def)
  have of_g: "trip_plan_of ?db ?g = Some p" using p(1) by (simp add: trip_plan_of_def find_plan_def g)
  then have "plan_ok ?db ?g \<longleftrightarrow> copyable ?db p"
    using p(2) by (auto simp: plan_ok_def copyable_def plan_stops_of_def g)
  with insert_trip_None have ok: "insert_trip (si_stops ids) ?g ?db = None \<longleftrightarrow> \<not> copyable ?db p" by blast
  have notice: "active_notice_for_plan sd (tp_unique_id p) date = None" using new(1) by (simp add: active_notice_None)
  show ?thesis
  proof (cases "insert_trip (si_stops ids) ?g ?db")
    case None
    with ok p(1) notice new(2) show ?thesis by (simp add: generate_assignment_for_plan_def)
  next
    case (Some q)
    then obtain t db where inserted: "insert_trip (si_stops ids) ?g ?db = Some (t, db)" by (cases q) simp
    have unused: "unused_trip (tr_unique_id ?g) ?db" using ids by (simp add: g fresh_ids_def)
    note effect = insert_trip_effect [OF inserted unused]
    have t: "t = with_plan_defaults ?db ?g" and db: "grows ?db [t] db"
      using effect(1,2) p(2) g by simp_all
    have row: "trip_for p date t"
      unfolding t with_plan_defaults_def of_g by (simp add: generated_trip_def trip_for_def day_trip_def py_or_def)
    then have same: "t\<lparr>tr_waste_type_ids := tp_waste_type_ids p\<rparr> = t" by (simp add: trip_for_def)
    have fresh: "\<forall>s\<in>set (td_trips ?db). tr_unique_id s \<noteq> tr_unique_id t"
      using unused by (simp add: unused_trip_def t)
    have "map (\<lambda>r. if tr_unique_id r = tr_unique_id t then r\<lparr>tr_waste_type_ids := tp_waste_type_ids p\<rparr> else r)
        (td_trips db) = td_trips db"
      using fresh same unfolding grows_reads(1) [OF db] by (intro map_idI) auto
    then have "update_trip (tr_unique_id t) (\<lambda>r. r\<lparr>tr_waste_type_ids := tp_waste_type_ids p\<rparr>) db = db"
      by (simp add: update_trip_def)
    moreover have stops: "plan_stops_of db t = plan_stops_of ?db ?g"
      using grows_reads(3) [OF db, of t] plan_stops_of_cong [of ?db ?db t ?g] by (simp add: t)
    moreover have cloned: "stop_cloned t stop db \<and> plan_stop_ok stop" if "stop \<in> set (plan_stops_of db t)" for stop
      using that effect(3) [of stop] p(2) g stops by simp
    moreover have "clone_plan_stops (si_stops ids) t db = Some db"
      using clone_stops_idle [of "plan_stops_of db t" t db "si_stops ids" 0] cloned by (simp add: clone_plan_stops_def)
    ultimately have "generate_assignment_for_plan ids (tp_unique_id p) date sd
        = Inr ((t, True, stop_count db (tr_unique_id t)), sd\<lparr>sd_trips := db\<rparr>)"
      using p(1) notice new(2) inserted same by (simp add: generate_assignment_for_plan_def Let_def)
    with ok Some db row cloned t g show ?thesis by auto
  qed
qed

section \<open>What a night's run creates\<close>

lemma run_verdict_generates:
  "run_verdict force date sd p = PlanGenerates \<Longrightarrow>
     \<not> noticed sd (tp_unique_id p) date \<and> existing_assignment_for_plan (sd_trips sd) (tp_unique_id p) date = None"
  by (auto simp: run_verdict_def active_notice_None split: if_splits)

lemma run_verdict_grows:
  assumes "grows (sd_trips sd) ts db" and "\<And>t. t \<in> set ts \<Longrightarrow> \<not> day_trip (tp_unique_id p) date t"
  shows "run_verdict force date (sd\<lparr>sd_trips := db\<rparr>) p = run_verdict force date sd p"
proof -
  have "find (day_trip (tp_unique_id p) date) ts = None" using assms(2) by (auto simp: find_None_iff)
  then have "existing_assignment_for_plan db (tp_unique_id p) date = existing_assignment_for_plan (sd_trips sd) (tp_unique_id p) date"
    by (simp add: existing_assignment_for_plan_def grows_reads(1) [OF assms(1)] find_append split: option.splits)
  then show ?thesis by (simp add: run_verdict_def active_notice_for_plan_def)
qed

lemma run_failed [simp]: "rn_failed rn = Some e \<Longrightarrow> fold (run_plan ids force date) ps rn = rn"
  by (induction ps) (simp_all add: run_plan_def)

lemma copyable_grows: "grows db ts db' \<Longrightarrow> copyable db' p = copyable db p"
  by (auto simp: grows_def copyable_def)

text \<open>The plans that get a trip: those due and uncovered, up to the first whose stops cannot be copied.\<close>

definition generating :: "bool \<Rightarrow> int \<Rightarrow> service_db \<Rightarrow> trip_plan list \<Rightarrow> trip_plan list" where
  "generating force date sd ps = filter (\<lambda>p. run_verdict force date sd p = PlanGenerates) ps"

definition run_outcome :: "bool \<Rightarrow> int \<Rightarrow> trip_plan list \<Rightarrow> run_state \<Rightarrow> run_state \<Rightarrow> bool" where
  "run_outcome force date ps rn r \<longleftrightarrow>
     (\<exists>ts db. let G = generating force date (rn_db rn) ps; C = takeWhile (copyable (sd_trips (rn_db rn))) G in
        rn_db r = (rn_db rn)\<lparr>sd_trips := db\<rparr> \<and> grows (sd_trips (rn_db rn)) ts db
        \<and> list_all2 (\<lambda>p. trip_for p date) C ts
        \<and> (\<forall>t\<in>set ts. \<forall>stop\<in>set (plan_stops_of db t). stop_cloned t stop db)
        \<and> rn_created r = rn_created rn + length C
        \<and> rn_failed r = (if C = G then None else Some ServiceDatabaseError))"

lemma run_outcome_skip:
  "run_verdict force date (rn_db rn) p \<noteq> PlanGenerates \<Longrightarrow> rn_db rn' = rn_db rn \<Longrightarrow> rn_created rn' = rn_created rn \<Longrightarrow>
     run_outcome force date ps rn' r \<Longrightarrow> run_outcome force date (p # ps) rn r"
  by (simp add: run_outcome_def generating_def)

lemma run_outcome_step:
  assumes p: "run_verdict force date (rn_db rn) p = PlanGenerates" "copyable (sd_trips (rn_db rn)) p"
    and rn': "rn_db rn' = (rn_db rn)\<lparr>sd_trips := db\<rparr>" "rn_created rn' = rn_created rn + 1"
    and db: "grows (sd_trips (rn_db rn)) [t] db" "trip_for p date t"
      "\<forall>stop\<in>set (plan_stops_of db t). stop_cloned t stop db"
    and others: "tp_unique_id p \<notin> tp_unique_id ` set ps"
    and rest: "run_outcome force date ps rn' r"
  shows "run_outcome force date (p # ps) rn r"
proof -
  have "\<not> day_trip (tp_unique_id q) date t" if "q \<in> set ps" for q
    using that db(2) others by (auto simp: trip_for_def day_trip_def)
  then have G: "generating force date (rn_db rn) (p # ps) = p # generating force date (rn_db rn') ps"
    using p(1) run_verdict_grows [OF db(1)] by (auto simp: generating_def rn' intro!: filter_cong)
  have same: "copyable (sd_trips (rn_db rn')) = copyable (sd_trips (rn_db rn))"
    using copyable_grows [OF db(1)] by (simp add: rn' fun_eq_iff)
  from rest obtain ts db' where out: "rn_db r = (rn_db rn')\<lparr>sd_trips := db'\<rparr>" "grows db ts db'"
      "list_all2 (\<lambda>p. trip_for p date) (takeWhile (copyable (sd_trips (rn_db rn))) (generating force date (rn_db rn') ps)) ts"
      "\<forall>t\<in>set ts. \<forall>stop\<in>set (plan_stops_of db' t). stop_cloned t stop db'"
      "rn_created r = rn_created rn' + length (takeWhile (copyable (sd_trips (rn_db rn))) (generating force date (rn_db rn') ps))"
      "rn_failed r = (if takeWhile (copyable (sd_trips (rn_db rn))) (generating force date (rn_db rn') ps)
         = generating force date (rn_db rn') ps then None else Some ServiceDatabaseError)"
    unfolding run_outcome_def Let_def same by (auto simp: rn')
  have "\<forall>stop\<in>set (plan_stops_of db' t). stop_cloned t stop db'"
    using db(3) grows_reads(3,4) [OF out(2)] by simp
  with out grows_trans [OF db(1) out(2)] show ?thesis
    unfolding run_outcome_def Let_def G
    by (intro exI [of _ "t # ts"] exI [of _ db']) (simp add: p(2) db(2) rn')
qed

lemma run_fold:
  assumes ids: "fresh_ids ids" and "plans_keyed (rn_db rn)" and "set ps \<subseteq> set (td_plans (sd_trips (rn_db rn)))"
    and "distinct (map tp_unique_id ps)" and "rn_failed rn = None"
  shows "run_outcome force date ps rn (fold (run_plan ids force date) ps rn)"
  using assms(2-)
proof (induction ps arbitrary: rn)
  case Nil
  then show ?case
    by (auto simp: run_outcome_def generating_def intro!: exI [of _ "[]"] exI [of _ "sd_trips (rn_db rn)"])
next
  case (Cons p ps)
  let ?sd = "rn_db rn"
  have p: "find_plan ?sd (tp_unique_id p) = Some p" "tp_unique_id p \<noteq> []"
    using Cons.prems(1,2) find_plan_in [of ?sd p] unfolding plans_keyed_def by (simp, metis imageI list.set_intros(1) subsetD)
  show ?case
  proof (cases "run_verdict force date ?sd p = PlanGenerates")
    case False
    define rn' where "rn' = run_plan ids force date p rn"
    have "rn_db rn' = ?sd" "rn_created rn' = rn_created rn" "rn_failed rn' = None"
      using False Cons.prems(4) by (auto simp: rn'_def run_plan_def split: run_verdict.splits)
    with Cons.IH [of rn'] Cons.prems run_outcome_skip [OF False] show ?thesis
      by (simp add: rn'_def)
  next
    case True
    note new = run_verdict_generates [OF True]
    note effect = generate_effect [OF p ids new [THEN conjunct1] new [THEN conjunct2]]
    show ?thesis
    proof (cases "copyable (sd_trips ?sd) p")
      case copy: True
      then obtain t db n where gen: "generate_assignment_for_plan ids (tp_unique_id p) date ?sd = Inr ((t, True, n), ?sd\<lparr>sd_trips := db\<rparr>)"
        and db: "grows (sd_trips ?sd) [t] db" "trip_for p date t" "\<forall>stop\<in>set (plan_stops_of db t). stop_cloned t stop db"
        using effect by auto
      define rn' where "rn' = run_plan ids force date p rn"
      have rn': "rn_db rn' = ?sd\<lparr>sd_trips := db\<rparr>" "rn_created rn' = rn_created rn + 1" "rn_failed rn' = None"
        using True Cons.prems(4) gen by (simp_all add: rn'_def run_plan_def)
      have "run_outcome force date ps rn' (fold (run_plan ids force date) ps rn')"
        by (rule Cons.IH) (use Cons.prems rn' grows_reads(2) [OF db(1)] in \<open>auto simp: plans_keyed_def\<close>)
      from run_outcome_step [OF True copy rn'(1,2) db _ this] Cons.prems(3) show ?thesis by (simp add: rn'_def)
    next
      case False
      with effect have "generate_assignment_for_plan ids (tp_unique_id p) date ?sd = Inl ServiceDatabaseError" by simp
      then have "fold (run_plan ids force date) (p # ps) rn = rn\<lparr>rn_failed := Some ServiceDatabaseError\<rparr>"
        using True Cons.prems(4) by (simp add: run_plan_def)
      with True False show ?thesis
        by (auto simp: run_outcome_def generating_def intro!: exI [of _ "[]"] exI [of _ "sd_trips ?sd"])
    qed
  qed
qed

lemma auto_plans_props:
  "set (auto_plans force ps) \<subseteq> set ps" "distinct (map tp_unique_id ps) \<Longrightarrow> distinct (map tp_unique_id (auto_plans force ps))"
  by (auto simp: auto_plans_def distinct_map_filter)

lemma run_for_date_outcome:
  assumes "plans_keyed sd" and "fresh_ids ids"
  shows "run_outcome force date (auto_plans force (td_plans (sd_trips sd)))
    \<lparr>rn_db = sd, rn_created = 0, rn_skipped = 0, rn_failed = None\<rparr> (run_for_date ids date force sd)"
  unfolding run_for_date_def
  by (rule run_fold) (use assms auto_plans_props in \<open>auto simp: plans_keyed_def\<close>)

text \<open>C24: A night's run creates exactly one scheduled trip for each plan that is due, not called off and
  not yet covered that day, in the order of the plans and with the plan's team, vehicle, wards and
  waste types; it changes no other row. A plan whose stops cannot be copied ends the run: the
  plans after it get nothing.\<close>
theorem nightly_run_creates_exactly:
  assumes "plans_keyed sd" and "fresh_ids ids"
  shows "\<exists>ts db. let G = generating force date sd (auto_plans force (td_plans (sd_trips sd)));
      C = takeWhile (copyable (sd_trips sd)) G; r = run_for_date ids date force sd in
    rn_db r = sd\<lparr>sd_trips := db\<rparr> \<and> grows (sd_trips sd) ts db \<and> list_all2 (\<lambda>p. trip_for p date) C ts
    \<and> (\<forall>t\<in>set ts. \<forall>stop\<in>set (plan_stops_of db t). stop_cloned t stop db)
    \<and> rn_created r = length C \<and> rn_failed r = (if C = G then None else Some ServiceDatabaseError)"
  using run_for_date_outcome [OF assms, of force date] unfolding run_outcome_def Let_def
  by (simp only: run_state.select_convs add_0)

lemma run_idle:
  "\<forall>p\<in>set ps. run_verdict force date (rn_db rn) p \<noteq> PlanGenerates \<Longrightarrow> rn_failed rn = None \<Longrightarrow>
     rn_db (fold (run_plan ids force date) ps rn) = rn_db rn
     \<and> rn_created (fold (run_plan ids force date) ps rn) = rn_created rn
     \<and> rn_failed (fold (run_plan ids force date) ps rn) = None"
proof (induction ps arbitrary: rn)
  case (Cons p ps)
  have "rn_db (run_plan ids force date p rn) = rn_db rn" "rn_created (run_plan ids force date p rn) = rn_created rn"
    "rn_failed (run_plan ids force date p rn) = None"
    using Cons.prems by (auto simp: run_plan_def split: run_verdict.splits)
  with Cons.IH [of "run_plan ids force date p rn"] Cons.prems show ?case by simp
qed simp

lemma run_covers:
  assumes keyed: "plans_keyed sd" "fresh_ids ids" and ran: "rn_failed (run_for_date ids date force sd) = None"
    and p: "p \<in> set (auto_plans force (td_plans (sd_trips sd)))"
  shows "run_verdict force date (rn_db (run_for_date ids date force sd)) p
    = (if run_verdict force date sd p = PlanSkipped then PlanSkipped else PlanCovered)"
proof -
  let ?r = "run_for_date ids date force sd"
  let ?G = "generating force date sd (auto_plans force (td_plans (sd_trips sd)))"
  obtain ts db where r: "rn_db ?r = sd\<lparr>sd_trips := db\<rparr>" "grows (sd_trips sd) ts db"
      "list_all2 (\<lambda>p. trip_for p date) (takeWhile (copyable (sd_trips sd)) ?G) ts"
      "rn_failed ?r = (if takeWhile (copyable (sd_trips sd)) ?G = ?G then None else Some ServiceDatabaseError)"
    using run_for_date_outcome [OF keyed, of force date] unfolding run_outcome_def Let_def by auto
  with ran have all: "list_all2 (\<lambda>p. trip_for p date) ?G ts" using r(3,4) by (metis option.distinct(1))
  let ?f = "find (day_trip (tp_unique_id p) date)"
  have "?f (td_trips db) = (case ?f (td_trips (sd_trips sd)) of None \<Rightarrow> ?f ts | Some t \<Rightarrow> Some t)"
    by (simp add: grows_reads(1) [OF r(2)] find_append)
  moreover have "?f ts \<noteq> None" if "run_verdict force date sd p = PlanGenerates"
  proof -
    have "p \<in> set ?G" using that p by (simp add: generating_def)
    then obtain t where "t \<in> set ts" "trip_for p date t"
      using all by (metis in_set_conv_nth list_all2_conv_all_nth)
    then show ?thesis by (auto simp: find_None_iff trip_for_def)
  qed
  ultimately show ?thesis
    by (auto simp: run_verdict_def r(1) active_notice_for_plan_def existing_assignment_for_plan_def split: option.splits)
qed

text \<open>C31: A run that does not fail leaves every plan that is due and not called off with a trip that day,
  and running it again changes nothing.\<close>
theorem nightly_run_covers_and_repeats:
  assumes "plans_keyed sd" and "fresh_ids ids" and "rn_failed (run_for_date ids date force sd) = None"
  shows "(\<forall>p. p \<in> set (auto_plans force (td_plans (sd_trips sd))) \<and> run_verdict force date sd p \<noteq> PlanSkipped \<longrightarrow>
       (\<exists>t. t \<in> set (td_trips (sd_trips (rn_db (run_for_date ids date force sd)))) \<and> day_trip (tp_unique_id p) date t))
    \<and> rn_db (run_for_date ids date force (rn_db (run_for_date ids date force sd))) = rn_db (run_for_date ids date force sd)
    \<and> rn_created (run_for_date ids date force (rn_db (run_for_date ids date force sd))) = 0"
proof -
  let ?sd = "rn_db (run_for_date ids date force sd)"
  have plans: "td_plans (sd_trips ?sd) = td_plans (sd_trips sd)"
    using run_for_date_outcome [OF assms(1,2), of force date] grows_reads(2)
    by (auto simp: run_outcome_def Let_def)
  have "\<forall>p\<in>set (auto_plans force (td_plans (sd_trips ?sd))). run_verdict force date ?sd p \<noteq> PlanGenerates"
    using run_covers [OF assms] by (simp add: plans)
  then have "rn_db (run_for_date ids date force ?sd) = ?sd \<and> rn_created (run_for_date ids date force ?sd) = 0"
    using run_idle [of "auto_plans force (td_plans (sd_trips ?sd))" force date
        "\<lparr>rn_db = ?sd, rn_created = 0, rn_skipped = 0, rn_failed = None\<rparr>" ids]
    unfolding run_for_date_def [of ids date force ?sd] by simp
  moreover have "\<exists>t. t \<in> set (td_trips (sd_trips ?sd)) \<and> day_trip (tp_unique_id p) date t"
    if "p \<in> set (auto_plans force (td_plans (sd_trips sd)))" "run_verdict force date sd p \<noteq> PlanSkipped" for p
  proof -
    have "run_verdict force date ?sd p = PlanCovered" using run_covers [OF assms that(1)] that(2) by simp
    then have "existing_assignment_for_plan (sd_trips ?sd) (tp_unique_id p) date \<noteq> None"
      by (auto simp: run_verdict_def split: if_splits)
    then show ?thesis by (auto simp: existing_assignment_for_plan_def find_None_iff)
  qed
  ultimately show ?thesis by blast
qed

section \<open>A supervisor's cards\<close>

datatype option_state =
    NoCollection | OptionTrip trip_status | NeedsAssignment | OptionBlocked block_reason | NotScheduled

definition status_rank :: "trip_status \<Rightarrow> nat" where
  "status_rank s = (case s of TripInProgress \<Rightarrow> 0 | TripScheduled \<Rightarrow> 1 | TripCompleted \<Rightarrow> 2 | TripCancelled \<Rightarrow> 3)"

text \<open>The live trip of the day: the best rank, of these the newest.\<close>

fun live_assignment :: "trip list \<Rightarrow> trip option" where
  "live_assignment [] = None"
| "live_assignment (t # ts) =
     (case live_assignment ts of
        None \<Rightarrow> Some t
      | Some u \<Rightarrow> if status_rank (tr_status t) < status_rank (tr_status u) then Some t else Some u)"

definition scheduled_today :: "int \<Rightarrow> trip_plan \<Rightarrow> bool" where
  "scheduled_today date p \<longleftrightarrow>
     tp_repeat_days p = [] \<or> weekday date \<in> set (List.map_filter py_int (filter py_isdigit (tp_repeat_days p)))"

definition plan_option :: "int \<Rightarrow> service_db \<Rightarrow> trip_plan \<Rightarrow> option_state" where
  "plan_option date sd p =
     (if active_notice_for_plan sd (tp_unique_id p) date \<noteq> None then NoCollection
      else case live_assignment (filter (day_trip (tp_unique_id p) date) (td_trips (sd_trips sd))) of
        Some t \<Rightarrow> OptionTrip (tr_status t)
      | None \<Rightarrow>
          if \<not> tp_is_active_plan p then OptionBlocked BlockInactive
          else if tp_approval_status p \<noteq> ApprovalApproved then OptionBlocked BlockNotApproved
          else if \<not> scheduled_today date p then NotScheduled
          else if tp_staff_template_id p = [] \<or> tp_vehicle_id p = [] then OptionBlocked BlockNoTeam
          else NeedsAssignment)"

lemma live_assignment_None [simp]: "live_assignment ts = None \<longleftrightarrow> ts = []"
  by (cases ts) (auto split: option.splits)

lemma existing_None: "existing_assignment_for_plan db p d = None \<longleftrightarrow> filter (day_trip p d) (td_trips db) = []"
  by (auto simp: existing_assignment_for_plan_def find_None_iff filter_empty_conv)

lemma digit_chars: "is_digit c \<Longrightarrow> \<not> is_space c \<and> c \<noteq> CHR ''-'' \<and> c \<noteq> CHR ''+''"
  by (auto simp: is_digit_def is_space_def)

lemma strip_digits:
  assumes "list_all is_digit s"
  shows "py_strip s = s"
proof -
  have "dropWhile is_space xs = xs" if "set xs \<subseteq> set s" for xs
    using assms digit_chars that by (cases xs) (auto simp: list_all_iff)
  then show ?thesis by (simp add: py_strip_def)
qed

lemma py_int_digits: "py_isdigit s \<Longrightarrow> py_int s \<noteq> None"
  using digit_chars by (cases s) (auto simp: py_int_def py_isdigit_def Let_def strip_digits)

lemma option_needs_assignment:
  "plan_option date sd p = NeedsAssignment \<longleftrightarrow>
     block_reason date sd p = None \<and> existing_assignment_for_plan (sd_trips sd) (tp_unique_id p) date = None"
  unfolding existing_None
  by (auto simp: plan_option_def block_reason_def scheduled_today_def split: option.splits)

text \<open>For an auto-assigned plan with a team, a vehicle and a list of weekdays, the card asks exactly when the
  night's run would generate; a plan without weekdays is scheduled every day for the card, never for the run.\<close>

lemma card_matches_run:
  assumes "p \<in> set ps" and "tp_is_auto_assign p" and "\<not> tp_is_deleted p" and "tp_staff_template_id p \<noteq> []"
    and "tp_vehicle_id p \<noteq> []" and "tp_repeat_days p \<noteq> []" and "list_all py_isdigit (tp_repeat_days p)"
  shows "p \<in> set (generating False date sd (auto_plans False ps)) \<longleftrightarrow> plan_option date sd p = NeedsAssignment"
proof -
  have "filter py_isdigit (tp_repeat_days p) = tp_repeat_days p" "\<not> list_ex (\<lambda>d. py_int d = None) (tp_repeat_days p)"
    using assms(7) py_int_digits by (auto simp: list_all_iff list_ex_iff filter_id_conv)
  then show ?thesis
    using assms unfolding option_needs_assignment generating_def
    by (auto simp: auto_plans_def run_verdict_def block_reason_def split: if_splits)
qed

lemma no_weekdays_differ:
  assumes "tp_repeat_days p = []"
  shows "run_verdict False date sd p = PlanSkipped" and "block_reason date sd p \<noteq> Some BlockWeekday"
    and "plan_option date sd p \<noteq> NotScheduled"
  using assms by (auto simp: run_verdict_def block_reason_def plan_option_def scheduled_today_def split: option.splits)

lemma choose_needed:
  assumes "plans_keyed sd" and "fresh_ids ids" and "p \<in> set (td_plans (sd_trips sd))"
    and "plan_option date sd p = NeedsAssignment"
  shows "if copyable (sd_trips sd) p
    then \<exists>t db. generate_selected ids date [tp_unique_id p] sd =
          Inr \<lparr>sel_db = sd\<lparr>sd_trips := db\<rparr>, sel_created = [tr_unique_id t], sel_existing = [], sel_blocked = []\<rparr>
      \<and> td_trips db = td_trips (sd_trips sd) @ [t] \<and> trip_for p date t
      \<and> (\<forall>stop\<in>set (plan_stops_of db t). stop_cloned t stop db)
    else generate_selected ids date [tp_unique_id p] sd = Inl ServiceDatabaseError"
proof -
  have free: "block_reason date sd p = None" "existing_assignment_for_plan (sd_trips sd) (tp_unique_id p) date = None"
    using assms(4) by (simp_all add: option_needs_assignment)
  then have "\<not> noticed sd (tp_unique_id p) date" by (auto simp: block_reason_def active_notice_None split: if_splits)
  moreover have "find_plan sd (tp_unique_id p) = Some p" "tp_unique_id p \<noteq> []"
    using assms(1,3) find_plan_in unfolding plans_keyed_def by (simp, metis imageI)
  ultimately have gen: "if copyable (sd_trips sd) p
    then \<exists>t db n. generate_assignment_for_plan ids (tp_unique_id p) date sd = Inr ((t, True, n), sd\<lparr>sd_trips := db\<rparr>)
      \<and> grows (sd_trips sd) [t] db \<and> trip_for p date t \<and> (\<forall>stop\<in>set (plan_stops_of db t). stop_cloned t stop db)
      \<and> tr_unique_id t = new_trip ids (sd_trips sd)
    else generate_assignment_for_plan ids (tp_unique_id p) date sd = Inl ServiceDatabaseError"
    and found: "find_plan sd (tp_unique_id p) = Some p"
    using generate_effect [of sd p ids date] assms(2) free(2) by blast+
  show ?thesis
  proof (cases "copyable (sd_trips sd) p")
    case True
    with gen obtain t db n where "generate_assignment_for_plan ids (tp_unique_id p) date sd = Inr ((t, True, n), sd\<lparr>sd_trips := db\<rparr>)"
      and db: "grows (sd_trips sd) [t] db" "trip_for p date t" "\<forall>stop\<in>set (plan_stops_of db t). stop_cloned t stop db" by auto
    then have "generate_selected ids date [tp_unique_id p] sd =
        Inr \<lparr>sel_db = sd\<lparr>sd_trips := db\<rparr>, sel_created = [tr_unique_id t], sel_existing = [], sel_blocked = []\<rparr>"
      using found free(1) by (simp add: generate_selected_def select_plan_def)
    with True db grows_reads(1) [OF db(1)] show ?thesis unfolding if_P [OF True] by blast
  next
    case False
    with gen found free(1) show ?thesis by (simp add: generate_selected_def select_plan_def)
  qed
qed

lemma choose_not_needed:
  assumes "plans_keyed sd" and "p \<in> set (td_plans (sd_trips sd))" and "plan_option date sd p \<noteq> NeedsAssignment"
  shows "\<exists>r. generate_selected ids date [tp_unique_id p] sd = Inr r \<and> sel_created r = [] \<and> sel_db r = sd"
proof (cases "block_reason date sd p")
  case None
  with assms(3) obtain t where "existing_assignment_for_plan (sd_trips sd) (tp_unique_id p) date = Some t"
    by (auto simp: option_needs_assignment)
  moreover have "active_notice_for_plan sd (tp_unique_id p) date = None"
    using None by (auto simp: block_reason_def split: if_splits)
  ultimately show ?thesis
    using None find_plan_in [OF assms(1,2)]
    by (simp add: generate_selected_def select_plan_def generate_assignment_for_plan_def)
qed (use find_plan_in [OF assms(1,2)] in \<open>simp add: generate_selected_def select_plan_def\<close>)

lemma night_adds:
  assumes "plans_keyed sd" and "fresh_ids ids" and "rn_failed (run_for_date ids date force sd) = None"
    and p: "p \<in> set (td_plans (sd_trips sd))"
  shows "(\<exists>t. t \<in> set (td_trips (sd_trips (rn_db (run_for_date ids date force sd)))) - set (td_trips (sd_trips sd))
      \<and> day_trip (tp_unique_id p) date t)
    \<longleftrightarrow> p \<in> set (generating force date sd (auto_plans force (td_plans (sd_trips sd))))"
    (is "?new \<longleftrightarrow> p \<in> set ?G")
proof -
  obtain ts db where r: "rn_db (run_for_date ids date force sd) = sd\<lparr>sd_trips := db\<rparr>" "grows (sd_trips sd) ts db"
      "list_all2 (\<lambda>p. trip_for p date) (takeWhile (copyable (sd_trips sd)) ?G) ts"
      "rn_failed (run_for_date ids date force sd) = (if takeWhile (copyable (sd_trips sd)) ?G = ?G then None else Some ServiceDatabaseError)"
    using run_for_date_outcome [OF assms(1,2), of force date] unfolding run_outcome_def Let_def by auto
  with assms(3) have all: "list_all2 (\<lambda>p. trip_for p date) ?G ts" by (metis option.distinct(1))
  show ?thesis
  proof
    assume ?new
    then obtain t where t: "t \<in> set ts" "day_trip (tp_unique_id p) date t"
      using grows_reads(1) [OF r(2)] by (auto simp: r(1))
    with all obtain q where q: "q \<in> set ?G" "trip_for q date t" by (metis in_set_conv_nth list_all2_conv_all_nth)
    then have "q \<in> set (td_plans (sd_trips sd))" "tp_unique_id q = tp_unique_id p"
      using t(2) by (auto simp: generating_def auto_plans_def trip_for_def day_trip_def)
    then have "q = p" using assms(1) p by (metis distinct_map_eq plans_keyed_def)
    with q(1) show "p \<in> set ?G" by simp
  next
    assume G: "p \<in> set ?G"
    then obtain t where t: "t \<in> set ts" "trip_for p date t" using all by (metis in_set_conv_nth list_all2_conv_all_nth)
    have "existing_assignment_for_plan (sd_trips sd) (tp_unique_id p) date = None"
      using G by (auto simp: generating_def dest: run_verdict_generates)
    then have "t \<notin> set (td_trips (sd_trips sd))"
      using t(2) by (auto simp: existing_None filter_empty_conv trip_for_def)
    with t show ?new using grows_reads(1) [OF r(2)] by (auto simp: r(1) trip_for_def)
  qed
qed

text \<open>C32: When the card of a plan asks for a trip, choosing the plan creates one, with its stops, and nothing else;
  unless a stop of the plan cannot be copied, and then choosing it is a database error. When the card does not
  ask, choosing the plan creates and changes nothing. A night's run that ends without an error
  creates a trip for an auto-assigned plan with a team, a vehicle and a list of weekdays exactly when its card asks.\<close>
theorem card_matches_generators:
  assumes "plans_keyed sd" and "fresh_ids ids" and "p \<in> set (td_plans (sd_trips sd))"
  shows "(plan_option date sd p = NeedsAssignment \<longrightarrow>
       (if copyable (sd_trips sd) p
        then \<exists>t db. generate_selected ids date [tp_unique_id p] sd =
              Inr \<lparr>sel_db = sd\<lparr>sd_trips := db\<rparr>, sel_created = [tr_unique_id t], sel_existing = [], sel_blocked = []\<rparr>
          \<and> td_trips db = td_trips (sd_trips sd) @ [t] \<and> trip_for p date t
          \<and> (\<forall>stop\<in>set (plan_stops_of db t). stop_cloned t stop db)
        else generate_selected ids date [tp_unique_id p] sd = Inl ServiceDatabaseError))
    \<and> (plan_option date sd p \<noteq> NeedsAssignment \<longrightarrow>
       (\<exists>r. generate_selected ids date [tp_unique_id p] sd = Inr r \<and> sel_created r = [] \<and> sel_db r = sd))
    \<and> (rn_failed (run_for_date ids date False sd) = None
        \<and> tp_is_auto_assign p \<and> \<not> tp_is_deleted p \<and> tp_staff_template_id p \<noteq> [] \<and> tp_vehicle_id p \<noteq> []
        \<and> tp_repeat_days p \<noteq> [] \<and> list_all py_isdigit (tp_repeat_days p) \<longrightarrow>
       ((\<exists>t. t \<in> set (td_trips (sd_trips (rn_db (run_for_date ids date False sd)))) - set (td_trips (sd_trips sd))
          \<and> day_trip (tp_unique_id p) date t)
        \<longleftrightarrow> plan_option date sd p = NeedsAssignment))"
  using choose_needed [OF assms, of date] choose_not_needed [OF assms(1,3), of date ids]
    night_adds [OF assms(1,2) _ assms(3), of date False] card_matches_run [OF assms(3), of date sd]
  by blast

section \<open>Calls in any order\<close>

text \<open>The services that work on the trips and notices of a day; a call that raises changes nothing.
  \<open>push\<close> and the clock are the environment's.\<close>

datatype service_call =
    Declare "ident \<Rightarrow> bool" int ident int string string
  | Revoke "ident \<Rightarrow> bool" int "ident option" string ident
  | RunNight int bool
  | SelectPlans int "ident list"

fun service_step :: "service_ids \<Rightarrow> service_call \<Rightarrow> service_db \<Rightarrow> service_db" where
  "service_step ids (Declare push now plan_id date code words) sd =
     (case declare_no_collection ids push now plan_id date code words sd of Inl _ \<Rightarrow> sd | Inr (_, sd') \<Rightarrow> sd')"
| "service_step ids (Revoke push now actor reason uid) sd =
     (case revoke_no_collection push now actor reason uid sd of Inl _ \<Rightarrow> sd | Inr sd' \<Rightarrow> sd')"
| "service_step ids (RunNight date force) sd = rn_db (run_for_date ids date force sd)"
| "service_step ids (SelectPlans date plan_ids) sd =
     (case generate_selected ids date plan_ids sd of Inl _ \<Rightarrow> sd | Inr s \<Rightarrow> sel_db s)"

definition service_inv :: "service_db \<Rightarrow> bool" where
  "service_inv sd \<longleftrightarrow> service_ok sd \<and> plans_keyed sd"

lemma service_ok_keys: "service_ok sd \<Longrightarrow> notice_keys (sd_notices sd)"
  by (simp add: service_ok_def)

lemma service_inv_grows:
  assumes "service_inv sd" and grows: "grows (sd_trips sd) ts db"
    and new: "\<And>t. t \<in> set ts \<Longrightarrow> \<exists>p. trip_for p date t \<and> \<not> noticed sd (tp_unique_id p) date"
  shows "service_inv (sd\<lparr>sd_trips := db\<rparr>)"
proof -
  have same: "noticed (sd\<lparr>sd_trips := db\<rparr>) p d = noticed sd p d" for p d by (simp add: noticed_def)
  have t: "\<not> called_off t" "noticed sd p d \<Longrightarrow> \<not> day_trip p d t" if "t \<in> set ts" for t p d
    using new [OF that] by (auto simp: called_off_def trip_for_def day_trip_def)
  show ?thesis
    using assms(1) t grows_reads(1,2) [OF grows]
    unfolding service_inv_def service_ok_def plans_keyed_def same cleared_def by auto
qed

lemma declare_noticed:
  assumes "noticed sd plan_id date" and "declare_no_collection ids push now plan_id date code words sd = Inr (uid, sd1)"
  shows "sd1 = sd"
proof -
  obtain n where "active_notice_for_plan sd plan_id date = Some n"
    using assms(1) active_notice_None by blast
  with assms(2) show ?thesis by (auto simp: declare_no_collection_def Let_def split: option.splits if_splits)
qed

lemma service_inv_declare:
  assumes inv: "service_inv sd" and ids: "fresh_ids ids"
    and run: "declare_no_collection ids push now plan_id date code words sd = Inr (uid, sd1)"
  shows "service_inv sd1"
proof (cases "noticed sd plan_id date")
  case True
  with declare_noticed [OF True run] inv show ?thesis by simp
next
  case False
  have ok: "service_ok sd" using inv by (simp add: service_inv_def)
  have "new_notice ids (sd_notices sd) \<notin> dn_unique_id ` set (sd_notices sd)" using ids by (simp add: fresh_ids_def)
  note effect = declare_effect [OF run False service_ok_keys [OF ok] this]
  obtain detail where db: "sd_trips sd1 = cancel_scheduled plan_id date detail (sd_trips sd)"
    using effect(2) by blast
  have here: "noticed sd1 plan_id date" using effect(4) by (auto simp: noticed_def)
  have "cleared (sd_trips sd1) p d" if "noticed sd1 p d" for p d
  proof (cases "(p, d) = (plan_id, date)")
    case True
    then show ?thesis using cancel_clears [OF effect(1)] by (simp add: db)
  next
    case False
    with effect(5) [OF False] that ok have "cleared (sd_trips sd) p d" by (simp add: service_ok_def)
    then show ?thesis unfolding db cleared_def cancel_scheduled_def by auto
  qed
  moreover have "noticed sd1 (tr_trip_plan_id t) (tr_trip_date t)"
    if "t \<in> set (td_trips (sd_trips sd1))" "called_off t" for t
  proof (cases "day_trip plan_id date t")
    case True
    then show ?thesis using here by (simp add: day_trip_def)
  next
    case False
    then have "t \<in> set (td_trips (sd_trips sd))"
      using that(1) unfolding db cancel_scheduled_def by (auto split: if_splits)
    then have "noticed sd (tr_trip_plan_id t) (tr_trip_date t)" using ok that(2) by (simp add: service_ok_def)
    then show ?thesis
      using effect(5) [of "tr_trip_plan_id t" "tr_trip_date t"] here
      by (cases "(tr_trip_plan_id t, tr_trip_date t) = (plan_id, date)") auto
  qed
  ultimately show ?thesis
    using effect(3) inv by (simp add: service_inv_def service_ok_def plans_keyed_def db)
qed

lemma service_inv_revoke:
  assumes inv: "service_inv sd" and run: "revoke_no_collection push now actor reason uid sd = Inr sd2"
  shows "service_inv sd2"
proof -
  have ok: "service_ok sd" using inv by (simp add: service_inv_def)
  obtain n where n: "n \<in> set (sd_notices sd)" "dn_unique_id n = uid" "dn_status n = NoticeActive"
    using run by (auto simp: revoke_no_collection_def split: option.splits if_splits dest!: find_in)
  from revoke_effect [OF service_ok_keys [OF ok] n, of push now actor reason] run
  have db: "sd_trips sd2 = restore_cancelled (dn_trip_plan_id n) (dn_service_date n) (py_strip reason) (sd_trips sd)"
    and keys: "notice_keys (sd_notices sd2)"
    and noticed: "\<And>p d. noticed sd2 p d \<longleftrightarrow> noticed sd p d \<and> (p, d) \<noteq> notice_day n" by auto
  have "cleared (sd_trips sd2) p d" if "noticed sd2 p d" for p d
  proof -
    have "cleared (sd_trips sd) p d" "(p, d) \<noteq> (dn_trip_plan_id n, dn_service_date n)"
      using that noticed ok by (auto simp: service_ok_def notice_day_def)
    then show ?thesis unfolding db cleared_def restore_called_off by (auto simp: day_trip_def)
  qed
  moreover have "noticed sd2 (tr_trip_plan_id t) (tr_trip_date t)"
    if "t \<in> set (td_trips (sd_trips sd2))" "called_off t" for t
  proof -
    have t: "t \<in> set (td_trips (sd_trips sd))" "\<not> day_trip (dn_trip_plan_id n) (dn_service_date n) t"
      using that unfolding db restore_called_off by (auto split: if_splits)
    then have "(tr_trip_plan_id t, tr_trip_date t) \<noteq> notice_day n"
      using that(2) by (auto simp: day_trip_def notice_day_def called_off_def)
    with t(1) that(2) ok noticed show ?thesis by (simp add: service_ok_def)
  qed
  ultimately show ?thesis using keys inv by (simp add: service_inv_def service_ok_def plans_keyed_def db)
qed

lemma find_plan_id: "service_inv sd \<Longrightarrow> find_plan sd plan_id = Some p \<Longrightarrow> tp_unique_id p = plan_id \<and> plan_id \<noteq> []"
  unfolding find_plan_def service_inv_def plans_keyed_def using find_in by (metis (mono_tags, lifting) image_eqI)

lemma service_inv_generate:
  assumes inv: "service_inv sd" and ids: "fresh_ids ids"
    and run: "generate_assignment_for_plan ids plan_id date sd = Inr (q, sd')"
  shows "service_inv sd'"
proof -
  obtain p where p: "find_plan sd plan_id = Some p" and notice: "\<not> noticed sd plan_id date"
    using run by (auto simp: generate_assignment_for_plan_def active_notice_None split: option.splits if_splits)
  then have id: "tp_unique_id p = plan_id" "plan_id \<noteq> []" using find_plan_id [OF inv] by blast+
  show ?thesis
  proof (cases "existing_assignment_for_plan (sd_trips sd) plan_id date")
    case (Some t)
    then have "sd' = sd" using run p notice by (simp add: generate_assignment_for_plan_def active_notice_None [symmetric])
    with inv show ?thesis by simp
  next
    case None
    with generate_effect [of sd p ids date] p id ids notice run
    have "\<exists>t db. sd' = sd\<lparr>sd_trips := db\<rparr> \<and> grows (sd_trips sd) [t] db \<and> trip_for p date t"
      by (cases "copyable (sd_trips sd) p") auto
    then obtain t db where "sd' = sd\<lparr>sd_trips := db\<rparr>" "grows (sd_trips sd) [t] db" "trip_for p date t" by blast
    then show ?thesis using service_inv_grows [OF inv, of "[t]" db date] notice id by auto
  qed
qed

lemma service_inv_select:
  assumes ids: "fresh_ids ids"
  shows "(case acc of Inl _ \<Rightarrow> True | Inr s \<Rightarrow> service_inv (sel_db s)) \<Longrightarrow>
    fold (select_plan ids date) plan_ids acc = Inr s' \<Longrightarrow> service_inv (sel_db s')"
proof (induction plan_ids arbitrary: acc)
  case (Cons i plan_ids)
  have "case select_plan ids date i acc of Inl _ \<Rightarrow> True | Inr s \<Rightarrow> service_inv (sel_db s)"
    using Cons.prems(1) service_inv_generate [OF _ ids]
    by (auto simp: select_plan_def split: sum.splits option.splits prod.splits if_splits)
  with Cons show ?case by simp
qed simp

lemma list_all2_right: "list_all2 P xs ys \<Longrightarrow> y \<in> set ys \<Longrightarrow> \<exists>x\<in>set xs. P x y"
  by (induction rule: list_all2_induct) auto

lemma service_inv_step:
  assumes inv: "service_inv sd" and ids: "fresh_ids ids"
  shows "service_inv (service_step ids c sd)"
proof (cases c)
  case (Declare push now plan_id date code words)
  with inv service_inv_declare [OF inv ids] show ?thesis by (auto split: sum.splits)
next
  case (Revoke push now actor reason uid)
  with inv service_inv_revoke [OF inv] show ?thesis by (auto split: sum.splits)
next
  case (RunNight date force)
  have keyed: "plans_keyed sd" using inv by (simp add: service_inv_def)
  obtain ts db where out: "rn_db (run_for_date ids date force sd) = sd\<lparr>sd_trips := db\<rparr>" "grows (sd_trips sd) ts db"
      "list_all2 (\<lambda>p. trip_for p date) (takeWhile (copyable (sd_trips sd))
        (generating force date sd (auto_plans force (td_plans (sd_trips sd))))) ts"
    using run_for_date_outcome [OF keyed ids, of force date] unfolding run_outcome_def Let_def by auto
  have "\<exists>p. trip_for p date t \<and> \<not> noticed sd (tp_unique_id p) date" if "t \<in> set ts" for t
  proof -
    obtain p where "p \<in> set (generating force date sd (auto_plans force (td_plans (sd_trips sd))))" "trip_for p date t"
      using list_all2_right [OF out(3) \<open>t \<in> set ts\<close>] by (auto dest: set_takeWhileD)
    then show ?thesis using run_verdict_generates by (auto simp: generating_def)
  qed
  then have "service_inv (sd\<lparr>sd_trips := db\<rparr>)" by (rule service_inv_grows [OF inv out(2)])
  then show ?thesis by (simp only: RunNight service_step.simps out(1))
next
  case (SelectPlans date plan_ids)
  with inv service_inv_select [OF ids, of "Inr \<lparr>sel_db = sd, sel_created = [], sel_existing = [], sel_blocked = []\<rparr>" date plan_ids]
  show ?thesis by (auto simp: generate_selected_def split: sum.splits)
qed

text \<open>C21: Whatever notices are declared and revoked and whatever trips are generated, in any order: a day
  with an active notice has no trip of the plan that is not cancelled, a trip called off always has
  its notice, and no plan has two notices for a day.\<close>
theorem notice_keeps_day_clear:
  assumes "service_inv sd" and "fresh_ids ids"
  shows "service_inv (fold (service_step ids) calls sd)
    \<and> (\<forall>p d. noticed (fold (service_step ids) calls sd) p d \<longrightarrow> cleared (sd_trips (fold (service_step ids) calls sd)) p d)"
proof -
  have "service_inv (fold (service_step ids) calls sd)"
    using assms(1) by (induction calls arbitrary: sd) (simp_all add: service_inv_step assms(2))
  then show ?thesis by (simp add: service_inv_def service_ok_def)
qed

section \<open>Witnesses\<close>

definition longer :: "ident list \<Rightarrow> ident" where
  "longer xs = replicate (Suc (fold max (map length xs) 0)) CHR ''x''"

lemma longer_fresh: "longer xs \<notin> set xs"
proof
  assume "longer xs \<in> set xs"
  then have "length (longer xs) \<in> set (map length xs)" by simp
  moreover have "\<forall>n\<in>set ns. n \<le> fold max ns m" "m \<le> fold max ns m" for ns and m :: nat
    by (induction ns arbitrary: m) (auto, (metis max.bounded_iff)+)
  ultimately have "length (longer xs) \<le> fold max (map length xs) 0" by blast
  then show False by (simp add: longer_def)
qed

definition sample_service_ids :: service_ids where
  "sample_service_ids = \<lparr>si_stops = sample_ids,
     new_trip = (\<lambda>db. longer (map tr_unique_id (td_trips db) @ map bs_trip_assignment_id (td_bins db)
       @ map hs_trip_assignment_id (td_households db))),
     new_notice = (\<lambda>ns. longer (map dn_unique_id ns))\<rparr>"

lemma sample_ids_fresh: "fresh_ids sample_service_ids"
proof -
  have "unused_trip (new_trip sample_service_ids db) db" for db
    using longer_fresh [of "map tr_unique_id (td_trips db) @ map bs_trip_assignment_id (td_bins db)
       @ map hs_trip_assignment_id (td_households db)"]
    by (simp add: sample_service_ids_def unused_trip_def) (metis image_eqI)
  moreover have "new_notice sample_service_ids ns \<notin> dn_unique_id ` set ns" for ns
    using longer_fresh [of "map dn_unique_id ns"] by (simp add: sample_service_ids_def)
  ultimately show ?thesis by (simp add: fresh_ids_def)
qed

text \<open>A plan of one bin, for Mondays, with a scheduled trip on day 20000 and none on Monday 20006.\<close>

definition sample_service :: service_db where
  "sample_service = \<lparr>sd_trips = bin_db, sd_notices = [], sd_templates = [], sd_staff = [''SUP''], sd_sent = []\<rparr>"

lemma sample_service_facts:
  "find_plan sample_service ''P1'' = Some (sample_plan BinCollection)" "\<not> noticed sample_service p d"
  "sd_notices sample_service = []" "td_plans (sd_trips sample_service) = [sample_plan BinCollection]"
  "td_trips (sd_trips sample_service) = [sample_trip []]" "sd_templates sample_service = []"
  by (simp_all add: sample_service_def bin_db_def find_plan_def sample_plan_def noticed_def)

lemma sample_service_inv: "service_inv sample_service"
  by (simp add: service_inv_def service_ok_def notice_keys_def plans_keyed_def sample_service_facts called_off_def
      sample_trip_def sample_plan_def)

lemma sample_declared:
  "\<exists>uid sd1. declare_no_collection sample_service_ids (\<lambda>_. True) 0 ''P1'' 20000 ''FLOOD'' [] sample_service = Inr (uid, sd1)"
proof -
  have "active_notice_for_plan sample_service ''P1'' 20000 = None"
    by (simp add: active_notice_None sample_service_facts)
  moreover have "\<not> has_collection_activity (sd_trips sample_service) ''P1'' 20000"
    by (simp add: has_collection_activity_def sample_service_def bin_db_def Let_def)
  ultimately show ?thesis
    by (simp add: declare_no_collection_def sample_service_facts REASON_CHOICES_def Let_def sample_trip_def
        store_notice_def)
qed

lemma declaration_clears_day_witness:
  "\<exists>uid sd1. declare_no_collection sample_service_ids (\<lambda>_. True) 0 ''P1'' 20000 ''FLOOD'' [] sample_service = Inr (uid, sd1)
     \<and> cleared (sd_trips sd1) ''P1'' 20000
     \<and> (\<exists>n. n \<in> set (notices_for_staff sd1 (Some ''SUP'') 20000) \<and> dn_trip_plan_id n = ''P1'')"
proof -
  obtain uid sd1 where run:
    "declare_no_collection sample_service_ids (\<lambda>_. True) 0 ''P1'' 20000 ''FLOOD'' [] sample_service = Inr (uid, sd1)"
    using sample_declared by blast
  have "''SUP'' \<in> set (staff_ids sample_service (sample_plan BinCollection))"
    by (simp add: staff_ids_def sample_service_facts sample_plan_def Let_def)
  with run declaration_clears_day [OF run] show ?thesis
    by (simp add: sample_service_facts notice_keys_def)
qed

lemma revoke_undoes_declaration_witness:
  "\<exists>uid sd1 sd2. declare_no_collection sample_service_ids (\<lambda>_. True) 0 ''P1'' 20000 ''FLOOD'' [] sample_service = Inr (uid, sd1)
     \<and> revoke_no_collection (\<lambda>_. True) 60 None [] uid sd1 = Inr sd2
     \<and> map tr_status (td_trips (sd_trips sd2)) = [TripScheduled]"
proof -
  obtain uid sd1 where run:
    "declare_no_collection sample_service_ids (\<lambda>_. True) 0 ''P1'' 20000 ''FLOOD'' [] sample_service = Inr (uid, sd1)"
    using sample_declared by blast
  obtain sd2 where sd2: "revoke_no_collection (\<lambda>_. True) 60 None [] uid sd1 = Inr sd2"
    and trips: "map unremarked (td_trips (sd_trips sd2)) = map unremarked (td_trips (sd_trips sample_service))"
    using revoke_undoes_declaration [OF run, of "\<lambda>_. True" 60 None "[]"] sample_service_inv
    by (auto simp: service_inv_def sample_service_facts)
  have "map tr_status (td_trips (sd_trips sd2)) = map tr_status (map unremarked (td_trips (sd_trips sd2)))"
    by (simp add: unremarked_def)
  also have "\<dots> = [TripScheduled]"
    by (simp add: trips sample_service_facts unremarked_def sample_trip_def)
  finally show ?thesis using run sd2 by (intro exI conjI)
qed

lemma sample_generating:
  "generating False 20006 sample_service (auto_plans False [sample_plan BinCollection]) = [sample_plan BinCollection]"
proof -
  have "py_int ''0'' = Some 0" by (simp add: py_int_def Let_def py_strip_def is_space_def py_isdigit_def is_digit_def digits_value_def)
  then show ?thesis
    by (simp add: generating_def auto_plans_def run_verdict_def sample_plan_def weekday_def map_filter_simps
        active_notice_None sample_service_facts existing_assignment_for_plan_def day_trip_def sample_trip_def)
qed

lemma sample_run_done: "rn_failed (run_for_date sample_service_ids 20006 False sample_service) = None"
proof -
  have "copyable (sd_trips sample_service) (sample_plan BinCollection)"
    by (simp add: copyable_def sample_service_def bin_db_def sample_plan_stop_def plan_stop_ok_def)
  moreover have "plans_keyed sample_service" using sample_service_inv by (simp add: service_inv_def)
  ultimately show ?thesis
    using run_for_date_outcome [of sample_service sample_service_ids False 20006] sample_ids_fresh
    by (auto simp: run_outcome_def Let_def sample_service_facts sample_generating)
qed

lemma nightly_run_creates_exactly_witness:
  "rn_created (run_for_date sample_service_ids 20006 False sample_service) = 1
     \<and> rn_failed (run_for_date sample_service_ids 20006 False sample_service) = None"
proof -
  have "copyable (sd_trips sample_service) (sample_plan BinCollection)"
    by (simp add: copyable_def sample_service_def bin_db_def sample_plan_stop_def plan_stop_ok_def)
  moreover have "plans_keyed sample_service" using sample_service_inv by (simp add: service_inv_def)
  ultimately show ?thesis
    using nightly_run_creates_exactly [of sample_service sample_service_ids False 20006] sample_ids_fresh
    by (auto simp: Let_def sample_service_facts sample_generating)
qed

lemma nightly_run_covers_and_repeats_witness:
  "(\<exists>t. t \<in> set (td_trips (sd_trips (rn_db (run_for_date sample_service_ids 20006 False sample_service))))
       \<and> day_trip ''P1'' 20006 t)
   \<and> rn_created (run_for_date sample_service_ids 20006 False
       (rn_db (run_for_date sample_service_ids 20006 False sample_service))) = 0"
proof -
  have keyed: "plans_keyed sample_service" using sample_service_inv by (simp add: service_inv_def)
  have "sample_plan BinCollection \<in> set (generating False 20006 sample_service (auto_plans False [sample_plan BinCollection]))"
    by (simp add: sample_generating)
  then have p: "sample_plan BinCollection \<in> set (auto_plans False [sample_plan BinCollection])"
    "run_verdict False 20006 sample_service (sample_plan BinCollection) \<noteq> PlanSkipped"
    by (auto simp: generating_def)
  have id: "tp_unique_id (sample_plan BinCollection) = ''P1''" by (simp add: sample_plan_def)
  show ?thesis
    using nightly_run_covers_and_repeats [OF keyed sample_ids_fresh sample_run_done] p
    unfolding sample_service_facts(4) by (metis id)
qed

lemma card_matches_generators_witness:
  "\<exists>t db. generate_selected sample_service_ids 20006 [''P1''] sample_service =
      Inr \<lparr>sel_db = sample_service\<lparr>sd_trips := db\<rparr>, sel_created = [tr_unique_id t], sel_existing = [], sel_blocked = []\<rparr>
    \<and> trip_for (sample_plan BinCollection) 20006 t"
proof -
  have keyed: "plans_keyed sample_service" using sample_service_inv by (simp add: service_inv_def)
  have here: "sample_plan BinCollection \<in> set (td_plans (sd_trips sample_service))" by (simp add: sample_service_facts)
  have "sample_plan BinCollection \<in> set (generating False 20006 sample_service (auto_plans False [sample_plan BinCollection]))"
    by (simp add: sample_generating)
  then have "plan_option 20006 sample_service (sample_plan BinCollection) = NeedsAssignment"
    by (subst card_matches_run [symmetric, of _ "[sample_plan BinCollection]"])
      (simp_all add: sample_plan_def py_isdigit_def is_digit_def)
  moreover have "copyable (sd_trips sample_service) (sample_plan BinCollection)"
    by (simp add: copyable_def sample_service_def bin_db_def sample_plan_stop_def plan_stop_ok_def)
  moreover have "tp_unique_id (sample_plan BinCollection) = ''P1''" by (simp add: sample_plan_def)
  ultimately show ?thesis
    using card_matches_generators [OF keyed sample_ids_fresh here, of 20006] by auto
qed

lemma notice_keeps_day_clear_witness:
  "service_inv (fold (service_step sample_service_ids)
     [Declare (\<lambda>_. True) 0 ''P1'' 20006 ''FLOOD'' [], RunNight 20006 True, SelectPlans 20006 [''P1'']] sample_service)"
  using notice_keeps_day_clear [OF sample_service_inv sample_ids_fresh] by blast

end
