(* ===== verification/Geo_Payload.thy ===== *)
theory Geo_Payload
  imports Scope_Resolution
begin

text \<open>
  The flat geography of a payload (\<open>app/utils/hierarchy.py\<close>): its normalization against the
  location masters, the check of the selected wards, the copy from one row to another and the name
  shown for it.

  The payload of a serializer is a dict whose keys may be absent, which is not the same as a key
  with the value \<open>None\<close>; every caller works on plain ids (\<open>as_strings=True\<close>). The location masters
  are the table \<open>geo_db\<close> of \<open>Scope_Resolution\<close>; a row is read whether or not it is deleted.
\<close>

section \<open>Fields\<close>

definition FLAT_GEO_FIELDS :: "scope_field list" where
  "FLAT_GEO_FIELDS = [StateId, DistrictId, AreaTypeId, CorporationId, MunicipalityId, TownPanchayatId,
     PanchayatUnionId, PanchayatId]"

definition LOCAL_BODY_FIELDS :: "scope_field list" where
  "LOCAL_BODY_FIELDS = [CorporationId, MunicipalityId, TownPanchayatId, PanchayatUnionId, PanchayatId]"

text \<open>An absent key is \<open>None\<close>, a key without a value \<open>Some None\<close>.\<close>

type_synonym geo_attrs = "scope_field \<Rightarrow> string option option"

definition resolve_geo_value :: "geo_attrs \<Rightarrow> geo option \<Rightarrow> scope_field \<Rightarrow> string option" where
  "resolve_geo_value attrs inst field =
     (case attrs field of
        Some v \<Rightarrow> v
      | None \<Rightarrow> (case inst of None \<Rightarrow> None | Some g \<Rightarrow> g field))"

text \<open>The row with that id, with the id: \<open>filter(unique_id=value).first()\<close>.\<close>

definition as_geo_instance :: "geo_db \<Rightarrow> scope_field \<Rightarrow> string option \<Rightarrow> (string \<times> geo_record) option" where
  "as_geo_instance db field value =
     (case value of None \<Rightarrow> None | Some v \<Rightarrow> map_option (\<lambda>r. (v, r)) (db field v))"

definition as_geo_local_body_instance :: "geo_db \<Rightarrow> scope_field \<Rightarrow> string option \<Rightarrow> geo_record option" where
  "as_geo_local_body_instance db field value =
     (case value of None \<Rightarrow> None | Some v \<Rightarrow> if v = [] then None else db field v)"

section \<open>Normalization\<close>

datatype geo_error =
    OneLocalBodyOnly | NotOfLocalBody scope_field | DistrictNotOfAreaType | StateNotOfAreaType
  | StateNotOfDistrict | GeoRequired

definition set_geo :: "scope_field \<Rightarrow> string option \<Rightarrow> geo_attrs \<Rightarrow> geo_attrs" where
  "set_geo field value attrs = attrs(field := Some value)"

text \<open>The loop over the parents of the selected local body.\<close>

fun fill_from_body :: "geo_db \<Rightarrow> geo_record \<Rightarrow> scope_field list \<Rightarrow> geo_attrs \<Rightarrow> geo_error + geo_attrs" where
  "fill_from_body db body [] attrs = Inr attrs"
| "fill_from_body db body (parent # ps) attrs =
     (case as_geo_instance db parent (gr_columns body parent) of
        None \<Rightarrow> fill_from_body db body ps attrs
      | Some (uid, _) \<Rightarrow>
          (case attrs parent of
             Some (Some current) \<Rightarrow>
               if current \<noteq> [] \<and> current \<noteq> uid then Inl (NotOfLocalBody parent)
               else fill_from_body db body ps (set_geo parent (Some uid) attrs)
           | _ \<Rightarrow> fill_from_body db body ps (set_geo parent (Some uid) attrs)))"

definition differs :: "(string \<times> geo_record) option \<Rightarrow> string option \<Rightarrow> bool" where
  "differs row expected = (case row of None \<Rightarrow> False | Some (uid, _) \<Rightarrow> Some uid \<noteq> expected)"

definition fill_missing :: "geo_db \<Rightarrow> scope_field \<Rightarrow> geo_record \<Rightarrow> geo_attrs \<Rightarrow> geo_attrs" where
  "fill_missing db field source attrs =
     (if attrs field = None
      then set_geo field (map_option fst (as_geo_instance db field (gr_columns source field))) attrs
      else attrs)"

text \<open>Area type over district over state, after the local body has spoken.\<close>

definition check_parents :: "geo_db \<Rightarrow> geo option \<Rightarrow> geo_attrs \<Rightarrow> geo_error + geo_attrs" where
  "check_parents db inst attrs =
     (let district = as_geo_instance db DistrictId (resolve_geo_value attrs inst DistrictId);
          area_type = as_geo_instance db AreaTypeId (resolve_geo_value attrs inst AreaTypeId);
          state = as_geo_instance db StateId (resolve_geo_value attrs inst StateId)
      in case area_type of
           Some (_, a) \<Rightarrow>
             if attrs DistrictId \<noteq> None \<and> differs district (gr_columns a DistrictId) then Inl DistrictNotOfAreaType
             else if attrs StateId \<noteq> None \<and> differs state (gr_columns a StateId) then Inl StateNotOfAreaType
             else Inr (fill_missing db StateId a (fill_missing db DistrictId a attrs))
         | None \<Rightarrow>
             (case district of
                Some (_, d) \<Rightarrow>
                  if attrs StateId \<noteq> None \<and> differs state (gr_columns d StateId) then Inl StateNotOfDistrict
                  else Inr (fill_missing db StateId d attrs)
              | None \<Rightarrow> Inr attrs))"

definition selected_local_bodies :: "geo_attrs \<Rightarrow> geo option \<Rightarrow> scope_field list" where
  "selected_local_bodies attrs inst = filter (\<lambda>f. truthy (resolve_geo_value attrs inst f)) LOCAL_BODY_FIELDS"

definition from_local_body :: "geo_db \<Rightarrow> geo option \<Rightarrow> geo_attrs \<Rightarrow> geo_error + geo_attrs" where
  "from_local_body db inst attrs =
     (case selected_local_bodies attrs inst of
        [] \<Rightarrow> Inr attrs
      | f # _ \<Rightarrow>
          (case as_geo_local_body_instance db f (resolve_geo_value attrs inst f) of
             None \<Rightarrow> Inr attrs
           | Some body \<Rightarrow> fill_from_body db body [StateId, DistrictId, AreaTypeId] attrs))"

definition normalize_flat_geo_attrs :: "geo_db \<Rightarrow> geo_attrs \<Rightarrow> geo option \<Rightarrow> bool \<Rightarrow> geo_error + geo_attrs" where
  "normalize_flat_geo_attrs db attrs inst require_geo =
     (if length (selected_local_bodies attrs inst) > 1 then Inl OneLocalBodyOnly
      else case from_local_body db inst attrs of
        Inl e \<Rightarrow> Inl e
      | Inr attrs' \<Rightarrow>
          (case check_parents db inst attrs' of
             Inl e \<Rightarrow> Inl e
           | Inr attrs'' \<Rightarrow>
               if require_geo \<and> \<not> list_ex (\<lambda>f. truthy (resolve_geo_value attrs'' inst f)) FLAT_GEO_FIELDS
               then Inl GeoRequired else Inr attrs''))"

section \<open>Wards of a payload\<close>



section \<open>Copies and names\<close>

text \<open>\<open>copy_flat_geo\<close>; \<open>None\<close> is a source without such columns.\<close>

definition copy_flat_geo :: "geo \<Rightarrow> geo option \<Rightarrow> bool \<Rightarrow> geo" where
  "copy_flat_geo target source only_empty =
     (if only_empty \<and> truthy (target DistrictId) then target
      else (\<lambda>f. if f \<in> set FLAT_GEO_FIELDS then (case source of None \<Rightarrow> None | Some g \<Rightarrow> g f) else target f))"

text \<open>Most specific first, with the label of the level.\<close>

definition FLAT_GEO_LEVEL_CANDIDATES :: "(scope_field \<times> string) list" where
  "FLAT_GEO_LEVEL_CANDIDATES =
     [(PanchayatId, ''Panchayat''), (PanchayatUnionId, ''Panchayat Union''), (TownPanchayatId, ''Town Panchayat''),
      (MunicipalityId, ''Municipality''), (CorporationId, ''Corporation''), (DistrictId, ''District''),
      (StateId, ''State'')]"

text \<open>\<open>names\<close> reads the name of the row of a level; blank is no name.\<close>

definition flat_geo_display :: "(scope_field \<Rightarrow> string \<Rightarrow> string option) \<Rightarrow> geo \<Rightarrow> (string \<times> string) option" where
  "flat_geo_display names geo =
     (case find (\<lambda>(f, _). truthy (geo f) \<and> truthy (names f (the (geo f)))) FLAT_GEO_LEVEL_CANDIDATES of
        None \<Rightarrow> None
      | Some (f, label) \<Rightarrow> Some (the (names f (the (geo f))), label))"

section \<open>Accepted payloads agree with the masters\<close>

lemma resolve_set [simp]:
  "resolve_geo_value (set_geo f v attrs) inst g = (if g = f then v else resolve_geo_value attrs inst g)"
  by (simp add: resolve_geo_value_def set_geo_def)

lemma set_geo_key [simp]: "set_geo f v attrs g = (if g = f then Some v else attrs g)"
  by (simp add: set_geo_def)

lemma as_geo_instance_id: "as_geo_instance db f v = Some (uid, r) \<Longrightarrow> v = Some uid \<and> db f uid = Some r"
  by (auto simp: as_geo_instance_def split: option.splits)

text \<open>The parents of the body that have a row are in the payload; the other keys are as before.\<close>

lemma fill_from_body_Inr:
  "fill_from_body db body ps attrs = Inr attrs' \<Longrightarrow> distinct ps \<Longrightarrow>
     (\<forall>f. attrs' f = (if f \<in> set ps \<and> as_geo_instance db f (gr_columns body f) \<noteq> None
        then Some (gr_columns body f) else attrs f))
     \<and> (\<forall>f\<in>set ps. as_geo_instance db f (gr_columns body f) \<noteq> None \<longrightarrow>
          \<not> (\<exists>v. attrs f = Some (Some v) \<and> v \<noteq> [] \<and> Some v \<noteq> gr_columns body f))"
proof (induction ps arbitrary: attrs)
  case (Cons p ps)
  show ?case
  proof (cases "as_geo_instance db p (gr_columns body p)")
    case None
    with Cons.prems(1) have "fill_from_body db body ps attrs = Inr attrs'" by simp
    from Cons.IH [OF this] Cons.prems(2) None show ?thesis by auto
  next
    case (Some q)
    then obtain uid r where q: "as_geo_instance db p (gr_columns body p) = Some (uid, r)" by (cases q) simp
    then have uid: "gr_columns body p = Some uid" by (simp add: as_geo_instance_id)
    have run: "fill_from_body db body ps (set_geo p (Some uid) attrs) = Inr attrs'"
      and here: "\<not> (\<exists>v. attrs p = Some (Some v) \<and> v \<noteq> [] \<and> v \<noteq> uid)"
      using Cons.prems(1) q by (auto split: option.splits if_splits)
    have rest: "\<forall>f\<in>set ps. as_geo_instance db f (gr_columns body f) \<noteq> None \<longrightarrow>
        \<not> (\<exists>v. attrs f = Some (Some v) \<and> v \<noteq> [] \<and> Some v \<noteq> gr_columns body f)"
      using Cons.IH [OF run] Cons.prems(2) by (metis distinct.simps(2) set_geo_key)
    have "\<forall>f. attrs' f = (if f \<in> set (p # ps) \<and> as_geo_instance db f (gr_columns body f) \<noteq> None
        then Some (gr_columns body f) else attrs f)"
      using Cons.IH [OF run] Cons.prems(2) q uid by auto
    with rest here q uid show ?thesis by auto
  qed
qed simp

lemma check_parents_Inr:
  assumes "check_parents db inst attrs = Inr attrs'"
  shows "attrs f \<noteq> None \<Longrightarrow> attrs' f = attrs f" and "f \<notin> {StateId, DistrictId} \<Longrightarrow> attrs' f = attrs f"
  using assms
  by (auto simp: check_parents_def Let_def fill_missing_def set_geo_def split: option.splits if_splits)

text \<open>Each of the three upper levels agrees with the narrower one that names a row.\<close>

definition parents_agree :: "geo_db \<Rightarrow> geo \<Rightarrow> bool" where
  "parents_agree db g \<longleftrightarrow>
     (case as_geo_instance db AreaTypeId (g AreaTypeId) of
        Some (_, a) \<Rightarrow> \<not> differs (as_geo_instance db DistrictId (g DistrictId)) (gr_columns a DistrictId)
          \<and> \<not> differs (as_geo_instance db StateId (g StateId)) (gr_columns a StateId)
      | None \<Rightarrow>
          (case as_geo_instance db DistrictId (g DistrictId) of
             Some (_, d) \<Rightarrow> \<not> differs (as_geo_instance db StateId (g StateId)) (gr_columns d StateId)
           | None \<Rightarrow> True))"

lemma differs_filled [simp]: "\<not> differs (as_geo_instance db f (map_option fst (as_geo_instance db f v))) v"
  by (auto simp: differs_def as_geo_instance_def split: option.splits)

lemma check_parents_agree:
  assumes "check_parents db inst attrs = Inr attrs'"
  shows "parents_agree db (resolve_geo_value attrs' inst)"
proof -
  let ?at = "as_geo_instance db AreaTypeId (resolve_geo_value attrs inst AreaTypeId)"
  let ?d = "as_geo_instance db DistrictId (resolve_geo_value attrs inst DistrictId)"
  have *: "\<not> differs (as_geo_instance db f (resolve_geo_value (fill_missing db f r as) inst f)) (gr_columns r f)"
    if "as f \<noteq> None \<Longrightarrow> \<not> differs (as_geo_instance db f (resolve_geo_value as inst f)) (gr_columns r f)" for f r as
    using that by (cases "as f = None") (auto simp: fill_missing_def)
  have kept: "resolve_geo_value (fill_missing db f r as) inst g = resolve_geo_value as inst g" "fill_missing db f r as g = as g"
    if "g \<noteq> f" for f g r as
    using that by (auto simp: fill_missing_def)
  show ?thesis
  proof (cases ?at)
    case None
    show ?thesis
    proof (cases ?d)
      case None
      with \<open>?at = None\<close> assms show ?thesis by (simp add: check_parents_def parents_agree_def)
    next
      case (Some q)
      with \<open>?at = None\<close> assms have "attrs' = fill_missing db StateId (snd q) attrs"
        and "attrs StateId \<noteq> None \<Longrightarrow>
          \<not> differs (as_geo_instance db StateId (resolve_geo_value attrs inst StateId)) (gr_columns (snd q) StateId)"
        by (auto simp: check_parents_def Let_def split: prod.splits if_splits)
      with Some \<open>?at = None\<close> * [of attrs StateId "snd q"] show ?thesis
        by (cases q) (simp add: parents_agree_def kept)
    qed
  next
    case (Some q)
    with assms have "attrs' = fill_missing db StateId (snd q) (fill_missing db DistrictId (snd q) attrs)"
      and "attrs DistrictId \<noteq> None \<Longrightarrow> \<not> differs ?d (gr_columns (snd q) DistrictId)"
      and "attrs StateId \<noteq> None \<Longrightarrow>
        \<not> differs (as_geo_instance db StateId (resolve_geo_value attrs inst StateId)) (gr_columns (snd q) StateId)"
      by (auto simp: check_parents_def Let_def split: prod.splits if_splits)
    with Some * [of attrs DistrictId "snd q"] * [of "fill_missing db DistrictId (snd q) attrs" StateId "snd q"]
    show ?thesis by (cases q) (simp add: parents_agree_def kept)
  qed
qed

lemma normalize_steps:
  assumes "normalize_flat_geo_attrs db attrs inst req = Inr attrs'"
  obtains mid where "length (selected_local_bodies attrs inst) \<le> 1" "from_local_body db inst attrs = Inr mid"
    "check_parents db inst mid = Inr attrs'"
    "req \<Longrightarrow> list_ex (\<lambda>f. truthy (resolve_geo_value attrs' inst f)) FLAT_GEO_FIELDS"
  using assms by (auto simp: normalize_flat_geo_attrs_def split: if_splits sum.splits)

lemma from_local_body_keeps:
  "from_local_body db inst attrs = Inr mid \<Longrightarrow> f \<notin> {StateId, DistrictId, AreaTypeId} \<Longrightarrow> mid f = attrs f"
  by (auto simp: from_local_body_def simp del: fill_from_body.simps split: list.splits option.splits
      dest!: fill_from_body_Inr)

lemma resolve_cong: "attrs f = attrs' f \<Longrightarrow> resolve_geo_value attrs inst f = resolve_geo_value attrs' inst f"
  by (simp add: resolve_geo_value_def)

lemma selected_cong:
  assumes "\<And>f. f \<in> set LOCAL_BODY_FIELDS \<Longrightarrow> attrs f = attrs' f"
  shows "selected_local_bodies attrs inst = selected_local_bodies attrs' inst"
  unfolding selected_local_bodies_def by (rule filter_cong [OF refl]) (simp add: resolve_cong [OF assms])

lemma local_body_field: "f \<in> set LOCAL_BODY_FIELDS \<Longrightarrow> f \<notin> {StateId, DistrictId, AreaTypeId}"
  by (auto simp: LOCAL_BODY_FIELDS_def)

lemma selected_alone:
  assumes "length (selected_local_bodies attrs inst) \<le> 1" and "f \<in> set LOCAL_BODY_FIELDS"
    and "truthy (resolve_geo_value attrs inst f)"
  shows "selected_local_bodies attrs inst = [f]"
proof -
  have "f \<in> set (selected_local_bodies attrs inst)" using assms(2,3) by (simp add: selected_local_bodies_def)
  with assms(1) show ?thesis by (cases "selected_local_bodies attrs inst") auto
qed

lemma normalize_keeps:
  assumes "normalize_flat_geo_attrs db attrs inst req = Inr attrs'" and "f \<notin> {StateId, DistrictId, AreaTypeId}"
  shows "attrs' f = attrs f"
  using assms(1)
proof (rule normalize_steps)
  fix mid assume "from_local_body db inst attrs = Inr mid" "check_parents db inst mid = Inr attrs'"
  then show "attrs' f = attrs f"
    using from_local_body_keeps [of db inst attrs mid f] check_parents_Inr(2) [of db inst mid attrs' f] assms(2) by simp
qed

lemma normalize_selected:
  "normalize_flat_geo_attrs db attrs inst req = Inr attrs' \<Longrightarrow>
     selected_local_bodies attrs' inst = selected_local_bodies attrs inst"
  using selected_cong [of attrs' attrs inst] normalize_keeps local_body_field by blast

lemma normalize_body:
  assumes run: "normalize_flat_geo_attrs db attrs inst req = Inr attrs'"
    and f: "f \<in> set LOCAL_BODY_FIELDS" "truthy (resolve_geo_value attrs' inst f)"
    and body: "db f (the (resolve_geo_value attrs' inst f)) = Some body"
    and parent: "parent \<in> {StateId, DistrictId, AreaTypeId}" "as_geo_instance db parent (gr_columns body parent) \<noteq> None"
  shows "attrs' parent = Some (gr_columns body parent)"
proof -
  obtain mid where steps: "length (selected_local_bodies attrs inst) \<le> 1" "from_local_body db inst attrs = Inr mid"
      "check_parents db inst mid = Inr attrs'"
    using normalize_steps [OF run] by blast
  have same: "resolve_geo_value attrs' inst f = resolve_geo_value attrs inst f"
    using resolve_cong normalize_keeps [OF run] local_body_field [OF f(1)] by blast
  then have "selected_local_bodies attrs inst = [f]" using selected_alone [OF steps(1) f(1)] f(2) by simp
  moreover have "as_geo_local_body_instance db f (resolve_geo_value attrs inst f) = Some body"
    using f(2) body same by (auto simp: as_geo_local_body_instance_def)
  ultimately have "fill_from_body db body [StateId, DistrictId, AreaTypeId] attrs = Inr mid"
    using steps(2) by (simp add: from_local_body_def)
  from fill_from_body_Inr [OF this] parent have "mid parent = Some (gr_columns body parent)" by auto
  then show ?thesis using check_parents_Inr(1) [OF steps(3), of parent] by simp
qed

text \<open>C29: A payload that is accepted names at most one local body; state, district and area type are those
  of that body as far as the masters have them, and agree with each other; the other fields are
  untouched.\<close>
theorem normalized_payload_agrees:
  assumes "normalize_flat_geo_attrs db attrs inst req = Inr attrs'"
  shows "length (selected_local_bodies attrs' inst) \<le> 1
    \<and> parents_agree db (resolve_geo_value attrs' inst)
    \<and> (\<forall>f body parent. f \<in> set LOCAL_BODY_FIELDS \<and> truthy (resolve_geo_value attrs' inst f)
         \<and> db f (the (resolve_geo_value attrs' inst f)) = Some body \<and> parent \<in> {StateId, DistrictId, AreaTypeId}
         \<and> as_geo_instance db parent (gr_columns body parent) \<noteq> None \<longrightarrow>
         resolve_geo_value attrs' inst parent = gr_columns body parent)
    \<and> (\<forall>f. f \<notin> {StateId, DistrictId, AreaTypeId} \<longrightarrow> attrs' f = attrs f)
    \<and> (req \<longrightarrow> (\<exists>f\<in>set FLAT_GEO_FIELDS. truthy (resolve_geo_value attrs' inst f)))"
proof -
  obtain mid where steps: "length (selected_local_bodies attrs inst) \<le> 1" "check_parents db inst mid = Inr attrs'"
      "req \<Longrightarrow> list_ex (\<lambda>f. truthy (resolve_geo_value attrs' inst f)) FLAT_GEO_FIELDS"
    using normalize_steps [OF assms] by blast
  have "resolve_geo_value attrs' inst parent = gr_columns body parent"
    if "f \<in> set LOCAL_BODY_FIELDS" "truthy (resolve_geo_value attrs' inst f)"
      "db f (the (resolve_geo_value attrs' inst f)) = Some body" "parent \<in> {StateId, DistrictId, AreaTypeId}"
      "as_geo_instance db parent (gr_columns body parent) \<noteq> None" for f body parent
    using normalize_body [OF assms that] by (simp add: resolve_geo_value_def)
  then show ?thesis
    using steps check_parents_agree [OF steps(2)] normalize_keeps [OF assms] normalize_selected [OF assms]
    by (simp add: list_ex_iff) blast
qed

text \<open>Normalizing the result again changes nothing.\<close>

lemma fill_from_body_idle:
  "\<forall>f\<in>set ps. as_geo_instance db f (gr_columns body f) \<noteq> None \<longrightarrow> attrs f = Some (gr_columns body f) \<Longrightarrow>
     fill_from_body db body ps attrs = Inr attrs"
proof (induction ps)
  case (Cons p ps)
  then show ?case
    by (auto simp: set_geo_def fun_upd_idem dest: as_geo_instance_id split: option.splits)
qed simp

lemma check_parents_idle:
  assumes "check_parents db inst attrs = Inr attrs'"
  shows "check_parents db inst attrs' = Inr attrs'"
proof -
  have agree: "parents_agree db (resolve_geo_value attrs' inst)" by (rule check_parents_agree [OF assms])
  have at: "resolve_geo_value attrs' inst AreaTypeId = resolve_geo_value attrs inst AreaTypeId"
    by (rule resolve_cong, rule check_parents_Inr(2) [OF assms]) simp
  show ?thesis
  proof (cases "as_geo_instance db AreaTypeId (resolve_geo_value attrs inst AreaTypeId)")
    case (Some q)
    then obtain i a where q: "as_geo_instance db AreaTypeId (resolve_geo_value attrs inst AreaTypeId) = Some (i, a)"
      by (cases q) simp
    then have "attrs' = fill_missing db StateId a (fill_missing db DistrictId a attrs)"
      using assms by (auto simp: check_parents_def Let_def split: if_splits)
    then have "attrs' DistrictId \<noteq> None" "attrs' StateId \<noteq> None" by (auto simp: fill_missing_def)
    then show ?thesis
      using agree q by (auto simp: parents_agree_def check_parents_def at fill_missing_def Let_def)
  next
    case at_None: None
    then have d: "resolve_geo_value attrs' inst DistrictId = resolve_geo_value attrs inst DistrictId"
      using assms by (auto simp: check_parents_def Let_def fill_missing_def split: option.splits if_splits)
    show ?thesis
    proof (cases "as_geo_instance db DistrictId (resolve_geo_value attrs inst DistrictId)")
      case None
      with at_None show ?thesis by (simp add: check_parents_def at d)
    next
      case (Some q)
      then obtain i r where q: "as_geo_instance db DistrictId (resolve_geo_value attrs inst DistrictId) = Some (i, r)"
        by (cases q) simp
      then have "attrs' StateId \<noteq> None"
        using assms at_None by (auto simp: check_parents_def Let_def fill_missing_def split: if_splits)
      then show ?thesis
        using agree q at_None by (auto simp: parents_agree_def check_parents_def at d fill_missing_def Let_def)
    qed
  qed
qed

text \<open>Normalizing an accepted payload again accepts it as it is.\<close>
theorem normalize_idempotent:
  assumes "normalize_flat_geo_attrs db attrs inst req = Inr attrs'"
  shows "normalize_flat_geo_attrs db attrs' inst req = Inr attrs'"
proof -
  obtain mid where steps: "length (selected_local_bodies attrs inst) \<le> 1" "check_parents db inst mid = Inr attrs'"
      "req \<Longrightarrow> list_ex (\<lambda>f. truthy (resolve_geo_value attrs' inst f)) FLAT_GEO_FIELDS"
    using normalize_steps [OF assms] by blast
  have "from_local_body db inst attrs' = Inr attrs'"
  proof (cases "selected_local_bodies attrs' inst")
    case (Cons f fs)
    then have "f \<in> set (selected_local_bodies attrs' inst)" by simp
    then have f: "f \<in> set LOCAL_BODY_FIELDS" "truthy (resolve_geo_value attrs' inst f)"
      by (simp_all add: selected_local_bodies_def)
    show ?thesis
    proof (cases "as_geo_local_body_instance db f (resolve_geo_value attrs' inst f)")
      case (Some body)
      then have "db f (the (resolve_geo_value attrs' inst f)) = Some body"
        by (auto simp: as_geo_local_body_instance_def split: option.splits if_splits)
      from normalize_body [OF assms f this]
      have "fill_from_body db body [StateId, DistrictId, AreaTypeId] attrs' = Inr attrs'"
        by (intro fill_from_body_idle) auto
      with Cons Some show ?thesis by (simp add: from_local_body_def)
    qed (simp add: from_local_body_def Cons)
  qed (simp add: from_local_body_def)
  moreover have "length (selected_local_bodies attrs' inst) \<le> 1"
    using steps(1) by (simp add: normalize_selected [OF assms])
  ultimately show ?thesis
    using steps(3) check_parents_idle [OF steps(2)] by (auto simp: normalize_flat_geo_attrs_def)
qed

section \<open>Accepted wards lie in the payload's area\<close>



section \<open>Witnesses\<close>

text \<open>A corporation with its state, district and area type; a payload that names only the corporation.\<close>

definition sample_geo_db :: geo_db where
  "sample_geo_db f v =
     (if (f = StateId \<and> v = ''S'') \<or> (f = DistrictId \<and> v = ''D'') \<or> (f = AreaTypeId \<and> v = ''A'') \<or> (f = CorporationId \<and> v = ''C'')
      then Some \<lparr>gr_columns = (\<lambda>g. if g = StateId then Some ''S'' else if g = DistrictId then Some ''D''
             else if g = AreaTypeId then Some ''A'' else None), gr_is_deleted = False\<rparr>
      else None)"

definition sample_attrs :: geo_attrs where
  "sample_attrs f = (if f = CorporationId then Some (Some ''C'') else None)"

definition sample_accepted :: geo_attrs where
  "sample_accepted = set_geo AreaTypeId (Some ''A'') (set_geo DistrictId (Some ''D'') (set_geo StateId (Some ''S'') sample_attrs))"

lemma sample_normalized: "normalize_flat_geo_attrs sample_geo_db sample_attrs None True = Inr sample_accepted"
  by (simp add: normalize_flat_geo_attrs_def selected_local_bodies_def from_local_body_def LOCAL_BODY_FIELDS_def
      resolve_geo_value_def sample_attrs_def as_geo_local_body_instance_def as_geo_instance_def sample_geo_db_def
      check_parents_def Let_def differs_def fill_missing_def FLAT_GEO_FIELDS_def sample_accepted_def)

lemma normalized_payload_agrees_witness:
  "resolve_geo_value sample_accepted None DistrictId = Some ''D'' \<and> parents_agree sample_geo_db (resolve_geo_value sample_accepted None)"
  using normalized_payload_agrees [OF sample_normalized]
  by (simp add: sample_accepted_def resolve_geo_value_def)

lemma normalize_idempotent_witness:
  "normalize_flat_geo_attrs sample_geo_db sample_accepted None True = Inr sample_accepted"
  by (rule normalize_idempotent [OF sample_normalized])


end
