(* ===== verification/Data_Scope.thy ===== *)
theory Data_Scope
  imports Geo_Payload Trip_Stops
begin

text \<open>
  Which rows a requester may see (\<open>app/utils/hierarchy.py\<close>): the \<open>StaffDataScope\<close> of a staff member,
  the scoping of a queryset by it, of the staff offered for a trip and of the trip logs by ward, the
  explicit filters of a request, the copy of a row's geography into a scope, and the ownership key
  and level of a scope.

  A queryset is a list of rows of one model; what the filters read of a row is given by the readers of
  its columns. The scopes stand newest first, the order of the model.
\<close>

section \<open>Requesters and scopes\<close>

text \<open>\<open>rq_linked_staff_id\<close> is \<open>user.staff.staff_unique_id\<close>, where the account has that relation.\<close>

record requester =
  rq_is_authenticated :: bool
  rq_is_superuser :: bool
  rq_staff_unique_id :: "ident option"
  rq_linked_staff_id :: "ident option"

record data_scope =
  ds_unique_id :: ident
  ds_staff_id :: ident
  ds_state :: "ident option"
  ds_district :: "ident option"
  ds_area_type :: "ident option"
  ds_local_body_ids :: "scope_field \<Rightarrow> ident list"
  ds_ward_ids :: "ident list"
  ds_is_active :: bool
  ds_is_deleted :: bool

text \<open>The scopes, and the ids of the rows of the local-body masters and of the wards.\<close>

record scope_db =
  sx_scopes :: "data_scope list"
  sx_bodies :: "scope_field \<Rightarrow> ident list"
  sx_wards :: "ident list"

definition is_staff_user :: "requester option \<Rightarrow> bool" where
  "is_staff_user user =
     (case user of
        None \<Rightarrow> False
      | Some u \<Rightarrow> rq_is_authenticated u \<and> (truthy (rq_staff_unique_id u) \<or> truthy (rq_linked_staff_id u)))"

definition requester_scope :: "scope_db \<Rightarrow> requester option \<Rightarrow> data_scope option" where
  "requester_scope sx user =
     (case user of
        None \<Rightarrow> None
      | Some u \<Rightarrow>
          if \<not> rq_is_authenticated u then None
          else let staff_id = (if truthy (rq_staff_unique_id u) then rq_staff_unique_id u else rq_linked_staff_id u)
               in if \<not> truthy staff_id then None
                  else find (\<lambda>s. ds_staff_id s = the staff_id \<and> ds_is_active s \<and> \<not> ds_is_deleted s) (sx_scopes sx))"

definition unscoped_result :: "'a list \<Rightarrow> requester option \<Rightarrow> 'a list" where
  "unscoped_result rows user =
     (if (case user of None \<Rightarrow> False | Some u \<Rightarrow> rq_is_superuser u) then rows
      else if is_staff_user user then [] else rows)"

text \<open>The granted bodies and wards that still have a row: the related managers are querysets.\<close>

definition granted_bodies :: "scope_db \<Rightarrow> data_scope \<Rightarrow> scope_field \<Rightarrow> ident list" where
  "granted_bodies sx s f = filter (\<lambda>i. i \<in> set (ds_local_body_ids s f)) (sx_bodies sx f)"

definition granted_wards :: "scope_db \<Rightarrow> data_scope \<Rightarrow> ident list" where
  "granted_wards sx s = filter (\<lambda>i. i \<in> set (ds_ward_ids s)) (sx_wards sx)"

section \<open>Scoping a queryset\<close>

text \<open>What the model of a queryset says about wards: nothing, one id, or a list of ids.\<close>

datatype ward_columns = NoWards | OneWard "ident option" | ManyWards "ident list"

definition in_wards :: "ident list \<Rightarrow> ward_columns \<Rightarrow> bool" where
  "in_wards ids w =
     (case w of
        NoWards \<Rightarrow> True
      | OneWard v \<Rightarrow> (\<exists>i\<in>set ids. v = Some i)
      | ManyWards vs \<Rightarrow> (\<exists>i\<in>set ids. i \<noteq> [] \<and> i \<in> set vs))"

definition narrow_by_ward :: "scope_db \<Rightarrow> data_scope \<Rightarrow> ('a \<Rightarrow> ward_columns) \<Rightarrow> 'a list \<Rightarrow> 'a list" where
  "narrow_by_ward sx s wards rows =
     (if granted_wards sx s = [] then rows else filter (\<lambda>r. in_wards (granted_wards sx s) (wards r)) rows)"

definition STAFF_GEO_LEVEL_FIELDS :: "scope_field list" where
  "STAFF_GEO_LEVEL_FIELDS = [PanchayatId, PanchayatUnionId, TownPanchayatId, MunicipalityId, CorporationId,
     AreaTypeId, DistrictId, StateId]"

text \<open>A field map pairs a scope field with the reader of the model's column for it.\<close>

type_synonym 'a field_map = "(scope_field \<times> ('a \<Rightarrow> ident option)) list"

definition default_fields :: "('a \<Rightarrow> geo) \<Rightarrow> 'a field_map" where
  "default_fields geo_of = map (\<lambda>f. (f, \<lambda>r. geo_of r f)) STAFF_GEO_LEVEL_FIELDS"

definition scope_value :: "data_scope \<Rightarrow> scope_field \<Rightarrow> ident option" where
  "scope_value s f =
     (case f of StateId \<Rightarrow> ds_state s | DistrictId \<Rightarrow> ds_district s | AreaTypeId \<Rightarrow> ds_area_type s | _ \<Rightarrow> None)"

definition granted_levels :: "scope_db \<Rightarrow> data_scope \<Rightarrow> 'a field_map \<Rightarrow> 'a field_map" where
  "granted_levels sx s columns =
     filter (\<lambda>(f, _). f \<in> set LOCAL_BODY_FIELDS \<and> granted_bodies sx s f \<noteq> []) columns"

definition in_granted_bodies :: "scope_db \<Rightarrow> data_scope \<Rightarrow> 'a field_map \<Rightarrow> 'a \<Rightarrow> bool" where
  "in_granted_bodies sx s levels r = list_ex (\<lambda>(f, column). \<exists>i\<in>set (granted_bodies sx s f). column r = Some i) levels"

definition filter_by_requester ::
  "scope_db \<Rightarrow> requester option \<Rightarrow> 'a field_map \<Rightarrow> ('a \<Rightarrow> ward_columns) \<Rightarrow> 'a list \<Rightarrow> 'a list" where
  "filter_by_requester sx user columns wards rows =
     (case requester_scope sx user of
        None \<Rightarrow> unscoped_result rows user
      | Some s \<Rightarrow>
          if granted_levels sx s columns \<noteq> []
          then narrow_by_ward sx s wards (filter (in_granted_bodies sx s (granted_levels sx s columns)) rows)
          else case find (\<lambda>(f, _). f \<notin> set LOCAL_BODY_FIELDS \<and> truthy (scope_value s f)) columns of
            Some (f, column) \<Rightarrow> narrow_by_ward sx s wards (filter (\<lambda>r. column r = scope_value s f) rows)
          | None \<Rightarrow> narrow_by_ward sx s wards rows)"

section \<open>Staff offered for a trip\<close>

definition blank :: "ident option \<Rightarrow> bool" where
  "blank v \<longleftrightarrow> v = None \<or> v = Some []"

definition assignable :: "data_scope \<Rightarrow> geo \<Rightarrow> bool" where
  "assignable s g \<longleftrightarrow>
     (\<exists>f\<in>set LOCAL_BODY_FIELDS. \<exists>i\<in>set (ds_local_body_ids s f). g f = Some i)
     \<or> (truthy (ds_district s) \<and> (\<forall>f\<in>set LOCAL_BODY_FIELDS. blank (g f)) \<and> g DistrictId = ds_district s)
     \<or> (truthy (ds_state s) \<and> (\<forall>f\<in>set LOCAL_BODY_FIELDS. blank (g f)) \<and> blank (g DistrictId) \<and> g StateId = ds_state s)"

definition filter_assignable_staff ::
  "scope_db \<Rightarrow> requester option \<Rightarrow> ('a \<Rightarrow> geo) \<Rightarrow> ('a \<Rightarrow> ward_columns) \<Rightarrow> 'a list \<Rightarrow> 'a list" where
  "filter_assignable_staff sx user geo_of wards rows =
     (case requester_scope sx user of
        None \<Rightarrow> unscoped_result rows user
      | Some s \<Rightarrow>
          if (\<exists>f\<in>set LOCAL_BODY_FIELDS. ds_local_body_ids s f \<noteq> []) \<or> truthy (ds_district s) \<or> truthy (ds_state s)
          then narrow_by_ward sx s wards (filter (\<lambda>r. assignable s (geo_of r)) rows)
          else narrow_by_ward sx s wards rows)"

section \<open>Filters of a request\<close>

definition split_values :: "string \<Rightarrow> string list" where
  "split_values value = filter (\<lambda>v. v \<noteq> []) (map py_strip (split_on (CHR '','') value))"

text \<open>\<open>None\<close> is the \<open>IndexError\<close> of \<open>values[0]\<close> on a value of commas and spaces only.\<close>

definition filter_by_param :: "('a \<Rightarrow> geo) \<Rightarrow> (scope_field \<Rightarrow> string option) \<Rightarrow> scope_field \<Rightarrow> 'a list option \<Rightarrow> 'a list option" where
  "filter_by_param geo_of params f acc =
     (case acc of
        None \<Rightarrow> None
      | Some rows \<Rightarrow>
          if \<not> truthy (params f) then Some rows
          else case split_values (the (params f)) of
            [] \<Rightarrow> None
          | values \<Rightarrow> Some (filter (\<lambda>r. \<exists>v\<in>set values. geo_of r f = Some v) rows))"

definition filter_by_params :: "('a \<Rightarrow> geo) \<Rightarrow> (scope_field \<Rightarrow> string option) \<Rightarrow> 'a list \<Rightarrow> 'a list option" where
  "filter_by_params geo_of params rows = fold (filter_by_param geo_of params) FLAT_GEO_FIELDS (Some rows)"

text \<open>Trip logs through the wards of their trips.\<close>

definition filter_logs_by_ward ::
  "scope_db \<Rightarrow> trip list \<Rightarrow> requester option \<Rightarrow> string option \<Rightarrow> ('a \<Rightarrow> ident) \<Rightarrow> 'a list \<Rightarrow> 'a list" where
  "filter_logs_by_ward sx trips user ward_id trip_of rows =
     (let scoped = (case requester_scope sx user of None \<Rightarrow> [] | Some s \<Rightarrow> granted_wards sx s);
          requested = split_values (case ward_id of None \<Rightarrow> [] | Some w \<Rightarrow> w);
          effective = (if requested \<noteq> [] then requested else scoped);
          ids = map tr_unique_id (filter (\<lambda>t. \<not> tr_is_deleted t \<and> in_wards effective (ManyWards (tr_ward_ids t))) trips)
      in if requested \<noteq> [] \<and> scoped \<noteq> [] \<and> \<not> set requested \<subseteq> set scoped then []
         else if effective = [] then rows
         else filter (\<lambda>r. trip_of r \<in> set ids) rows)"

section \<open>A scope from a row, and what a scope stands for\<close>

text \<open>\<open>update_or_create\<close> on the member's scope that is not deleted, then the id lists; \<open>None\<close> is
  \<open>MultipleObjectsReturned\<close>. \<open>source_wards\<close>: the source's ward ids, where it has wards.\<close>

definition synced_scope :: "scope_db \<Rightarrow> geo \<Rightarrow> ident list option \<Rightarrow> data_scope \<Rightarrow> data_scope" where
  "synced_scope sx source source_wards s =
     s\<lparr>ds_state := source StateId, ds_district := source DistrictId, ds_area_type := source AreaTypeId,
       ds_is_active := True,
       ds_local_body_ids := (\<lambda>f. if f \<in> set LOCAL_BODY_FIELDS \<and> truthy (source f) then [the (source f)] else []),
       ds_ward_ids := (case source_wards of None \<Rightarrow> [] | Some ws \<Rightarrow> filter (\<lambda>i. i \<in> set ws) (sx_wards sx))\<rparr>"

definition sync_staff_data_scope ::
  "scope_db \<Rightarrow> ident \<Rightarrow> ident \<Rightarrow> geo \<Rightarrow> ident list option \<Rightarrow> (data_scope \<times> bool \<times> scope_db) option" where
  "sync_staff_data_scope sx new_id staff_id source source_wards =
     (case filter (\<lambda>s. ds_staff_id s = staff_id \<and> \<not> ds_is_deleted s) (sx_scopes sx) of
        [] \<Rightarrow>
          let s = synced_scope sx source source_wards
                \<lparr>ds_unique_id = new_id, ds_staff_id = staff_id, ds_state = None, ds_district = None, ds_area_type = None,
                 ds_local_body_ids = (\<lambda>_. []), ds_ward_ids = [], ds_is_active = True, ds_is_deleted = False\<rparr>
          in Some (s, True, sx\<lparr>sx_scopes := s # sx_scopes sx\<rparr>)
      | [old] \<Rightarrow>
          let s = synced_scope sx source source_wards old
          in Some (s, False, sx\<lparr>sx_scopes := map (\<lambda>x. if ds_unique_id x = ds_unique_id old then s else x) (sx_scopes sx)\<rparr>)
      | _ \<Rightarrow> None)"

definition body_candidates :: "scope_db \<Rightarrow> data_scope \<Rightarrow> (scope_field \<times> ident) list" where
  "body_candidates sx s = concat (map (\<lambda>f. map (\<lambda>i. (f, i)) (granted_bodies sx s f)) LOCAL_BODY_FIELDS)"

definition single_local_body :: "scope_db \<Rightarrow> data_scope \<Rightarrow> (scope_field \<times> ident) option" where
  "single_local_body sx s = (case body_candidates sx s of [c] \<Rightarrow> Some c | _ \<Rightarrow> None)"

record ownership =
  ow_state :: "ident option"
  ow_district :: "ident option"
  ow_area_type :: "ident option"
  ow_local_body :: "(scope_field \<times> ident) option"

definition local_body_scope_for_staff :: "scope_db \<Rightarrow> requester option \<Rightarrow> ownership option" where
  "local_body_scope_for_staff sx user =
     map_option (\<lambda>s. \<lparr>ow_state = ds_state s, ow_district = ds_district s, ow_area_type = ds_area_type s,
       ow_local_body = single_local_body sx s\<rparr>) (requester_scope sx user)"

datatype scope_grant = WardGrant | LocalBodyGrant | DistrictGrant | StateGrant

definition local_body_ids_by_level :: "scope_db \<Rightarrow> data_scope \<Rightarrow> (scope_field \<times> ident list) list" where
  "local_body_ids_by_level sx s =
     filter (\<lambda>(_, ids). ids \<noteq> []) (map (\<lambda>f. (f, granted_bodies sx s f)) LOCAL_BODY_FIELDS)"

definition granted_scope_level :: "scope_db \<Rightarrow> data_scope option \<Rightarrow> scope_grant option" where
  "granted_scope_level sx scope =
     (case scope of
        None \<Rightarrow> None
      | Some s \<Rightarrow>
          if granted_wards sx s \<noteq> [] then Some WardGrant
          else if local_body_ids_by_level sx s \<noteq> [] then Some LocalBodyGrant
          else if truthy (ds_district s) then Some DistrictGrant
          else if truthy (ds_state s) then Some StateGrant
          else None)"

section \<open>Interface: a filter decides row by row\<close>

text \<open>What the views rely on when they chain filters: a row is judged alone, so the order of the filters
  and the paging of the rows do not matter.\<close>

locale row_filter =
  fixes see :: "'a list \<Rightarrow> 'a list"
  assumes see_Nil: "see [] = []"
    and see_append: "see (xs @ ys) = see xs @ see ys"
    and see_row: "see [x] = [] \<or> see [x] = [x]"
begin

lemma see_filter: "see xs = filter (\<lambda>x. see [x] \<noteq> []) xs"
proof (induction xs)
  case (Cons x xs)
  have "see (x # xs) = see [x] @ see xs" using see_append [of "[x]" xs] by simp
  with Cons see_row [of x] show ?case by auto
qed (simp add: see_Nil)

lemma see_in: "x \<in> set (see xs) \<longleftrightarrow> x \<in> set xs \<and> see [x] \<noteq> []"
  by (subst see_filter) auto

lemma see_commutes: "see (filter Q xs) = filter Q (see xs)"
  by (subst (1 2) see_filter) (auto intro!: filter_cong)

lemma see_repeats: "see (see xs) = see xs"
proof -
  have "see (see xs) = filter (\<lambda>x. see [x] \<noteq> []) (see xs)" by (rule see_filter)
  also have "\<dots> = see xs" by (rule filter_True) (simp add: see_in)
  finally show ?thesis .
qed

end

lemma row_filter_filter: "(\<And>xs. see xs = filter P xs) \<Longrightarrow> row_filter see"
  by unfold_locales auto

text \<open>Whether a requester sees a row.\<close>

definition ward_allows :: "scope_db \<Rightarrow> data_scope \<Rightarrow> ward_columns \<Rightarrow> bool" where
  "ward_allows sx s w \<longleftrightarrow> granted_wards sx s = [] \<or> in_wards (granted_wards sx s) w"

lemma narrow_eq: "narrow_by_ward sx s wards rows = filter (\<lambda>r. ward_allows sx s (wards r)) rows"
  by (simp add: narrow_by_ward_def ward_allows_def)

definition area_allows :: "scope_db \<Rightarrow> data_scope \<Rightarrow> 'a field_map \<Rightarrow> 'a \<Rightarrow> bool" where
  "area_allows sx s columns r \<longleftrightarrow>
     (if granted_levels sx s columns \<noteq> [] then in_granted_bodies sx s (granted_levels sx s columns) r
      else case find (\<lambda>(f, _). f \<notin> set LOCAL_BODY_FIELDS \<and> truthy (scope_value s f)) columns of
        Some (f, column) \<Rightarrow> column r = scope_value s f
      | None \<Rightarrow> True)"

lemma scoped_eq:
  "requester_scope sx user = Some s \<Longrightarrow>
     filter_by_requester sx user columns wards rows = filter (\<lambda>r. area_allows sx s columns r \<and> ward_allows sx s (wards r)) rows"
  by (auto simp: filter_by_requester_def narrow_eq area_allows_def conj_commute split: option.splits)

lemma unscoped_eq:
  "unscoped_result rows user = filter (\<lambda>_. (case user of None \<Rightarrow> False | Some u \<Rightarrow> rq_is_superuser u) \<or> \<not> is_staff_user user) rows"
  by (simp add: unscoped_result_def)

lemma filter_by_requester_eq:
  "filter_by_requester sx user columns wards rows =
     filter (\<lambda>r. case requester_scope sx user of
         None \<Rightarrow> (case user of None \<Rightarrow> False | Some u \<Rightarrow> rq_is_superuser u) \<or> \<not> is_staff_user user
       | Some s \<Rightarrow> area_allows sx s columns r \<and> ward_allows sx s (wards r)) rows"
  by (cases "requester_scope sx user") (simp_all add: scoped_eq, simp add: filter_by_requester_def unscoped_eq)

definition offered :: "scope_db \<Rightarrow> data_scope \<Rightarrow> geo \<Rightarrow> bool" where
  "offered sx s g \<longleftrightarrow> assignable s g
     \<or> (\<forall>f\<in>set LOCAL_BODY_FIELDS. ds_local_body_ids s f = []) \<and> \<not> truthy (ds_district s) \<and> \<not> truthy (ds_state s)"

lemma assignable_eq:
  "requester_scope sx user = Some s \<Longrightarrow> filter_assignable_staff sx user geo_of wards rows =
     filter (\<lambda>r. offered sx s (geo_of r) \<and> ward_allows sx s (wards r)) rows"
  by (auto simp: filter_assignable_staff_def offered_def assignable_def narrow_eq conj_commute intro!: filter_cong)

interpretation scoped: row_filter "filter_by_requester sx user columns wards"
  for sx user and columns :: "'a field_map" and wards
  by (rule row_filter_filter) (rule filter_by_requester_eq)

interpretation offered_staff: row_filter "filter_assignable_staff sx user geo_of wards"
  for sx user and geo_of :: "'a \<Rightarrow> geo" and wards
proof (cases "requester_scope sx user")
  case None
  then show "row_filter (filter_assignable_staff sx user geo_of wards)"
    by (intro row_filter_filter) (simp add: filter_assignable_staff_def unscoped_eq)
next
  case (Some s)
  show "row_filter (filter_assignable_staff sx user geo_of wards)"
    by (rule row_filter_filter) (rule assignable_eq [OF Some])
qed

section \<open>No row of another district\<close>

text \<open>A row whose geography went through an accepted payload.\<close>

definition saved_geo :: "geo_db \<Rightarrow> geo \<Rightarrow> bool" where
  "saved_geo db g \<longleftrightarrow>
     (\<exists>attrs inst req attrs'. normalize_flat_geo_attrs db attrs inst req = Inr attrs' \<and> g = resolve_geo_value attrs' inst)"

text \<open>A scope whose bodies and area type lie in its district.\<close>

definition scope_in_district :: "geo_db \<Rightarrow> scope_db \<Rightarrow> data_scope \<Rightarrow> ident \<Rightarrow> bool" where
  "scope_in_district db sx s d \<longleftrightarrow>
     ds_district s = Some d \<and> d \<noteq> [] \<and> db DistrictId d \<noteq> None
     \<and> (\<forall>f\<in>set LOCAL_BODY_FIELDS. \<forall>i\<in>set (granted_bodies sx s f).
          i \<noteq> [] \<and> (\<exists>b. db f i = Some b \<and> gr_columns b DistrictId = Some d))
     \<and> (\<forall>a. ds_area_type s = Some a \<and> a \<noteq> [] \<longrightarrow> (\<exists>b. db AreaTypeId a = Some b \<and> gr_columns b DistrictId = Some d))"

lemma saved_geo_body:
  assumes "saved_geo db g" and "f \<in> set LOCAL_BODY_FIELDS" and "g f = Some i" "i \<noteq> []"
    and "db f i = Some b" and "gr_columns b DistrictId = Some d" "db DistrictId d \<noteq> None"
  shows "g DistrictId = Some d"
proof -
  obtain attrs inst req attrs' where run: "normalize_flat_geo_attrs db attrs inst req = Inr attrs'"
    and g: "g = resolve_geo_value attrs' inst"
    using assms(1) unfolding saved_geo_def by blast
  have "attrs' DistrictId = Some (gr_columns b DistrictId)"
    by (rule normalize_body [OF run assms(2)]) (use assms g in \<open>auto simp: as_geo_instance_def\<close>)
  then show ?thesis by (simp add: g resolve_geo_value_def assms(6))
qed

lemma saved_geo_parents: "saved_geo db g \<Longrightarrow> parents_agree db g"
  unfolding saved_geo_def using normalize_steps check_parents_agree by metis

lemma default_levels:
  "set (granted_levels sx s (default_fields geo_of)) \<subseteq> (\<lambda>f. (f, \<lambda>r. geo_of r f)) ` set LOCAL_BODY_FIELDS"
  by (auto simp: granted_levels_def default_fields_def)

lemma scope_value_simps [simp]:
  "scope_value s StateId = ds_state s" "scope_value s DistrictId = ds_district s" "scope_value s AreaTypeId = ds_area_type s"
  by (simp_all add: scope_value_def)

lemma default_broad:
  "find (\<lambda>(f, _). f \<notin> set LOCAL_BODY_FIELDS \<and> truthy (scope_value s f)) (default_fields geo_of)
     = (if truthy (ds_area_type s) then Some (AreaTypeId, \<lambda>r. geo_of r AreaTypeId)
        else if truthy (ds_district s) then Some (DistrictId, \<lambda>r. geo_of r DistrictId)
        else if truthy (ds_state s) then Some (StateId, \<lambda>r. geo_of r StateId) else None)"
  by (simp add: default_fields_def STAFF_GEO_LEVEL_FIELDS_def LOCAL_BODY_FIELDS_def)

lemma area_allows_default:
  "area_allows sx s (default_fields geo_of) r \<longleftrightarrow>
     (if granted_levels sx s (default_fields geo_of) \<noteq> []
      then \<exists>f\<in>set LOCAL_BODY_FIELDS. \<exists>i\<in>set (granted_bodies sx s f). geo_of r f = Some i
      else if truthy (ds_area_type s) then geo_of r AreaTypeId = ds_area_type s
      else if truthy (ds_district s) then geo_of r DistrictId = ds_district s
      else if truthy (ds_state s) then geo_of r StateId = ds_state s else True)"
proof -
  have "in_granted_bodies sx s (granted_levels sx s (default_fields geo_of)) r \<longleftrightarrow>
      (\<exists>f\<in>set LOCAL_BODY_FIELDS. \<exists>i\<in>set (granted_bodies sx s f). geo_of r f = Some i)"
    by (auto simp: in_granted_bodies_def granted_levels_def default_fields_def list_ex_iff
        STAFF_GEO_LEVEL_FIELDS_def LOCAL_BODY_FIELDS_def)
  then show ?thesis by (simp add: area_allows_def default_broad)
qed

text \<open>C28: A scoped requester whose scope lies in one district never sees a row that names another district,
  as long as rows are saved through accepted payloads.\<close>
theorem scoped_rows_in_district:
  assumes "requester_scope sx user = Some s" and "scope_in_district db sx s d"
    and "\<forall>r\<in>set rows. saved_geo db (geo_of r)"
  shows "\<forall>r\<in>set (filter_by_requester sx user (default_fields geo_of) wards rows). \<forall>d'.
    geo_of r DistrictId = Some d' \<and> db DistrictId d' \<noteq> None \<longrightarrow> d' = d"
proof (intro ballI allI impI)
  fix r d' assume r: "r \<in> set (filter_by_requester sx user (default_fields geo_of) wards rows)"
    and d': "geo_of r DistrictId = Some d' \<and> db DistrictId d' \<noteq> None"
  then have saved: "saved_geo db (geo_of r)" and area: "area_allows sx s (default_fields geo_of) r"
    using assms(3) by (auto simp: scoped_eq [OF assms(1)])
  have d: "ds_district s = Some d" "d \<noteq> []" "db DistrictId d \<noteq> None" using assms(2) by (simp_all add: scope_in_district_def)
  consider f i where "f \<in> set LOCAL_BODY_FIELDS" "i \<in> set (granted_bodies sx s f)" "geo_of r f = Some i"
    | a where "ds_area_type s = Some a" "a \<noteq> []" "geo_of r AreaTypeId = Some a"
    | "geo_of r DistrictId = Some d"
    using area d by (auto simp: area_allows_default split: if_splits)
  then show "d' = d"
  proof cases
    case 1
    with assms(2) obtain b where "i \<noteq> []" "db f i = Some b" "gr_columns b DistrictId = Some d"
      unfolding scope_in_district_def by blast
    from saved_geo_body [OF saved 1(1,3) this d(3)] d' show ?thesis by simp
  next
    case 2
    with assms(2) obtain b where "db AreaTypeId a = Some b" "gr_columns b DistrictId = Some d"
      unfolding scope_in_district_def by blast
    with saved_geo_parents [OF saved] 2(3) d' show ?thesis
      by (auto simp: parents_agree_def as_geo_instance_def differs_def)
  next
    case 3
    with d' show ?thesis by simp
  qed
qed

section \<open>A member synced to a row sees it\<close>

definition member :: "ident \<Rightarrow> requester option" where
  "member staff_id = Some \<lparr>rq_is_authenticated = True, rq_is_superuser = False, rq_staff_unique_id = Some staff_id,
     rq_linked_staff_id = None\<rparr>"

definition scope_ids :: "scope_db \<Rightarrow> bool" where
  "scope_ids sx \<longleftrightarrow> distinct (map ds_unique_id (sx_scopes sx)) \<and> [] \<notin> set (sx_wards sx)"

lemma synced_fields [simp]:
  "ds_staff_id (synced_scope sx g ws s) = ds_staff_id s" "ds_unique_id (synced_scope sx g ws s) = ds_unique_id s"
  "ds_is_deleted (synced_scope sx g ws s) = ds_is_deleted s" "ds_is_active (synced_scope sx g ws s)"
  by (simp_all add: synced_scope_def)

lemma member_scope:
  "staff_id \<noteq> [] \<Longrightarrow> requester_scope sx (member staff_id) =
     find (\<lambda>s. ds_staff_id s = staff_id \<and> ds_is_active s \<and> \<not> ds_is_deleted s) (sx_scopes sx)"
  by (simp add: requester_scope_def member_def)

lemma find_replaced:
  assumes "filter P xs = [old]" and "distinct (map g xs)" and "g new = g old" and "Q new"
    and "\<And>x. Q x \<Longrightarrow> P x"
  shows "find Q (map (\<lambda>x. if g x = g old then new else x) xs) = Some new"
  using assms(1,2)
proof (induction xs)
  case (Cons x xs)
  show ?case
  proof (cases "P x")
    case True
    with Cons.prems(1) have "x = old" by simp
    with assms(4) show ?thesis by simp
  next
    case False
    with Cons.prems(1) have old: "old \<in> set xs" "filter P xs = [old]" by (auto simp: filter_eq_Cons_iff)
    then have "g x \<noteq> g old" using Cons.prems(2) by auto
    moreover have "\<not> Q x" using False assms(5) by blast
    ultimately show ?thesis using Cons old by simp
  qed
qed simp

lemma sync_scope_found:
  assumes sync: "sync_staff_data_scope sx new_id staff_id g ws = Some (s, created, sx')"
    and ids: "scope_ids sx" and "staff_id \<noteq> []"
  shows "requester_scope sx' (member staff_id) = Some s" and "\<exists>s0. s = synced_scope sx g ws s0"
    and "sx_bodies sx' = sx_bodies sx" "sx_wards sx' = sx_wards sx"
proof -
  let ?P = "\<lambda>s. ds_staff_id s = staff_id \<and> \<not> ds_is_deleted s"
  have "requester_scope sx' (member staff_id) = Some s \<and> (\<exists>s0. s = synced_scope sx g ws s0)
      \<and> sx_bodies sx' = sx_bodies sx \<and> sx_wards sx' = sx_wards sx"
  proof (cases "filter ?P (sx_scopes sx)")
    case Nil
    with sync show ?thesis
      by (auto simp: sync_staff_data_scope_def Let_def member_scope [OF assms(3)])
  next
    case (Cons old rest)
    with sync have rest: "rest = []" by (auto simp: sync_staff_data_scope_def split: list.splits)
    let ?new = "synced_scope sx g ws old"
    have s: "s = ?new" "sx' = sx\<lparr>sx_scopes := map (\<lambda>x. if ds_unique_id x = ds_unique_id old then ?new else x) (sx_scopes sx)\<rparr>"
      using sync Cons rest by (simp_all add: sync_staff_data_scope_def Let_def)
    have "old \<in> set (filter ?P (sx_scopes sx))" using Cons by simp
    then have "ds_staff_id old = staff_id" "\<not> ds_is_deleted old" by simp_all
    then have "find (\<lambda>s. ds_staff_id s = staff_id \<and> ds_is_active s \<and> \<not> ds_is_deleted s) (sx_scopes sx') = Some ?new"
      using find_replaced [of ?P "sx_scopes sx" old ds_unique_id ?new
          "\<lambda>s. ds_staff_id s = staff_id \<and> ds_is_active s \<and> \<not> ds_is_deleted s"] Cons rest ids s(2)
      by (simp add: scope_ids_def)
    then show ?thesis using s by (auto simp: member_scope [OF assms(3)])
  qed
  then show "requester_scope sx' (member staff_id) = Some s" and "\<exists>s0. s = synced_scope sx g ws s0"
    and "sx_bodies sx' = sx_bodies sx" "sx_wards sx' = sx_wards sx" by blast+
qed

text \<open>A staff member whose scope is synced to a row sees that row, however many scopes and rows there are;
  but a row without geography and wards gives them every row.\<close>
theorem synced_member_sees_source:
  assumes "sync_staff_data_scope sx new_id staff_id (geo_of r) ws = Some (s, created, sx')"
    and "scope_ids sx" and "staff_id \<noteq> []" and "r \<in> set rows" and "ws = Some vs \<and> wards r = ManyWards vs \<or> wards r = NoWards"
  shows "r \<in> set (filter_by_requester sx' (member staff_id) (default_fields geo_of) wards rows)
    \<and> ((\<forall>f. \<not> truthy (geo_of r f)) \<and> (ws = None \<or> ws = Some []) \<longrightarrow>
         filter_by_requester sx' (member staff_id) (default_fields geo_of) wards rows = rows)"
proof -
  note found = sync_scope_found [OF assms(1-3)]
  obtain s0 where s: "s = synced_scope sx (geo_of r) ws s0" using found(2) by blast
  have bodies: "granted_bodies sx' s f = filter (\<lambda>i. geo_of r f = Some i \<and> i \<noteq> []) (sx_bodies sx f)"
    if "f \<in> set LOCAL_BODY_FIELDS" for f
    using that by (auto simp: granted_bodies_def found(3) s synced_scope_def intro!: filter_cong)
  have wards: "granted_wards sx' s = filter (\<lambda>i. i \<in> set (case ws of None \<Rightarrow> [] | Some vs \<Rightarrow> vs)) (sx_wards sx)"
    by (auto simp: granted_wards_def found(4) s synced_scope_def split: option.splits intro!: filter_cong)
  have fields: "ds_state s = geo_of r StateId" "ds_district s = geo_of r DistrictId" "ds_area_type s = geo_of r AreaTypeId"
    by (simp_all add: s synced_scope_def)
  have "area_allows sx' s (default_fields geo_of) r"
  proof (cases "granted_levels sx' s (default_fields geo_of)")
    case (Cons p ps)
    then obtain f where "f \<in> set LOCAL_BODY_FIELDS" "granted_bodies sx' s f \<noteq> []"
      using filter_set [of "\<lambda>(f, _). f \<in> set LOCAL_BODY_FIELDS \<and> granted_bodies sx' s f \<noteq> []" "default_fields geo_of"]
      unfolding granted_levels_def by (metis (mono_tags, lifting) case_prod_conv filter_eq_Cons_iff prod.collapse)
    then show ?thesis using Cons bodies by (auto simp: area_allows_default filter_empty_conv)
  qed (simp add: area_allows_default fields)
  moreover have "ward_allows sx' s (wards r)"
  proof (cases "granted_wards sx' s")
    case (Cons i more)
    then have i: "i \<in> set (granted_wards sx' s)" by simp
    with assms(2) have "i \<noteq> []" "i \<in> set (case ws of None \<Rightarrow> [] | Some vs \<Rightarrow> vs)"
      by (auto simp: wards scope_ids_def)
    with i assms(5) show ?thesis by (auto simp: ward_allows_def in_wards_def)
  qed (simp add: ward_allows_def)
  moreover have "filter_by_requester sx' (member staff_id) (default_fields geo_of) wards rows = rows"
    if blank: "\<forall>f. \<not> truthy (geo_of r f)" "ws = None \<or> ws = Some []"
  proof -
    have "granted_bodies sx' s f = []" if "f \<in> set LOCAL_BODY_FIELDS" for f
      using bodies [OF that] blank(1) [rule_format, of f] by (auto simp: filter_empty_conv)
    then have "granted_levels sx' s (default_fields geo_of) = []" by (auto simp: granted_levels_def filter_empty_conv)
    then have "area_allows sx' s (default_fields geo_of) x" for x using blank(1) by (simp add: area_allows_default fields)
    moreover have "ward_allows sx' s w" for w using blank(2) by (auto simp: ward_allows_def wards)
    ultimately show ?thesis by (simp add: scoped_eq [OF found(1)])
  qed
  ultimately show ?thesis using assms(4) by (simp add: scoped_eq [OF found(1)])
qed

section \<open>Who is offered for a trip\<close>

lemma default_field_in: "f \<in> set LOCAL_BODY_FIELDS \<Longrightarrow> (f, \<lambda>r. geo_of r f) \<in> set (default_fields geo_of)"
  by (auto simp: default_fields_def LOCAL_BODY_FIELDS_def STAFF_GEO_LEVEL_FIELDS_def)

lemma no_granted_levels:
  "\<forall>f\<in>set LOCAL_BODY_FIELDS. granted_bodies sx s f = [] \<Longrightarrow> granted_levels sx s columns = []"
  by (auto simp: granted_levels_def filter_empty_conv)

text \<open>A requester with a granted local body is offered, for a trip, every staff member they may read; one
  scoped to a district only may read the staff of the district's local bodies but is offered none
  of them.\<close>
theorem offered_against_readable:
  assumes "requester_scope sx user = Some s"
  shows "((\<exists>f\<in>set LOCAL_BODY_FIELDS. granted_bodies sx s f \<noteq> []) \<longrightarrow>
      set (filter_by_requester sx user (default_fields geo_of) wards rows) \<subseteq> set (filter_assignable_staff sx user geo_of wards rows))
   \<and> ((\<forall>f\<in>set LOCAL_BODY_FIELDS. ds_local_body_ids s f = []) \<and> \<not> truthy (ds_area_type s) \<and> truthy (ds_district s)
        \<and> r \<in> set rows \<and> geo_of r DistrictId = ds_district s \<and> ward_allows sx s (wards r)
        \<and> f \<in> set LOCAL_BODY_FIELDS \<and> \<not> blank (geo_of r f) \<longrightarrow>
      r \<in> set (filter_by_requester sx user (default_fields geo_of) wards rows)
      \<and> r \<notin> set (filter_assignable_staff sx user geo_of wards rows))"
proof -
  have "set (filter_by_requester sx user (default_fields geo_of) wards rows) \<subseteq> set (filter_assignable_staff sx user geo_of wards rows)"
    if "f \<in> set LOCAL_BODY_FIELDS" "granted_bodies sx s f \<noteq> []" for f
  proof -
    have "granted_levels sx s (default_fields geo_of) \<noteq> []"
      using default_field_in [OF that(1), of geo_of] that by (auto simp: granted_levels_def filter_empty_conv)
    then show ?thesis
      by (auto simp: scoped_eq [OF assms] assignable_eq [OF assms] area_allows_default offered_def assignable_def granted_bodies_def)
  qed
  moreover have "r \<in> set (filter_by_requester sx user (default_fields geo_of) wards rows)
      \<and> r \<notin> set (filter_assignable_staff sx user geo_of wards rows)"
    if none: "\<forall>f\<in>set LOCAL_BODY_FIELDS. ds_local_body_ids s f = []" and d: "\<not> truthy (ds_area_type s)" "truthy (ds_district s)"
      and r: "r \<in> set rows" "geo_of r DistrictId = ds_district s" "ward_allows sx s (wards r)"
      and f: "f \<in> set LOCAL_BODY_FIELDS" "\<not> blank (geo_of r f)"
  proof -
    have "granted_levels sx s (default_fields geo_of) = []"
      by (rule no_granted_levels) (use none in \<open>simp add: granted_bodies_def\<close>)
    then have "area_allows sx s (default_fields geo_of) r" using d r(2) by (simp add: area_allows_default)
    moreover have "\<not> offered sx s (geo_of r)" using none d f by (auto simp: offered_def assignable_def)
    ultimately show ?thesis using r by (simp add: scoped_eq [OF assms] assignable_eq [OF assms])
  qed
  ultimately show ?thesis by blast
qed

text \<open>Ids whose rows are gone count as no grant: the district takes over.\<close>

lemma dangling_grant_widens:
  assumes "requester_scope sx user = Some s" and "\<forall>f\<in>set LOCAL_BODY_FIELDS. granted_bodies sx s f = []"
    and "\<not> truthy (ds_area_type s)" "truthy (ds_district s)"
  shows "filter_by_requester sx user (default_fields geo_of) (\<lambda>_. NoWards) rows
    = filter (\<lambda>r. geo_of r DistrictId = ds_district s) rows"
  using assms(3,4) no_granted_levels [OF assms(2), of "default_fields geo_of"]
  by (simp add: scoped_eq [OF assms(1)] area_allows_default ward_allows_def in_wards_def)

section \<open>Filters of a request never widen\<close>

text \<open>Naming wards in the request never shows a trip log that the requester would not see without.\<close>
theorem ward_filter_never_widens:
  "set (filter_logs_by_ward sx trips user ward_id trip_of rows) \<subseteq> set (filter_logs_by_ward sx trips user None trip_of rows)"
proof -
  have "split_values [] = []" by (simp add: split_values_def py_strip_def)
  moreover have "in_wards vs (ManyWards w)" if "in_wards us (ManyWards w)" "set us \<subseteq> set vs" for us vs w
    using that by (auto simp: in_wards_def)
  ultimately show ?thesis
    by (cases "requester_scope sx user") (auto simp: filter_logs_by_ward_def Let_def split: if_splits option.splits)
qed

lemma filter_by_param_None [simp]: "fold (filter_by_param geo_of params) fs None = None"
  by (induction fs) (simp_all add: filter_by_param_def)

definition param_matches :: "(scope_field \<Rightarrow> string option) \<Rightarrow> geo \<Rightarrow> scope_field \<Rightarrow> bool" where
  "param_matches params g f \<longleftrightarrow> truthy (params f) \<longrightarrow> (\<exists>v\<in>set (split_values (the (params f))). g f = Some v)"

lemma filter_by_params_fold:
  "fold (filter_by_param geo_of params) fs (Some rows) =
     (if \<exists>f\<in>set fs. truthy (params f) \<and> split_values (the (params f)) = [] then None
      else Some (filter (\<lambda>r. \<forall>f\<in>set fs. param_matches params (geo_of r) f) rows))"
proof (induction fs arbitrary: rows)
  case (Cons f fs)
  show ?case
  proof (cases "truthy (params f)")
    case True
    show ?thesis
    proof (cases "split_values (the (params f))")
      case Nil
      with True have "filter_by_param geo_of params f (Some rows) = None" by (simp add: filter_by_param_def)
      with True Nil show ?thesis by simp
    next
      case (Cons v vs)
      have "filter (\<lambda>r. \<forall>f\<in>set fs. param_matches params (geo_of r) f)
          (filter (\<lambda>r. \<exists>v\<in>set (split_values (the (params f))). geo_of r f = Some v) rows)
        = filter (\<lambda>r. \<forall>f\<in>set (f # fs). param_matches params (geo_of r) f) rows"
        using True by (auto simp: param_matches_def intro!: filter_cong)
      moreover have "filter_by_param geo_of params f (Some rows)
          = Some (filter (\<lambda>r. \<exists>v\<in>set (split_values (the (params f))). geo_of r f = Some v) rows)"
        using True Cons by (simp add: filter_by_param_def)
      ultimately show ?thesis using True Cons by (simp add: local.Cons.IH)
    qed
  next
    case False
    then have "filter_by_param geo_of params f (Some rows) = Some rows" "\<And>g. param_matches params g f"
      by (simp_all add: filter_by_param_def param_matches_def)
    with False Cons.IH show ?thesis by simp
  qed
qed simp

text \<open>The geography filters of a request keep exactly the rows that match each given field in one of its
  comma-separated values; they raise exactly when a given value has nothing between its commas.\<close>
theorem geo_params_filter_exactly:
  "filter_by_params geo_of params rows =
     (if \<exists>f\<in>set FLAT_GEO_FIELDS. truthy (params f) \<and> split_values (the (params f)) = [] then None
      else Some (filter (\<lambda>r. list_all (param_matches params (geo_of r)) FLAT_GEO_FIELDS) rows))"
  unfolding filter_by_params_def list_all_iff by (rule filter_by_params_fold)

section \<open>Witnesses\<close>

definition sample_scope :: "ident list \<Rightarrow> data_scope" where
  "sample_scope corporations =
     \<lparr>ds_unique_id = ''DS'', ds_staff_id = ''U'', ds_state = None, ds_district = Some ''D'', ds_area_type = None,
      ds_local_body_ids = (\<lambda>f. if f = CorporationId then corporations else []), ds_ward_ids = [],
      ds_is_active = True, ds_is_deleted = False\<rparr>"

definition sample_scope_db :: "ident list \<Rightarrow> scope_db" where
  "sample_scope_db corporations =
     \<lparr>sx_scopes = [sample_scope corporations], sx_bodies = (\<lambda>f. if f = CorporationId then [''C''] else []), sx_wards = []\<rparr>"

definition sample_place :: geo where
  "sample_place = resolve_geo_value sample_accepted None"

lemma sample_place_fields:
  "sample_place DistrictId = Some ''D''" "sample_place CorporationId = Some ''C''" "saved_geo sample_geo_db sample_place"
  using sample_normalized unfolding sample_place_def saved_geo_def
  by (auto simp: sample_accepted_def sample_attrs_def resolve_geo_value_def)

lemma sample_member: "requester_scope (sample_scope_db cs) (member ''U'') = Some (sample_scope cs)"
  by (simp add: member_scope sample_scope_db_def sample_scope_def)

lemma scoped_rows_in_district_witness:
  "filter (\<lambda>r. \<exists>d'. id r DistrictId = Some d' \<and> sample_geo_db DistrictId d' \<noteq> None \<and> d' \<noteq> ''D'')
     (filter_by_requester (sample_scope_db [''C'']) (member ''U'') (default_fields id) (\<lambda>_. NoWards) [sample_place]) = []
   \<and> sample_place \<in> set (filter_by_requester (sample_scope_db [''C'']) (member ''U'') (default_fields id) (\<lambda>_. NoWards) [sample_place])"
proof -
  have "scope_in_district sample_geo_db (sample_scope_db [''C'']) (sample_scope [''C'']) ''D''"
    by (auto simp: scope_in_district_def sample_scope_def sample_scope_db_def granted_bodies_def sample_geo_db_def LOCAL_BODY_FIELDS_def)
  then have "\<forall>r\<in>set (filter_by_requester (sample_scope_db [''C'']) (member ''U'') (default_fields id) (\<lambda>_. NoWards) [sample_place]). \<forall>d'.
      id r DistrictId = Some d' \<and> sample_geo_db DistrictId d' \<noteq> None \<longrightarrow> d' = ''D''"
    using sample_place_fields(3) by (intro scoped_rows_in_district [OF sample_member]) simp_all
  moreover have "area_allows (sample_scope_db [''C'']) (sample_scope [''C'']) (default_fields id) sample_place"
    unfolding area_allows_default
    by (simp add: LOCAL_BODY_FIELDS_def granted_bodies_def sample_scope_def sample_scope_db_def sample_place_fields)
  ultimately show ?thesis
    by (auto simp: filter_empty_conv scoped_eq [OF sample_member] ward_allows_def in_wards_def)
qed

lemma synced_member_sees_source_witness:
  "\<exists>s created sx'. sync_staff_data_scope (sample_scope_db []) ''DS2'' ''U'' sample_place None = Some (s, created, sx')
     \<and> sample_place \<in> set (filter_by_requester sx' (member ''U'') (default_fields id) (\<lambda>_. NoWards) [sample_place])"
proof -
  obtain s created sx' where sync: "sync_staff_data_scope (sample_scope_db []) ''DS2'' ''U'' (id sample_place) None = Some (s, created, sx')"
    by (auto simp: sync_staff_data_scope_def sample_scope_db_def sample_scope_def Let_def)
  have "scope_ids (sample_scope_db [])" by (simp add: scope_ids_def sample_scope_db_def)
  with synced_member_sees_source [where geo_of = id and r = sample_place and rows = "[sample_place]"
        and wards = "\<lambda>_. NoWards" and vs = "[]", OF sync] sync show ?thesis by auto
qed

lemma offered_against_readable_witness:
  "sample_place \<in> set (filter_by_requester (sample_scope_db []) (member ''U'') (default_fields id) (\<lambda>_. NoWards) [sample_place])
   \<and> sample_place \<notin> set (filter_assignable_staff (sample_scope_db []) (member ''U'') id (\<lambda>_. NoWards) [sample_place])"
  using offered_against_readable [OF sample_member [of "[]"], of id "\<lambda>_. NoWards" "[sample_place]" sample_place CorporationId]
  by (simp add: sample_scope_def sample_place_fields ward_allows_def granted_wards_def LOCAL_BODY_FIELDS_def blank_def)

end
