(* ===== verification/Service_Desk.thy ===== *)
theory Service_Desk
  imports Daily_Generation Data_Scope
begin

text \<open>
  The supervisor's handlers for a day's service (\<open>daily_trip_assignment_viewset.py\<close>): whose plans they
  may touch, the choice of plans to generate, declaring and revoking a day without collection, the
  manual run; with the roles they ask for (\<open>app/utils/roles.py\<close>).

  A date parameter is what parsing it gave. A handler answers with a status and leaves the state it
  changed. The choice of plans, the declaration and the revocation work in one transaction each, so
  their errors leave the state they found; the manual run commits plan by plan, so a plan it fails on
  leaves the trips of the plans before it. The pushes of a
  declaration run after the commit; they read and write only the rows of its own notice.
\<close>

section \<open>Roles\<close>

text \<open>\<open>du_role_names\<close>: the names of the three role rows of the account, staff, contractor, government.\<close>

record desk_user =
  du_requester :: requester
  du_role_names :: "string option list"

definition ADMIN_ROLE_NAMES :: "string list" where
  "ADMIN_ROLE_NAMES = [''admin'', ''company_admin'', ''company admin'']"

definition SUPERVISOR_ROLE_NAMES :: "string list" where
  "SUPERVISOR_ROLE_NAMES = [''supervisor'', ''company_supervisor'', ''company supervisor'']"

definition ends_with :: "string \<Rightarrow> string \<Rightarrow> bool" where
  "ends_with p s \<longleftrightarrow> starts_with (rev p) (rev s)"

definition effective_role_name :: "desk_user \<Rightarrow> string" where
  "effective_role_name u =
     (case find truthy (du_role_names u) of Some (Some name) \<Rightarrow> lower (py_strip name) | _ \<Rightarrow> [])"

definition is_super_admin :: "desk_user \<Rightarrow> bool" where
  "is_super_admin u \<longleftrightarrow> rq_is_superuser (du_requester u)"

definition is_admin_role :: "desk_user \<Rightarrow> bool" where
  "is_admin_role u \<longleftrightarrow>
     (let role = effective_role_name u
      in role \<noteq> [] \<and> (role \<in> set ADMIN_ROLE_NAMES \<or> starts_with ''govt_'' role \<and> ends_with ''_admin'' role))"

definition is_supervisor_role :: "desk_user \<Rightarrow> bool" where
  "is_supervisor_role u \<longleftrightarrow>
     (let role = effective_role_name u
      in role \<noteq> [] \<and> (role \<in> set SUPERVISOR_ROLE_NAMES \<or> starts_with ''govt_'' role \<and> ends_with ''_supervisor'' role))"

definition can_manage_trips :: "desk_user \<Rightarrow> bool" where
  "can_manage_trips u \<longleftrightarrow> is_super_admin u \<or> is_admin_role u \<or> is_supervisor_role u"

section \<open>Requests\<close>

datatype date_param = DateMissing | DateInvalid | DateGiven int

datatype answer =
    Answered | Forbidden | BadRequest | NotFound | Conflict service_error | ServerError service_error

text \<open>What the handlers know of the request: the user, their scope, today, the clock and the pushes.\<close>

record desk =
  dk_user :: desk_user
  dk_scopes :: scope_db
  dk_ids :: service_ids
  dk_push :: "ident \<Rightarrow> bool"
  dk_today :: int
  dk_now :: int
  dk_actor :: "ident option"

definition service_date :: "desk \<Rightarrow> date_param \<Rightarrow> int option" where
  "service_date dk raw = (case raw of DateMissing \<Rightarrow> Some (dk_today dk) | DateInvalid \<Rightarrow> None | DateGiven d \<Rightarrow> Some d)"

definition owned_plans :: "desk \<Rightarrow> service_db \<Rightarrow> trip_plan list" where
  "owned_plans dk sd =
     (let plans = filter (\<lambda>p. \<not> tp_is_deleted p) (td_plans (sd_trips sd))
      in if is_supervisor_role (dk_user dk)
         then filter (\<lambda>p. tp_supervisor_id p = rq_staff_unique_id (du_requester (dk_user dk))) plans
         else filter_by_requester (dk_scopes dk) (Some (du_requester (dk_user dk))) (default_fields tp_geo)
                (\<lambda>p. ManyWards (tp_ward_ids p)) plans)"

text \<open>The checks of \<open>generate_selected\<close> and \<open>no_collection\<close> before their transaction.\<close>

definition chosen_plans :: "desk \<Rightarrow> date_param \<Rightarrow> ident list \<Rightarrow> service_db \<Rightarrow> answer + int \<times> trip_plan list" where
  "chosen_plans dk raw_date raw_ids sd =
     (if \<not> can_manage_trips (dk_user dk) then Inl Forbidden
      else case service_date dk raw_date of
        None \<Rightarrow> Inl BadRequest
      | Some date \<Rightarrow>
          if is_supervisor_role (dk_user dk) \<and> date \<noteq> dk_today dk then Inl BadRequest
          else if raw_ids = [] \<or> length raw_ids > 50 then Inl BadRequest
          else let plans = filter (\<lambda>p. tp_unique_id p \<in> set raw_ids) (owned_plans dk sd)
               in if length plans \<noteq> length (remdups raw_ids) then Inl Forbidden else Inr (date, plans))"

definition generate_selected_view :: "desk \<Rightarrow> date_param \<Rightarrow> ident list \<Rightarrow> service_db \<Rightarrow> answer \<times> service_db" where
  "generate_selected_view dk raw_date raw_ids sd =
     (case chosen_plans dk raw_date raw_ids sd of
        Inl a \<Rightarrow> (a, sd)
      | Inr (date, plans) \<Rightarrow>
          (case generate_selected (dk_ids dk) date (map tp_unique_id plans) sd of
             Inl e \<Rightarrow> (ServerError e, sd)
           | Inr s \<Rightarrow> (Answered, sel_db s)))"

definition declare_one ::
  "desk \<Rightarrow> int \<Rightarrow> string \<Rightarrow> string \<Rightarrow> trip_plan \<Rightarrow> service_error + ident list \<times> service_db \<Rightarrow> service_error + ident list \<times> service_db" where
  "declare_one dk date code words p acc =
     (case acc of
        Inl e \<Rightarrow> Inl e
      | Inr (uids, sd) \<Rightarrow>
          (case declare_no_collection (dk_ids dk) (dk_push dk) (dk_now dk) (tp_unique_id p) date code words sd of
             Inl e \<Rightarrow> Inl e
           | Inr (uid, sd') \<Rightarrow> Inr (uids @ [uid], sd')))"

definition no_collection_view ::
  "desk \<Rightarrow> date_param \<Rightarrow> ident list \<Rightarrow> string \<Rightarrow> string \<Rightarrow> service_db \<Rightarrow> answer \<times> service_db" where
  "no_collection_view dk raw_date raw_ids code words sd =
     (case chosen_plans dk raw_date raw_ids sd of
        Inl a \<Rightarrow> (a, sd)
      | Inr (date, plans) \<Rightarrow>
          (case fold (declare_one dk date code words) plans (Inr ([], sd)) of
             Inl PlanMissing \<Rightarrow> (ServerError PlanMissing, sd)
           | Inl e \<Rightarrow> (Conflict e, sd)
           | Inr (_, sd') \<Rightarrow> (Answered, sd')))"

definition revoke_service_notice :: "desk \<Rightarrow> ident \<Rightarrow> string \<Rightarrow> service_db \<Rightarrow> answer \<times> service_db" where
  "revoke_service_notice dk notice_id reason sd =
     (if \<not> can_manage_trips (dk_user dk) then (Forbidden, sd)
      else case find (\<lambda>n. dn_unique_id n = notice_id \<and> \<not> dn_is_deleted n) (sd_notices sd) of
        None \<Rightarrow> (NotFound, sd)
      | Some n \<Rightarrow>
          if dn_trip_plan_id n \<notin> tp_unique_id ` set (owned_plans dk sd) then (NotFound, sd)
          else if is_supervisor_role (dk_user dk) \<and> dn_service_date n \<noteq> dk_today dk then (BadRequest, sd)
          else case revoke_no_collection (dk_push dk) (dk_now dk) (dk_actor dk) reason (dn_unique_id n) sd of
            Inl NoticeMissing \<Rightarrow> (ServerError NoticeMissing, sd)
          | Inl e \<Rightarrow> (Conflict e, sd)
          | Inr sd' \<Rightarrow> (Answered, sd'))"

text \<open>The manual run of the night's job, for administrators.\<close>

definition generate_daily :: "desk \<Rightarrow> date_param \<Rightarrow> service_db \<Rightarrow> answer \<times> service_db" where
  "generate_daily dk raw_date sd =
     (if \<not> can_manage_trips (dk_user dk) then (Forbidden, sd)
      else case service_date dk raw_date of
        None \<Rightarrow> (BadRequest, sd)
      | Some date \<Rightarrow>
          if is_supervisor_role (dk_user dk) then (BadRequest, sd)
          else let rn = run_for_date (dk_ids dk) date False sd
               in (case rn_failed rn of None \<Rightarrow> Answered | Some e \<Rightarrow> ServerError e, rn_db rn))"

definition today_plan_options :: "desk \<Rightarrow> date_param \<Rightarrow> service_db \<Rightarrow> answer + (ident \<times> option_state) list" where
  "today_plan_options dk raw_date sd =
     (if \<not> can_manage_trips (dk_user dk) then Inl Forbidden
      else case service_date dk raw_date of
        None \<Rightarrow> Inl BadRequest
      | Some date \<Rightarrow>
          Inr (filter (\<lambda>(_, st). st \<noteq> NotScheduled)
                (map (\<lambda>p. (tp_unique_id p, plan_option date sd p)) (owned_plans dk sd))))"

section \<open>Only one's own plans\<close>

text \<open>What a plan has on the table: its trips and the days it is called off.\<close>

definition plan_untouched :: "ident \<Rightarrow> service_db \<Rightarrow> service_db \<Rightarrow> bool" where
  "plan_untouched q sd sd' \<longleftrightarrow>
     filter (\<lambda>t. tr_trip_plan_id t = q) (td_trips (sd_trips sd')) = filter (\<lambda>t. tr_trip_plan_id t = q) (td_trips (sd_trips sd))
     \<and> (\<forall>d. noticed sd' q d \<longleftrightarrow> noticed sd q d) \<and> td_plans (sd_trips sd') = td_plans (sd_trips sd)"

lemma untouched_refl [simp]: "plan_untouched q sd sd"
  by (simp add: plan_untouched_def)

lemma untouched_trans: "plan_untouched q a b \<Longrightarrow> plan_untouched q b c \<Longrightarrow> plan_untouched q a c"
  by (simp add: plan_untouched_def)

lemma service_inv_keys: "service_inv sd \<Longrightarrow> notice_keys (sd_notices sd)"
  by (simp add: service_inv_def service_ok_def)

lemma filter_trips_frame:
  "(\<And>t. Q (f t) = Q t) \<Longrightarrow> (\<And>t. Q t \<Longrightarrow> f t = t) \<Longrightarrow>
     filter Q (td_trips (db\<lparr>td_trips := map f (td_trips db)\<rparr>)) = filter Q (td_trips db)"
  by (simp add: filter_map_frame)

lemma filter_plan_frame:
  "q \<noteq> p \<Longrightarrow> filter (\<lambda>t. tr_trip_plan_id t = q) (td_trips (restore_cancelled p d r db)) = filter (\<lambda>t. tr_trip_plan_id t = q) (td_trips db)"
  "q \<noteq> p \<Longrightarrow> filter (\<lambda>t. tr_trip_plan_id t = q) (td_trips (cancel_scheduled p d s db)) = filter (\<lambda>t. tr_trip_plan_id t = q) (td_trips db)"
  unfolding restore_called_off cancel_scheduled_def
  by (rule filter_trips_frame; auto simp: day_trip_def)+

lemma declare_untouched:
  assumes inv: "service_inv sd" and ids: "fresh_ids ids"
    and run: "declare_no_collection ids push now plan_id date code words sd = Inr (uid, sd1)" and q: "q \<noteq> plan_id"
  shows "plan_untouched q sd sd1"
proof (cases "noticed sd plan_id date")
  case True
  with declare_noticed [OF True run] show ?thesis by simp
next
  case False
  have "new_notice ids (sd_notices sd) \<notin> dn_unique_id ` set (sd_notices sd)" using ids by (simp add: fresh_ids_def)
  note effect = declare_effect [OF run False service_inv_keys [OF inv] this]
  obtain detail where db: "sd_trips sd1 = cancel_scheduled plan_id date detail (sd_trips sd)"
    using effect(2) by blast
  have "filter (\<lambda>t. tr_trip_plan_id t = q) (td_trips (sd_trips sd1)) = filter (\<lambda>t. tr_trip_plan_id t = q) (td_trips (sd_trips sd))"
    unfolding db by (rule filter_plan_frame(2) [OF q])
  moreover have "noticed sd1 q d \<longleftrightarrow> noticed sd q d" for d using effect(5) [of q d] q by simp
  ultimately show ?thesis by (simp add: plan_untouched_def db)
qed

lemma generate_untouched:
  assumes inv: "service_inv sd" and ids: "fresh_ids ids"
    and run: "generate_assignment_for_plan ids plan_id date sd = Inr (x, sd')" and q: "q \<noteq> plan_id"
  shows "plan_untouched q sd sd'"
proof -
  obtain p where p: "find_plan sd plan_id = Some p" and notice: "\<not> noticed sd plan_id date"
    using run by (auto simp: generate_assignment_for_plan_def active_notice_None split: option.splits if_splits)
  then have id: "tp_unique_id p = plan_id" "plan_id \<noteq> []" using find_plan_id [OF inv] by blast+
  show ?thesis
  proof (cases "existing_assignment_for_plan (sd_trips sd) plan_id date")
    case (Some t)
    then have "sd' = sd" using run p notice by (simp add: generate_assignment_for_plan_def active_notice_None [symmetric])
    then show ?thesis by simp
  next
    case None
    with generate_effect [of sd p ids date] p id ids notice run
    have "\<exists>t db. sd' = sd\<lparr>sd_trips := db\<rparr> \<and> grows (sd_trips sd) [t] db \<and> trip_for p date t"
      by (cases "copyable (sd_trips sd) p") auto
    then show ?thesis
      using id q by (auto simp: plan_untouched_def grows_reads trip_for_def day_trip_def noticed_def)
  qed
qed

lemma select_untouched:
  assumes ids: "fresh_ids ids" and q: "q \<notin> set plan_ids"
  shows "(\<And>s. acc = Inr s \<Longrightarrow> service_inv (sel_db s) \<and> plan_untouched q sd (sel_db s)) \<Longrightarrow>
    fold (select_plan ids date) plan_ids acc = Inr s' \<Longrightarrow> plan_untouched q sd (sel_db s')"
  using q
proof (induction plan_ids arbitrary: acc)
  case (Cons i plan_ids)
  have "service_inv (sel_db s) \<and> plan_untouched q sd (sel_db s)" if step: "select_plan ids date i acc = Inr s" for s
  proof -
    obtain s0 where s0: "acc = Inr s0" using step by (cases acc) (auto simp: select_plan_def)
    with Cons.prems(1) have inv: "service_inv (sel_db s0)" and here: "plan_untouched q sd (sel_db s0)" by blast+
    have "sel_db s = sel_db s0 \<or> (\<exists>x. generate_assignment_for_plan ids i date (sel_db s0) = Inr (x, sel_db s))"
      using step s0 by (auto simp: select_plan_def split: option.splits sum.splits prod.splits if_splits)
    then show ?thesis
      using inv here service_inv_generate [OF inv ids] generate_untouched [OF inv ids] Cons.prems(3) untouched_trans
      by (metis list.set_intros(1))
  qed
  with Cons.IH [of "select_plan ids date i acc"] Cons.prems(2,3) show ?case by simp
qed simp

lemma declares_untouched:
  assumes ids: "fresh_ids (dk_ids dk)" and q: "q \<notin> tp_unique_id ` set plans"
  shows "(\<And>us s. acc = Inr (us, s) \<Longrightarrow> service_inv s \<and> plan_untouched q sd s) \<Longrightarrow>
    fold (declare_one dk date code words) plans acc = Inr (us', s') \<Longrightarrow> service_inv s' \<and> plan_untouched q sd s'"
  using q
proof (induction plans arbitrary: acc)
  case (Cons p plans)
  have "service_inv s \<and> plan_untouched q sd s" if step: "declare_one dk date code words p acc = Inr (us, s)" for us s
  proof -
    obtain us0 s0 uid where s0: "acc = Inr (us0, s0)"
      and run: "declare_no_collection (dk_ids dk) (dk_push dk) (dk_now dk) (tp_unique_id p) date code words s0 = Inr (uid, s)"
      using step by (auto simp: declare_one_def split: sum.splits prod.splits)
    with Cons.prems(1) have inv: "service_inv s0" and here: "plan_untouched q sd s0" by blast+
    show ?thesis
      using service_inv_declare [OF inv ids run] declare_untouched [OF inv ids run] Cons.prems(3) untouched_trans [OF here]
      by auto
  qed
  with Cons.IH [of "declare_one dk date code words p acc"] Cons.prems(2,3) show ?case by simp
qed simp

datatype desk_call =
    CallSelect date_param "ident list" | CallNoCollection date_param "ident list" string string
  | CallRevoke ident string | CallGenerateDaily date_param

fun desk_step :: "desk \<Rightarrow> desk_call \<Rightarrow> service_db \<Rightarrow> answer \<times> service_db" where
  "desk_step dk (CallSelect raw_date raw_ids) sd = generate_selected_view dk raw_date raw_ids sd"
| "desk_step dk (CallNoCollection raw_date raw_ids code words) sd = no_collection_view dk raw_date raw_ids code words sd"
| "desk_step dk (CallRevoke notice_id reason) sd = revoke_service_notice dk notice_id reason sd"
| "desk_step dk (CallGenerateDaily raw_date) sd = generate_daily dk raw_date sd"

lemma chosen_owned: "chosen_plans dk raw_date raw_ids sd = Inr (date, plans) \<Longrightarrow> set plans \<subseteq> set (owned_plans dk sd)"
  by (auto simp: chosen_plans_def Let_def split: option.splits if_splits)

lemma select_touches_own:
  assumes "service_inv sd" and "fresh_ids (dk_ids dk)" and "desk_step dk (CallSelect raw_date raw_ids) sd = (a, sd')"
  shows "(q \<notin> tp_unique_id ` set (owned_plans dk sd) \<longrightarrow> plan_untouched q sd sd') \<and> (a \<noteq> Answered \<longrightarrow> sd' = sd)"
proof (cases "chosen_plans dk raw_date raw_ids sd")
  case (Inr dp)
  then obtain date plans where chosen: "chosen_plans dk raw_date raw_ids sd = Inr (date, plans)" by (cases dp) simp
  show ?thesis
  proof (cases "generate_selected (dk_ids dk) date (map tp_unique_id plans) sd")
    case (Inr s)
    then have "plan_untouched q sd (sel_db s)" if "q \<notin> tp_unique_id ` set (owned_plans dk sd)"
      using select_untouched [OF assms(2), of q "map tp_unique_id plans"
          "Inr \<lparr>sel_db = sd, sel_created = [], sel_existing = [], sel_blocked = []\<rparr>" sd date s]
        that chosen_owned [OF chosen] assms(1) unfolding generate_selected_def by auto
    with assms(3) chosen Inr show ?thesis by (auto simp: generate_selected_view_def)
  qed (use assms(3) chosen in \<open>auto simp: generate_selected_view_def\<close>)
qed (use assms(3) in \<open>auto simp: generate_selected_view_def\<close>)

lemma no_collection_touches_own:
  assumes "service_inv sd" and "fresh_ids (dk_ids dk)" and "desk_step dk (CallNoCollection raw_date raw_ids code words) sd = (a, sd')"
  shows "(q \<notin> tp_unique_id ` set (owned_plans dk sd) \<longrightarrow> plan_untouched q sd sd') \<and> (a \<noteq> Answered \<longrightarrow> sd' = sd)"
proof (cases "chosen_plans dk raw_date raw_ids sd")
  case (Inr dp)
  then obtain date plans where chosen: "chosen_plans dk raw_date raw_ids sd = Inr (date, plans)" by (cases dp) simp
  show ?thesis
  proof (cases "fold (declare_one dk date code words) plans (Inr ([], sd))")
    case (Inr r)
    then obtain us s where run: "fold (declare_one dk date code words) plans (Inr ([], sd)) = Inr (us, s)" by (cases r) simp
    have "plan_untouched q sd s" if "q \<notin> tp_unique_id ` set (owned_plans dk sd)"
      using declares_untouched [OF assms(2) _ _ run, of q sd] that chosen_owned [OF chosen] assms(1) by auto
    with assms(3) chosen run show ?thesis by (auto simp: no_collection_view_def)
  qed (use assms(3) chosen in \<open>auto simp: no_collection_view_def split: service_error.splits\<close>)
qed (use assms(3) in \<open>auto simp: no_collection_view_def\<close>)

lemma revoke_touches_own:
  assumes "service_inv sd" and "fresh_ids (dk_ids dk)" and "desk_step dk (CallRevoke notice_id reason) sd = (a, sd')"
  shows "(q \<notin> tp_unique_id ` set (owned_plans dk sd) \<longrightarrow> plan_untouched q sd sd') \<and> (a \<noteq> Answered \<longrightarrow> sd' = sd)"
proof (cases "sd' = sd")
  case False
  then obtain n where n: "find (\<lambda>n. dn_unique_id n = notice_id \<and> \<not> dn_is_deleted n) (sd_notices sd) = Some n"
    and owned: "dn_trip_plan_id n \<in> tp_unique_id ` set (owned_plans dk sd)" and a: "a = Answered"
    and run: "revoke_no_collection (dk_push dk) (dk_now dk) (dk_actor dk) reason (dn_unique_id n) sd = Inr sd'"
    using assms(3)
    by (auto simp: revoke_service_notice_def split: option.splits if_splits sum.splits service_error.splits)
  obtain m where m: "m \<in> set (sd_notices sd)" "dn_unique_id m = dn_unique_id n" "dn_status m = NoticeActive"
    using run by (auto simp: revoke_no_collection_def split: option.splits if_splits dest!: find_in)
  have same: "m = n"
    using m(1,2) find_in [OF n] service_inv_keys [OF assms(1)] distinct_map_eq unfolding notice_keys_def by metis
  from revoke_effect [OF service_inv_keys [OF assms(1)] m, of "dk_push dk" "dk_now dk" "dk_actor dk" reason] run
  have db: "sd_trips sd' = restore_cancelled (dn_trip_plan_id n) (dn_service_date n) (py_strip reason) (sd_trips sd)"
    and noticed: "\<And>p d. noticed sd' p d \<longleftrightarrow> noticed sd p d \<and> (p, d) \<noteq> notice_day n" by (auto simp: same)
  have "plan_untouched q sd sd'" if "q \<noteq> dn_trip_plan_id n"
  proof -
    have "filter (\<lambda>t. tr_trip_plan_id t = q) (td_trips (sd_trips sd')) = filter (\<lambda>t. tr_trip_plan_id t = q) (td_trips (sd_trips sd))"
      unfolding db by (rule filter_plan_frame(1) [OF that])
    then show ?thesis using that noticed by (simp add: plan_untouched_def db notice_day_def)
  qed
  with owned a show ?thesis by blast
qed simp

lemma manual_run_only_adds:
  assumes "service_inv sd" and "fresh_ids (dk_ids dk)" and "desk_step dk (CallGenerateDaily raw_date) sd = (a, sd')"
  shows "(\<exists>ts db. sd' = sd\<lparr>sd_trips := db\<rparr> \<and> grows (sd_trips sd) ts db)
    \<and> (sd' \<noteq> sd \<longrightarrow> can_manage_trips (dk_user dk) \<and> \<not> is_supervisor_role (dk_user dk))"
proof (cases "sd' = sd")
  case True
  then show ?thesis by (intro conjI exI [of _ "[]"] exI [of _ "sd_trips sd"]) simp_all
next
  case False
  with assms(3) obtain date where "can_manage_trips (dk_user dk)" "\<not> is_supervisor_role (dk_user dk)"
    and sd': "sd' = rn_db (run_for_date (dk_ids dk) date False sd)"
    by (auto simp: generate_daily_def Let_def split: if_splits option.splits)
  moreover have "plans_keyed sd" using assms(1) by (simp add: service_inv_def)
  then have "\<exists>ts db. sd' = sd\<lparr>sd_trips := db\<rparr> \<and> grows (sd_trips sd) ts db"
    using run_for_date_outcome [OF _ assms(2), of sd False date] unfolding run_outcome_def Let_def sd' by auto
  ultimately show ?thesis by blast
qed

text \<open>C25: Choosing plans, calling plans off and revoking a notice touch no plan the user does not own, a
  supervisor those of other supervisors, an administrator those outside their scope; and when the answer is not
  success they leave everything as it was. The manual run of the night's job is the exception: it serves every
  plan and keeps what it did before an error. But only an administrator's changes anything, and it only adds
  trips and their stops: no trip, notice or plan that was there is changed.\<close>
theorem desk_touches_own_plans_only:
  assumes "service_inv sd" and "fresh_ids (dk_ids dk)" and "desk_step dk c sd = (a, sd')"
  shows "((\<nexists>raw_date. c = CallGenerateDaily raw_date) \<longrightarrow>
       (q \<notin> tp_unique_id ` set (owned_plans dk sd) \<longrightarrow> plan_untouched q sd sd') \<and> (a \<noteq> Answered \<longrightarrow> sd' = sd))
    \<and> ((\<exists>raw_date. c = CallGenerateDaily raw_date) \<longrightarrow>
       (\<exists>ts db. sd' = sd\<lparr>sd_trips := db\<rparr> \<and> grows (sd_trips sd) ts db)
       \<and> (sd' \<noteq> sd \<longrightarrow> can_manage_trips (dk_user dk) \<and> \<not> is_supervisor_role (dk_user dk)))"
  using assms
  by (cases c) (blast dest: select_touches_own no_collection_touches_own revoke_touches_own manual_run_only_adds)+

section \<open>A declared choice is declared\<close>

lemma declare_noticed_after:
  assumes inv: "service_inv sd" and ids: "fresh_ids ids"
    and run: "declare_no_collection ids push now plan_id date code words sd = Inr (uid, sd1)"
  shows "noticed sd1 plan_id date" and "noticed sd q d \<Longrightarrow> noticed sd1 q d"
proof -
  have "noticed sd1 plan_id date \<and> (noticed sd q d \<longrightarrow> noticed sd1 q d)"
  proof (cases "noticed sd plan_id date")
    case True
    with declare_noticed [OF True run] show ?thesis by simp
  next
    case False
    have "new_notice ids (sd_notices sd) \<notin> dn_unique_id ` set (sd_notices sd)" using ids by (simp add: fresh_ids_def)
    note effect = declare_effect [OF run False service_inv_keys [OF inv] this]
    have "noticed sd1 plan_id date" using effect(4) by (auto simp: noticed_def)
    with effect(5) [of q d] show ?thesis by (cases "(q, d) = (plan_id, date)") auto
  qed
  then show "noticed sd1 plan_id date" and "noticed sd q d \<Longrightarrow> noticed sd1 q d" by blast+
qed

lemma declares_all:
  assumes ids: "fresh_ids (dk_ids dk)"
  shows "service_inv sd \<Longrightarrow> fold (declare_one dk date code words) plans (Inr (us, sd)) = Inr (us', sd') \<Longrightarrow>
    service_inv sd' \<and> (\<forall>q d. noticed sd q d \<longrightarrow> noticed sd' q d) \<and> (\<forall>p\<in>set plans. noticed sd' (tp_unique_id p) date)"
proof (induction plans arbitrary: us sd)
  case (Cons p plans)
  have inl: "fold (declare_one dk date code words) ps (Inl e) = Inl e" for ps e
    by (induction ps) (simp_all add: declare_one_def)
  show ?case
  proof (cases "declare_no_collection (dk_ids dk) (dk_push dk) (dk_now dk) (tp_unique_id p) date code words sd")
    case (Inl e)
    then have "declare_one dk date code words p (Inr (us, sd)) = Inl e" by (simp add: declare_one_def)
    with Cons.prems(2) show ?thesis by (simp add: inl)
  next
    case (Inr r)
    then obtain uid sd1 where run:
      "declare_no_collection (dk_ids dk) (dk_push dk) (dk_now dk) (tp_unique_id p) date code words sd = Inr (uid, sd1)"
      by (cases r) simp
    have "service_inv sd1" by (rule service_inv_declare [OF Cons.prems(1) ids run])
    from Cons.IH [OF this, of "us @ [uid]"] Cons.prems(2) run
    have "service_inv sd' \<and> (\<forall>q d. noticed sd1 q d \<longrightarrow> noticed sd' q d) \<and> (\<forall>p\<in>set plans. noticed sd' (tp_unique_id p) date)"
      by (simp add: declare_one_def)
    with declare_noticed_after [OF Cons.prems(1) ids run] show ?thesis by auto
  qed
qed simp

lemma owned_distinct: "service_inv sd \<Longrightarrow> distinct (map tp_unique_id (owned_plans dk sd))"
  by (auto simp: service_inv_def plans_keyed_def owned_plans_def Let_def distinct_map_filter filter_by_requester_eq)

text \<open>All of the request's plans are in the choice: as many distinct ids as plans found.\<close>

lemma chosen_complete:
  assumes inv: "service_inv sd" and chosen: "chosen_plans dk raw_date raw_ids sd = Inr (date, plans)"
  shows "tp_unique_id ` set plans = set raw_ids"
proof -
  have plans: "plans = filter (\<lambda>p. tp_unique_id p \<in> set raw_ids) (owned_plans dk sd)"
    and count: "length plans = length (remdups raw_ids)"
    using chosen by (auto simp: chosen_plans_def Let_def split: option.splits if_splits)
  have "distinct (map tp_unique_id plans)" using owned_distinct [OF inv] by (simp add: plans distinct_map_filter)
  then have "card (tp_unique_id ` set plans) = length plans" by (metis distinct_card length_map set_map)
  also have "\<dots> = card (set raw_ids)" by (simp add: count length_remdups_card_conv)
  finally show ?thesis by (intro card_subset_eq) (auto simp: plans)
qed

text \<open>When a request to call plans off succeeds, its user may manage trips and owns every plan named, the day
  is today for a supervisor, and every plan named, none left out, has its notice and a clear day.\<close>
theorem called_off_completely:
  assumes "service_inv sd" and "fresh_ids (dk_ids dk)" and "no_collection_view dk raw_date raw_ids code words sd = (Answered, sd')"
  shows "\<exists>date. service_date dk raw_date = Some date \<and> can_manage_trips (dk_user dk)
    \<and> (is_supervisor_role (dk_user dk) \<longrightarrow> date = dk_today dk)
    \<and> set raw_ids \<subseteq> tp_unique_id ` set (owned_plans dk sd)
    \<and> (\<forall>i. i \<in> set raw_ids \<longrightarrow> noticed sd' i date \<and> cleared (sd_trips sd') i date)"
proof -
  obtain date plans us where chosen: "chosen_plans dk raw_date raw_ids sd = Inr (date, plans)"
    and run: "fold (declare_one dk date code words) plans (Inr ([], sd)) = Inr (us, sd')"
    using assms(3) by (auto simp: no_collection_view_def chosen_plans_def Let_def split: sum.splits service_error.splits option.splits if_splits)
  have guards: "service_date dk raw_date = Some date" "can_manage_trips (dk_user dk)"
    "is_supervisor_role (dk_user dk) \<longrightarrow> date = dk_today dk"
    using chosen by (auto simp: chosen_plans_def Let_def split: option.splits if_splits)
  note ids = chosen_complete [OF assms(1) chosen]
  have all: "service_inv sd' \<and> (\<forall>p\<in>set plans. noticed sd' (tp_unique_id p) date)"
    using declares_all [OF assms(2,1) run] by blast
  then have "noticed sd' i date \<and> cleared (sd_trips sd') i date" if "i \<in> set raw_ids" for i
    using that unfolding ids [symmetric] by (auto simp: service_inv_def service_ok_def)
  then show ?thesis using guards ids chosen_owned [OF chosen] by blast
qed

section \<open>Witnesses\<close>

text \<open>A supervisor of the one plan, and one of none.\<close>

definition sample_desk :: "ident \<Rightarrow> desk" where
  "sample_desk staff_id =
     \<lparr>dk_user = \<lparr>du_requester = \<lparr>rq_is_authenticated = True, rq_is_superuser = False, rq_staff_unique_id = Some staff_id,
          rq_linked_staff_id = None\<rparr>, du_role_names = [None, None, Some ''govt_x_supervisor'']\<rparr>,
      dk_scopes = sample_scope_db [], dk_ids = sample_service_ids, dk_push = (\<lambda>_. True), dk_today = 20000,
      dk_now = 0, dk_actor = None\<rparr>"

lemma sample_desk_role: "is_supervisor_role (dk_user (sample_desk s))" "can_manage_trips (dk_user (sample_desk s))"
proof -
  have "effective_role_name (dk_user (sample_desk s)) = ''govt_x_supervisor''" by code_simp
  then show "is_supervisor_role (dk_user (sample_desk s))"
    by (simp add: is_supervisor_role_def starts_with_def ends_with_def)
  then show "can_manage_trips (dk_user (sample_desk s))" by (simp add: can_manage_trips_def)
qed

lemma sample_desk_owned:
  "owned_plans (sample_desk s) sample_service = (if s = ''SUP'' then [sample_plan BinCollection] else [])"
  unfolding owned_plans_def Let_def sample_service_facts(4)
  by (simp add: sample_desk_role) (simp add: sample_desk_def sample_plan_def)

lemma sample_called_off:
  "\<exists>sd'. no_collection_view (sample_desk ''SUP'') DateMissing [''P1''] ''FLOOD'' [] sample_service = (Answered, sd')"
proof -
  have "chosen_plans (sample_desk ''SUP'') DateMissing [''P1''] sample_service = Inr (20000, [sample_plan BinCollection])"
    by (simp add: chosen_plans_def sample_desk_role service_date_def sample_desk_owned Let_def sample_plan_def)
      (simp add: sample_desk_def)
  moreover obtain uid sd1 where
    "declare_no_collection sample_service_ids (\<lambda>_. True) 0 ''P1'' 20000 ''FLOOD'' [] sample_service = Inr (uid, sd1)"
    using sample_declared by blast
  ultimately show ?thesis
    by (simp add: no_collection_view_def declare_one_def sample_desk_def sample_plan_def)
qed

lemma desk_touches_own_plans_only_witness:
  "plan_untouched ''P1'' sample_service
     (snd (desk_step (sample_desk ''OTHER'') (CallNoCollection DateMissing [''P1''] ''FLOOD'' []) sample_service))"
proof -
  have ids: "fresh_ids (dk_ids (sample_desk s))" for s using sample_ids_fresh by (simp add: sample_desk_def)
  show ?thesis
    using desk_touches_own_plans_only [OF sample_service_inv ids, of "''OTHER''"
        "CallNoCollection DateMissing [''P1''] ''FLOOD'' []" _ _ "''P1''", OF surjective_pairing]
    by (simp add: sample_desk_owned)
qed

lemma called_off_completely_witness:
  "\<exists>sd'. no_collection_view (sample_desk ''SUP'') DateMissing [''P1''] ''FLOOD'' [] sample_service = (Answered, sd')
     \<and> cleared (sd_trips sd') ''P1'' 20000"
proof -
  obtain sd' where run: "no_collection_view (sample_desk ''SUP'') DateMissing [''P1''] ''FLOOD'' [] sample_service = (Answered, sd')"
    using sample_called_off by blast
  have "fresh_ids (dk_ids (sample_desk ''SUP''))" using sample_ids_fresh by (simp add: sample_desk_def)
  from called_off_completely [OF sample_service_inv this run] run show ?thesis
    by (auto simp: service_date_def sample_desk_def)
qed

end
