(* ===== verification/Ticket_Desk.thy ===== *)
theory Ticket_Desk
  imports Escalation Service_Desk
begin

text \<open>
  The staff's handlers of complaint tickets (\<open>viewsets/core_modules/complaint_management/ticket_viewset.py\<close>)
  and the citizens' cleanup reports (\<open>app/services/complaint_cleanup.py\<close>), over the tables and hooks of
  \<open>Escalation\<close>.

  A handler answers with a reply and leaves the tables it changed; where it raises, its transaction is
  rolled back. \<open>ComplaintTicketViewSet.update\<close> stores the writable columns of a validated row.
\<close>

section \<open>Requests\<close>

text \<open>
  \<open>tu_is_staff_record\<close>: the account has the attribute \<open>staff_unique_id\<close>; \<open>tu_is_auth_user\<close>: it is an
  instance of the auth \<open>User\<close>; \<open>tu_name\<close>: its \<open>employee_name\<close> or else its \<open>username\<close>.
\<close>

record ticket_user =
  tu_account :: desk_user
  tu_is_staff_record :: bool
  tu_is_auth_user :: bool
  tu_unique_id :: "ident option"
  tu_name :: "string option"

text \<open>\<open>kd_all\<close>: the query parameter \<open>all\<close> is one of \<open>1\<close>, \<open>true\<close>, \<open>True\<close>.\<close>

record ticket_desk =
  kd_user :: ticket_user
  kd_scopes :: scope_db
  kd_now :: moment
  kd_all :: bool

datatype reply = ReplyOk | ReplyCreated | ReplyMissing | ReplyForbidden | ReplyInvalid | ReplyCrash

definition staff_uid :: "ticket_user \<Rightarrow> ident option" where
  "staff_uid u = (if tu_is_staff_record u then rq_staff_unique_id (du_requester (tu_account u)) else None)"

definition actor_id :: "ticket_user \<Rightarrow> ident option" where
  "actor_id u = (if tu_is_auth_user u then tu_unique_id u else None)"

section \<open>Which tickets a user may see\<close>

definition staff_ticket_scope :: "complaint_db \<Rightarrow> ident option \<Rightarrow> ticket \<Rightarrow> bool" where
  "staff_ticket_scope db uid t \<longleftrightarrow> truthy uid
     \<and> (tk_assigned_staff_id t = uid \<or> tk_escalated_to_staff_id t = uid
        \<or> list_ex (\<lambda>h. (eh_to_staff_id h = uid \<or> eh_from_staff_id h = uid) \<and> \<not> eh_is_deleted h
             \<and> eh_ticket_id h = tk_unique_id t) (cd_escalations db))"

definition scope_tickets_to_requester ::
  "scope_db \<Rightarrow> complaint_db \<Rightarrow> ticket_user \<Rightarrow> ticket list \<Rightarrow> ticket list" where
  "scope_tickets_to_requester sx db u rows =
     (let account = tu_account u
      in if rq_is_superuser (du_requester account) then rows
         else if is_admin_role account \<or> is_supervisor_role account then
           let geo = filter_by_requester sx (Some (du_requester account)) (default_fields tk_columns) (\<lambda>_. NoWards) rows
           in if tu_is_staff_record u
              then filter (\<lambda>t. t \<in> set geo \<or> staff_ticket_scope db (staff_uid u) t) rows else geo
         else if tu_is_staff_record u then filter (staff_ticket_scope db (staff_uid u)) rows
         else rows)"

definition visible_tickets :: "ticket_desk \<Rightarrow> complaint_db \<Rightarrow> ticket list" where
  "visible_tickets dk db =
     (let rows = filter (\<lambda>t. \<not> tk_is_deleted t) (cd_tickets db)
      in if kd_all dk then rows else scope_tickets_to_requester (kd_scopes dk) db (kd_user dk) rows)"

section \<open>The action a request names, and its ticket\<close>

datatype ticket_action =
  Retrieve | ChangeStatus | Assign | Resolve | Escalate | Reopen | Update | Destroy | ReviewCleanup | AddComment

definition OWNER_ONLY_ACTIONS :: "ticket_action list" where
  "OWNER_ONLY_ACTIONS = [ChangeStatus, Assign, Resolve, Escalate, Reopen, Update, Destroy, ReviewCleanup]"

definition get_ticket :: "ticket_desk \<Rightarrow> ticket_action \<Rightarrow> ident \<Rightarrow> complaint_db \<Rightarrow> reply + ticket" where
  "get_ticket dk action uid db =
     (case find (\<lambda>t. tk_unique_id t = uid) (visible_tickets dk db) of
        None \<Rightarrow> Inl ReplyMissing
      | Some t \<Rightarrow>
          if action \<in> set OWNER_ONLY_ACTIONS \<and> is_passed_over db t (staff_uid (kd_user dk))
          then Inl ReplyForbidden else Inr t)"

text \<open>A handler on a detail route starts with \<open>self.get_object()\<close>.\<close>

definition on_ticket ::
  "ticket_desk \<Rightarrow> ticket_action \<Rightarrow> ident \<Rightarrow> complaint_db \<Rightarrow> (ticket \<Rightarrow> reply \<times> complaint_db) \<Rightarrow> reply \<times> complaint_db" where
  "on_ticket dk action uid db handle =
     (case get_ticket dk action uid db of Inl r \<Rightarrow> (r, db) | Inr t \<Rightarrow> handle t)"

section \<open>Rows looked up and written\<close>

definition resolve_status :: "complaint_db \<Rightarrow> string \<Rightarrow> status_row option" where
  "resolve_status db code = find (\<lambda>s. st_status_code s = code \<and> \<not> st_is_deleted s) (cd_statuses db)"

definition ticket_status :: "complaint_db \<Rightarrow> ticket \<Rightarrow> status_row option" where
  "ticket_status db t =
     (if tk_status_id t = [] then None else find (\<lambda>s. st_unique_id s = tk_status_id t) (cd_statuses db))"

definition is_closed :: "status_row option \<Rightarrow> bool" where
  "is_closed status \<longleftrightarrow> (case status of None \<Rightarrow> False | Some s \<Rightarrow> st_status_code s \<in> set CLOSED_STATUS_CODES)"

definition log_status ::
  "ticket \<Rightarrow> status_row option \<Rightarrow> ident \<Rightarrow> ident option \<Rightarrow> bool \<Rightarrow> string option \<Rightarrow> complaint_db \<Rightarrow> complaint_db" where
  "log_status t old to_id actor by_system remarks db = db\<lparr>cd_status_changes := cd_status_changes db @
     [\<lparr>sc_ticket_id = tk_unique_id t, sc_from_status_id = map_option st_unique_id old, sc_to_status_id = to_id,
       sc_by_user_id = actor, sc_by_system = by_system, sc_remarks = remarks, sc_visible_to_citizen = True\<rparr>]\<rparr>"

definition log_comment :: "ticket \<Rightarrow> ident option \<Rightarrow> string \<Rightarrow> bool \<Rightarrow> bool \<Rightarrow> complaint_db \<Rightarrow> complaint_db" where
  "log_comment t actor body internal sensitive db = db\<lparr>cd_comments := cd_comments db @
     [\<lparr>cm_ticket_id = tk_unique_id t, cm_by_user_id = actor, cm_text = body, cm_is_internal = internal,
       cm_is_sensitive = sensitive\<rparr>]\<rparr>"

definition tell_customer :: "ticket \<Rightarrow> string \<Rightarrow> complaint_db \<Rightarrow> complaint_db" where
  "tell_customer t body = push_to_customer (tk_customer_id t) ''Grievance update'' body"

text \<open>\<open>set_at\<close>: \<open>if not ticket.x: ticket.x = now\<close>.\<close>

definition set_at :: "moment \<Rightarrow> moment option \<Rightarrow> moment option" where
  "set_at now v = (case v of None \<Rightarrow> Some now | Some m \<Rightarrow> Some m)"

section \<open>Handlers\<close>

definition restatus :: "moment \<Rightarrow> status_row \<Rightarrow> ticket \<Rightarrow> ticket" where
  "restatus now s t = t\<lparr>tk_status_id := st_unique_id s,
     tk_resolved_at := (if st_status_code s = ''RESOLVED'' then set_at now (tk_resolved_at t) else tk_resolved_at t),
     tk_closed_at := (if st_status_code s = ''CLOSED'' then set_at now (tk_closed_at t) else tk_closed_at t)\<rparr>"

definition status_label :: "status_row \<Rightarrow> string" where
  "status_label s = (if st_status_name s \<noteq> [] then st_status_name s else st_status_code s)"

text \<open>A ticket whose status has no row: the handler fails on \<open>old_status\<close>, after its writes.\<close>

definition change_status ::
  "ticket_desk \<Rightarrow> ident \<Rightarrow> string option \<Rightarrow> string option \<Rightarrow> complaint_db \<Rightarrow> reply \<times> complaint_db" where
  "change_status dk uid code remarks db =
     on_ticket dk ChangeStatus uid db (\<lambda>t.
       if \<not> truthy code then (ReplyInvalid, db)
       else case resolve_status db (the code) of
         None \<Rightarrow> (ReplyInvalid, db)
       | Some new \<Rightarrow>
           (case ticket_status db t of
              None \<Rightarrow> (ReplyCrash, db)
            | Some old \<Rightarrow>
                let t1 = restatus (kd_now dk) new t;
                    db1 = save_ticket [StatusId, ResolvedAt, ClosedAt] t1 db;
                    db2 = log_status t1 (Some old) (st_unique_id new) (actor_id (kd_user dk)) False remarks db1;
                    (t2, db3) =
                      (if is_closed (Some new) then stop_escalation_clock t1 db2
                       else if is_closed (Some old) then restart_escalation_clock (kd_now dk) t1 db2
                       else (t1, db2))
                in (ReplyOk,
                    if st_unique_id old = st_unique_id new then db3
                    else tell_customer t2 (''Your ticket '' @ tk_ticket_no t2 @ '' status is now: ''
                           @ status_label new @ ''.'') db3)))"

definition assign ::
  "ticket_desk \<Rightarrow> ident \<Rightarrow> ident option \<Rightarrow> string option \<Rightarrow> complaint_db \<Rightarrow> reply \<times> complaint_db" where
  "assign dk uid staff_id reason db =
     on_ticket dk Assign uid db (\<lambda>t.
       if \<not> truthy staff_id then (ReplyInvalid, db)
       else case find (\<lambda>s. Some (sf_unique_id s) = staff_id \<and> \<not> sf_is_deleted s) (cd_staff db) of
         None \<Rightarrow> (ReplyInvalid, db)
       | Some new_staff \<Rightarrow>
           let from_staff = responsible_staff db t;
               to_id = Some (sf_unique_id new_staff);
               (t1, cols) =
                 (if tk_is_escalated t then (t\<lparr>tk_escalated_to_staff_id := to_id\<rparr>, [EscalatedToStaffId])
                  else (t\<lparr>tk_assigned_staff_id := to_id\<rparr>, [AssignedStaffId]));
               db1 = save_ticket cols t1 db;
               db2 = db1\<lparr>cd_assignments := cd_assignments db1 @
                 [\<lparr>ah_ticket_id = tk_unique_id t1, ah_from_staff_id = map_option sf_unique_id from_staff,
                   ah_to_staff_id = to_id, ah_assigned_by_id = actor_id (kd_user dk), ah_reason = reason\<rparr>]\<rparr>
           in (ReplyOk,
               if map_option sf_unique_id from_staff = to_id then db2
               else notify_staff t1 ''ASSIGNED'' (assigned_message db t1) (Some new_staff) db2))"

definition resolve :: "ticket_desk \<Rightarrow> ident \<Rightarrow> string option \<Rightarrow> complaint_db \<Rightarrow> reply \<times> complaint_db" where
  "resolve dk uid words db =
     on_ticket dk Resolve uid db (\<lambda>t.
       case resolve_status db ''RESOLVED'' of
         None \<Rightarrow> (ReplyInvalid, db)
       | Some resolved \<Rightarrow>
           let old = ticket_status db t;
               actor = actor_id (kd_user dk);
               t1 = t\<lparr>tk_status_id := st_unique_id resolved, tk_resolved_at := set_at (kd_now dk) (tk_resolved_at t)\<rparr>;
               db1 = save_ticket [StatusId, ResolvedAt] t1 db;
               db2 = log_status t1 old (st_unique_id resolved) actor False
                       (if truthy words then words else Some ''Marked as resolved'') db1;
               (t2, db3) = stop_escalation_clock t1 db2;
               db4 = (if truthy words then log_comment t2 actor (the words) False False db3 else db3);
               db5 = notify_staff t2 ''RESOLVED'' (''Ticket '' @ tk_ticket_no t2 @ '' has been marked resolved.''
                       @ suffix_if '' Note: '' words []) (responsible_staff db t2) db4
           in (ReplyOk, tell_customer t2 (''Good news - your ticket '' @ tk_ticket_no t2 @ '' has been resolved.''
                @ suffix_if '' '' words []) db5))"

definition escalate :: "ticket_desk \<Rightarrow> ident \<Rightarrow> string option \<Rightarrow> complaint_db \<Rightarrow> reply \<times> complaint_db" where
  "escalate dk uid reason db =
     on_ticket dk Escalate uid db (\<lambda>t.
       if is_closed (ticket_status db t) then (ReplyInvalid, db)
       else case escalate_ticket db (kd_now dk) (tk_unique_id t) reason (actor_id (kd_user dk)) False of
         Inl NoHigherLevel \<Rightarrow> (ReplyInvalid, db)
       | Inl TicketDoesNotExist \<Rightarrow> (ReplyCrash, db)
       | Inr (db', _) \<Rightarrow> (ReplyOk, db'))"

definition reopen :: "ticket_desk \<Rightarrow> ident \<Rightarrow> string option \<Rightarrow> complaint_db \<Rightarrow> reply \<times> complaint_db" where
  "reopen dk uid words db =
     on_ticket dk Reopen uid db (\<lambda>t.
       case ticket_status db t of
         None \<Rightarrow> (ReplyCrash, db)
       | Some old \<Rightarrow>
           let reason = py_strip (case words of None \<Rightarrow> [] | Some w \<Rightarrow> w)
           in if \<not> st_allow_reopen old \<or> reason = [] then (ReplyInvalid, db)
              else case resolve_status db ''REOPENED'' of
                None \<Rightarrow> (ReplyInvalid, db)
              | Some reopened \<Rightarrow>
                  let actor = actor_id (kd_user dk);
                      t1 = t\<lparr>tk_status_id := st_unique_id reopened, tk_reopened_count := tk_reopened_count t + 1,
                             tk_resolved_at := None, tk_closed_at := None\<rparr>;
                      db1 = save_ticket [StatusId, ReopenedCount, ResolvedAt, ClosedAt] t1 db;
                      db2 = db1\<lparr>cd_reopens := cd_reopens db1 @
                        [\<lparr>ro_ticket_id = tk_unique_id t1, ro_by_user_id = actor, ro_reason = reason,
                          ro_previous_status_id = Some (st_unique_id old), ro_reopened_at = kd_now dk,
                          ro_is_deleted = False\<rparr>]\<rparr>;
                      db3 = log_status t1 (Some old) (st_unique_id reopened) actor False (Some reason) db2;
                      (t2, db4) = restart_escalation_clock (kd_now dk) t1 db3;
                      db5 = notify_staff t2 ''REOPENED'' (''Ticket '' @ tk_ticket_no t2 @ '' has been reopened.''
                              @ suffix_if '' Reason: '' words []) (responsible_staff db t2) db4
                  in (ReplyOk, tell_customer t2 (''Your ticket '' @ tk_ticket_no t2
                       @ '' has been reopened and is being looked at again.'') db5))"

definition destroy :: "ticket_desk \<Rightarrow> ident \<Rightarrow> complaint_db \<Rightarrow> reply \<times> complaint_db" where
  "destroy dk uid db =
     on_ticket dk Destroy uid db (\<lambda>t.
       (ReplyOk, update_tickets (tk_unique_id t) (\<lambda>row. row\<lparr>tk_is_deleted := True\<rparr>) db))"

definition add_comment ::
  "ticket_desk \<Rightarrow> ident \<Rightarrow> string \<Rightarrow> bool \<Rightarrow> bool \<Rightarrow> complaint_db \<Rightarrow> reply \<times> complaint_db" where
  "add_comment dk uid body internal sensitive db =
     on_ticket dk AddComment uid db (\<lambda>t.
       (ReplyCreated, log_comment t (actor_id (kd_user dk)) body internal sensitive db))"

section \<open>Cleanup reports\<close>

definition pending_report :: "complaint_db \<Rightarrow> ident \<Rightarrow> cleanup_row option" where
  "pending_report db uid =
     find (\<lambda>r. cl_ticket_id r = uid \<and> cl_status r = CleanupPending \<and> \<not> cl_is_deleted r) (rev (cd_cleanups db))"

definition can_review :: "complaint_db \<Rightarrow> ticket \<Rightarrow> ticket_user \<Rightarrow> bool" where
  "can_review db t u \<longleftrightarrow>
     (let account = du_requester (tu_account u)
      in if rq_is_superuser account then True
         else case staff_uid u of
           None \<Rightarrow> rq_is_authenticated account
         | Some uid \<Rightarrow> (case responsible_staff db t of None \<Rightarrow> False | Some s \<Rightarrow> sf_unique_id s = uid))"

definition submit_cleanup :: "ident \<Rightarrow> string \<Rightarrow> ticket \<Rightarrow> complaint_db \<Rightarrow> complaint_db option" where
  "submit_cleanup new_id words t db =
     (if pending_report db (tk_unique_id t) \<noteq> None then None
      else let db1 = db\<lparr>cd_cleanups := cd_cleanups db @
                 [\<lparr>cl_unique_id = new_id, cl_ticket_id = tk_unique_id t, cl_note = blank_to_none (Some words),
                   cl_status = CleanupPending, cl_reviewed_by_staff_id = None, cl_reviewed_by_user_id = None,
                   cl_reviewed_at = None, cl_review_remarks = None, cl_is_deleted = False\<rparr>]\<rparr>;
               db2 = log_comment t None (''Citizen reported this spot as cleaned (photo sent from the public map)''
                       @ '' - waiting for verification.'' @ suffix_if '' Note: '' (Some words) []) True False db1
           in Some (notify_staff t ''CLEANUP_REPORTED'' (''A citizen says ticket '' @ tk_ticket_no t
                @ '' has been cleaned up. Check the photo and approve to close it, or reject it.'')
                (responsible_staff db t) db2))"

definition find_public_ticket :: "complaint_db \<Rightarrow> string \<Rightarrow> ticket option" where
  "find_public_ticket db ticket_no =
     (if ticket_no = [] then None
      else find (\<lambda>t. tk_ticket_no t = ticket_no \<and> \<not> tk_is_deleted t \<and> \<not> tk_is_sensitive t) (cd_tickets db))"

text \<open>\<open>photo_ok\<close>: a photo was sent, is an image and has at most \<open>CLEANUP_MAX_BYTES\<close>.\<close>

definition CLEANUP_NOTE_MAX :: nat where "CLEANUP_NOTE_MAX = 500"

definition map_ticket_verify_cleanup ::
  "ident \<Rightarrow> string \<Rightarrow> bool \<Rightarrow> string option \<Rightarrow> complaint_db \<Rightarrow> reply \<times> complaint_db" where
  "map_ticket_verify_cleanup new_id ticket_no photo_ok words db =
     (case find_public_ticket db ticket_no of
        None \<Rightarrow> (ReplyMissing, db)
      | Some t \<Rightarrow>
          if is_closed (ticket_status db t) \<or> \<not> photo_ok then (ReplyInvalid, db)
          else let body = take CLEANUP_NOTE_MAX (py_strip (case words of None \<Rightarrow> [] | Some w \<Rightarrow> w))
               in case submit_cleanup new_id body t db of
                 None \<Rightarrow> (ReplyInvalid, db)
               | Some db' \<Rightarrow> (ReplyCreated, db'))"

datatype cleanup_error = RemarksRequired | AlreadyReviewed | ClosedNotConfigured | AlreadyClosed | CleanupGone

definition find_cleanup :: "complaint_db \<Rightarrow> ident \<Rightarrow> cleanup_row option" where
  "find_cleanup db rid = find (\<lambda>r. cl_unique_id r = rid) (cd_cleanups db)"

definition reviewer_user :: "ticket_user \<Rightarrow> ident option" where
  "reviewer_user u = (if truthy (staff_uid u) then None else tu_unique_id u)"

definition reviewer_name :: "ticket_user \<Rightarrow> string" where
  "reviewer_name u = (if truthy (tu_name u) then the (tu_name u) else ''the officer'')"

definition save_review :: "ticket_desk \<Rightarrow> cleanup_status \<Rightarrow> string \<Rightarrow> ident \<Rightarrow> complaint_db \<Rightarrow> complaint_db" where
  "save_review dk verdict remarks rid db = db\<lparr>cd_cleanups := map (\<lambda>r. if cl_unique_id r = rid
     then r\<lparr>cl_reviewed_by_staff_id := staff_uid (kd_user dk), cl_reviewed_by_user_id := reviewer_user (kd_user dk),
            cl_reviewed_at := Some (kd_now dk), cl_status := verdict, cl_review_remarks := Some remarks\<rparr>
     else r) (cd_cleanups db)\<rparr>"

text \<open>The checks of a report under its lock.\<close>

definition locked_report :: "complaint_db \<Rightarrow> ident \<Rightarrow> string \<Rightarrow> cleanup_error + cleanup_row" where
  "locked_report db rid remarks =
     (if py_strip remarks = [] then Inl RemarksRequired
      else case find_cleanup db rid of
        None \<Rightarrow> Inl CleanupGone
      | Some r \<Rightarrow> if cl_status r \<noteq> CleanupPending then Inl AlreadyReviewed else Inr r)"

definition approve :: "ticket_desk \<Rightarrow> ident \<Rightarrow> ident \<Rightarrow> string \<Rightarrow> complaint_db \<Rightarrow> cleanup_error + complaint_db" where
  "approve dk uid rid remarks db =
     (case locked_report db rid remarks of
        Inl e \<Rightarrow> Inl e
      | Inr _ \<Rightarrow>
          (case resolve_status db ''CLOSED'' of
             None \<Rightarrow> Inl ClosedNotConfigured
           | Some closed \<Rightarrow>
               (case find_ticket db uid of
                  None \<Rightarrow> Inl CleanupGone
                | Some t \<Rightarrow>
                    let old = ticket_status db t
                    in if is_closed old then Inl AlreadyClosed
                       else let t1 = t\<lparr>tk_status_id := st_unique_id closed,
                                   tk_resolved_at := set_at (kd_now dk) (tk_resolved_at t),
                                   tk_closed_at := set_at (kd_now dk) (tk_closed_at t),
                                   tk_next_escalation_due_at := None\<rparr>;
                                db1 = save_ticket [StatusId, ResolvedAt, ClosedAt, NextEscalationDueAt] t1 db;
                                db2 = save_review dk CleanupApproved (py_strip remarks) rid db1;
                                db3 = log_status t1 old (st_unique_id closed) (reviewer_user (kd_user dk)) False
                                  (Some (''Cleanup verified by '' @ reviewer_name (kd_user dk) @ '': '' @ py_strip remarks)) db2
                            in Inr (tell_customer t1 (''Your ticket '' @ tk_ticket_no t1
                                 @ '' has been verified as cleaned up and closed.'') db3))))"

definition reject :: "ticket_desk \<Rightarrow> ticket \<Rightarrow> ident \<Rightarrow> string \<Rightarrow> complaint_db \<Rightarrow> cleanup_error + complaint_db" where
  "reject dk t rid remarks db =
     (case locked_report db rid remarks of
        Inl e \<Rightarrow> Inl e
      | Inr _ \<Rightarrow> Inr (log_comment t None (''Citizen cleanup photo rejected by '' @ reviewer_name (kd_user dk) @ '': ''
            @ py_strip remarks) True False (save_review dk CleanupRejected (py_strip remarks) rid db)))"

definition review_cleanup ::
  "ticket_desk \<Rightarrow> ident \<Rightarrow> bool \<Rightarrow> string option \<Rightarrow> complaint_db \<Rightarrow> reply \<times> complaint_db" where
  "review_cleanup dk uid approving words db =
     on_ticket dk ReviewCleanup uid db (\<lambda>t.
       case pending_report db (tk_unique_id t) of
         None \<Rightarrow> (ReplyMissing, db)
       | Some r \<Rightarrow>
           if \<not> can_review db t (kd_user dk) then (ReplyForbidden, db)
           else let remarks = py_strip (case words of None \<Rightarrow> [] | Some w \<Rightarrow> w)
             in if remarks = [] then (ReplyInvalid, db)
                else case (if approving then approve dk (tk_unique_id t) (cl_unique_id r) remarks db
                           else reject dk t (cl_unique_id r) remarks db) of
                  Inl CleanupGone \<Rightarrow> (ReplyCrash, db)
                | Inl _ \<Rightarrow> (ReplyInvalid, db)
                | Inr db' \<Rightarrow> (ReplyOk, db'))"

section \<open>Creating and editing\<close>

definition TICKET_PARENTS :: "scope_field list" where
  "TICKET_PARENTS = [StateId, DistrictId, AreaTypeId]"

text \<open>\<open>_fill_geo_parents\<close> of a full save.\<close>

definition fill_geo_parents :: "geo_db \<Rightarrow> ticket \<Rightarrow> ticket" where
  "fill_geo_parents g t =
     (if list_all (\<lambda>f. truthy (tk_columns t f)) TICKET_PARENTS then t
      else let geo = complete_geo g (\<lambda>f. if f = CountryId then None else tk_columns t f)
           in t\<lparr>tk_columns := (\<lambda>f. if f \<in> set TICKET_PARENTS \<and> \<not> truthy (tk_columns t f) \<and> truthy (geo f)
                 then geo f else tk_columns t f)\<rparr>)"

text \<open>The row a validated POST stores: the columns the API does not write have their defaults.\<close>

definition stored_ticket :: "geo_db \<Rightarrow> ticket \<Rightarrow> ticket" where
  "stored_ticket g t = fill_geo_parents g (t\<lparr>tk_is_escalated := False, tk_escalated_to_staff_id := None,
     tk_escalation_level := 0, tk_next_escalation_due_at := None, tk_resolved_at := None, tk_closed_at := None,
     tk_reopened_count := 0\<rparr>)"

definition create_ticket :: "moment \<Rightarrow> ticket \<Rightarrow> complaint_db \<Rightarrow> complaint_db" where
  "create_ticket now attrs db =
     (let t = stored_ticket (cd_geo db) attrs;
          db1 = db\<lparr>cd_tickets := cd_tickets db @ [t]\<rparr>;
          db2 = log_status t None (tk_status_id t) None True (Some ''Ticket created'') db1
      in fst (apply_routing_and_sla db2 now t True))"

text \<open>An edit keeps the read-only columns of the stored row.\<close>

definition edited_ticket :: "geo_db \<Rightarrow> ticket \<Rightarrow> ticket \<Rightarrow> ticket" where
  "edited_ticket g attrs t = fill_geo_parents g (attrs\<lparr>tk_unique_id := tk_unique_id t, tk_ticket_no := tk_ticket_no t,
     tk_resolved_at := tk_resolved_at t, tk_closed_at := tk_closed_at t, tk_reopened_count := tk_reopened_count t,
     tk_is_escalated := tk_is_escalated t, tk_escalated_to_staff_id := tk_escalated_to_staff_id t,
     tk_escalation_level := tk_escalation_level t, tk_next_escalation_due_at := tk_next_escalation_due_at t,
     tk_created := tk_created t\<rparr>)"

definition update_ticket :: "ticket_desk \<Rightarrow> ident \<Rightarrow> ticket \<Rightarrow> complaint_db \<Rightarrow> reply \<times> complaint_db" where
  "update_ticket dk uid attrs db =
     on_ticket dk Update uid db (\<lambda>t.
       (ReplyOk, update_tickets (tk_unique_id t) (\<lambda>_. edited_ticket (cd_geo db) attrs t) db))"

section \<open>One call\<close>

text \<open>The calls the tables receive: those of the staff, a citizen's report, and the timed jobs. The sweep finds every
  ticket it has listed (\<open>sweep_fold\<close>), so its failing branch is never taken; were it taken, the source would keep the
  escalations it had committed before, which this branch does not.\<close>

datatype ticket_call =
    CreateTicket ticket
  | UpdateTicket ident ticket
  | StatusCall ident "string option" "string option"
  | AssignCall ident "ident option" "string option"
  | ResolveCall ident "string option"
  | EscalateCall ident "string option"
  | ReopenCall ident "string option"
  | ReviewCall ident bool "string option"
  | CommentCall ident string bool bool
  | DestroyCall ident
  | VerifyCall ident string bool "string option"
  | OverdueSweep
  | RuleEdited sla_rule

fun ticket_step :: "ticket_desk \<Rightarrow> ticket_call \<Rightarrow> complaint_db \<Rightarrow> reply \<times> complaint_db" where
  "ticket_step dk (CreateTicket attrs) db = (ReplyCreated, create_ticket (kd_now dk) attrs db)"
| "ticket_step dk (UpdateTicket uid attrs) db = update_ticket dk uid attrs db"
| "ticket_step dk (StatusCall uid code remarks) db = change_status dk uid code remarks db"
| "ticket_step dk (AssignCall uid staff_id reason) db = assign dk uid staff_id reason db"
| "ticket_step dk (ResolveCall uid words) db = resolve dk uid words db"
| "ticket_step dk (EscalateCall uid reason) db = escalate dk uid reason db"
| "ticket_step dk (ReopenCall uid words) db = reopen dk uid words db"
| "ticket_step dk (ReviewCall uid approving words) db = review_cleanup dk uid approving words db"
| "ticket_step dk (CommentCall uid body internal sensitive) db = add_comment dk uid body internal sensitive db"
| "ticket_step dk (DestroyCall uid) db = destroy dk uid db"
| "ticket_step dk (VerifyCall new_id ticket_no photo_ok words) db =
     map_ticket_verify_cleanup new_id ticket_no photo_ok words db"
| "ticket_step dk OverdueSweep db =
     (case check_and_escalate_overdue_tickets db (kd_now dk) of Inl _ \<Rightarrow> (ReplyCrash, db) | Inr (db', _) \<Rightarrow> (ReplyOk, db'))"
| "ticket_step dk (RuleEdited rule) db = (ReplyOk, fst (reschedule_open_tickets db (kd_now dk) rule))"

section \<open>What a call leaves of the other tickets\<close>

definition trail :: "complaint_db \<Rightarrow> ident \<Rightarrow> status_change_row list" where
  "trail db uid = filter (\<lambda>h. sc_ticket_id h = uid) (cd_status_changes db)"

definition reopens :: "complaint_db \<Rightarrow> ident \<Rightarrow> reopen_row list" where
  "reopens db uid = filter (\<lambda>h. ro_ticket_id h = uid) (cd_reopens db)"

text \<open>What the invariant reads of a ticket.\<close>

definition ticket_view :: "complaint_db \<Rightarrow> ident \<Rightarrow> ticket option \<times> status_change_row list \<times> reopen_row list" where
  "ticket_view db uid = (find_ticket db uid, trail db uid, reopens db uid)"

definition touches :: "ident \<Rightarrow> complaint_db \<Rightarrow> complaint_db \<Rightarrow> bool" where
  "touches uid db db' \<longleftrightarrow> settings db' = settings db \<and> map tk_unique_id (cd_tickets db') = map tk_unique_id (cd_tickets db)
     \<and> (\<forall>u. u \<noteq> uid \<longrightarrow> ticket_view db' u = ticket_view db u)"

lemma touches_refl [simp]: "touches uid db db"
  by (simp add: touches_def)

lemma touches_trans: "touches uid db db1 \<Longrightarrow> touches uid db1 db2 \<Longrightarrow> touches uid db db2"
  by (simp add: touches_def)

lemma touchesD:
  assumes "touches uid db db'"
  shows "settings db' = settings db" and "cd_statuses db' = cd_statuses db"
    and "map tk_unique_id (cd_tickets db') = map tk_unique_id (cd_tickets db)"
    and "u \<noteq> uid \<Longrightarrow> find_ticket db' u = find_ticket db u" and "u \<noteq> uid \<Longrightarrow> trail db' u = trail db u"
    and "u \<noteq> uid \<Longrightarrow> reopens db' u = reopens db u"
  using assms by (auto simp: touches_def ticket_view_def settings_def)

text \<open>The tables that calls only append to, or write beside the tickets.\<close>

lemma update_frame [simp]:
  "cd_status_changes (update_tickets u f db) = cd_status_changes db" "cd_reopens (update_tickets u f db) = cd_reopens db"
  "cd_cleanups (update_tickets u f db) = cd_cleanups db"
  "trail (update_tickets u f db) = trail db" "reopens (update_tickets u f db) = reopens db"
  by (simp_all add: update_tickets_def trail_def reopens_def fun_eq_iff)

definition beside :: "complaint_db \<Rightarrow> complaint_db \<Rightarrow> bool" where
  "beside db db' \<longleftrightarrow> settings db' = settings db \<and> cd_tickets db' = cd_tickets db
     \<and> cd_status_changes db' = cd_status_changes db \<and> cd_reopens db' = cd_reopens db"

lemma beside_view:
  assumes "beside db db'"
  shows "ticket_view db' = ticket_view db" and "settings db' = settings db" and "cd_tickets db' = cd_tickets db"
  using assms by (auto simp: beside_def ticket_view_def trail_def reopens_def fun_eq_iff find_ticket_def)

lemma beside_writes [simp]:
  "beside db (notify_staff t e m st db1) \<longleftrightarrow> beside db db1" "beside db (push_to_customer c ti bo db1) \<longleftrightarrow> beside db db1"
  "beside db (tell_customer t b db1) \<longleftrightarrow> beside db db1" "beside db (log_comment t a b i s db1) \<longleftrightarrow> beside db db1"
  "beside db (save_review dk v r rid db1) \<longleftrightarrow> beside db db1" "beside db (db1\<lparr>cd_assignments := xs\<rparr>) \<longleftrightarrow> beside db db1"
  "beside db (db1\<lparr>cd_cleanups := cs\<rparr>) \<longleftrightarrow> beside db db1" "beside db db"
  by (simp_all add: beside_def settings_def notify_staff_def push_to_customer_def tell_customer_def log_comment_def
      save_review_def Let_def split: option.split)

lemma beside_trans: "beside db db1 \<Longrightarrow> beside db1 db2 \<Longrightarrow> beside db db2"
  by (simp add: beside_def)

lemma beside_touches: "beside db db' \<Longrightarrow> touches uid db db'"
  using beside_view by (simp add: touches_def)

lemma log_status_view:
  "settings (log_status t old to_id a b r db) = settings db" "cd_tickets (log_status t old to_id a b r db) = cd_tickets db"
  "find_ticket (log_status t old to_id a b r db) = find_ticket db" "reopens (log_status t old to_id a b r db) = reopens db"
  "trail (log_status t old to_id a b r db) u = trail db u @ (if u = tk_unique_id t
     then [\<lparr>sc_ticket_id = tk_unique_id t, sc_from_status_id = map_option st_unique_id old, sc_to_status_id = to_id,
            sc_by_user_id = a, sc_by_system = b, sc_remarks = r, sc_visible_to_citizen = True\<rparr>] else [])"
  by (auto simp: log_status_def settings_def find_ticket_def trail_def reopens_def fun_eq_iff)

lemma find_saved:
  assumes "find_ticket db (tk_unique_id t) = Some row" and "fold (copy_column t) cols row = t"
  shows "find_ticket (save_ticket cols t db) u = (if u = tk_unique_id t then Some t else find_ticket db u)"
proof -
  have "find_ticket (save_ticket cols t db) u = map_option
      (\<lambda>row. if u = tk_unique_id t then fold (copy_column t) cols row else row) (find_ticket db u)"
    unfolding save_ticket_def by (rule find_ticket_update) (rule copy_columns_id)
  then show ?thesis using assms by (simp add: option.map_ident)
qed

lemma save_view [simp]:
  "trail (save_ticket cols t db) = trail db" "reopens (save_ticket cols t db) = reopens db"
  "settings (save_ticket cols t db) = settings db"
  by (simp_all add: save_ticket_def)

lemma save_touches: "touches (tk_unique_id t) db (save_ticket cols t db)"
proof -
  have "find_ticket (save_ticket cols t db) u = find_ticket db u" if "u \<noteq> tk_unique_id t" for u
    using that unfolding save_ticket_def by (simp add: find_ticket_update copy_columns_id option.map_ident)
  moreover have "map tk_unique_id (cd_tickets (save_ticket cols t db)) = map tk_unique_id (cd_tickets db)"
    by (simp add: save_ticket_def update_tickets_def)
  ultimately show ?thesis by (simp add: touches_def ticket_view_def)
qed

lemma log_status_touches: "touches (tk_unique_id t) db (log_status t old to_id a b r db)"
  by (simp add: touches_def ticket_view_def log_status_view)

text \<open>Stopping and restarting the clock write one column of the stored row.\<close>

lemma clock_write:
  assumes "find_ticket db (tk_unique_id t) = Some t"
    and "(t', db') = (if due = tk_next_escalation_due_at t then (t, db)
       else (t\<lparr>tk_next_escalation_due_at := due\<rparr>, save_ticket [NextEscalationDueAt] (t\<lparr>tk_next_escalation_due_at := due\<rparr>) db))"
  shows "t' = t\<lparr>tk_next_escalation_due_at := due\<rparr> \<and> touches (tk_unique_id t) db db'
    \<and> find_ticket db' (tk_unique_id t) = Some t' \<and> trail db' = trail db \<and> reopens db' = reopens db"
proof (cases "due = tk_next_escalation_due_at t")
  case False
  let ?t = "t\<lparr>tk_next_escalation_due_at := due\<rparr>"
  have "find_ticket (save_ticket [NextEscalationDueAt] ?t db) (tk_unique_id t) = Some ?t"
    by (subst find_saved [where row = t]) (simp_all add: assms(1))
  with assms(2) False save_touches [of ?t db "[NextEscalationDueAt]"] show ?thesis by simp
qed (use assms in simp)

lemma stop_write:
  assumes "find_ticket db (tk_unique_id t) = Some t" and "stop_escalation_clock t db = (t', db')"
  shows "t' = t\<lparr>tk_next_escalation_due_at := None\<rparr> \<and> touches (tk_unique_id t) db db'
    \<and> find_ticket db' (tk_unique_id t) = Some t' \<and> trail db' = trail db \<and> reopens db' = reopens db"
  by (rule clock_write [OF assms(1)]) (use assms(2) in \<open>auto simp: stop_escalation_clock_def Let_def split: if_splits\<close>)

lemma restart_write:
  assumes "find_ticket db (tk_unique_id t) = Some t" and "restart_escalation_clock now t db = (t', db')"
  obtains due where "t' = t\<lparr>tk_next_escalation_due_at := due\<rparr>" and "touches (tk_unique_id t) db db'"
    and "find_ticket db' (tk_unique_id t) = Some t'" and "trail db' = trail db" and "reopens db' = reopens db"
proof -
  have "(t', db') = (let due = level_due db (governing_rule db t None) (tk_escalation_level t) now
     in if due = tk_next_escalation_due_at t then (t, db)
        else (t\<lparr>tk_next_escalation_due_at := due\<rparr>, save_ticket [NextEscalationDueAt] (t\<lparr>tk_next_escalation_due_at := due\<rparr>) db))"
    using assms(2) by (auto simp: restart_escalation_clock_def Let_def split: if_splits)
  from clock_write [OF assms(1) this [unfolded Let_def]] that show thesis by blast
qed

section \<open>The history of a ticket replays to its status, and a closed ticket has no clock\<close>

text \<open>Reading the history rows in order, each must start where the last one ended.\<close>

fun replay_statuses :: "ident option \<Rightarrow> status_change_row list \<Rightarrow> ident option option" where
  "replay_statuses current [] = Some current"
| "replay_statuses current (h # hs) = (if sc_from_status_id h = current then replay_statuses (Some (sc_to_status_id h)) hs else None)"

lemma replay_snoc:
  "replay_statuses current hs = Some c \<Longrightarrow> sc_from_status_id h = c \<Longrightarrow> replay_statuses current (hs @ [h]) = Some (Some (sc_to_status_id h))"
  by (induction current hs rule: replay_statuses.induct) (auto split: if_splits)

definition ticket_ok :: "complaint_db \<Rightarrow> ticket \<Rightarrow> bool" where
  "ticket_ok db t \<longleftrightarrow> tk_status_id t \<in> st_unique_id ` set (cd_statuses db)
     \<and> (is_closed (ticket_status db t) \<longrightarrow> tk_next_escalation_due_at t = None)
     \<and> replay_statuses None (trail db (tk_unique_id t)) = Some (Some (tk_status_id t))
     \<and> tk_reopened_count t = length (reopens db (tk_unique_id t))"

definition statuses_ok :: "complaint_db \<Rightarrow> bool" where
  "statuses_ok db \<longleftrightarrow> distinct (map st_unique_id (cd_statuses db)) \<and> [] \<notin> st_unique_id ` set (cd_statuses db)"

definition ticket_inv :: "complaint_db \<Rightarrow> bool" where
  "ticket_inv db \<longleftrightarrow> statuses_ok db \<and> distinct (map tk_unique_id (cd_tickets db))
     \<and> (\<forall>t\<in>set (cd_tickets db). ticket_ok db t)"

lemma ticket_invD:
  assumes "ticket_inv db"
  shows "statuses_ok db" and "distinct (map tk_unique_id (cd_tickets db))"
    and "find_ticket db uid = Some t \<Longrightarrow> ticket_ok db t"
  using assms by (auto simp: ticket_inv_def dest: find_ticket_id)

lemma status_found:
  assumes "statuses_ok db" and "s \<in> set (cd_statuses db)" and "tk_status_id t = st_unique_id s"
  shows "ticket_status db t = Some s"
  using assms find_distinct [of st_unique_id "cd_statuses db" s] by (auto simp: ticket_status_def statuses_ok_def) (metis imageI)

lemma ticket_status_known:
  assumes "statuses_ok db" and "tk_status_id t \<in> st_unique_id ` set (cd_statuses db)"
  obtains s where "s \<in> set (cd_statuses db)" and "ticket_status db t = Some s" and "st_unique_id s = tk_status_id t"
  using assms status_found [of db _ t] by (metis imageE)

lemma inv_touched:
  assumes inv: "ticket_inv db" and step: "touches uid db db'"
    and own: "\<And>t'. find_ticket db' uid = Some t' \<Longrightarrow> ticket_ok db' t'"
  shows "ticket_inv db'"
proof -
  note same = touchesD [OF step]
  have dist: "distinct (map tk_unique_id (cd_tickets db'))" using ticket_invD(2) [OF inv] same(3) by simp
  have "ticket_ok db' t'" if t': "t' \<in> set (cd_tickets db')" for t'
  proof (cases "tk_unique_id t' = uid")
    case True
    with find_ticket_distinct [OF dist t'] own show ?thesis by simp
  next
    case False
    then have "find_ticket db (tk_unique_id t') = Some t'" using find_ticket_distinct [OF dist t'] same(4) by simp
    from ticket_invD(3) [OF inv this] show ?thesis
      using False by (simp add: ticket_ok_def same ticket_status_def)
  qed
  moreover have "statuses_ok db'" using ticket_invD(1) [OF inv] same(2) by (simp add: statuses_ok_def)
  ultimately show ?thesis using dist by (simp add: ticket_inv_def)
qed

text \<open>A call that writes a new status logs it; a call that keeps the status sets no clock on a closed ticket.\<close>

lemma inv_restatus:
  assumes inv: "ticket_inv db" and t: "find_ticket db uid = Some t" and step: "touches uid db db'"
    and t': "find_ticket db' uid = Some t'" and s: "s \<in> set (cd_statuses db)" "tk_status_id t' = st_unique_id s"
    and clock: "is_closed (Some s) \<Longrightarrow> tk_next_escalation_due_at t' = None"
    and logged: "trail db' uid = trail db uid @ [h]" "sc_from_status_id h = Some (tk_status_id t)" "sc_to_status_id h = st_unique_id s"
    and count: "tk_reopened_count t' = length (reopens db' uid)"
  shows "ticket_inv db'"
proof (rule inv_touched [OF inv step])
  fix t'' assume "find_ticket db' uid = Some t''"
  with t' have t'': "t'' = t'" by simp
  have "statuses_ok db'" using ticket_invD(1) [OF inv] touchesD(2) [OF step] by (simp add: statuses_ok_def)
  then have "ticket_status db' t' = Some s" using s touchesD(2) [OF step] by (intro status_found) simp_all
  moreover have "tk_unique_id t' = uid" "tk_unique_id t = uid" using find_ticket_id [OF t'] find_ticket_id [OF t] by simp_all
  moreover have "replay_statuses None (trail db uid) = Some (Some (tk_status_id t))"
    using ticket_invD(3) [OF inv t] find_ticket_id [OF t] by (simp add: ticket_ok_def)
  ultimately show "ticket_ok db' t''"
    using s clock count logged touchesD(2) [OF step] by (auto simp: t'' ticket_ok_def dest: replay_snoc)
qed

lemma inv_kept:
  assumes inv: "ticket_inv db" and t: "find_ticket db uid = Some t" and step: "touches uid db db'"
    and t': "find_ticket db' uid = Some t'" "tk_status_id t' = tk_status_id t" "tk_reopened_count t' = tk_reopened_count t"
    and clock: "is_closed (ticket_status db t) \<Longrightarrow> tk_next_escalation_due_at t = None \<Longrightarrow> tk_next_escalation_due_at t' = None"
    and same: "trail db' uid = trail db uid" "reopens db' uid = reopens db uid"
  shows "ticket_inv db'"
proof (rule inv_touched [OF inv step])
  fix t'' assume "find_ticket db' uid = Some t''"
  with t' have "t'' = t'" by simp
  moreover have "ticket_ok db t" by (rule ticket_invD(3) [OF inv t])
  moreover have "tk_unique_id t' = uid" "tk_unique_id t = uid" using find_ticket_id [OF t'(1)] find_ticket_id [OF t] by simp_all
  ultimately show "ticket_ok db' t''"
    using t'(2,3) clock same touchesD(2) [OF step] by (simp add: ticket_ok_def ticket_status_def)
qed

lemma inv_beside: "ticket_inv db \<Longrightarrow> beside db db' \<Longrightarrow> ticket_inv db'"
  by (frule beside_view)
    (auto simp: ticket_inv_def ticket_ok_def statuses_ok_def beside_def settings_def ticket_view_def ticket_status_def
      trail_def reopens_def)

text \<open>The ticket a handler works on is a stored row.\<close>

lemma visible_sub: "set (visible_tickets dk db) \<subseteq> set (cd_tickets db)"
  by (auto simp: visible_tickets_def scope_tickets_to_requester_def Let_def filter_by_requester_eq split: if_splits)

lemma get_ticketD:
  assumes "get_ticket dk action uid db = Inr t"
  shows "t \<in> set (visible_tickets dk db)" and "tk_unique_id t = uid"
    and "action \<in> set OWNER_ONLY_ACTIONS \<Longrightarrow> \<not> is_passed_over db t (staff_uid (kd_user dk))"
  using assms by (auto simp: get_ticket_def split: option.splits if_splits dest!: find_in)

lemma on_ticketE:
  assumes "ticket_inv db" and "on_ticket dk action uid db handle = (r, db')"
  obtains "db' = db" and "r \<in> {ReplyMissing, ReplyForbidden}"
    | t where "get_ticket dk action uid db = Inr t" and "find_ticket db uid = Some t" and "tk_unique_id t = uid"
        and "handle t = (r, db')"
proof (cases "get_ticket dk action uid db")
  case (Inl e)
  then have "e \<in> {ReplyMissing, ReplyForbidden}" by (auto simp: get_ticket_def split: option.splits if_splits)
  with Inl assms(2) that(1) show thesis by (simp add: on_ticket_def)
next
  case (Inr t)
  then have t: "t \<in> set (cd_tickets db)" "tk_unique_id t = uid" using get_ticketD visible_sub by blast+
  with find_ticket_distinct [OF ticket_invD(2) [OF assms(1)] t(1)] Inr assms(2) that(2) [of t] show thesis
    by (simp add: on_ticket_def)
qed

section \<open>Every handler keeps the invariant\<close>

text \<open>A status write: the row is saved and the change logged.\<close>

lemma write_and_log:
  assumes t: "find_ticket db uid = Some t" and id: "tk_unique_id t' = uid"
    and row: "fold (copy_column t') cols t = t'"
    and db'_def: "db' = log_status t' old to_id actor by_system remarks (save_ticket cols t' db)"
  shows "touches uid db db'" and "find_ticket db' uid = Some t'" and "reopens db' = reopens db"
    and "settings db' = settings db"
    and "trail db' uid = trail db uid @ [\<lparr>sc_ticket_id = uid, sc_from_status_id = map_option st_unique_id old,
      sc_to_status_id = to_id, sc_by_user_id = actor, sc_by_system = by_system, sc_remarks = remarks,
      sc_visible_to_citizen = True\<rparr>]"
proof -
  have "touches (tk_unique_id t') db db'"
    unfolding db'_def by (rule touches_trans [OF save_touches log_status_touches])
  then show "touches uid db db'" by (simp add: id)
  show "find_ticket db' uid = Some t'"
    using find_saved [of db t' t cols uid] t row by (simp add: db'_def log_status_view id)
qed (simp_all add: db'_def log_status_view id)

lemma resolve_status_in: "resolve_status db code = Some s \<Longrightarrow> s \<in> set (cd_statuses db) \<and> st_status_code s = code"
  by (auto simp: resolve_status_def dest: find_in)

lemma ticket_status_in: "ticket_status db t = Some s \<Longrightarrow> s \<in> set (cd_statuses db) \<and> st_unique_id s = tk_status_id t"
  by (auto simp: ticket_status_def dest!: find_in split: if_splits)

text \<open>A status write followed by writes beside the tickets, or by one to the clock.\<close>

lemma inv_restatus_then:
  assumes inv: "ticket_inv db" and t: "find_ticket db uid = Some t" and old: "ticket_status db t = Some old"
    and new: "s \<in> set (cd_statuses db)" "tk_status_id t1 = st_unique_id s" "tk_unique_id t1 = uid"
    and row: "fold (copy_column t1) cols t = t1"
    and logged: "db1 = log_status t1 (Some old) (st_unique_id s) actor by_system remarks (save_ticket cols t1 db)"
    and rest: "touches uid db1 db2" "find_ticket db2 uid = Some (t1\<lparr>tk_next_escalation_due_at := due\<rparr>)"
      "trail db2 = trail db1"
    and clock: "is_closed (Some s) \<Longrightarrow> due = None"
    and count: "tk_reopened_count t1 = length (reopens db2 uid)"
  shows "ticket_inv db2"
proof -
  note first = write_and_log [OF t new(3) row logged]
  show ?thesis
    by (rule inv_restatus [OF inv t touches_trans [OF first(1) rest(1)] rest(2), where s = s,
          OF _ _ _ first(5) [folded rest(3) [THEN fun_cong]]])
      (use new clock count ticket_status_in [OF old] in simp_all)
qed

lemma count_kept:
  assumes "ticket_inv db" and "find_ticket db uid = Some t"
  shows "tk_reopened_count t = length (reopens db uid)"
  using ticket_invD(3) [OF assms] find_ticket_id [OF assms(2)] by (simp add: ticket_ok_def)

lemma clock_after:
  assumes t1: "find_ticket db1 uid = Some t1" "tk_unique_id t1 = uid"
    and c: "(if stop then stop_escalation_clock t1 db1
       else if restart then restart_escalation_clock now t1 db1 else (t1, db1)) = (t2, db2)"
  obtains due where "t2 = t1\<lparr>tk_next_escalation_due_at := due\<rparr>" and "touches uid db1 db2"
    and "find_ticket db2 uid = Some t2" and "trail db2 = trail db1" and "reopens db2 = reopens db1" and "stop \<longrightarrow> due = None"
proof (cases stop)
  case True
  with c have "stop_escalation_clock t1 db1 = (t2, db2)" by simp
  from stop_write [OF _ this] t1 that [of None] show thesis by simp
next
  case running: False
  show thesis
  proof (cases restart)
    case True
    with c running have "restart_escalation_clock now t1 db1 = (t2, db2)" by simp
    from restart_write [OF _ this] t1 that running show thesis by metis
  next
    case False
    with c running t1(1) that [of "tk_next_escalation_due_at t1"] show thesis by simp
  qed
qed

lemma change_status_inv:
  assumes inv: "ticket_inv db" and run: "change_status dk uid code remarks db = (r, db')"
  shows "ticket_inv db'"
  using inv run [unfolded change_status_def]
proof (cases rule: on_ticketE)
  case (2 t)
  show ?thesis
  proof (cases "truthy code \<and> resolve_status db (the code) \<noteq> None \<and> ticket_status db t \<noteq> None")
    case True
    then obtain new old where new: "resolve_status db (the code) = Some new" and old: "ticket_status db t = Some old" by blast
    define t1 where "t1 = restatus (kd_now dk) new t"
    define db1 where "db1 = log_status t1 (Some old) (st_unique_id new) (actor_id (kd_user dk)) False remarks
        (save_ticket [StatusId, ResolvedAt, ClosedAt] t1 db)"
    define clocked where "clocked = (if is_closed (Some new) then stop_escalation_clock t1 db1
       else if is_closed (Some old) then restart_escalation_clock (kd_now dk) t1 db1 else (t1, db1))"
    have id1: "tk_unique_id t1 = uid" using 2 by (simp add: t1_def restatus_def)
    have row: "fold (copy_column t1) [StatusId, ResolvedAt, ClosedAt] t = t1" by (simp add: t1_def restatus_def)
    note first = write_and_log [OF 2(2) id1 row db1_def]
    obtain t2 db2 where c: "clocked = (t2, db2)" by force
    from clock_after [OF first(2) id1 c [unfolded clocked_def]]
    obtain due where due: "t2 = t1\<lparr>tk_next_escalation_due_at := due\<rparr>" "touches uid db1 db2"
      "find_ticket db2 uid = Some t2" "trail db2 = trail db1" "reopens db2 = reopens db1" "is_closed (Some new) \<longrightarrow> due = None" .
    have "ticket_inv db2"
      by (rule inv_restatus_then [OF inv 2(2) old, where s = new and due = due, OF _ _ id1 row db1_def due(2)])
        (use due resolve_status_in [OF new] count_kept [OF inv 2(2)] first(3) in \<open>simp_all add: t1_def restatus_def\<close>)
    moreover have "beside db2 db'"
      using 2(4) True unfolding new old option.case Let_def t1_def [symmetric] db1_def [symmetric]
        clocked_def [symmetric] c prod.case by (auto split: if_splits)
    ultimately show ?thesis by (rule inv_beside)
  qed (use 2 inv in \<open>auto split: option.splits if_splits\<close>)
qed (use inv in simp)

lemma resolve_inv:
  assumes inv: "ticket_inv db" and run: "resolve dk uid words db = (r, db')"
  shows "ticket_inv db'"
  using inv run [unfolded resolve_def]
proof (cases rule: on_ticketE)
  case (2 t)
  show ?thesis
  proof (cases "resolve_status db ''RESOLVED''")
    case (Some new)
    obtain old where old: "ticket_status db t = Some old"
      using ticket_status_known [OF ticket_invD(1) [OF inv]] ticket_invD(3) [OF inv 2(2)] by (metis ticket_ok_def)
    define t1 where "t1 = t\<lparr>tk_status_id := st_unique_id new, tk_resolved_at := set_at (kd_now dk) (tk_resolved_at t)\<rparr>"
    define db1 where "db1 = log_status t1 (Some old) (st_unique_id new) (actor_id (kd_user dk)) False
       (if truthy words then words else Some ''Marked as resolved'') (save_ticket [StatusId, ResolvedAt] t1 db)"
    have id1: "tk_unique_id t1 = uid" using 2 by (simp add: t1_def)
    have row: "fold (copy_column t1) [StatusId, ResolvedAt] t = t1" by (simp add: t1_def)
    note first = write_and_log [OF 2(2) id1 row db1_def]
    obtain t2 db2 where c: "stop_escalation_clock t1 db1 = (t2, db2)" by force
    have stopped: "t2 = t1\<lparr>tk_next_escalation_due_at := None\<rparr>" "touches uid db1 db2" "find_ticket db2 uid = Some t2"
      "trail db2 = trail db1" "reopens db2 = reopens db1"
      using stop_write [OF _ c] first(2) id1 by simp_all
    have "ticket_inv db2"
      by (rule inv_restatus_then [OF inv 2(2) old, where s = new and due = None, OF _ _ id1 row db1_def stopped(2)])
        (use stopped resolve_status_in [OF Some] count_kept [OF inv 2(2)] first(3) in \<open>simp_all add: t1_def\<close>)
    moreover have "beside db2 db'"
      using 2(4) unfolding Some old option.case Let_def t1_def [symmetric] db1_def [symmetric] c prod.case by auto
    ultimately show ?thesis by (rule inv_beside)
  qed (use 2 inv in simp)
qed (use inv in simp)

lemma reopen_row_view:
  "touches (ro_ticket_id h) db (db\<lparr>cd_reopens := cd_reopens db @ [h]\<rparr>)"
  "find_ticket (db\<lparr>cd_reopens := cd_reopens db @ [h]\<rparr>) = find_ticket db"
  "trail (db\<lparr>cd_reopens := cd_reopens db @ [h]\<rparr>) = trail db"
  "reopens (db\<lparr>cd_reopens := cd_reopens db @ [h]\<rparr>) (ro_ticket_id h) = reopens db (ro_ticket_id h) @ [h]"
  by (auto simp: touches_def ticket_view_def settings_def find_ticket_def trail_def reopens_def fun_eq_iff)

lemma reopen_inv:
  assumes inv: "ticket_inv db" and run: "reopen dk uid words db = (r, db')"
  shows "ticket_inv db'"
  using inv run [unfolded reopen_def]
proof (cases rule: on_ticketE)
  case (2 t)
  define reason where "reason = py_strip (case words of None \<Rightarrow> [] | Some w \<Rightarrow> w)"
  show ?thesis
  proof (cases "(\<exists>old. ticket_status db t = Some old \<and> st_allow_reopen old) \<and> reason \<noteq> [] \<and> resolve_status db ''REOPENED'' \<noteq> None")
    case True
    then obtain old new where old: "ticket_status db t = Some old" "st_allow_reopen old"
      and new: "resolve_status db ''REOPENED'' = Some new" and reason: "reason \<noteq> []" by blast
    define t1 where "t1 = t\<lparr>tk_status_id := st_unique_id new, tk_reopened_count := tk_reopened_count t + 1,
       tk_resolved_at := None, tk_closed_at := None\<rparr>"
    define db0 where "db0 = save_ticket [StatusId, ReopenedCount, ResolvedAt, ClosedAt] t1 db"
    define h where "h = \<lparr>ro_ticket_id = tk_unique_id t1, ro_by_user_id = actor_id (kd_user dk), ro_reason = reason,
       ro_previous_status_id = Some (st_unique_id old), ro_reopened_at = kd_now dk, ro_is_deleted = False\<rparr>"
    define db1 where "db1 = log_status t1 (Some old) (st_unique_id new) (actor_id (kd_user dk)) False (Some reason) db0"
    define db2 where "db2 = db1\<lparr>cd_reopens := cd_reopens db1 @ [h]\<rparr>"
    have swap: "log_status t1 (Some old) (st_unique_id new) (actor_id (kd_user dk)) False (Some reason)
        (db0\<lparr>cd_reopens := cd_reopens db0 @ [h]\<rparr>) = db2"
      by (simp add: db2_def db1_def log_status_def)
    have id1: "tk_unique_id t1 = uid" using 2 by (simp add: t1_def)
    have row: "fold (copy_column t1) [StatusId, ReopenedCount, ResolvedAt, ClosedAt] t = t1" by (simp add: t1_def)
    note first = write_and_log [OF 2(2) id1 row db1_def [unfolded db0_def]]
    note second = reopen_row_view [where h = h and db = db1, folded db2_def]
    obtain t2 db3 where c: "restart_escalation_clock (kd_now dk) t1 db2 = (t2, db3)" by force
    have "find_ticket db2 (tk_unique_id t1) = Some t1" using first(2) second(2) id1 by simp
    from restart_write [OF this c] obtain due where due: "t2 = t1\<lparr>tk_next_escalation_due_at := due\<rparr>"
      "touches uid db2 db3" "find_ticket db3 uid = Some t2" "trail db3 = trail db2" "reopens db3 = reopens db2"
      unfolding id1 .
    have own: "touches uid db1 db3" using second(1) due(2) id1 by (auto simp: h_def intro: touches_trans)
    have "ticket_inv db3"
      by (rule inv_restatus_then [OF inv 2(2) old(1), where s = new and due = due, OF _ _ id1 row db1_def [unfolded db0_def] own])
        (use due second first(3) resolve_status_in [OF new] count_kept [OF inv 2(2)] id1 in
          \<open>simp_all add: t1_def h_def is_closed_def CLOSED_STATUS_CODES_def\<close>)
    moreover have "beside db3 db'"
      using 2(4) reason old(2) unfolding old(1) new option.case Let_def reason_def [symmetric] t1_def [symmetric]
        db0_def [symmetric] h_def [symmetric] swap c prod.case by auto
    ultimately show ?thesis by (rule inv_beside)
  next
    case False
    with 2(4) have "db' = db" unfolding Let_def reason_def [symmetric] by (auto split: option.splits if_splits)
    with inv show ?thesis by simp
  qed
qed (use inv in simp)

lemma assign_inv:
  assumes inv: "ticket_inv db" and run: "assign dk uid staff_id reason db = (r, db')"
  shows "ticket_inv db'"
  using inv run [unfolded assign_def]
proof (cases rule: on_ticketE)
  case (2 t)
  show ?thesis
  proof (cases "truthy staff_id \<and> find (\<lambda>s. Some (sf_unique_id s) = staff_id \<and> \<not> sf_is_deleted s) (cd_staff db) \<noteq> None")
    case True
    then obtain s where s: "find (\<lambda>s. Some (sf_unique_id s) = staff_id \<and> \<not> sf_is_deleted s) (cd_staff db) = Some s" by blast
    define change where "change = (if tk_is_escalated t
       then (t\<lparr>tk_escalated_to_staff_id := Some (sf_unique_id s)\<rparr>, [EscalatedToStaffId])
       else (t\<lparr>tk_assigned_staff_id := Some (sf_unique_id s)\<rparr>, [AssignedStaffId]))"
    obtain t1 cols where c: "change = (t1, cols)" by force
    have t1: "tk_unique_id t1 = uid" "tk_status_id t1 = tk_status_id t" "tk_reopened_count t1 = tk_reopened_count t"
      "tk_next_escalation_due_at t1 = tk_next_escalation_due_at t" "fold (copy_column t1) cols t = t1"
      using c 2(3) by (auto simp: change_def split: if_splits)
    have "find_ticket (save_ticket cols t1 db) uid = Some t1"
      using find_saved [of db t1 t cols uid] t1 2(2) by simp
    then have "ticket_inv (save_ticket cols t1 db)"
      using t1 save_touches [of t1 db cols] by (intro inv_kept [OF inv 2(2)]) simp_all
    moreover have "beside (save_ticket cols t1 db) db'"
      using 2(4) True unfolding s option.case Let_def change_def [symmetric] c prod.case by (auto split: if_splits)
    ultimately show ?thesis by (rule inv_beside)
  qed (use 2 inv in \<open>auto split: option.splits if_splits\<close>)
qed (use inv in simp)

lemma log_escalation_tables:
  "cd_status_changes (log_escalation now t fs l s r a bs status db) = cd_status_changes db @ (case status of None \<Rightarrow> []
     | Some st \<Rightarrow> [\<lparr>sc_ticket_id = tk_unique_id t, sc_from_status_id = Some (tk_status_id t),
         sc_to_status_id = st_unique_id st, sc_by_user_id = a, sc_by_system = bs,
         sc_remarks = Some (escalation_remarks bs (tk_escalation_level t) fs l s r), sc_visible_to_citizen = True\<rparr>])"
  "cd_reopens (log_escalation now t fs l s r a bs status db) = cd_reopens db"
  by (cases status; simp add: log_escalation_def Let_def)+

lemma log_escalation_view:
  "trail (log_escalation now t fs l s r a bs status db) u = trail db u
     @ (if u = tk_unique_id t then (case status of None \<Rightarrow> [] | Some st \<Rightarrow>
          [\<lparr>sc_ticket_id = u, sc_from_status_id = Some (tk_status_id t), sc_to_status_id = st_unique_id st,
            sc_by_user_id = a, sc_by_system = bs,
            sc_remarks = Some (escalation_remarks bs (tk_escalation_level t) fs l s r),
            sc_visible_to_citizen = True\<rparr>]) else [])"
  "reopens (log_escalation now t fs l s r a bs status db) = reopens db"
  by (auto simp: trail_def reopens_def log_escalation_tables fun_eq_iff split: option.split)

lemma announce_beside: "beside db (announce_escalation t fs l s r db)"
  by (simp add: announce_escalation_def Let_def split: option.split)

lemma announce_view:
  "trail (announce_escalation t fs l s r db) = trail db" "reopens (announce_escalation t fs l s r db) = reopens db"
  using beside_view(1) [OF announce_beside] by (simp_all add: ticket_view_def fun_eq_iff)

lemma escalate_ticket_view:
  assumes run: "escalate_ticket db now uid reason actor by_system = Inr (db', t')" and t: "find_ticket db uid = Some t"
  shows "touches uid db db'" and "find_ticket db' uid = Some t'" and "reopens db' = reopens db"
    and "tk_reopened_count t' = tk_reopened_count t"
    and "escalated_status db = None \<Longrightarrow> tk_status_id t' = tk_status_id t \<and> trail db' uid = trail db uid"
    and "escalated_status db = Some s \<Longrightarrow> tk_status_id t' = st_unique_id s \<and> (\<exists>h. trail db' uid = trail db uid @ [h]
      \<and> sc_from_status_id h = Some (tk_status_id t) \<and> sc_to_status_id h = st_unique_id s)"
proof -
  obtain l staff where n: "next_level_staff db t (tk_escalation_level t) = Some (l, staff)"
    and t': "t' = escalated_ticket (level_due db (governing_rule db t None) l now) l staff (escalated_status db) t"
    and su: "settings db' = settings db" and found: "\<And>u. find_ticket db' u = (if u = uid then Some t' else find_ticket db u)"
    using escalate_ticketE [OF run] t by (metis option.inject)
  have id: "tk_unique_id t = uid" using find_ticket_id [OF t] by simp
  have db': "db' = announce_escalation t' (responsible_staff db t) l staff reason
      (log_escalation now t (responsible_staff db t) l staff reason actor by_system (escalated_status db)
        (save_ticket (escalation_columns (escalated_status db)) t' db))"
    using run by (simp add: escalate_ticket_def t n Let_def t')
  have logs: "trail db' u = trail db u @ (if u = uid then (case escalated_status db of None \<Rightarrow> [] | Some st \<Rightarrow>
          [\<lparr>sc_ticket_id = u, sc_from_status_id = Some (tk_status_id t), sc_to_status_id = st_unique_id st,
            sc_by_user_id = actor, sc_by_system = by_system,
            sc_remarks = Some (escalation_remarks by_system (tk_escalation_level t) (responsible_staff db t) l staff reason),
            sc_visible_to_citizen = True\<rparr>]) else [])"
    and reo: "reopens db' = reopens db" and ids: "map tk_unique_id (cd_tickets db') = map tk_unique_id (cd_tickets db)" for u
    by (simp_all add: db' log_escalation_view announce_view id) (simp add: save_ticket_def update_tickets_def)
  show "touches uid db db'" using su found ids logs reo by (simp add: touches_def ticket_view_def)
  show "find_ticket db' uid = Some t'" using found by simp
  show "reopens db' = reopens db" by (rule reo)
  show "tk_reopened_count t' = tk_reopened_count t"
    by (simp add: t' escalated_ticket_def Let_def split: option.split)
  show "escalated_status db = None \<Longrightarrow> tk_status_id t' = tk_status_id t \<and> trail db' uid = trail db uid"
    by (simp add: t' escalated_ticket_def logs)
  show "escalated_status db = Some s \<Longrightarrow> tk_status_id t' = st_unique_id s \<and> (\<exists>h. trail db' uid = trail db uid @ [h]
      \<and> sc_from_status_id h = Some (tk_status_id t) \<and> sc_to_status_id h = st_unique_id s)"
    by (simp add: t' escalated_ticket_def logs)
qed

lemma escalate_ticket_inv:
  assumes inv: "ticket_inv db" and t: "find_ticket db uid = Some t" and still_open: "\<not> is_closed (ticket_status db t)"
    and run: "escalate_ticket db now uid reason actor by_system = Inr (db', t')"
  shows "ticket_inv db'"
proof -
  note view = escalate_ticket_view [OF run t]
  show ?thesis
  proof (cases "escalated_status db")
    case None
    show ?thesis
      by (rule inv_kept [OF inv t view(1,2)]) (use view(3-5) None still_open in simp_all)
  next
    case (Some s)
    then have s: "s \<in> set (cd_statuses db)" "\<not> is_closed (Some s)"
      using find_in [OF Some [unfolded escalated_status_def]] by (auto simp: is_closed_def CLOSED_STATUS_CODES_def)
    from view(6) [OF Some] obtain h where h: "tk_status_id t' = st_unique_id s" "trail db' uid = trail db uid @ [h]"
      "sc_from_status_id h = Some (tk_status_id t)" "sc_to_status_id h = st_unique_id s" by blast
    show ?thesis
      by (rule inv_restatus [OF inv t view(1,2) s(1) h(1) _ h(2-4)]) (use s view(3,4) count_kept [OF inv t] in simp_all)
  qed
qed

lemma escalate_inv:
  assumes inv: "ticket_inv db" and run: "escalate dk uid reason db = (r, db')"
  shows "ticket_inv db'"
  using inv run [unfolded escalate_def]
proof (cases rule: on_ticketE)
  case (2 t)
  then show ?thesis
    using inv escalate_ticket_inv [OF inv, of uid t]
    by (auto split: if_splits sum.splits escalation_error.splits)
qed (use inv in simp)

lemma update_found:
  assumes "find_ticket db uid = Some t" and "\<And>row. tk_unique_id (f row) = tk_unique_id row \<or> f row = f t" and "tk_unique_id (f t) = uid"
    and "distinct (map tk_unique_id (cd_tickets db))"
  shows "touches uid db (update_tickets uid f db)" and "find_ticket (update_tickets uid f db) uid = Some (f t)"
proof -
  have ids: "tk_unique_id (if tk_unique_id row = uid then f row else row) = tk_unique_id row" for row
    using assms(2) [of row] assms(3) by auto
  then have same: "map tk_unique_id (cd_tickets (update_tickets uid f db)) = map tk_unique_id (cd_tickets db)"
    by (simp add: update_tickets_def)
  have "find_ticket (update_tickets uid f db) u = map_option (\<lambda>row. if tk_unique_id row = uid then f row else row) (find_ticket db u)" for u
    unfolding find_ticket_def update_tickets_def
    using find_map_id [where g = tk_unique_id and h = "\<lambda>row. if tk_unique_id row = uid then f row else row", OF ids] by simp
  then have found: "find_ticket (update_tickets uid f db) u = (if u = uid then Some (f t) else find_ticket db u)" for u
    using assms(1) find_ticket_id [of db] by (cases "find_ticket db u") auto
  show "find_ticket (update_tickets uid f db) uid = Some (f t)" by (simp add: found)
  show "touches uid db (update_tickets uid f db)" using same found by (simp add: touches_def ticket_view_def)
qed

lemma destroy_inv:
  assumes inv: "ticket_inv db" and run: "destroy dk uid db = (r, db')"
  shows "ticket_inv db'"
  using inv run [unfolded destroy_def]
proof (cases rule: on_ticketE)
  case (2 t)
  let ?f = "\<lambda>row. row\<lparr>tk_is_deleted := True\<rparr>"
  have upd: "touches uid db (update_tickets uid ?f db)" "find_ticket (update_tickets uid ?f db) uid = Some (?f t)"
    by (rule update_found [OF 2(2) _ _ ticket_invD(2) [OF inv]], simp_all add: 2(3))+
  have "ticket_inv (update_tickets uid ?f db)" by (rule inv_kept [OF inv 2(2) upd]) simp_all
  with 2(3,4) show ?thesis by auto
qed (use inv in simp)

lemma fill_geo_parents_row [simp]:
  "tk_unique_id (fill_geo_parents g t) = tk_unique_id t" "tk_status_id (fill_geo_parents g t) = tk_status_id t"
  "tk_reopened_count (fill_geo_parents g t) = tk_reopened_count t"
  "tk_next_escalation_due_at (fill_geo_parents g t) = tk_next_escalation_due_at t"
  "tk_escalation_level (fill_geo_parents g t) = tk_escalation_level t"
  by (simp_all add: fill_geo_parents_def Let_def)

lemma update_ticket_inv:
  assumes inv: "ticket_inv db" and run: "update_ticket dk uid attrs db = (r, db')"
    and same: "\<And>t. find_ticket db uid = Some t \<Longrightarrow> tk_status_id attrs = tk_status_id t"
  shows "ticket_inv db'"
  using inv run [unfolded update_ticket_def]
proof (cases rule: on_ticketE)
  case (2 t)
  let ?f = "\<lambda>_. edited_ticket (cd_geo db) attrs t"
  have upd: "touches uid db (update_tickets uid ?f db)" "find_ticket (update_tickets uid ?f db) uid = Some (?f t)"
    by (rule update_found [OF 2(2) _ _ ticket_invD(2) [OF inv]], simp_all add: edited_ticket_def 2(3))+
  have "ticket_inv (update_tickets uid ?f db)"
    by (rule inv_kept [OF inv 2(2) upd]) (simp_all add: edited_ticket_def same [OF 2(2)])
  with 2(3,4) show ?thesis by auto
qed (use inv in simp)

lemma add_comment_inv:
  "ticket_inv db \<Longrightarrow> add_comment dk uid body internal sensitive db = (r, db') \<Longrightarrow> ticket_inv db'"
  by (auto simp: add_comment_def on_ticket_def intro: inv_beside split: sum.splits)

lemma review_log_swap:
  "log_status t old i a b r (save_review dk v rm rid db) = save_review dk v rm rid (log_status t old i a b r db)"
  by (simp add: log_status_def save_review_def)

lemma approve_inv:
  assumes inv: "ticket_inv db" and run: "approve dk uid rid remarks db = Inr db'"
  shows "ticket_inv db'"
proof -
  obtain t new where t: "find_ticket db uid = Some t" and new: "resolve_status db ''CLOSED'' = Some new"
    using run by (auto simp: approve_def split: sum.splits option.splits)
  obtain old where old: "ticket_status db t = Some old"
    using ticket_status_known [OF ticket_invD(1) [OF inv]] ticket_invD(3) [OF inv t] by (metis ticket_ok_def)
  define t1 where "t1 = t\<lparr>tk_status_id := st_unique_id new, tk_resolved_at := set_at (kd_now dk) (tk_resolved_at t),
     tk_closed_at := set_at (kd_now dk) (tk_closed_at t), tk_next_escalation_due_at := None\<rparr>"
  define db1 where "db1 = log_status t1 (Some old) (st_unique_id new) (reviewer_user (kd_user dk)) False
     (Some (''Cleanup verified by '' @ reviewer_name (kd_user dk) @ '': '' @ py_strip remarks))
     (save_ticket [StatusId, ResolvedAt, ClosedAt, NextEscalationDueAt] t1 db)"
  have id1: "tk_unique_id t1 = uid" using find_ticket_id [OF t] by (simp add: t1_def)
  have row: "fold (copy_column t1) [StatusId, ResolvedAt, ClosedAt, NextEscalationDueAt] t = t1" by (simp add: t1_def)
  note first = write_and_log [OF t id1 row db1_def]
  have "ticket_inv db1"
    by (rule inv_restatus_then [OF inv t old, where s = new and due = None, OF _ _ id1 row db1_def touches_refl])
      (use resolve_status_in [OF new] count_kept [OF inv t] first(2,3) in \<open>simp_all add: t1_def\<close>)
  moreover have "beside db1 db'"
    using run unfolding approve_def t new old option.case Let_def t1_def [symmetric] review_log_swap db1_def [symmetric]
    by (auto split: sum.splits if_splits)
  ultimately show ?thesis by (rule inv_beside)
qed

lemma reject_beside: "reject dk t rid remarks db = Inr db' \<Longrightarrow> beside db db'"
  by (auto simp: reject_def split: sum.splits)

lemma review_cleanup_inv:
  assumes inv: "ticket_inv db" and run: "review_cleanup dk uid approving words db = (r, db')"
  shows "ticket_inv db'"
  using inv run [unfolded review_cleanup_def]
proof (cases rule: on_ticketE)
  case (2 t)
  show ?thesis
  proof (cases "db' = db")
    case False
    then have "(\<exists>rid remarks. approve dk (tk_unique_id t) rid remarks db = Inr db') \<or> beside db db'"
      using 2(4) by (cases approving) (auto simp: Let_def reject_beside split: option.splits if_splits sum.splits cleanup_error.splits)
    then show ?thesis using inv by (auto intro: approve_inv inv_beside)
  qed (use inv in simp)
qed (use inv in simp)

lemma verify_cleanup_inv:
  assumes "ticket_inv db" and "map_ticket_verify_cleanup new_id ticket_no photo_ok words db = (r, db')"
  shows "ticket_inv db'"
proof -
  have "beside db db'"
    using assms(2) by (auto simp: map_ticket_verify_cleanup_def submit_cleanup_def Let_def split: option.splits if_splits)
  with assms(1) show ?thesis by (rule inv_beside)
qed

section \<open>Creation and the timed jobs\<close>

lemma set_initial_row:
  "set_initial_escalation db now t rule = (t', cols) \<Longrightarrow> tk_unique_id t' = tk_unique_id t \<and> tk_status_id t' = tk_status_id t
     \<and> tk_reopened_count t' = tk_reopened_count t"
  by (auto simp: set_initial_escalation_def Let_def split: if_splits option.splits)

lemma apply_routing_row:
  assumes "apply_routing_and_sla db now t True = (db', t', cols)"
  shows "tk_unique_id t' = tk_unique_id t" and "tk_status_id t' = tk_status_id t"
    and "tk_reopened_count t' = tk_reopened_count t"
    and "beside (if cols = [] then db else save_ticket cols t' db) db'"
proof -
  have "tk_unique_id t' = tk_unique_id t \<and> tk_status_id t' = tk_status_id t \<and> tk_reopened_count t' = tk_reopened_count t
      \<and> beside (if cols = [] then db else save_ticket cols t' db) db'"
  proof -
    define routed where "routed = (case best_routing_rule t (cd_routing_rules db) of None \<Rightarrow> (t, [])
      | Some r \<Rightarrow> if truthy (rr_user_id r) \<and> \<not> truthy (tk_assigned_user_id t)
          then (t\<lparr>tk_assigned_user_id := rr_user_id r\<rparr>, [AssignedUserId]) else (t, []))"
    obtain t1 cols1 where r1: "routed = (t1, cols1)" by force
    define placed where "placed = (if tk_next_escalation_due_at t1 = None \<and> tk_escalation_level t1 = 0
      then set_initial_escalation db now t1 (governing_rule db t1 (best_routing_rule t (cd_routing_rules db))) else (t1, []))"
    obtain t2 cols2 where r2: "placed = (t2, cols2)" by force
    have one: "tk_unique_id t1 = tk_unique_id t \<and> tk_status_id t1 = tk_status_id t \<and> tk_reopened_count t1 = tk_reopened_count t"
      using r1 by (auto simp: routed_def split: option.splits if_splits)
    have two: "tk_unique_id t2 = tk_unique_id t1 \<and> tk_status_id t2 = tk_status_id t1 \<and> tk_reopened_count t2 = tk_reopened_count t1"
      using r2 by (auto simp: placed_def dest!: set_initial_row split: if_splits)
    have "t' = t2 \<and> beside (if cols = [] then db else save_ticket cols t2 db) db'"
      using assms unfolding apply_routing_and_sla_def Let_def routed_def [symmetric] r1 prod.case placed_def [symmetric] r2
        prod.inject by (elim conjE, hypsubst) simp
    with one two show ?thesis by metis
  qed
  then show "tk_unique_id t' = tk_unique_id t" and "tk_status_id t' = tk_status_id t"
    and "tk_reopened_count t' = tk_reopened_count t"
    and "beside (if cols = [] then db else save_ticket cols t' db) db'" by blast+
qed

lemma apply_routing_inv:
  assumes inv: "ticket_inv db" and t: "find_ticket db (tk_unique_id t) = Some t" and still_open: "\<not> is_closed (ticket_status db t)"
    and run: "apply_routing_and_sla db now t True = (db', t', cols)"
  shows "ticket_inv db'" and "touches (tk_unique_id t) db db'"
proof -
  note row = apply_routing_row [OF run]
  let ?db1 = "if cols = [] then db else save_ticket cols t' db"
  have copy: "fold (copy_column t') cols t = t'" using apply_routing_only_fills_empty [OF run] by blast
  have found: "find_ticket ?db1 (tk_unique_id t) = Some t'"
  proof (cases "cols = []")
    case True
    with copy t show ?thesis by simp
  next
    case False
    have "find_ticket db (tk_unique_id t') = Some t" using t row(1) by simp
    from find_saved [OF this copy] False row(1) show ?thesis by simp
  qed
  have one: "touches (tk_unique_id t) db ?db1" using save_touches [of t' db cols] row(1) by simp
  have "ticket_inv ?db1"
    by (rule inv_kept [OF inv t one found row(2,3)]) (use still_open in simp_all)
  then show "ticket_inv db'" using row(4) by (rule inv_beside)
  show "touches (tk_unique_id t) db db'" by (rule touches_trans [OF one beside_touches [OF row(4)]])
qed

text \<open>A new id: no ticket and no history row has it. The serializer checks that the status exists.\<close>

definition fresh_ticket :: "complaint_db \<Rightarrow> ticket \<Rightarrow> bool" where
  "fresh_ticket db t \<longleftrightarrow> tk_unique_id t \<notin> tk_unique_id ` set (cd_tickets db)
     \<and> trail db (tk_unique_id t) = [] \<and> reopens db (tk_unique_id t) = []
     \<and> (\<exists>s\<in>set (cd_statuses db). st_unique_id s = tk_status_id t \<and> \<not> is_closed (Some s))"

lemma new_ticket_row [simp]:
  "tk_unique_id (stored_ticket g t) = tk_unique_id t" "tk_status_id (stored_ticket g t) = tk_status_id t"
  "tk_reopened_count (stored_ticket g t) = 0" "tk_next_escalation_due_at (stored_ticket g t) = None"
  by (simp_all add: stored_ticket_def)

lemma create_ticket_inv:
  assumes inv: "ticket_inv db" and fresh: "fresh_ticket db attrs"
  shows "ticket_inv (create_ticket now attrs db)"
proof -
  obtain s where s: "s \<in> set (cd_statuses db)" "st_unique_id s = tk_status_id attrs" "\<not> is_closed (Some s)"
    using fresh by (auto simp: fresh_ticket_def)
  define t where "t = stored_ticket (cd_geo db) attrs"
  define db1 where "db1 = log_status t None (tk_status_id t) None True (Some ''Ticket created'')
    (db\<lparr>cd_tickets := cd_tickets db @ [t]\<rparr>)"
  have db1: "cd_tickets db1 = cd_tickets db @ [t]" "cd_statuses db1 = cd_statuses db" "reopens db1 = reopens db"
    "trail db1 u = trail db u @ (if u = tk_unique_id t then [\<lparr>sc_ticket_id = tk_unique_id t, sc_from_status_id = None,
       sc_to_status_id = tk_status_id t, sc_by_user_id = None, sc_by_system = True, sc_remarks = Some ''Ticket created'',
       sc_visible_to_citizen = True\<rparr>] else [])" for u
    by (auto simp: db1_def log_status_def trail_def reopens_def fun_eq_iff)
  have known: "ticket_status db1 t = Some s"
    using ticket_invD(1) [OF inv] s db1(2) by (intro status_found) (simp_all add: statuses_ok_def t_def)
  have dist: "distinct (map tk_unique_id (cd_tickets db1))"
    using ticket_invD(2) [OF inv] fresh by (auto simp: db1(1) fresh_ticket_def t_def)
  have "ticket_ok db1 x" if "x \<in> set (cd_tickets db)" for x
  proof -
    have "tk_unique_id x \<noteq> tk_unique_id t" using that fresh by (metis fresh_ticket_def image_eqI new_ticket_row(1) t_def)
    moreover have "ticket_ok db x" using inv that by (simp add: ticket_inv_def)
    ultimately show ?thesis by (simp add: ticket_ok_def db1 ticket_status_def)
  qed
  moreover have "ticket_ok db1 t"
    using fresh s(3) known s(1) s(2) [symmetric] by (simp add: ticket_ok_def db1 fresh_ticket_def t_def)
  ultimately have inv1: "ticket_inv db1"
    using dist ticket_invD(1) [OF inv] by (auto simp: ticket_inv_def db1 statuses_ok_def)
  have "find_ticket db1 (tk_unique_id t) = Some t" by (rule find_ticket_distinct [OF dist]) (simp add: db1)
  from apply_routing_inv(1) [OF inv1 this] known s(3) show ?thesis
    unfolding create_ticket_def Let_def t_def [symmetric] db1_def [symmetric] by (metis prod.collapse)
qed

text \<open>The timed jobs run over open tickets, one at a time: each round touches its own ticket only, so every
  ticket is still the stored row when its turn comes.\<close>

locale ticket_job =
  fixes round :: "ticket \<Rightarrow> 's \<Rightarrow> 's" and tables :: "'s \<Rightarrow> complaint_db option"
  assumes round_ok: "tables s = Some db \<Longrightarrow> ticket_inv db \<Longrightarrow> find_ticket db (tk_unique_id t) = Some t \<Longrightarrow>
    \<not> is_closed (ticket_status db t) \<Longrightarrow>
    \<exists>db'. tables (round t s) = Some db' \<and> ticket_inv db' \<and> touches (tk_unique_id t) db db'"
begin

lemma rounds_ok:
  "tables s = Some db \<Longrightarrow> ticket_inv db \<Longrightarrow> distinct (map tk_unique_id ts) \<Longrightarrow>
    (\<forall>t\<in>set ts. find_ticket db (tk_unique_id t) = Some t \<and> \<not> is_closed (ticket_status db t)) \<Longrightarrow>
    \<exists>db'. tables (fold round ts s) = Some db' \<and> ticket_inv db'"
proof (induction ts arbitrary: s db)
  case (Cons t ts)
  then obtain db1 where db1: "tables (round t s) = Some db1" "ticket_inv db1" "touches (tk_unique_id t) db db1"
    using round_ok [of s db t] by auto
  have "find_ticket db1 (tk_unique_id x) = Some x \<and> \<not> is_closed (ticket_status db1 x)" if x: "x \<in> set ts" for x
  proof -
    have "tk_unique_id x \<noteq> tk_unique_id t" using Cons.prems(3) x by (metis distinct.simps(2) image_eqI list.simps(9) set_map)
    moreover from x have "find_ticket db (tk_unique_id x) = Some x" "\<not> is_closed (ticket_status db x)"
      using Cons.prems(4) by simp_all
    moreover have "ticket_status db1 x = ticket_status db x" using touchesD(2) [OF db1(3)] by (simp add: ticket_status_def)
    ultimately show ?thesis using touchesD(4) [OF db1(3)] by simp
  qed
  with Cons.IH [OF db1(1,2)] Cons.prems(3) show ?case by simp
qed simp

end

interpretation sweep_job: ticket_job "sweep_one now" "\<lambda>acc. case acc of Inl _ \<Rightarrow> None | Inr (db, _) \<Rightarrow> Some db"
proof unfold_locales
  fix s :: "escalation_error + complaint_db \<times> nat" and db t
  assume acc: "(case s of Inl _ \<Rightarrow> None | Inr (db, _) \<Rightarrow> Some db) = Some db" and inv: "ticket_inv db"
    and t: "find_ticket db (tk_unique_id t) = Some t" and still_open: "\<not> is_closed (ticket_status db t)"
  obtain n where s: "s = Inr (db, n)" using acc by (cases s) auto
  let ?e = "escalate_ticket db now (tk_unique_id t) (Some ''SLA breach - auto escalation'') None True"
  show "\<exists>db'. (case sweep_one now t s of Inl _ \<Rightarrow> None | Inr (db, _) \<Rightarrow> Some db) = Some db' \<and> ticket_inv db'
      \<and> touches (tk_unique_id t) db db'"
  proof (cases ?e)
    case (Inr p)
    then obtain db' t' where run: "?e = Inr (db', t')" by (cases p) auto
    with escalate_ticket_inv [OF inv t still_open run] escalate_ticket_view(1) [OF run t] s show ?thesis
      by (simp add: sweep_one_def)
  next
    case (Inl e)
    then have e: "e = NoHigherLevel" using t by (auto simp: escalate_ticket_def Let_def split: option.splits)
    let ?f = "\<lambda>t. t\<lparr>tk_next_escalation_due_at := None\<rparr>"
    have upd: "touches (tk_unique_id t) db (update_tickets (tk_unique_id t) ?f db)"
      "find_ticket (update_tickets (tk_unique_id t) ?f db) (tk_unique_id t) = Some (?f t)"
      by (rule update_found [OF t _ _ ticket_invD(2) [OF inv]], simp_all)+
    have "ticket_inv (update_tickets (tk_unique_id t) ?f db)" by (rule inv_kept [OF inv t upd]) simp_all
    with upd(1) Inl e s show ?thesis by (simp add: sweep_one_def set_due_def)
  qed
qed

interpretation reschedule_job: ticket_job "reschedule_one now rule" "\<lambda>(db, n :: nat). Some db"
proof unfold_locales
  fix s db t
  assume acc: "(\<lambda>(db, n :: nat). Some db) s = Some db" and inv: "ticket_inv db"
    and t: "find_ticket db (tk_unique_id t) = Some t" and still_open: "\<not> is_closed (ticket_status db t)"
  obtain n where s: "s = (db, n)" using acc by (cases s) auto
  obtain db1 t1 cols where run: "apply_routing_and_sla db now t True = (db1, t1, cols)" by (metis prod.collapse)
  have routed: "ticket_inv db1" "touches (tk_unique_id t) db db1" using apply_routing_inv [OF inv t still_open run] by simp_all
  have due: "ticket_inv (set_due (tk_unique_id t) v db) \<and> touches (tk_unique_id t) db (set_due (tk_unique_id t) v db)" for v
  proof -
    let ?f = "\<lambda>t. t\<lparr>tk_next_escalation_due_at := v\<rparr>"
    have upd: "touches (tk_unique_id t) db (update_tickets (tk_unique_id t) ?f db)"
      "find_ticket (update_tickets (tk_unique_id t) ?f db) (tk_unique_id t) = Some (?f t)"
      by (rule update_found [OF t _ _ ticket_invD(2) [OF inv]], simp_all)+
    have "ticket_inv (update_tickets (tk_unique_id t) ?f db)" by (rule inv_kept [OF inv t upd]) (use still_open in simp_all)
    with upd(1) show ?thesis by (simp add: set_due_def)
  qed
  show "\<exists>db'. (\<lambda>(db, n :: nat). Some db) (reschedule_one now rule t s) = Some db' \<and> ticket_inv db'
      \<and> touches (tk_unique_id t) db db'"
    using inv routed due s by (auto simp: reschedule_one_def run Let_def split: option.split)
qed

section \<open>Any sequence of calls\<close>

inductive ticket_run :: "complaint_db \<Rightarrow> complaint_db \<Rightarrow> bool" for db0 where
  start: "ticket_run db0 db0"
| step: "ticket_run db0 db \<Longrightarrow> ticket_run db0 (snd (ticket_step dk c db))"

text \<open>
  The calls that keep the history of the statuses: a new ticket has a new id and an open status, an edit leaves the
  status to the status calls. The handlers enforce neither the open status nor the kept one: an edit may write any
  status, without a history row and with the clock running (\<open>edit_skips_history\<close>).
\<close>

definition call_ok :: "complaint_db \<Rightarrow> ticket_call \<Rightarrow> bool" where
  "call_ok db c = (case c of
       CreateTicket attrs \<Rightarrow> fresh_ticket db attrs
     | UpdateTicket uid attrs \<Rightarrow> (case find_ticket db uid of None \<Rightarrow> True | Some t \<Rightarrow> tk_status_id attrs = tk_status_id t)
     | _ \<Rightarrow> True)"

inductive status_run :: "complaint_db \<Rightarrow> complaint_db \<Rightarrow> bool" for db0 where
  start: "status_run db0 db0"
| step: "status_run db0 db \<Longrightarrow> call_ok db c \<Longrightarrow> status_run db0 (snd (ticket_step dk c db))"

lemma overdue_open:
  assumes inv: "ticket_inv db" and t: "t \<in> set (open_tickets db)"
  shows "find_ticket db (tk_unique_id t) = Some t \<and> \<not> is_closed (ticket_status db t)"
proof -
  have "find_ticket db (tk_unique_id t) = Some t"
    using t by (intro find_ticket_distinct [OF ticket_invD(2) [OF inv]]) (simp add: open_tickets_def)
  moreover have "\<not> is_closed (ticket_status db t)"
    using t unfolding open_tickets_def closed_status_ids_def is_closed_def
    by (auto dest!: ticket_status_in split: option.splits) (metis (mono_tags, lifting) image_eqI mem_Collect_eq)
  ultimately show ?thesis by blast
qed

lemma closed_iff:
  assumes inv: "ticket_inv db" and t: "find_ticket db uid = Some t"
  shows "is_closed (ticket_status db t) \<longleftrightarrow> tk_status_id t \<in> set (closed_status_ids db)"
proof -
  obtain s where s: "s \<in> set (cd_statuses db)" "ticket_status db t = Some s" "st_unique_id s = tk_status_id t"
    using ticket_status_known [OF ticket_invD(1) [OF inv]] ticket_invD(3) [OF inv t] by (metis ticket_ok_def)
  have same: "s' = s" if "s' \<in> set (cd_statuses db)" "st_unique_id s' = tk_status_id t" for s'
    using distinct_map_eq [of st_unique_id "cd_statuses db" s' s] that s ticket_invD(1) [OF inv] by (simp add: statuses_ok_def)
  have "tk_status_id t \<in> set (closed_status_ids db) \<longleftrightarrow>
      (\<exists>s'. s' \<in> set (cd_statuses db) \<and> st_unique_id s' = tk_status_id t \<and> st_status_code s' \<in> set CLOSED_STATUS_CODES)"
    unfolding closed_status_ids_def set_map set_filter image_iff by (simp add: Bex_def conj_ac eq_commute)
  also have "\<dots> \<longleftrightarrow> st_status_code s \<in> set CLOSED_STATUS_CODES" using s(1,3) same by metis
  finally show ?thesis by (simp add: s(2) is_closed_def)
qed

lemma open_distinct: "ticket_inv db \<Longrightarrow> distinct (map tk_unique_id (filter P (open_tickets db)))"
  using ticket_invD(2) [of db] by (simp add: open_tickets_def distinct_map_filter)

lemma sweep_inv:
  assumes inv: "ticket_inv db"
  shows "ticket_inv (snd (ticket_step dk OverdueSweep db))"
proof -
  have "\<exists>db'. (case fold (sweep_one (kd_now dk)) (overdue_tickets db (kd_now dk)) (Inr (db, 0)) of
      Inl _ \<Rightarrow> None | Inr (db, _) \<Rightarrow> Some db) = Some db' \<and> ticket_inv db'"
    by (rule sweep_job.rounds_ok) (use inv overdue_open [OF inv] open_distinct [OF inv] in \<open>auto simp: overdue_tickets_def\<close>)
  then show ?thesis
    by (auto simp: check_and_escalate_overdue_tickets_def split: sum.splits)
qed

lemma reschedule_inv:
  assumes inv: "ticket_inv db"
  shows "ticket_inv (snd (ticket_step dk (RuleEdited rule) db))"
proof -
  have "\<exists>db'. (\<lambda>(db, n :: nat). Some db) (fold (reschedule_one (kd_now dk) rule)
      (filter (\<lambda>t. tk_category_id t = sr_category_id rule) (open_tickets db)) (db, 0)) = Some db' \<and> ticket_inv db'"
    by (rule reschedule_job.rounds_ok) (use inv overdue_open [OF inv] open_distinct [OF inv] in auto)
  then show ?thesis by (simp add: reschedule_open_tickets_def case_prod_beta)
qed

lemma ticket_step_inv:
  assumes inv: "ticket_inv db" and ok: "call_ok db c"
  shows "ticket_inv (snd (ticket_step dk c db))"
proof (cases c)
  case (CreateTicket attrs)
  with create_ticket_inv [OF inv] ok show ?thesis by (simp add: call_ok_def)
next
  case (UpdateTicket uid attrs)
  with ok have "tk_status_id attrs = tk_status_id t" if "find_ticket db uid = Some t" for t
    using that by (simp add: call_ok_def)
  from update_ticket_inv [OF inv surjective_pairing this] UpdateTicket show ?thesis by simp
next
  case OverdueSweep
  with sweep_inv [OF inv] show ?thesis by blast
next
  case (RuleEdited rule)
  with reschedule_inv [OF inv] show ?thesis by blast
qed (use change_status_inv [OF inv surjective_pairing] assign_inv [OF inv surjective_pairing] resolve_inv [OF inv surjective_pairing]
    escalate_inv [OF inv surjective_pairing] reopen_inv [OF inv surjective_pairing] review_cleanup_inv [OF inv surjective_pairing]
    add_comment_inv [OF inv surjective_pairing] destroy_inv [OF inv surjective_pairing]
    verify_cleanup_inv [OF inv surjective_pairing] in simp_all)

lemma status_run_inv: "status_run db0 db \<Longrightarrow> ticket_inv db0 \<Longrightarrow> ticket_inv db"
  by (induction rule: status_run.induct) (simp_all add: ticket_step_inv)

text \<open>C4: Through any sequence of calls of the staff, the citizens and the timed jobs in which edits leave the status
  of their ticket as it is and new tickets have a new id and an open status (which the handlers do not enforce): the
  status history of a ticket, read from its creation, replays to the status it has; its reopen count is the number of
  its reopen rows; and a ticket in a closed status has no escalation deadline.\<close>
theorem history_replays_to_status:
  assumes "status_run db0 db" and "ticket_inv db0" and "t \<in> set (cd_tickets db)"
  shows "replay_statuses None (trail db (tk_unique_id t)) = Some (Some (tk_status_id t))
    \<and> tk_reopened_count t = length (reopens db (tk_unique_id t))
    \<and> (tk_status_id t \<in> set (closed_status_ids db) \<longrightarrow> tk_next_escalation_due_at t = None)"
proof -
  have inv: "ticket_inv db" by (rule status_run_inv [OF assms(1,2)])
  have ok: "ticket_ok db t" using inv assms(3) by (simp add: ticket_inv_def)
  have "find_ticket db (tk_unique_id t) = Some t" by (rule find_ticket_distinct [OF ticket_invD(2) [OF inv] assms(3)])
  from closed_iff [OF inv this] ok show ?thesis by (simp add: ticket_ok_def)
qed

section \<open>Refused calls\<close>

text \<open>C27: A call that is not answered with success leaves every table as it was: an invalid, refused or failing
  request never leaves half of its writes.\<close>
theorem refused_call_changes_nothing:
  assumes "ticket_step dk c db = (r, db')" and "r \<noteq> ReplyOk" and "r \<noteq> ReplyCreated"
  shows "db' = db"
proof -
  have on: "on_ticket dk a uid db h = (r, db') \<Longrightarrow> (\<And>t. h t = (r, db') \<Longrightarrow> db' = db) \<Longrightarrow> db' = db" for a uid h
    by (auto simp: on_ticket_def split: sum.splits)
  show ?thesis
  proof (cases c)
    case (StatusCall uid code remarks)
    with assms show ?thesis
      by (auto simp: change_status_def Let_def case_prod_beta split: option.splits if_splits elim!: on)
  next
    case (AssignCall uid staff_id reason)
    with assms show ?thesis
      by (auto simp: assign_def Let_def case_prod_beta split: option.splits if_splits elim!: on)
  next
    case (ResolveCall uid words)
    with assms show ?thesis
      by (auto simp: resolve_def Let_def case_prod_beta split: option.splits elim!: on)
  next
    case (EscalateCall uid reason)
    with assms show ?thesis
      by (auto simp: escalate_def split: sum.splits escalation_error.splits if_splits elim!: on)
  next
    case (ReopenCall uid words)
    with assms show ?thesis
      by (auto simp: reopen_def Let_def case_prod_beta split: option.splits if_splits elim!: on)
  next
    case (ReviewCall uid approving words)
    with assms show ?thesis
      by (auto simp: review_cleanup_def Let_def split: option.splits if_splits sum.splits cleanup_error.splits elim!: on)
  qed (use assms in \<open>auto simp: update_ticket_def add_comment_def destroy_def map_ticket_verify_cleanup_def Let_def
      split: option.splits if_splits sum.splits elim!: on\<close>)
qed

section \<open>What only grows\<close>

text \<open>Escalation rows are only appended; cleanup reports change only in their review.\<close>

lemma logged_frame [simp]:
  "cd_escalations (log_status t old i a b r db) = cd_escalations db" "cd_cleanups (log_status t old i a b r db) = cd_cleanups db"
  "cd_escalations (log_comment t a bo x y db) = cd_escalations db" "cd_cleanups (log_comment t a bo x y db) = cd_cleanups db"
  "cd_escalations (tell_customer t bo db) = cd_escalations db" "cd_cleanups (tell_customer t bo db) = cd_cleanups db"
  "cd_escalations (save_ticket cols t db) = cd_escalations db" "cd_cleanups (save_ticket cols t db) = cd_cleanups db"
  "cd_cleanups (notify_staff t e m st db) = cd_cleanups db" "cd_cleanups (announce_escalation t fs l s r db) = cd_cleanups db"
  "cd_cleanups (log_escalation now t fs l s r a bs status db) = cd_cleanups db"
  "cd_escalations (save_review dk v rm rid db) = cd_escalations db"
  by (cases status; simp add: log_status_def log_comment_def tell_customer_def save_ticket_def update_tickets_def notify_staff_def
      push_to_customer_def announce_escalation_def log_escalation_def save_review_def Let_def split: option.split)+

lemma clock_frame [simp]:
  "cd_escalations (snd (stop_escalation_clock t db)) = cd_escalations db" "cd_cleanups (snd (stop_escalation_clock t db)) = cd_cleanups db"
  "cd_escalations (snd (restart_escalation_clock now t db)) = cd_escalations db"
  "cd_cleanups (snd (restart_escalation_clock now t db)) = cd_cleanups db"
  by (simp_all add: stop_escalation_clock_def restart_escalation_clock_def Let_def)

definition tables_grow :: "complaint_db \<Rightarrow> complaint_db \<Rightarrow> bool" where
  "tables_grow db db' \<longleftrightarrow> (\<exists>hs. cd_escalations db' = cd_escalations db @ hs)"

lemma tables_grow_refl [simp]: "tables_grow db db"
  by (simp add: tables_grow_def)

lemma tables_grow_same: "cd_escalations db' = cd_escalations db \<Longrightarrow> tables_grow db db'"
  by (simp add: tables_grow_def)

lemma tables_grow_trans: "tables_grow db db1 \<Longrightarrow> tables_grow db1 db2 \<Longrightarrow> tables_grow db db2"
  by (auto simp: tables_grow_def)

lemma escalate_frame:
  assumes "escalate_ticket db now uid reason actor by_system = Inr (db', t')"
  shows "tables_grow db db'" and "cd_cleanups db' = cd_cleanups db"
proof -
  show "tables_grow db db'" using assms by (rule escalate_ticketE) (auto simp: tables_grow_def)
  show "cd_cleanups db' = cd_cleanups db"
    using assms by (auto simp: escalate_ticket_def Let_def split: option.splits)
qed

lemma apply_routing_frame:
  assumes "apply_routing_and_sla db now t True = (db', t', cols)"
  shows "cd_escalations db' = cd_escalations db \<and> cd_cleanups db' = cd_cleanups db"
  using assms by (auto simp: apply_routing_and_sla_def Let_def split: prod.splits if_splits)

lemma sweep_frame:
  "case fold (sweep_one now) ts (Inr (db, n)) of Inl _ \<Rightarrow> True | Inr (db', _) \<Rightarrow> tables_grow db db' \<and> cd_cleanups db' = cd_cleanups db"
proof (induction ts arbitrary: db n)
  case (Cons t ts)
  have inl: "fold (sweep_one now) ts (Inl e) = Inl e" for e
    by (induction ts) (simp_all add: sweep_one_def)
  show ?case
  proof (cases "sweep_one now t (Inr (db, n))")
    case (Inl e)
    then show ?thesis by (simp add: inl)
  next
    case (Inr p)
    then obtain db1 n1 where one: "sweep_one now t (Inr (db, n)) = Inr (db1, n1)" by (cases p) auto
    then have "tables_grow db db1 \<and> cd_cleanups db1 = cd_cleanups db"
      by (auto simp: sweep_one_def set_due_def dest: escalate_frame intro: tables_grow_same split: sum.splits escalation_error.splits)
    with Cons.IH [of db1 n1] one show ?thesis by (auto intro: tables_grow_trans split: sum.splits)
  qed
qed simp

lemma reschedule_frame:
  "cd_escalations (fst (fold (reschedule_one now rule) ts (db, n))) = cd_escalations db
    \<and> cd_cleanups (fst (fold (reschedule_one now rule) ts (db, n))) = cd_cleanups db"
proof (induction ts arbitrary: db n)
  case (Cons t ts)
  obtain db1 t1 cols where run: "apply_routing_and_sla db now t True = (db1, t1, cols)" by (metis prod.collapse)
  obtain db2 n2 where one: "reschedule_one now rule t (db, n) = (db2, n2)" by force
  then have "cd_escalations db2 = cd_escalations db \<and> cd_cleanups db2 = cd_cleanups db"
    using apply_routing_frame [OF run] by (auto simp: reschedule_one_def run Let_def set_due_def split: option.splits if_splits)
  with Cons.IH [of db2 n2] one show ?case by simp
qed simp

lemma create_frame:
  "cd_escalations (create_ticket now attrs db) = cd_escalations db" "cd_cleanups (create_ticket now attrs db) = cd_cleanups db"
  by (simp_all add: create_ticket_def Let_def apply_routing_frame [OF surjective_pairing [THEN trans, OF arg_cong2 [where f = Pair, OF refl surjective_pairing]]])

text \<open>The handlers other than the escalations leave both tables.\<close>

lemma on_ticket_all: "P db \<Longrightarrow> (\<And>t. P (snd (h t))) \<Longrightarrow> P (snd (on_ticket dk a uid db h))"
  by (simp add: on_ticket_def split: sum.split)

lemma handler_frame:
  "cd_escalations (snd (change_status dk uid code remarks db)) = cd_escalations db"
  "cd_cleanups (snd (change_status dk uid code remarks db)) = cd_cleanups db"
  "cd_escalations (snd (assign dk uid staff_id reason db)) = cd_escalations db"
  "cd_cleanups (snd (assign dk uid staff_id reason db)) = cd_cleanups db"
  "cd_escalations (snd (resolve dk uid words db)) = cd_escalations db" "cd_cleanups (snd (resolve dk uid words db)) = cd_cleanups db"
  "cd_escalations (snd (reopen dk uid words db)) = cd_escalations db" "cd_cleanups (snd (reopen dk uid words db)) = cd_cleanups db"
  "cd_escalations (snd (destroy dk uid db)) = cd_escalations db" "cd_cleanups (snd (destroy dk uid db)) = cd_cleanups db"
  "cd_escalations (snd (update_ticket dk uid attrs db)) = cd_escalations db"
  "cd_cleanups (snd (update_ticket dk uid attrs db)) = cd_cleanups db"
  "cd_escalations (snd (add_comment dk uid body i s db)) = cd_escalations db"
  "cd_cleanups (snd (add_comment dk uid body i s db)) = cd_cleanups db"
  unfolding change_status_def assign_def resolve_def reopen_def destroy_def update_ticket_def add_comment_def
  by (rule on_ticket_all; simp add: Let_def case_prod_beta split: option.split)+

lemma escalate_handler_frame:
  "tables_grow db (snd (escalate dk uid reason db))" "cd_cleanups (snd (escalate dk uid reason db)) = cd_cleanups db"
  unfolding escalate_def by (rule on_ticket_all; auto dest: escalate_frame split: sum.split escalation_error.split)+

lemma review_frame:
  "cd_escalations (snd (review_cleanup dk uid approving words db)) = cd_escalations db"
  unfolding review_cleanup_def
  by (rule on_ticket_all; auto simp: approve_def reject_def Let_def split: option.split sum.split cleanup_error.split if_splits)

lemma verify_frame:
  "cd_escalations (snd (map_ticket_verify_cleanup new_id ticket_no photo_ok words db)) = cd_escalations db"
  by (auto simp: map_ticket_verify_cleanup_def submit_cleanup_def Let_def split: option.splits)

lemma step_tables_grow: "tables_grow db (snd (ticket_step dk c db))"
proof (cases c)
  case OverdueSweep
  show ?thesis
    using sweep_frame [where now = "kd_now dk" and ts = "overdue_tickets db (kd_now dk)" and db = db and n = 0]
    by (auto simp: OverdueSweep check_and_escalate_overdue_tickets_def split: sum.splits)
next
  case (RuleEdited rule)
  then show ?thesis by (simp add: reschedule_open_tickets_def reschedule_frame tables_grow_same)
qed (simp_all add: handler_frame escalate_handler_frame review_frame verify_frame create_frame tables_grow_same)

lemma run_tables_grow: "ticket_run db0 db \<Longrightarrow> tables_grow db0 db"
  by (induction rule: ticket_run.induct) (auto intro: tables_grow_trans step_tables_grow)

section \<open>Whom a ticket has passed through\<close>

lemma visible_to_past_holder:
  assumes "t \<in> set (cd_tickets db)" and "\<not> tk_is_deleted t" and "tu_is_staff_record (kd_user dk)"
    and "staff_ticket_scope db (staff_uid (kd_user dk)) t"
  shows "t \<in> set (visible_tickets dk db)"
  using assms by (simp add: visible_tickets_def scope_tickets_to_requester_def Let_def)

text \<open>C22: Once a ticket was escalated to or away from a member of staff, it stays in that member's view, whatever
  happens to it, until it is deleted.\<close>
theorem escalated_ticket_stays_in_view:
  assumes "h \<in> set (cd_escalations db0)" and "\<not> eh_is_deleted h" and "eh_to_staff_id h = Some x \<or> eh_from_staff_id h = Some x"
    and "ticket_run db0 db" and "t \<in> set (cd_tickets db)" and "tk_unique_id t = eh_ticket_id h" and "\<not> tk_is_deleted t"
    and "tu_is_staff_record (kd_user dk)" and "staff_uid (kd_user dk) = Some x" and "x \<noteq> []"
  shows "t \<in> set (visible_tickets dk db)"
proof (rule visible_to_past_holder [OF assms(5,7,8)])
  have "h \<in> set (cd_escalations db)" using run_tables_grow [OF assms(4)] assms(1) by (auto simp: tables_grow_def)
  with assms(2,3,6,9,10) show "staff_ticket_scope db (staff_uid (kd_user dk)) t"
    by (auto simp: staff_ticket_scope_def list_ex_iff)
qed



text \<open>No call takes the escalation mark off a ticket, and tickets are only appended.\<close>

definition escalated_row :: "ident \<Rightarrow> complaint_db \<Rightarrow> bool" where
  "escalated_row uid db \<longleftrightarrow> (\<exists>t. find_ticket db uid = Some t \<and> tk_is_escalated t)"

definition ids_grow :: "complaint_db \<Rightarrow> complaint_db \<Rightarrow> bool" where
  "ids_grow db db' \<longleftrightarrow> (\<exists>xs. map tk_unique_id (cd_tickets db') = map tk_unique_id (cd_tickets db) @ xs)"

text \<open>From one state to a later one; ids are unique in the table.\<close>

definition keeps_mark :: "complaint_db \<Rightarrow> complaint_db \<Rightarrow> bool" where
  "keeps_mark db db' \<longleftrightarrow> ids_grow db db'
     \<and> (distinct (map tk_unique_id (cd_tickets db')) \<longrightarrow> (\<forall>uid. escalated_row uid db \<longrightarrow> escalated_row uid db'))"



lemma keeps_mark_cong: "cd_tickets db1 = cd_tickets db2 \<Longrightarrow> keeps_mark db db1 \<longleftrightarrow> keeps_mark db db2"
  by (simp add: keeps_mark_def ids_grow_def escalated_row_def find_ticket_def)

lemma keeps_mark_refl [simp]: "keeps_mark db db"
  by (simp add: keeps_mark_def ids_grow_def)

lemma keeps_mark_writes [simp]:
  "keeps_mark db (notify_staff t e m st db1) \<longleftrightarrow> keeps_mark db db1" "keeps_mark db (push_to_customer c ti bo db1) \<longleftrightarrow> keeps_mark db db1"
  "keeps_mark db (tell_customer t b db1) \<longleftrightarrow> keeps_mark db db1" "keeps_mark db (log_comment t a b i s db1) \<longleftrightarrow> keeps_mark db db1"
  "keeps_mark db (save_review dk v r rid db1) \<longleftrightarrow> keeps_mark db db1" "keeps_mark db (db1\<lparr>cd_assignments := xs\<rparr>) \<longleftrightarrow> keeps_mark db db1"
  "keeps_mark db (db1\<lparr>cd_cleanups := cs\<rparr>) \<longleftrightarrow> keeps_mark db db1" "keeps_mark db (db1\<lparr>cd_reopens := rs\<rparr>) \<longleftrightarrow> keeps_mark db db1"
  "keeps_mark db (log_status t old to_id a bs rm db1) \<longleftrightarrow> keeps_mark db db1"
  by (rule keeps_mark_cong; simp add: tell_customer_def log_comment_def save_review_def log_status_view)+











lemma edited_marks [simp]:
  "tk_is_escalated (edited_ticket g attrs t) = tk_is_escalated t" "tk_unique_id (edited_ticket g attrs t) = tk_unique_id t"
  by (simp_all add: edited_ticket_def fill_geo_parents_def Let_def)









section \<open>Cleanup reports are reviewed once\<close>

lemma find_reviewed:
  "find_cleanup (save_review dk v r rid db) u = map_option (\<lambda>row. if u = rid
     then row\<lparr>cl_reviewed_by_staff_id := staff_uid (kd_user dk), cl_reviewed_by_user_id := reviewer_user (kd_user dk),
            cl_reviewed_at := Some (kd_now dk), cl_status := v, cl_review_remarks := Some r\<rparr>
     else row) (find_cleanup db u)"
proof -
  let ?h = "\<lambda>row. if cl_unique_id row = rid
     then row\<lparr>cl_reviewed_by_staff_id := staff_uid (kd_user dk), cl_reviewed_by_user_id := reviewer_user (kd_user dk),
            cl_reviewed_at := Some (kd_now dk), cl_status := v, cl_review_remarks := Some r\<rparr> else row"
  have "find_cleanup (save_review dk v r rid db) u = map_option ?h (find_cleanup db u)"
    unfolding find_cleanup_def save_review_def by (simp add: find_map_id [where g = cl_unique_id and h = ?h])
  then show ?thesis by (cases "find_cleanup db u") (auto simp: find_cleanup_def dest: find_in)
qed

lemma log_comment_cleanups [simp]:
  "find_cleanup (log_comment t a b i s db) = find_cleanup db" "find_cleanup (log_status t old to_id a bs rm db) = find_cleanup db"
  "find_cleanup (tell_customer t bo db) = find_cleanup db" "find_cleanup (save_ticket cols t db) = find_cleanup db"
  "find_cleanup (notify_staff t e m st db) = find_cleanup db"
  by (simp_all add: find_cleanup_def fun_eq_iff)

lemma approved_report:
  "approve dk uid rid remarks db = Inr db' \<Longrightarrow> find_cleanup db' = find_cleanup (save_review dk CleanupApproved (py_strip remarks) rid db)"
  by (auto simp: approve_def Let_def find_cleanup_def save_review_def split: sum.splits option.splits if_splits)

lemma rejected_report:
  "reject dk t rid remarks db = Inr db' \<Longrightarrow> find_cleanup db' = find_cleanup (save_review dk CleanupRejected (py_strip remarks) rid db)"
  by (auto simp: reject_def split: sum.splits)

lemma locked_pending:
  "locked_report db rid remarks = Inr r \<Longrightarrow> find_cleanup db rid = Some r \<and> cl_status r = CleanupPending"
  by (auto simp: locked_report_def split: if_splits option.splits)

lemma review_keeps_decided:
  assumes r: "find_cleanup db rid = Some r" "cl_status r \<noteq> CleanupPending"
  shows "find_cleanup (snd (review_cleanup dk uid approving words db)) rid = Some r"
proof -
  have kept: "find_cleanup db' rid = Some r"
    if "approve dk u rid' m db = Inr db' \<or> reject dk t rid' m db = Inr db'" for u rid' m t db'
  proof -
    have "\<exists>r'. locked_report db rid' m = Inr r'" using that by (auto simp: approve_def reject_def split: sum.splits)
    then have "rid' \<noteq> rid" using r by (auto dest: locked_pending)
    with that r(1) show ?thesis by (auto simp: approved_report rejected_report find_reviewed)
  qed
  show ?thesis
    unfolding review_cleanup_def
    by (rule on_ticket_all)
      (use r in \<open>auto simp: Let_def dest!: kept [OF disjI1] kept [OF disjI2] split: option.split sum.split cleanup_error.split if_splits\<close>)
qed

lemma verify_keeps_found:
  "find_cleanup db rid = Some r \<Longrightarrow> find_cleanup (snd (map_ticket_verify_cleanup new_id no ok words db)) rid = Some r"
  by (auto simp: map_ticket_verify_cleanup_def submit_cleanup_def find_cleanup_def find_append Let_def split: option.split)

lemma step_keeps_decided:
  assumes r: "find_cleanup db rid = Some r" "cl_status r \<noteq> CleanupPending"
  shows "find_cleanup (snd (ticket_step dk c db)) rid = Some r"
proof (cases c)
  case OverdueSweep
  show ?thesis
    using sweep_frame [where now = "kd_now dk" and ts = "overdue_tickets db (kd_now dk)" and db = db and n = 0] r
    by (auto simp: OverdueSweep check_and_escalate_overdue_tickets_def find_cleanup_def split: sum.splits)
next
  case (ReviewCall uid approving words)
  with review_keeps_decided [OF r] show ?thesis by simp
next
  case (VerifyCall new_id ticket_no photo_ok words)
  with verify_keeps_found [OF r(1)] show ?thesis by simp
qed (use r in \<open>simp_all add: find_cleanup_def handler_frame escalate_handler_frame create_frame reschedule_open_tickets_def reschedule_frame\<close>)

interpretation cleanup_review: write_once "\<lambda>(dk, c) db. snd (ticket_step dk c db)"
  "\<lambda>db. \<exists>r. find_cleanup db rid = Some r \<and> cl_status r \<noteq> CleanupPending" "\<lambda>db. find_cleanup db rid"
  for rid
  by unfold_locales (auto simp: step_keeps_decided)

text \<open>C18: A cleanup report is reviewed once: after its approval or rejection no call, from anyone, changes its
  verdict, reviewer, time or remarks.\<close>
theorem cleanup_reviewed_once:
  assumes "find_cleanup db rid = Some r" and "cl_status r \<noteq> CleanupPending"
  shows "find_cleanup (fold (\<lambda>(dk, c) db. snd (ticket_step dk c db)) calls db) rid = Some r"
  using cleanup_review.run_stamp [of db rid calls] assms by simp

lemma locked_remarks: "locked_report db rid remarks = Inr r \<Longrightarrow> py_strip remarks \<noteq> []"
  by (auto simp: locked_report_def split: if_splits)

lemma rejected_ticket: "reject dk t rid remarks db = Inr db' \<Longrightarrow> find_ticket db' = find_ticket db"
  by (drule reject_beside) (metis beside_def find_ticket_cong)

lemma approved_ticket:
  assumes run: "approve dk uid rid remarks db = Inr db'" and t: "find_ticket db uid = Some t" and inv: "ticket_inv db"
  shows "\<not> is_closed (ticket_status db t)"
    and "\<exists>t'. find_ticket db' uid = Some t' \<and> tk_status_id t' \<in> set (closed_status_ids db') \<and> tk_closed_at t' \<noteq> None
      \<and> tk_resolved_at t' \<noteq> None \<and> tk_next_escalation_due_at t' = None"
proof -
  show "\<not> is_closed (ticket_status db t)"
    using run t by (auto simp: approve_def Let_def split: sum.splits option.splits if_splits)
  obtain new where new: "resolve_status db ''CLOSED'' = Some new"
    using run by (auto simp: approve_def split: sum.splits option.splits)
  define t1 where "t1 = t\<lparr>tk_status_id := st_unique_id new, tk_resolved_at := set_at (kd_now dk) (tk_resolved_at t),
     tk_closed_at := set_at (kd_now dk) (tk_closed_at t), tk_next_escalation_due_at := None\<rparr>"
  define db1 where "db1 = save_ticket [StatusId, ResolvedAt, ClosedAt, NextEscalationDueAt] t1 db"
  have id: "tk_unique_id t1 = uid" using find_ticket_id [OF t] by (simp add: t1_def)
  have "find_ticket db1 uid = Some t1"
    using find_saved [of db t1 t "[StatusId, ResolvedAt, ClosedAt, NextEscalationDueAt]" uid] t id by (simp add: db1_def t1_def)
  moreover have "settings db' = settings db \<and> cd_tickets db' = cd_tickets db1"
    using run unfolding approve_def t new option.case Let_def t1_def [symmetric] db1_def [symmetric]
    by (auto simp: tell_customer_def log_status_view save_review_def settings_def db1_def save_ticket_def update_tickets_def
        push_to_customer_def log_status_def Let_def split: sum.splits if_splits)
  ultimately have "find_ticket db' uid = Some t1" "closed_status_ids db' = closed_status_ids db"
    using find_ticket_cong settings_reads(6) by metis+
  moreover have "st_unique_id new \<in> set (closed_status_ids db)"
    using resolve_status_in [OF new] by (auto simp: closed_status_ids_def CLOSED_STATUS_CODES_def)
  ultimately show "\<exists>t'. find_ticket db' uid = Some t' \<and> tk_status_id t' \<in> set (closed_status_ids db') \<and> tk_closed_at t' \<noteq> None
      \<and> tk_resolved_at t' \<noteq> None \<and> tk_next_escalation_due_at t' = None"
    by (auto simp: t1_def set_at_def split: option.split)
qed

lemma review_outcome:
  assumes inv: "ticket_inv db" and run: "review_cleanup dk uid approving words db = (ReplyOk, db')"
  obtains t r remarks where "find_ticket db uid = Some t" and "can_review db t (kd_user dk)"
    and "pending_report db uid = Some r"
    and "(if approving then approve dk uid (cl_unique_id r) remarks db else reject dk t (cl_unique_id r) remarks db) = Inr db'"
  using inv run [unfolded review_cleanup_def]
proof (cases rule: on_ticketE)
  case (2 t)
  then obtain r where "pending_report db uid = Some r" "can_review db t (kd_user dk)"
    "(if approving then approve dk uid (cl_unique_id r) (py_strip (case words of None \<Rightarrow> [] | Some w \<Rightarrow> w)) db
      else reject dk t (cl_unique_id r) (py_strip (case words of None \<Rightarrow> [] | Some w \<Rightarrow> w)) db) = Inr db'"
    unfolding Let_def by (auto split: option.splits if_splits sum.splits cleanup_error.splits)
  with 2(2) that show thesis by blast
qed auto

text \<open>C23: A review that succeeds was made by the officer the ticket sits with (or an administrator) and has remarks. It
  decides the pending report, with its reviewer and time. An approval closes the ticket and stops its clock; a
  rejection leaves the ticket as it was.\<close>
theorem cleanup_decision:
  assumes "ticket_inv db" and "find_ticket db uid = Some t" and "distinct (map cl_unique_id (cd_cleanups db))"
    and "review_cleanup dk uid approving words db = (ReplyOk, db')"
  shows "can_review db t (kd_user dk)
    \<and> (\<exists>r r'. pending_report db uid = Some r \<and> find_cleanup db' (cl_unique_id r) = Some r'
         \<and> cl_status r' = (if approving then CleanupApproved else CleanupRejected)
         \<and> cl_reviewed_by_staff_id r' = staff_uid (kd_user dk) \<and> cl_reviewed_at r' = Some (kd_now dk)
         \<and> truthy (cl_review_remarks r'))
    \<and> (\<exists>t'. find_ticket db' uid = Some t'
         \<and> (if approving then tk_status_id t \<notin> set (closed_status_ids db) \<and> tk_status_id t' \<in> set (closed_status_ids db')
              \<and> tk_closed_at t' \<noteq> None \<and> tk_next_escalation_due_at t' = None
            else t' = t))"
proof -
  obtain r remarks where may: "can_review db t (kd_user dk)" and r: "pending_report db uid = Some r"
    and done_by: "(if approving then approve dk uid (cl_unique_id r) remarks db else reject dk t (cl_unique_id r) remarks db) = Inr db'"
    using review_outcome [OF assms(1,4)] assms(2) by (metis option.inject)
  have "\<exists>r0. locked_report db (cl_unique_id r) remarks = Inr r0"
    using done_by by (auto simp: approve_def reject_def split: sum.splits if_splits)
  then have words: "py_strip remarks \<noteq> []" by (auto dest: locked_remarks)
  have "r \<in> set (cd_cleanups db)" using r by (auto simp: pending_report_def dest: find_in)
  then have "find_cleanup db (cl_unique_id r) = Some r" unfolding find_cleanup_def by (rule find_distinct [OF assms(3)])
  moreover have "find_cleanup db' = find_cleanup (save_review dk (if approving then CleanupApproved else CleanupRejected)
      (py_strip remarks) (cl_unique_id r) db)"
    using done_by by (cases approving) (simp_all add: approved_report rejected_report)
  ultimately have "\<exists>r'. find_cleanup db' (cl_unique_id r) = Some r'
         \<and> cl_status r' = (if approving then CleanupApproved else CleanupRejected)
         \<and> cl_reviewed_by_staff_id r' = staff_uid (kd_user dk) \<and> cl_reviewed_at r' = Some (kd_now dk)
         \<and> truthy (cl_review_remarks r')"
    using words by (simp add: find_reviewed)
  moreover have "\<exists>t'. find_ticket db' uid = Some t'
         \<and> (if approving then tk_status_id t \<notin> set (closed_status_ids db) \<and> tk_status_id t' \<in> set (closed_status_ids db')
              \<and> tk_closed_at t' \<noteq> None \<and> tk_next_escalation_due_at t' = None
            else t' = t)"
  proof (cases approving)
    case True
    with done_by have run: "approve dk uid (cl_unique_id r) remarks db = Inr db'" by simp
    have "tk_status_id t \<notin> set (closed_status_ids db)"
      using approved_ticket(1) [OF run assms(2,1)] closed_iff [OF assms(1) assms(2)] by simp
    with approved_ticket(2) [OF run assms(2,1)] True show ?thesis by auto
  next
    case False
    with done_by assms(2) show ?thesis by (simp add: rejected_ticket)
  qed
  ultimately show ?thesis using may r by blast
qed

section \<open>One pending report per ticket\<close>

definition pendings :: "complaint_db \<Rightarrow> ident \<Rightarrow> cleanup_row list" where
  "pendings db uid = filter (\<lambda>r. cl_ticket_id r = uid \<and> cl_status r = CleanupPending \<and> \<not> cl_is_deleted r) (cd_cleanups db)"

lemma pending_report_None: "pending_report db uid = None \<longleftrightarrow> pendings db uid = []"
  by (auto simp: pending_report_def pendings_def find_None_iff filter_empty_conv)

lemma pendings_cong: "cd_cleanups db' = cd_cleanups db \<Longrightarrow> pendings db' u = pendings db u"
  by (simp add: pendings_def)

lemma reviewed_pendings:
  assumes "v \<noteq> CleanupPending"
  shows "length (pendings (save_review dk v r rid db) u) \<le> length (pendings db u)"
proof -
  have shrink: "length (filter (P \<circ> f) xs) \<le> length (filter P xs)" if "\<And>x. P (f x) \<Longrightarrow> P x"
    for P :: "cleanup_row \<Rightarrow> bool" and f xs
    by (induction xs) (auto dest: that)
  show ?thesis unfolding pendings_def save_review_def
    by (simp del: filter_map) (rule shrink, use assms in \<open>auto split: if_splits\<close>)
qed

lemma approved_cleanups:
  "approve dk uid rid remarks db = Inr db' \<Longrightarrow> cd_cleanups db' = cd_cleanups (save_review dk CleanupApproved (py_strip remarks) rid db)"
  by (auto simp: approve_def Let_def save_review_def split: sum.splits option.splits if_splits)

lemma rejected_cleanups:
  "reject dk t rid remarks db = Inr db' \<Longrightarrow> cd_cleanups db' = cd_cleanups (save_review dk CleanupRejected (py_strip remarks) rid db)"
  by (auto simp: reject_def split: sum.splits)

lemma review_cases:
  assumes "review_cleanup dk uid approving words db = (r, db')"
  shows "db' = db \<or> (\<exists>w rid m. approve dk w rid m db = Inr db') \<or> (\<exists>t rid m. reject dk t rid m db = Inr db')"
proof (cases "db' = db")
  case False
  then show ?thesis
    using assms unfolding review_cleanup_def on_ticket_def Let_def
    by (cases approving) (auto split: sum.splits option.splits if_splits cleanup_error.splits)
qed simp

lemma step_pendings:
  assumes one: "\<forall>u. length (pendings db u) \<le> 1"
  shows "length (pendings (snd (ticket_step dk c db)) u) \<le> 1"
proof (cases c)
  case OverdueSweep
  show ?thesis
    using sweep_frame [where now = "kd_now dk" and ts = "overdue_tickets db (kd_now dk)" and db = db and n = 0] one
    by (auto simp: OverdueSweep check_and_escalate_overdue_tickets_def pendings_def split: sum.splits)
next
  case (VerifyCall new_id ticket_no photo_ok words)
  have "length (pendings db' u) \<le> 1" if "submit_cleanup new_id body t db = Some db'" for body t db'
  proof -
    have "pendings db (tk_unique_id t) = []" using that pending_report_None by (auto simp: submit_cleanup_def split: if_splits)
    moreover have "cd_cleanups db' = cd_cleanups db @ [\<lparr>cl_unique_id = new_id, cl_ticket_id = tk_unique_id t,
        cl_note = blank_to_none (Some body), cl_status = CleanupPending, cl_reviewed_by_staff_id = None,
        cl_reviewed_by_user_id = None, cl_reviewed_at = None, cl_review_remarks = None, cl_is_deleted = False\<rparr>]"
      using that by (auto simp: submit_cleanup_def Let_def split: if_splits)
    ultimately show ?thesis using one by (auto simp: pendings_def)
  qed
  with one show ?thesis
    by (auto simp: VerifyCall map_ticket_verify_cleanup_def Let_def split: option.split)
next
  case (ReviewCall uid approving words)
  have "length (pendings db' u) \<le> 1" if "approve dk w rid m db = Inr db' \<or> reject dk t rid m db = Inr db'" for w rid m t db'
  proof -
    have "\<exists>v. v \<noteq> CleanupPending \<and> cd_cleanups db' = cd_cleanups (save_review dk v (py_strip m) rid db)"
      using that approved_cleanups rejected_cleanups by (metis cleanup_status.distinct(1,3))
    then obtain v where "v \<noteq> CleanupPending" "cd_cleanups db' = cd_cleanups (save_review dk v (py_strip m) rid db)" by blast
    with reviewed_pendings [of v dk "py_strip m" rid db u] one [rule_format, of u] pendings_cong show ?thesis
      by (metis le_trans)
  qed
  moreover have "snd (ticket_step dk c db) = db \<or> (\<exists>w rid m. approve dk w rid m db = Inr (snd (ticket_step dk c db)))
      \<or> (\<exists>t rid m. reject dk t rid m db = Inr (snd (ticket_step dk c db)))"
    unfolding ReviewCall ticket_step.simps by (rule review_cases [OF surjective_pairing])
  ultimately show ?thesis using one by metis
qed (use one in \<open>simp_all add: pendings_def handler_frame escalate_handler_frame create_frame reschedule_open_tickets_def reschedule_frame\<close>)

text \<open>A ticket never has two cleanup reports waiting for review, whatever citizens send and officers decide.\<close>
theorem one_pending_report:
  assumes "ticket_run db0 db" and "\<forall>u. length (pendings db0 u) \<le> 1"
  shows "length (pendings db u) \<le> 1"
proof -
  have "\<forall>u. length (pendings db u) \<le> 1"
    using assms by (induction rule: ticket_run.induct) (blast intro: step_pendings)+
  then show ?thesis by blast
qed

section \<open>Witnesses\<close>

definition sample_status :: "ident \<Rightarrow> string \<Rightarrow> bool \<Rightarrow> status_row" where
  "sample_status uid code allow = \<lparr>st_unique_id = uid, st_status_code = code, st_status_name = code, st_allow_reopen = allow,
     st_is_deleted = False\<rparr>"

text \<open>The overdue ticket of \<open>chain_db\<close> with its creation logged, and the statuses of its life.\<close>

definition desk_db :: complaint_db where
  "desk_db = chain_db\<lparr>cd_statuses := [sample_status ''open'' ''SUBMITTED'' False, sample_status ''esc'' ''ESCALATED'' False,
       sample_status ''res'' ''RESOLVED'' True, sample_status ''clo'' ''CLOSED'' True, sample_status ''reo'' ''REOPENED'' False],
     cd_status_changes := [\<lparr>sc_ticket_id = ''T1'', sc_from_status_id = None, sc_to_status_id = ''open'', sc_by_user_id = None,
       sc_by_system = True, sc_remarks = None, sc_visible_to_citizen = True\<rparr>]\<rparr>"

definition sample_desk :: "bool \<Rightarrow> ident option \<Rightarrow> ticket_desk" where
  "sample_desk superuser uid =
     \<lparr>kd_user = \<lparr>tu_account = \<lparr>du_requester = \<lparr>rq_is_authenticated = True, rq_is_superuser = superuser,
          rq_staff_unique_id = uid, rq_linked_staff_id = None\<rparr>, du_role_names = []\<rparr>,
        tu_is_staff_record = (uid \<noteq> None), tu_is_auth_user = superuser, tu_unique_id = Some ''U1'', tu_name = Some ''Priya''\<rparr>,
      kd_scopes = \<lparr>sx_scopes = [], sx_bodies = (\<lambda>_. []), sx_wards = []\<rparr>, kd_now = 10, kd_all = False\<rparr>"

lemma desk_db_inv: "ticket_inv desk_db"
  by (simp add: ticket_inv_def statuses_ok_def ticket_ok_def desk_db_def chain_db_def sample_status_def overdue_ticket_def
      sample_ticket_def trail_def reopens_def ticket_status_def is_closed_def CLOSED_STATUS_CODES_def)

definition desk_db2 :: complaint_db where
  "desk_db2 = snd (ticket_step (sample_desk True None) (ReopenCall ''T1'' (Some ''still there''))
     (snd (ticket_step (sample_desk True None) (ResolveCall ''T1'' None) desk_db)))"

lemma desk_db2_eval:
  "map tk_status_id (cd_tickets desk_db2) = [''reo'']" "map tk_unique_id (cd_tickets desk_db2) = [''T1'']"
  "length (cd_status_changes desk_db2) = 3"
  by code_simp+

definition admin_desk :: ticket_desk where "admin_desk = sample_desk True None"
definition ravi_desk :: ticket_desk where "ravi_desk = sample_desk False (Some ''ravi'')"

lemma history_replays_to_status_witness:
  "\<exists>t. t \<in> set (cd_tickets desk_db2) \<and> tk_status_id t = ''reo'' \<and> replay_statuses None (trail desk_db2 ''T1'') = Some (Some ''reo'')
     \<and> tk_reopened_count t = length (reopens desk_db2 ''T1'')"
proof -
  have run: "status_run desk_db desk_db2"
    unfolding desk_db2_def by (intro status_run.intros) (simp_all add: call_ok_def)
  obtain t where t: "t \<in> set (cd_tickets desk_db2)" "tk_status_id t = ''reo''" "tk_unique_id t = ''T1''"
    using desk_db2_eval(1,2) by (cases "cd_tickets desk_db2") auto
  from history_replays_to_status [OF run desk_db_inv t(1)] t show ?thesis by auto
qed

lemma refused_call_changes_nothing_witness:
  "ticket_step admin_desk (StatusCall ''T1'' (Some ''LOST'') None) desk_db = (ReplyInvalid, desk_db)"
proof -
  have r: "fst (ticket_step admin_desk (StatusCall ''T1'' (Some ''LOST'') None) desk_db) = ReplyInvalid" by code_simp
  obtain db' where run: "ticket_step admin_desk (StatusCall ''T1'' (Some ''LOST'') None) desk_db = (ReplyInvalid, db')"
    using r by (metis prod.collapse)
  with refused_call_changes_nothing [OF run] show ?thesis by simp
qed

definition desk_db3 :: complaint_db where
  "desk_db3 = snd (ticket_step admin_desk (EscalateCall ''T1'' None) desk_db)"

lemma desk_db3_eval:
  "map (\<lambda>h. (eh_ticket_id h, eh_from_staff_id h, eh_is_deleted h)) (cd_escalations desk_db3) = [(''T1'', Some ''ravi'', False)]"
  "map (\<lambda>t. (tk_unique_id t, tk_is_deleted t)) (cd_tickets (snd (ticket_step admin_desk (ResolveCall ''T1'' None) desk_db3)))
     = [(''T1'', False)]"
  by code_simp+

lemma escalated_ticket_stays_in_view_witness:
  "\<exists>t. t \<in> set (visible_tickets ravi_desk (snd (ticket_step admin_desk (ResolveCall ''T1'' None) desk_db3)))
     \<and> tk_unique_id t = ''T1''"
proof -
  let ?db = "snd (ticket_step admin_desk (ResolveCall ''T1'' None) desk_db3)"
  obtain h where h: "h \<in> set (cd_escalations desk_db3)" "\<not> eh_is_deleted h" "eh_from_staff_id h = Some ''ravi''"
    "eh_ticket_id h = ''T1''"
    using desk_db3_eval(1) by (cases "cd_escalations desk_db3") auto
  obtain t where t: "t \<in> set (cd_tickets ?db)" "tk_unique_id t = ''T1''" "\<not> tk_is_deleted t"
    using desk_db3_eval(2) by (cases "cd_tickets ?db") auto
  have run: "ticket_run desk_db3 ?db" by (intro ticket_run.intros)
  have "t \<in> set (visible_tickets ravi_desk ?db)"
    by (rule escalated_ticket_stays_in_view [OF h(1,2) _ run t(1) _ t(3), where x = "''ravi''"])
      (simp_all add: h t ravi_desk_def sample_desk_def staff_uid_def)
  with t(2) show ?thesis by blast
qed




definition desk_db4 :: complaint_db where
  "desk_db4 = snd (ticket_step admin_desk (VerifyCall ''C1'' ''IWMS-000001'' True (Some ''clean'')) desk_db)"

definition desk_db5 :: complaint_db where
  "desk_db5 = snd (ticket_step admin_desk (ReviewCall ''T1'' True (Some ''seen'')) desk_db4)"

lemma desk_db45_eval:
  "map cl_unique_id (cd_cleanups desk_db4) = [''C1'']"
  "map_option tk_unique_id (find_ticket desk_db4 ''T1'') = Some ''T1''"
  "fst (ticket_step admin_desk (ReviewCall ''T1'' True (Some ''seen'')) desk_db4) = ReplyOk"
  "map_option cl_status (find_cleanup desk_db5 ''C1'') = Some CleanupApproved"
  by code_simp+

lemma desk_run4: "status_run desk_db desk_db4" "ticket_run desk_db desk_db4"
  unfolding desk_db4_def by (intro status_run.intros ticket_run.intros; simp add: call_ok_def)+

lemma cleanup_reviewed_once_witness:
  "\<exists>r. find_cleanup desk_db5 ''C1'' = Some r
     \<and> find_cleanup (fold (\<lambda>(dk, c) db. snd (ticket_step dk c db))
          [(admin_desk, ReopenCall ''T1'' (Some ''again'')), (admin_desk, ReviewCall ''T1'' False (Some ''no''))] desk_db5) ''C1'' = Some r"
proof -
  obtain r where r: "find_cleanup desk_db5 ''C1'' = Some r" "cl_status r \<noteq> CleanupPending"
    using desk_db45_eval(4) by auto
  from r(1) cleanup_reviewed_once [OF r] show ?thesis by blast
qed

lemma cleanup_decision_witness:
  "\<exists>r t. find_cleanup desk_db5 ''C1'' = Some r \<and> cl_status r = CleanupApproved
     \<and> find_ticket desk_db5 ''T1'' = Some t \<and> tk_status_id t \<in> set (closed_status_ids desk_db5) \<and> tk_next_escalation_due_at t = None"
proof -
  obtain t where t: "find_ticket desk_db4 ''T1'' = Some t" using desk_db45_eval(2) by auto
  have run: "review_cleanup admin_desk ''T1'' True (Some ''seen'') desk_db4 = (ReplyOk, desk_db5)"
    using desk_db45_eval(3) by (simp add: desk_db5_def prod_eq_iff)
  have "pending_report desk_db4 ''T1'' \<noteq> None \<Longrightarrow> \<forall>r. pending_report desk_db4 ''T1'' = Some r \<longrightarrow> cl_unique_id r = ''C1''"
    using desk_db45_eval(1) by (cases "cd_cleanups desk_db4") (auto simp: pending_report_def dest!: find_in)
  with cleanup_decision [OF status_run_inv [OF desk_run4(1) desk_db_inv] t _ run] desk_db45_eval(1) show ?thesis by auto
qed

lemma one_pending_report_witness: "length (pendings desk_db4 ''T1'') \<le> 1"
  by (rule one_pending_report [OF desk_run4(2)]) (simp add: pendings_def desk_db_def chain_db_def)

section \<open>What the handlers do not keep\<close>

text \<open>An edit of the ticket may write its status: no history row, no stopped clock.\<close>

lemma edit_skips_history:
  "(let db' = snd (ticket_step admin_desk (UpdateTicket ''T1'' (overdue_ticket\<lparr>tk_status_id := ''clo''\<rparr>)) desk_db)
    in map (\<lambda>t. (tk_status_id t, tk_next_escalation_due_at t)) (cd_tickets db') = [(''clo'', Some 5)]
       \<and> length (cd_status_changes db') = 1)"
  by code_simp

text \<open>Only a reopen clears \<open>resolved_at\<close>: a ticket put back to work through the status call and resolved again
  keeps the time of its first resolution.\<close>

lemma second_resolution_keeps_first_time:
  "(let later = admin_desk\<lparr>kd_now := 500\<rparr>;
        db1 = snd (ticket_step admin_desk (ResolveCall ''T1'' None) desk_db);
        db2 = snd (ticket_step later (StatusCall ''T1'' (Some ''ESCALATED'') None) db1);
        db3 = snd (ticket_step later (ResolveCall ''T1'' None) db2)
    in map (\<lambda>t. (tk_status_id t, tk_resolved_at t)) (cd_tickets db3) = [(''res'', Some 10)])"
  by code_simp

end
