(* ===== verification/Access_Audit.thy ===== *)
theory Access_Audit
  imports Data_Scope
begin

text \<open>
  The User Access Audit: \<open>utils/permission_snapshot.py\<close>. A write to the permission tables is audited by comparing the
  whole permission state before and after it: per owner (a local body with its roles, or one member of staff) the set
  of grant keys. An owner that differs gets one audit row with two named snapshots; the serializer of the audit turns
  the snapshots back into keys to show what was granted and revoked.

  A Python set is a list of its elements in any order; a dict is an association list in insertion order.
\<close>

section \<open>Dicts\<close>

text \<open>\<open>f(d.setdefault(k, default))\<close>: the value under a key changed in place, appended when missing.\<close>

fun dict_alter :: "'k \<Rightarrow> 'v \<Rightarrow> ('v \<Rightarrow> 'v) \<Rightarrow> ('k \<times> 'v) list \<Rightarrow> ('k \<times> 'v) list" where
  "dict_alter k d f [] = [(k, f d)]"
| "dict_alter k d f ((k', v) # xs) = (if k' = k then (k, f v) # xs else (k', v) # dict_alter k d f xs)"

lemma map_of_dict_alter [simp]:
  "map_of (dict_alter k d f xs) = (map_of xs)(k \<mapsto> f (case map_of xs k of None \<Rightarrow> d | Some v \<Rightarrow> v))"
  by (induction xs) (auto simp: fun_eq_iff)

lemma keys_dict_alter [simp]: "fst ` set (dict_alter k d f xs) = insert k (fst ` set xs)"
proof (induction xs)
  case (Cons x xs)
  then show ?case by (cases x; cases "fst x = k") (simp_all add: insert_commute)
qed simp

lemma distinct_dict_alter [simp]: "distinct (map fst xs) \<Longrightarrow> distinct (map fst (dict_alter k d f xs))"
proof (induction xs)
  case (Cons x xs)
  then show ?case using keys_dict_alter [of k d f xs] by (cases x) auto
qed simp

section \<open>Snapshots and grant keys\<close>

record column_item =
  ci_id :: ident
  ci_name :: string
  ci_state :: string

record screen_item =
  si_id :: ident
  si_name :: string
  si_actions :: "(ident \<times> string) list"
  si_columns :: "column_item list"

text \<open>The main screen of a screen that has no row is \<open>None\<close>.\<close>

record module_item =
  mi_id :: "ident option"
  mi_name :: string
  mi_screens :: "screen_item list"

record snapshot =
  sp_app_modules :: "(ident \<times> string) list"
  sp_modules :: "module_item list"
  sp_widgets :: "(string \<times> string) list"

definition EMPTY_SNAPSHOT :: snapshot where
  "EMPTY_SNAPSHOT = \<lparr>sp_app_modules = [], sp_modules = [], sp_widgets = []\<rparr>"

datatype grant_key =
    AppKey ident
  | WidgetKey string
  | ModuleKey "ident option"
  | ScreenKey ident
  | ActionKey ident ident
  | ColumnKey ident ident string

text \<open>The tables that name the ids.\<close>

record screen_name_row =
  sn_unique_id :: ident
  sn_userscreen_name :: string
  sn_folder_name :: string
  sn_mainscreen_id :: ident
  sn_order_no :: int

record main_name_row =
  mn_unique_id :: ident
  mn_mainscreen_name :: string
  mn_order_no :: int

record action_row =
  an_unique_id :: ident
  an_action_name :: string
  an_variable_name :: string

record column_row =
  un_unique_id :: ident
  un_field_name :: string
  un_display_name :: string
  un_data_type :: string
  un_db_column :: string
  un_is_required :: bool

record app_module_row =
  am_unique_id :: ident
  am_surface_key :: string
  am_label :: string
  am_is_active :: bool
  am_is_deleted :: bool

record name_tables =
  nt_screens :: "screen_name_row list"
  nt_mains :: "main_name_row list"
  nt_actions :: "action_row list"
  nt_columns :: "column_row list"
  nt_app_modules :: "app_module_row list"

text \<open>\<open>names.get(i) or i\<close>.\<close>

definition name_of :: "(ident \<times> string) list \<Rightarrow> ident \<Rightarrow> string" where
  "name_of names i = (case map_of names i of None \<Rightarrow> i | Some n \<Rightarrow> if n = [] then i else n)"

definition app_modules :: "name_tables \<Rightarrow> ident list \<Rightarrow> (ident \<times> string) list" where
  "app_modules nt ids = map (\<lambda>i. (i, name_of (map (\<lambda>m. (am_unique_id m, am_label m)) (nt_app_modules nt)) i)) (filter (\<lambda>i. i \<noteq> []) (rev (remdups (rev ids))))"

text \<open>\<open>str.title\<close>: the letters of each word, the first one upper.\<close>

definition upper_char :: "char \<Rightarrow> char" where
  "upper_char c = (if of_char c \<ge> (97::nat) \<and> of_char c \<le> (122::nat) then char_of (of_char c - 32 :: nat) else c)"

definition is_alpha :: "char \<Rightarrow> bool" where
  "is_alpha c \<longleftrightarrow> (let n = of_char c :: nat in (65 \<le> n \<and> n \<le> 90) \<or> (97 \<le> n \<and> n \<le> 122))"

fun title_from :: "bool \<Rightarrow> string \<Rightarrow> string" where
  "title_from inside [] = []"
| "title_from inside (c # cs) = (if inside then lower_char c else upper_char c) # title_from (is_alpha c) cs"

definition widget_label :: "string \<Rightarrow> string" where
  "widget_label name =
     (let t = title_from False (py_strip (map (\<lambda>c. if c = CHR ''_'' then CHR '' '' else c) name))
      in if t = [] then ''-'' else t)"

section \<open>The tree of a snapshot\<close>

definition user_screen_row :: "name_tables \<Rightarrow> ident \<Rightarrow> screen_name_row option" where
  "user_screen_row nt sid = find (\<lambda>r. sn_unique_id r = sid) (nt_screens nt)"

definition main_of :: "name_tables \<Rightarrow> ident \<Rightarrow> ident option" where
  "main_of nt sid = map_option sn_mainscreen_id (user_screen_row nt sid)"

definition main_row :: "name_tables \<Rightarrow> ident option \<Rightarrow> main_name_row option" where
  "main_row nt mid = (if truthy mid then find (\<lambda>r. Some (mn_unique_id r) = mid) (nt_mains nt) else None)"

text \<open>Per main screen, per screen: the actions and the columns.\<close>

type_synonym screen_cell = "(ident \<times> string) list \<times> column_item list"
type_synonym screen_tree = "(ident option \<times> (ident \<times> screen_cell) list) list"

definition screen_entry :: "name_tables \<Rightarrow> ident \<Rightarrow> (screen_cell \<Rightarrow> screen_cell) \<Rightarrow> screen_tree \<Rightarrow> screen_tree" where
  "screen_entry nt sid f = dict_alter (main_of nt sid) [] (dict_alter sid ([], []) f)"

definition add_action :: "name_tables \<Rightarrow> ident \<times> ident \<Rightarrow> screen_tree \<Rightarrow> screen_tree" where
  "add_action nt = (\<lambda>(sid, action_id). screen_entry nt sid (\<lambda>(actions, columns).
     (if list_all (\<lambda>i. fst i \<noteq> action_id) actions then actions @ [(action_id, name_of (map (\<lambda>a. (an_unique_id a, an_action_name a)) (nt_actions nt)) action_id)]
      else actions, columns)))"

definition add_column :: "name_tables \<Rightarrow> ident \<times> ident \<times> string \<Rightarrow> screen_tree \<Rightarrow> screen_tree" where
  "add_column nt = (\<lambda>(sid, column_id, state). screen_entry nt sid (\<lambda>(actions, columns).
     (actions, if list_all (\<lambda>i. (ci_id i, ci_state i) \<noteq> (column_id, state)) columns
               then columns @ [\<lparr>ci_id = column_id, ci_name = name_of (map (\<lambda>c. (un_unique_id c, un_display_name c)) (nt_columns nt)) column_id, ci_state = state\<rparr>]
               else columns)))"

definition build_tree ::
  "name_tables \<Rightarrow> (ident \<times> ident) list \<Rightarrow> (ident \<times> ident \<times> string) list \<Rightarrow> ident list \<Rightarrow> ident option list \<Rightarrow> screen_tree" where
  "build_tree nt actions columns screens modules =
     fold (add_column nt) columns (fold (add_action nt) actions
       (fold (\<lambda>sid. screen_entry nt sid id) screens (fold (\<lambda>mid. dict_alter mid [] (\<lambda>_. [])) modules [])))"

definition or_id :: "string \<Rightarrow> ident option \<Rightarrow> string \<Rightarrow> string" where
  "or_id name i fallback = (if name \<noteq> [] then name else case i of None \<Rightarrow> fallback | Some n \<Rightarrow> if n = [] then fallback else n)"

definition module_order :: "name_tables \<Rightarrow> ident option \<Rightarrow> int \<times> string" where
  "module_order nt mid = (case main_row nt mid of
     None \<Rightarrow> (0, or_id [] mid []) | Some r \<Rightarrow> (mn_order_no r, or_id (mn_mainscreen_name r) mid []))"

definition screen_order :: "name_tables \<Rightarrow> ident \<Rightarrow> int \<times> string" where
  "screen_order nt sid = (case user_screen_row nt sid of
     None \<Rightarrow> (0, sid) | Some r \<Rightarrow> (sn_order_no r, or_id (sn_userscreen_name r) (Some sid) []))"

definition screen_item_of :: "name_tables \<Rightarrow> (ident \<times> screen_cell) list \<Rightarrow> ident \<Rightarrow> screen_item" where
  "screen_item_of nt screens sid =
     (case map_of screens sid of None \<Rightarrow> \<lparr>si_id = sid, si_name = [], si_actions = [], si_columns = []\<rparr>
      | Some (actions, columns) \<Rightarrow>
         \<lparr>si_id = sid,
          si_name = or_id (case user_screen_row nt sid of None \<Rightarrow> [] | Some r \<Rightarrow> sn_userscreen_name r) (Some sid) ''-'',
          si_actions = sort_key snd actions,
          si_columns = sort_key (\<lambda>c. (ci_name c, ci_state c)) columns\<rparr>)"

definition module_item_of :: "name_tables \<Rightarrow> screen_tree \<Rightarrow> ident option \<Rightarrow> module_item" where
  "module_item_of nt tree mid =
     (let screens = (case map_of tree mid of None \<Rightarrow> [] | Some s \<Rightarrow> s)
      in \<lparr>mi_id = mid,
          mi_name = or_id (case main_row nt mid of None \<Rightarrow> [] | Some r \<Rightarrow> mn_mainscreen_name r) mid ''-'',
          mi_screens = map (screen_item_of nt screens) (sort_key (screen_order nt) (map fst screens))\<rparr>)"

definition build_modules ::
  "name_tables \<Rightarrow> (ident \<times> ident) list \<Rightarrow> (ident \<times> ident \<times> string) list \<Rightarrow> ident list \<Rightarrow> ident option list \<Rightarrow> module_item list" where
  "build_modules nt actions columns screens modules =
     (let tree = build_tree nt actions columns screens modules
      in map (module_item_of nt tree) (sort_key (module_order nt) (map fst tree)))"

section \<open>From a snapshot to its keys and back\<close>

definition screen_keys :: "screen_item \<Rightarrow> grant_key list" where
  "screen_keys s = map (\<lambda>a. ActionKey (si_id s) (fst a)) (si_actions s)
     @ map (\<lambda>c. ColumnKey (si_id s) (ci_id c) (ci_state c)) (si_columns s)
     @ (if si_actions s = [] \<and> si_columns s = [] then [ScreenKey (si_id s)] else [])"

definition module_keys :: "module_item \<Rightarrow> grant_key list" where
  "module_keys m = (if mi_screens m = [] then [ModuleKey (mi_id m)] else concat (map screen_keys (mi_screens m)))"

definition snapshot_keys :: "snapshot \<Rightarrow> grant_key list" where
  "snapshot_keys s = map (AppKey \<circ> fst) (sp_app_modules s) @ map (WidgetKey \<circ> fst) (sp_widgets s)
     @ concat (map module_keys (sp_modules s))"

fun app_id :: "grant_key \<Rightarrow> ident list" where "app_id (AppKey i) = [i]" | "app_id _ = []"
fun widget_id :: "grant_key \<Rightarrow> string list" where "widget_id (WidgetKey w) = [w]" | "widget_id _ = []"
fun module_id :: "grant_key \<Rightarrow> ident option list" where "module_id (ModuleKey m) = [m]" | "module_id _ = []"
fun screen_id :: "grant_key \<Rightarrow> ident list" where "screen_id (ScreenKey s) = [s]" | "screen_id _ = []"
fun action_id :: "grant_key \<Rightarrow> (ident \<times> ident) list" where "action_id (ActionKey s a) = [(s, a)]" | "action_id _ = []"
fun column_id :: "grant_key \<Rightarrow> (ident \<times> ident \<times> string) list" where
  "column_id (ColumnKey s c st) = [(s, c, st)]" | "column_id _ = []"

definition pick :: "(grant_key \<Rightarrow> 'a list) \<Rightarrow> grant_key list \<Rightarrow> 'a list" where
  "pick f keys = concat (map f keys)"

definition snapshot_from_keys :: "name_tables \<Rightarrow> grant_key list \<Rightarrow> snapshot" where
  "snapshot_from_keys nt keys =
     \<lparr>sp_app_modules = app_modules nt (sort (pick app_id keys)),
      sp_modules = build_modules nt (pick action_id keys) (pick column_id keys) (pick screen_id keys) (pick module_id keys),
      sp_widgets = map (\<lambda>w. (w, widget_label w)) (sort (pick widget_id keys))\<rparr>"

section \<open>What a snapshot keeps of its keys\<close>

definition cell :: "screen_tree \<Rightarrow> ident option \<Rightarrow> ident \<Rightarrow> screen_cell option" where
  "cell t m s = (case map_of t m of None \<Rightarrow> None | Some ss \<Rightarrow> map_of ss s)"

lemma cell_screen_entry:
  "cell (screen_entry nt sid f t) m s =
     (if s = sid \<and> m = main_of nt sid then Some (f (case cell t m s of None \<Rightarrow> ([], []) | Some v \<Rightarrow> v)) else cell t m s)"
  by (auto simp: cell_def screen_entry_def split: option.split)

lemma mains_screen_entry: "fst ` set (screen_entry nt sid f t) = insert (main_of nt sid) (fst ` set t)"
  by (simp add: screen_entry_def)

text \<open>The tree holds the screens \<open>S\<close>, the actions \<open>A\<close> and the columns \<open>C\<close>, each under its screen, and the main screens
  \<open>M\<close> beside those of the screens.\<close>

definition tree_holds ::
  "name_tables \<Rightarrow> ident option set \<Rightarrow> ident set \<Rightarrow> (ident \<times> ident) set \<Rightarrow> (ident \<times> ident \<times> string) set \<Rightarrow> screen_tree \<Rightarrow> bool" where
  "tree_holds nt M S A C t \<longleftrightarrow> fst ` set t = M \<union> main_of nt ` S \<and> fst ` A \<subseteq> S \<and> fst ` C \<subseteq> S
     \<and> (\<forall>m s. cell t m s \<noteq> None \<longleftrightarrow> s \<in> S \<and> m = main_of nt s)
     \<and> (\<forall>m s actions columns. cell t m s = Some (actions, columns) \<longrightarrow>
          fst ` set actions = {a. (s, a) \<in> A} \<and> (\<lambda>c. (ci_id c, ci_state c)) ` set columns = {p. (s, p) \<in> C})"

abbreviation column_view :: "column_item \<Rightarrow> ident \<times> string" where
  "column_view c \<equiv> (ci_id c, ci_state c)"

lemma tree_holds_entry:
  assumes t: "tree_holds nt M S A C t"
    and f: "\<And>actions columns. fst ` set actions = {a. (sid, a) \<in> A} \<Longrightarrow> column_view ` set columns = {p. (sid, p) \<in> C} \<Longrightarrow>
      fst ` set (fst (f (actions, columns))) = {a. (sid, a) \<in> A'} \<and> column_view ` set (snd (f (actions, columns))) = {p. (sid, p) \<in> C'}"
    and others: "\<And>s a. s \<noteq> sid \<Longrightarrow> (s, a) \<in> A' \<longleftrightarrow> (s, a) \<in> A" "\<And>s p. s \<noteq> sid \<Longrightarrow> (s, p) \<in> C' \<longleftrightarrow> (s, p) \<in> C"
  shows "tree_holds nt M (insert sid S) A' C' (screen_entry nt sid f t)"
  unfolding tree_holds_def
proof (intro conjI allI impI)
  have sub: "fst ` A \<subseteq> S" "fst ` C \<subseteq> S" and here: "cell t m s \<noteq> None \<longleftrightarrow> s \<in> S \<and> m = main_of nt s" for m s
    using t by (simp_all add: tree_holds_def)
  show "fst ` set (screen_entry nt sid f t) = M \<union> main_of nt ` insert sid S"
    using t by (auto simp: mains_screen_entry tree_holds_def)
  show "fst ` A' \<subseteq> insert sid S" "fst ` C' \<subseteq> insert sid S" using sub others by fastforce+
  show "(cell (screen_entry nt sid f t) m s \<noteq> None) = (s \<in> insert sid S \<and> m = main_of nt s)" for m s
    using here [of m s] by (auto simp: cell_screen_entry)
  fix m s actions columns assume c: "cell (screen_entry nt sid f t) m s = Some (actions, columns)"
  have old: "fst ` set as = {a. (s, a) \<in> A} \<and> column_view ` set cs = {p. (s, p) \<in> C}" if "cell t m s = Some (as, cs)" for as cs
    using t that by (simp add: tree_holds_def)
  show "fst ` set actions = {a. (s, a) \<in> A'}" "column_view ` set columns = {p. (s, p) \<in> C'}"
  proof -
    have "fst ` set actions = {a. (s, a) \<in> A'} \<and> column_view ` set columns = {p. (s, p) \<in> C'}"
    proof (cases "s = sid \<and> m = main_of nt sid")
      case True
      obtain as cs where v: "(case cell t m s of None \<Rightarrow> ([], []) | Some v \<Rightarrow> v) = (as, cs)" by force
      have "fst ` set as = {a. (sid, a) \<in> A} \<and> column_view ` set cs = {p. (sid, p) \<in> C}"
      proof (cases "cell t m s")
        case None
        with True here [of m s] have "sid \<notin> S" by simp
        with sub have "{a. (sid, a) \<in> A} = {}" "{p. (sid, p) \<in> C} = {}" by force+
        with None v show ?thesis by simp
      next
        case (Some w)
        with v True old show ?thesis by (cases w) simp
      qed
      with f [of as cs] c v True show ?thesis by (simp add: cell_screen_entry)
    next
      case False
      then have c': "cell t m s = Some (actions, columns)" using c by (auto simp: cell_screen_entry split: if_splits)
      with here [of m s] have "m = main_of nt s" by simp
      with False have "s \<noteq> sid" by blast
      with old [OF c'] others show ?thesis by simp
    qed
    then show "fst ` set actions = {a. (s, a) \<in> A'}" "column_view ` set columns = {p. (s, p) \<in> C'}" by blast+
  qed
qed

lemma tree_holds_screen:
  "tree_holds nt M S A C t \<Longrightarrow> tree_holds nt M (insert sid S) A C (screen_entry nt sid id t)"
  by (erule tree_holds_entry) simp_all

lemma tree_holds_action:
  assumes "tree_holds nt M S A C t" shows "tree_holds nt M (insert (fst p) S) (insert p A) C (add_action nt p t)"
  unfolding add_action_def split_beta by (rule tree_holds_entry [OF assms]) (cases p, auto simp: list_all_iff)+

lemma tree_holds_column:
  assumes "tree_holds nt M S A C t" shows "tree_holds nt M (insert (fst p) S) A (insert p C) (add_column nt p t)"
  unfolding add_column_def split_beta by (rule tree_holds_entry [OF assms]) (cases p, auto simp: list_all_iff)+

lemma tree_holds_modules: "tree_holds nt (set ms) {} {} {} (fold (\<lambda>mid. dict_alter mid [] (\<lambda>_. [])) ms [])"
proof -
  have "fst ` set t = M \<Longrightarrow> \<forall>m s. cell t m s = None \<Longrightarrow>
      fst ` set (fold (\<lambda>mid. dict_alter mid [] (\<lambda>_. [])) ms t) = set ms \<union> M
      \<and> (\<forall>m s. cell (fold (\<lambda>mid. dict_alter mid [] (\<lambda>_. [])) ms t) m s = None)" for t :: screen_tree and M
  proof (induction ms arbitrary: t M)
    case (Cons m ms)
    from Cons.IH [of "dict_alter m [] (\<lambda>_. []) t" "insert m M"] Cons.prems show ?case by (auto simp: cell_def)
  qed simp
  from this [of "[]" "{}"] show ?thesis by (simp add: tree_holds_def cell_def)
qed

lemma build_tree_holds:
  "tree_holds nt (set modules) (set screens \<union> fst ` set actions \<union> fst ` set columns) (set actions) (set columns)
     (build_tree nt actions columns screens modules)"
proof -
  have screens: "tree_holds nt M (set screens \<union> S) A C (fold (\<lambda>sid. screen_entry nt sid id) screens t)"
    if "tree_holds nt M S A C t" for M S A C t
    using that
  proof (induction screens arbitrary: t S)
    case (Cons s ss)
    from Cons.IH [OF tree_holds_screen [OF Cons.prems, of s]] show ?case by (simp add: id_def)
  qed simp
  have actions: "tree_holds nt M (fst ` set actions \<union> S) (set actions \<union> A) C (fold (add_action nt) actions t)"
    if "tree_holds nt M S A C t" for M S A C t
    using that
  proof (induction actions arbitrary: t S A)
    case (Cons p ps)
    from Cons.IH [OF tree_holds_action [OF Cons.prems]] show ?case by simp
  qed simp
  have columns: "tree_holds nt M (fst ` set columns \<union> S) A (set columns \<union> C) (fold (add_column nt) columns t)"
    if "tree_holds nt M S A C t" for M S A C t
    using that
  proof (induction columns arbitrary: t S C)
    case (Cons p ps)
    from Cons.IH [OF tree_holds_column [OF Cons.prems]] show ?case by simp
  qed simp
  show ?thesis unfolding build_tree_def
    using columns [OF actions [OF screens [OF tree_holds_modules]]] by (simp add: Un_ac)
qed

text \<open>The keys of one screen's cell.\<close>

definition cell_keys :: "ident \<Rightarrow> screen_cell \<Rightarrow> grant_key set" where
  "cell_keys s = (\<lambda>(actions, columns). ActionKey s ` fst ` set actions \<union> (\<lambda>p. ColumnKey s (fst p) (snd p)) ` column_view ` set columns
     \<union> (if actions = [] \<and> columns = [] then {ScreenKey s} else {}))"

lemma screen_keys_cell:
  "map_of ss s = Some v \<Longrightarrow> set (screen_keys (screen_item_of nt ss s)) = cell_keys s v"
  by (cases v) (auto simp: screen_item_of_def screen_keys_def cell_keys_def image_image dest: arg_cong [of _ _ length])

lemma sort_key_Nil_iff [simp]: "sort_key f xs = [] \<longleftrightarrow> xs = []"
  by (metis length_0_conv length_sort)

lemma map_of_fst: "s \<in> fst ` set ss \<Longrightarrow> \<exists>v. map_of ss s = Some v"
  by (metis map_of_eq_None_iff option.exhaust)

lemma module_keys_item:
  assumes "m \<in> fst ` set t"
  shows "set (module_keys (module_item_of nt t m)) =
    (if \<forall>s. cell t m s = None then {ModuleKey m} else \<Union>{cell_keys s v |s v. cell t m s = Some v})"
proof -
  obtain ss where ss: "map_of t m = Some ss" using map_of_fst [OF assms] by blast
  show ?thesis
  proof (cases "ss = []")
    case True
    with ss show ?thesis by (simp add: module_item_of_def module_keys_def cell_def)
  next
    case False
    then obtain s0 v0 ss' where "ss = (s0, v0) # ss'" by (cases ss) auto
    then have some: "\<not> (\<forall>s. cell t m s = None)" using ss by (auto simp: cell_def)
    have "set (module_keys (module_item_of nt t m)) = (\<Union>s\<in>fst ` set ss. set (screen_keys (screen_item_of nt ss s)))"
      using ss False by (simp add: module_item_of_def module_keys_def)
    also have "\<dots> = \<Union>{cell_keys s v |s v. map_of ss s = Some v}"
    proof -
      have "fst ` set ss = {s. \<exists>v. map_of ss s = Some v}" by (auto simp: dom_def simp flip: dom_map_of_conv_image_fst)
      then show ?thesis by (force simp: screen_keys_cell)
    qed
    finally show ?thesis using some ss by (simp add: cell_def)
  qed
qed

text \<open>A key that a snapshot does not keep: a whole screen beside a grant inside it, a whole main screen beside a grant
  inside it, an app without an id.\<close>

definition key_screen :: "grant_key \<Rightarrow> ident option" where
  "key_screen k = (case k of ScreenKey s \<Rightarrow> Some s | ActionKey s _ \<Rightarrow> Some s | ColumnKey s _ _ \<Rightarrow> Some s | _ \<Rightarrow> None)"

definition shadowed :: "name_tables \<Rightarrow> grant_key set \<Rightarrow> grant_key \<Rightarrow> bool" where
  "shadowed nt K k \<longleftrightarrow> (case k of
       AppKey i \<Rightarrow> i = []
     | ScreenKey s \<Rightarrow> \<exists>k'\<in>K. key_screen k' = Some s \<and> k' \<noteq> ScreenKey s
     | ModuleKey m \<Rightarrow> \<exists>k'\<in>K. \<exists>s. key_screen k' = Some s \<and> main_of nt s = m
     | _ \<Rightarrow> False)"

lemma set_pick: "set (pick f keys) = (\<Union>k\<in>set keys. set (f k))"
  by (simp add: pick_def)

lemma id_iff:
  "i \<in> set (app_id k) \<longleftrightarrow> k = AppKey i" "w \<in> set (widget_id k) \<longleftrightarrow> k = WidgetKey w" "m \<in> set (module_id k) \<longleftrightarrow> k = ModuleKey m"
  "s \<in> set (screen_id k) \<longleftrightarrow> k = ScreenKey s" "p \<in> set (action_id k) \<longleftrightarrow> k = ActionKey (fst p) (snd p)"
  "q \<in> set (column_id k) \<longleftrightarrow> k = ColumnKey (fst q) (fst (snd q)) (snd (snd q))"
  by (cases k; force)+

lemma pick_iff [simp]:
  "i \<in> set (pick app_id keys) \<longleftrightarrow> AppKey i \<in> set keys" "w \<in> set (pick widget_id keys) \<longleftrightarrow> WidgetKey w \<in> set keys"
  "m \<in> set (pick module_id keys) \<longleftrightarrow> ModuleKey m \<in> set keys" "s \<in> set (pick screen_id keys) \<longleftrightarrow> ScreenKey s \<in> set keys"
  "(s, a) \<in> set (pick action_id keys) \<longleftrightarrow> ActionKey s a \<in> set keys"
  "(s, c, st) \<in> set (pick column_id keys) \<longleftrightarrow> ColumnKey s c st \<in> set keys"
  by (simp_all add: set_pick id_iff)

lemma fst_pick:
  "fst ` set (pick action_id keys) = {s. \<exists>a. ActionKey s a \<in> set keys}"
  "fst ` set (pick column_id keys) = {s. \<exists>c st. ColumnKey s c st \<in> set keys}"
  by (auto intro: image_eqI [where x = "(x, y)" for x y] image_eqI [where x = "(x, y, z)" for x y z]) blast

lemma key_screen_iff:
  "key_screen k = Some s \<longleftrightarrow> k = ScreenKey s \<or> (\<exists>a. k = ActionKey s a) \<or> (\<exists>c st. k = ColumnKey s c st)"
  by (cases k) (auto simp: key_screen_def)

lemma tree_keys:
  assumes t: "tree_holds nt M S A C t"
  shows "(\<Union>m\<in>fst ` set t. set (module_keys (module_item_of nt t m))) =
      {ModuleKey m |m. m \<in> M \<and> m \<notin> main_of nt ` S}
      \<union> {ActionKey s a |s a. (s, a) \<in> A} \<union> {ColumnKey s c st |s c st. (s, c, st) \<in> C}
      \<union> {ScreenKey s |s. s \<in> S \<and> s \<notin> fst ` A \<and> s \<notin> fst ` C}" (is "?l = ?r")
proof -
  have ms: "fst ` set t = M \<union> main_of nt ` S" and sub: "fst ` A \<subseteq> S" "fst ` C \<subseteq> S"
    and here: "cell t m s \<noteq> None \<longleftrightarrow> s \<in> S \<and> m = main_of nt s" for m s
    using t by (simp_all add: tree_holds_def)
  have val: "cell_keys s v = {ActionKey s a |a. (s, a) \<in> A} \<union> {ColumnKey s c st |c st. (s, c, st) \<in> C}
      \<union> (if s \<notin> fst ` A \<and> s \<notin> fst ` C then {ScreenKey s} else {})" if "cell t m s = Some v" for m s v
  proof (cases v)
    case (Pair as cs)
    with t that have v: "fst ` set as = {a. (s, a) \<in> A}" "column_view ` set cs = {p. (s, p) \<in> C}"
      by (auto simp: tree_holds_def)
    have "as = [] \<longleftrightarrow> s \<notin> fst ` A" "cs = [] \<longleftrightarrow> s \<notin> fst ` C"
      using arg_cong [OF v(1), of "\<lambda>x. x = {}"] arg_cong [OF v(2), of "\<lambda>x. x = {}"] by (auto simp: image_iff)
    with Pair v show ?thesis by (auto simp: cell_keys_def image_iff)
  qed
  have empty: "(\<forall>s. cell t m s = None) \<longleftrightarrow> m \<notin> main_of nt ` S" for m using here by blast
  have "?l = (\<Union>m\<in>M \<union> main_of nt ` S. if m \<notin> main_of nt ` S then {ModuleKey m} else \<Union>{cell_keys s v |s v. cell t m s = Some v})"
    unfolding ms [symmetric] by (rule SUP_cong [OF refl]) (simp add: module_keys_item empty)
  also have "\<dots> = {ModuleKey m |m. m \<in> M \<and> m \<notin> main_of nt ` S} \<union> (\<Union>s\<in>S. \<Union>{cell_keys s v |v. cell t (main_of nt s) s = Some v})"
    (is "?a = ?b \<union> ?c")
  proof (intro equalityI subsetI)
    fix x assume "x \<in> ?a"
    then obtain m where m: "m \<in> M \<union> main_of nt ` S"
      and x: "x \<in> (if m \<notin> main_of nt ` S then {ModuleKey m} else \<Union>{cell_keys s v |s v. cell t m s = Some v})" by blast
    show "x \<in> ?b \<union> ?c"
    proof (cases "m \<in> main_of nt ` S")
      case True
      with x obtain s v where "cell t m s = Some v" "x \<in> cell_keys s v" by auto
      moreover from this here [of m s] have "s \<in> S" "m = main_of nt s" by auto
      ultimately have "x \<in> \<Union>{cell_keys s v |v. cell t (main_of nt s) s = Some v}" by blast
      with \<open>s \<in> S\<close> show ?thesis by blast
    qed (use m x in auto)
  next
    fix x assume "x \<in> ?b \<union> ?c"
    then show "x \<in> ?a"
    proof
      assume "x \<in> ?c"
      then obtain s v where "s \<in> S" "cell t (main_of nt s) s = Some v" "x \<in> cell_keys s v" by blast
      then have "main_of nt s \<in> main_of nt ` S"
        and "x \<in> \<Union>{cell_keys s' v' |s' v'. cell t (main_of nt s) s' = Some v'}" by blast+
      then show ?thesis by (intro UN_I [of "main_of nt s"]) simp_all
    qed auto
  qed
  also have "(\<Union>s\<in>S. \<Union>{cell_keys s v |v. cell t (main_of nt s) s = Some v}) =
      (\<Union>s\<in>S. {ActionKey s a |a. (s, a) \<in> A} \<union> {ColumnKey s c st |c st. (s, c, st) \<in> C}
        \<union> (if s \<notin> fst ` A \<and> s \<notin> fst ` C then {ScreenKey s} else {}))"
  proof (rule SUP_cong [OF refl])
    fix s assume "s \<in> S"
    with here [of "main_of nt s" s] obtain v where v: "cell t (main_of nt s) s = Some v" by auto
    then have "{cell_keys s w |w. cell t (main_of nt s) s = Some w} = {cell_keys s v}" by (simp del: split_paired_Ex)
    with val [OF v] show "\<Union>{cell_keys s v |v. cell t (main_of nt s) s = Some v} = {ActionKey s a |a. (s, a) \<in> A}
        \<union> {ColumnKey s c st |c st. (s, c, st) \<in> C} \<union> (if s \<notin> fst ` A \<and> s \<notin> fst ` C then {ScreenKey s} else {})"
      by simp
  qed
  also have "\<dots> = {ActionKey s a |s a. (s, a) \<in> A} \<union> {ColumnKey s c st |s c st. (s, c, st) \<in> C}
      \<union> {ScreenKey s |s. s \<in> S \<and> s \<notin> fst ` A \<and> s \<notin> fst ` C}"
  proof -
    have "(\<Union>s\<in>S. {ActionKey s a |a. (s, a) \<in> A}) = {ActionKey s a |s a. (s, a) \<in> A}"
      "(\<Union>s\<in>S. {ColumnKey s c st |c st. (s, c, st) \<in> C}) = {ColumnKey s c st |s c st. (s, c, st) \<in> C}"
      using sub by force+
    moreover have "(\<Union>s\<in>S. if s \<notin> fst ` A \<and> s \<notin> fst ` C then {ScreenKey s} else {}) =
        {ScreenKey s |s. s \<in> S \<and> s \<notin> fst ` A \<and> s \<notin> fst ` C}" by (auto split: if_splits)
    ultimately show ?thesis by (simp only: UN_Un_distrib)
  qed
  finally show ?thesis by (simp add: Un_ac)
qed

lemma build_modules_keys:
  "set (concat (map module_keys (build_modules nt actions columns screens modules))) =
      {ModuleKey m |m. m \<in> set modules \<and> m \<notin> main_of nt ` (set screens \<union> fst ` set actions \<union> fst ` set columns)}
      \<union> {ActionKey s a |s a. (s, a) \<in> set actions} \<union> {ColumnKey s c st |s c st. (s, c, st) \<in> set columns}
      \<union> {ScreenKey s |s. s \<in> set screens \<and> s \<notin> fst ` set actions \<and> s \<notin> fst ` set columns}"
proof -
  have "set (concat (map module_keys (build_modules nt actions columns screens modules))) =
      (\<Union>m\<in>fst ` set (build_tree nt actions columns screens modules).
         set (module_keys (module_item_of nt (build_tree nt actions columns screens modules) m)))"
    by (simp add: build_modules_def Let_def)
  then show ?thesis unfolding tree_keys [OF build_tree_holds] by auto
qed

lemma snapshot_back:
  "set (snapshot_keys (snapshot_from_keys nt keys)) = {k \<in> set keys. \<not> shadowed nt (set keys) k}"
proof -
  let ?S = "set (pick screen_id keys) \<union> fst ` set (pick action_id keys) \<union> fst ` set (pick column_id keys)"
  have S: "s \<in> ?S \<longleftrightarrow> (\<exists>k\<in>set keys. key_screen k = Some s)" for s
    by (auto simp: key_screen_iff fst_pick)
  have inside: "s \<in> fst ` set (pick action_id keys) \<or> s \<in> fst ` set (pick column_id keys)
      \<longleftrightarrow> (\<exists>k\<in>set keys. key_screen k = Some s \<and> k \<noteq> ScreenKey s)" for s
    by (auto simp: key_screen_iff fst_pick)
  have "k \<in> set (snapshot_keys (snapshot_from_keys nt keys)) \<longleftrightarrow> k \<in> set keys \<and> \<not> shadowed nt (set keys) k" for k
  proof (cases k)
    case (ModuleKey m)
    have "m \<in> main_of nt ` ?S \<longleftrightarrow> (\<exists>s. s \<in> ?S \<and> main_of nt s = m)" by blast
    also have "\<dots> \<longleftrightarrow> shadowed nt (set keys) k" unfolding S ModuleKey shadowed_def by auto
    finally have "m \<notin> main_of nt ` ?S \<longleftrightarrow> \<not> shadowed nt (set keys) k" by simp
    then show ?thesis
      unfolding ModuleKey snapshot_keys_def set_append build_modules_keys snapshot_from_keys_def snapshot.simps by auto
  next
    case (ScreenKey s)
    have "s \<notin> fst ` set (pick action_id keys) \<and> s \<notin> fst ` set (pick column_id keys) \<longleftrightarrow> \<not> shadowed nt (set keys) k"
      unfolding ScreenKey shadowed_def using inside [of s] by auto
    then show ?thesis
      unfolding ScreenKey snapshot_keys_def set_append build_modules_keys snapshot_from_keys_def snapshot.simps by auto
  qed (auto simp: snapshot_keys_def snapshot_from_keys_def build_modules_keys app_modules_def shadowed_def image_image
        simp del: set_concat)
  then show ?thesis by blast
qed

text \<open>C19: Reading a snapshot back gives exactly the grants it was built from, less the shadowed ones: a whole screen
  or main screen granted beside something inside it. The order in which a set is read does not matter.\<close>
theorem snapshot_roundtrip:
  "set (snapshot_keys (snapshot_from_keys nt keys)) = {k \<in> set keys. \<not> shadowed nt (set keys) k}"
  by (rule snapshot_back)

section \<open>The permission state\<close>

definition SCOPE_COLUMNS :: "string list" where
  "SCOPE_COLUMNS = [''state_id'', ''district_id'', ''area_type_id'', ''local_body_type'', ''local_body_id'',
     ''permission_owner_kind'', ''usertype_id'', ''staffusertype_id'', ''contractorusertype_id'', ''governmentusertype_id'']"

text \<open>The owner columns of a permission row, by name.\<close>

type_synonym owner_columns = "string \<Rightarrow> string option"

record screen_grant =
  sg_unique_id :: ident
  sg_owner :: owner_columns
  sg_mainscreen_id :: ident
  sg_userscreen_id :: ident
  sg_userscreenaction_id :: ident
  sg_order_no :: int
  sg_is_active :: bool
  sg_is_deleted :: bool

record column_grant =
  cg_unique_id :: ident
  cg_owner :: owner_columns
  cg_userscreen_id :: ident
  cg_column_id :: ident
  cg_field_permission_state :: string
  cg_order_no :: int
  cg_is_active :: bool
  cg_is_deleted :: bool

record widget_grant =
  wg_owner :: owner_columns
  wg_widget_name :: string
  wg_is_enabled :: bool
  wg_order_no :: int
  wg_is_active :: bool
  wg_is_deleted :: bool

record access_config =
  ac_unique_id :: ident
  ac_staff_id :: ident
  ac_app_module_ids :: "ident list"
  ac_enforce_strict_permissions :: bool
  ac_is_active :: bool
  ac_is_deleted :: bool

record access_config_grant =
  ag_config_id :: ident
  ag_mainscreen_id :: ident
  ag_userscreen_id :: ident
  ag_userscreenaction_id :: ident
  ag_is_active :: bool
  ag_is_deleted :: bool

record grant_db =
  gd_names :: name_tables
  gd_screens :: "screen_grant list"
  gd_columns :: "column_grant list"
  gd_widgets :: "widget_grant list"
  gd_configs :: "access_config list"
  gd_config_grants :: "access_config_grant list"
  gd_staff :: "(ident \<times> owner_columns) list"

text \<open>The owner of a row: a source and the values that identify it.\<close>

type_synonym owner_scope = "string \<times> string option list"

definition staff_owner :: "string option \<Rightarrow> owner_scope" where
  "staff_owner staff_id = (''STAFF_ACCESS'', [staff_id])"

definition scope_for :: "owner_columns \<Rightarrow> owner_scope" where
  "scope_for row =
     (if row ''permission_owner_kind'' = Some ''staff'' \<and> truthy (row ''staff_id'') then staff_owner (row ''staff_id'')
      else (if truthy (row ''local_body_id'') then ''LOCAL_BODY_SCREEN'' else ''ROLE_SCREEN'', map row SCOPE_COLUMNS))"

type_synonym permission_state = "(owner_scope \<times> grant_key list) list"

definition set_add :: "'a list \<Rightarrow> 'a list \<Rightarrow> 'a list" where
  "set_add xs ys = fold (\<lambda>x ys. if x \<in> set ys then ys else ys @ [x]) xs ys"

definition add_keys :: "owner_scope \<times> grant_key list \<Rightarrow> permission_state \<Rightarrow> permission_state" where
  "add_keys = (\<lambda>(scope, keys). dict_alter scope [] (set_add keys))"

definition screen_grant_key :: "screen_grant \<Rightarrow> grant_key" where
  "screen_grant_key r =
     (if sg_userscreenaction_id r \<noteq> [] then ActionKey (sg_userscreen_id r) (sg_userscreenaction_id r)
      else if sg_userscreen_id r \<noteq> [] then ScreenKey (sg_userscreen_id r) else ModuleKey (Some (sg_mainscreen_id r)))"

definition screen_state_rows :: "grant_db \<Rightarrow> (owner_scope \<times> grant_key list) list" where
  "screen_state_rows db = map (\<lambda>r. (scope_for (sg_owner r), [screen_grant_key r]))
     (filter (\<lambda>r. sg_is_active r \<and> \<not> sg_is_deleted r) (gd_screens db))"

definition column_state_rows :: "grant_db \<Rightarrow> (owner_scope \<times> grant_key list) list" where
  "column_state_rows db = map (\<lambda>r. (scope_for (cg_owner r),
       [ColumnKey (cg_userscreen_id r) (cg_column_id r) (cg_field_permission_state r)]))
     (filter (\<lambda>r. cg_is_active r \<and> \<not> cg_is_deleted r \<and> cg_field_permission_state r \<noteq> ''HIDDEN'') (gd_columns db))"

definition widget_state_rows :: "grant_db \<Rightarrow> (owner_scope \<times> grant_key list) list" where
  "widget_state_rows db = map (\<lambda>r. (scope_for (wg_owner r), [WidgetKey (wg_widget_name r)]))
     (filter (\<lambda>r. wg_is_active r \<and> \<not> wg_is_deleted r \<and> wg_is_enabled r) (gd_widgets db))"

definition live_configs :: "grant_db \<Rightarrow> access_config list" where
  "live_configs db = filter (\<lambda>c. \<not> ac_is_deleted c) (gd_configs db)"

definition app_state_rows :: "grant_db \<Rightarrow> (owner_scope \<times> grant_key list) list" where
  "app_state_rows db = map (\<lambda>c. (staff_owner (Some (ac_staff_id c)), map AppKey (filter (\<lambda>m. m \<noteq> []) (ac_app_module_ids c))))
     (live_configs db)"

definition config_state_rows :: "grant_db \<Rightarrow> (owner_scope \<times> grant_key list) list" where
  "config_state_rows db = concat (map (\<lambda>g.
     case find (\<lambda>c. ac_unique_id c = ag_config_id g) (live_configs db) of None \<Rightarrow> []
     | Some c \<Rightarrow> [(staff_owner (Some (ac_staff_id c)), [ActionKey (ag_userscreen_id g) (ag_userscreenaction_id g)])])
     (filter (\<lambda>g. \<not> ag_is_deleted g) (gd_config_grants db)))"

definition state_rows :: "grant_db \<Rightarrow> (owner_scope \<times> grant_key list) list" where
  "state_rows db = screen_state_rows db @ column_state_rows db @ widget_state_rows db @ app_state_rows db @ config_state_rows db"

definition permission_state :: "grant_db \<Rightarrow> permission_state" where
  "permission_state db = filter (\<lambda>(scope, keys). keys \<noteq> []) (fold add_keys (state_rows db) [])"

text \<open>\<open>state.get(scope, set())\<close>.\<close>

definition grants_of :: "permission_state \<Rightarrow> owner_scope \<Rightarrow> grant_key list" where
  "grants_of state scope = (case map_of state scope of None \<Rightarrow> [] | Some keys \<Rightarrow> keys)"

section \<open>The rows of the audit\<close>

record access_audit =
  aa_source :: string
  aa_updated_by_id :: "ident option"
  aa_http_method :: "string option"
  aa_old_permissions :: snapshot
  aa_new_permissions :: snapshot
  aa_mainscreen_id :: "ident option"
  aa_is_active :: bool
  aa_is_deleted :: bool
  aa_previous_is_active :: bool
  aa_action_type :: string
  aa_owner :: "(string \<times> string option) list"

text \<open>Who wrote: \<open>unique_id\<close> of the account is an argument.\<close>

definition request_actor_id :: "requester option \<Rightarrow> ident option \<Rightarrow> ident option" where
  "request_actor_id user unique_id =
     (case user of None \<Rightarrow> None
      | Some u \<Rightarrow> if \<not> rq_is_authenticated u then None
                 else let staff_id = py_or (rq_staff_unique_id u) (rq_linked_staff_id u)
                      in if truthy staff_id then staff_id else blank_to_none unique_id)"

definition LOCAL_BODY_LEVELS :: "string list" where
  "LOCAL_BODY_LEVELS = [''corporation'', ''municipality'', ''town_panchayat'', ''panchayat_union'', ''panchayat'']"

definition flat_geo :: "owner_columns option \<Rightarrow> (string \<times> string option) list" where
  "flat_geo obj = (case obj of None \<Rightarrow> []
     | Some row \<Rightarrow> map (\<lambda>f. (f, blank_to_none (row f))) [''state_id'', ''district_id'', ''area_type_id'']
         @ (case find (\<lambda>level. truthy (row (level @ ''_id''))) LOCAL_BODY_LEVELS of None \<Rightarrow> []
            | Some level \<Rightarrow> [(''local_body_type'', Some level), (''local_body_id'', row (level @ ''_id''))]))"

definition same_keys :: "grant_key list \<Rightarrow> grant_key list \<Rightarrow> bool" where
  "same_keys xs ys \<longleftrightarrow> list_all (\<lambda>k. k \<in> set ys) xs \<and> list_all (\<lambda>k. k \<in> set xs) ys"

text \<open>The symmetric difference of two sets of keys.\<close>

definition changed_keys :: "grant_key list \<Rightarrow> grant_key list \<Rightarrow> grant_key list" where
  "changed_keys xs ys = filter (\<lambda>k. k \<notin> set ys) xs @ filter (\<lambda>k. k \<notin> set xs) ys"

definition changed_module_ids :: "snapshot \<Rightarrow> snapshot \<Rightarrow> ident option list" where
  "changed_module_ids before after =
     (let changed = changed_keys (snapshot_keys before) (snapshot_keys after)
      in fold (\<lambda>m ids. if mi_id m \<in> set ids then ids
                  else if list_ex (\<lambda>k. k \<in> set changed) (module_keys m) then ids @ [mi_id m] else ids)
           (sp_modules after @ sp_modules before) [])"

definition write_access_audit ::
  "string \<Rightarrow> ident option \<Rightarrow> string option \<Rightarrow> snapshot \<Rightarrow> snapshot \<Rightarrow> string \<Rightarrow> (string \<times> string option) list \<Rightarrow> access_audit option" where
  "write_access_audit source actor http_method before after action_type owner_fields =
     (let old_keys = snapshot_keys before; new_keys = snapshot_keys after
      in if same_keys old_keys new_keys \<and> action_type \<noteq> ''DELETED'' then None
         else let modules = changed_module_ids before after
              in Some \<lparr>aa_source = source, aa_updated_by_id = actor, aa_http_method = http_method,
                   aa_old_permissions = before, aa_new_permissions = after,
                   aa_mainscreen_id = (case modules of [m] \<Rightarrow> m | _ \<Rightarrow> None),
                   aa_is_active = (new_keys \<noteq> []), aa_is_deleted = (action_type = ''DELETED''),
                   aa_previous_is_active = (old_keys \<noteq> []), aa_action_type = action_type, aa_owner = owner_fields\<rparr>)"

definition scope_fields :: "grant_db \<Rightarrow> owner_scope \<Rightarrow> (string \<times> string option) list" where
  "scope_fields db scope =
     (if fst scope = ''STAFF_ACCESS'' then
        let staff_id = hd (snd scope);
            staff = (case staff_id of None \<Rightarrow> None | Some i \<Rightarrow> map_of (gd_staff db) i)
        in [(''target_id'', staff_id), (''staff_id'', staff_id), (''permission_owner_kind'', Some ''staff''),
            (''governmentusertype_id'', case staff of None \<Rightarrow> None | Some row \<Rightarrow> row ''governmentusertype_id'')] @ flat_geo staff
      else zip SCOPE_COLUMNS (snd scope))"

definition scope_order :: "owner_scope \<Rightarrow> string list" where
  "scope_order scope = fst scope # map (\<lambda>v. case v of None \<Rightarrow> ''None'' | Some s \<Rightarrow> s) (snd scope)"

definition action_type_of :: "grant_key list \<Rightarrow> grant_key list \<Rightarrow> string" where
  "action_type_of old_keys new_keys = (if old_keys = [] then ''CREATED'' else if new_keys = [] then ''DELETED'' else ''UPDATED'')"

definition audit_owner ::
  "grant_db \<Rightarrow> ident option \<Rightarrow> string option \<Rightarrow> permission_state \<Rightarrow> permission_state \<Rightarrow> owner_scope \<Rightarrow> access_audit option" where
  "audit_owner db actor http_method before after scope =
     (let old_keys = grants_of before scope; new_keys = grants_of after scope
      in if same_keys old_keys new_keys then None
         else write_access_audit (fst scope) actor http_method (snapshot_from_keys (gd_names db) old_keys)
                (snapshot_from_keys (gd_names db) new_keys) (action_type_of old_keys new_keys) (scope_fields db scope))"

definition owners :: "permission_state \<Rightarrow> permission_state \<Rightarrow> owner_scope list" where
  "owners before after = sort_key scope_order (remdups (map fst before @ map fst after))"

definition write_permission_audits ::
  "grant_db \<Rightarrow> ident option \<Rightarrow> string option \<Rightarrow> permission_state \<Rightarrow> permission_state \<Rightarrow> access_audit list" where
  "write_permission_audits db actor http_method before after =
     List.map_filter (audit_owner db actor http_method before after) (owners before after)"

definition AUDITED_METHODS :: "string list" where
  "AUDITED_METHODS = [''POST'', ''PUT'', ''PATCH'', ''DELETE'']"

text \<open>A request through a view with the mixin: the state before it, the tables it leaves, its status.\<close>

definition audited_request :: "ident option \<Rightarrow> string \<Rightarrow> int \<Rightarrow> grant_db \<Rightarrow> grant_db \<Rightarrow> access_audit list" where
  "audited_request actor http_method status db db' =
     (if http_method \<in> set AUDITED_METHODS \<and> status < 400
      then write_permission_audits db' actor (Some http_method) (permission_state db) (permission_state db') else [])"

section \<open>What the state holds\<close>

lemma set_set_add [simp]: "set (set_add xs ys) = set xs \<union> set ys"
  by (induction xs arbitrary: ys) (auto simp: set_add_def)

definition row_grants :: "owner_scope \<Rightarrow> (owner_scope \<times> grant_key list) list \<Rightarrow> grant_key set" where
  "row_grants scope rows = (\<Union>(s, keys)\<in>set rows. if s = scope then set keys else {})"

lemma fold_add_keys:
  "set (grants_of (fold add_keys rows st) scope) = row_grants scope rows \<union> set (grants_of st scope)"
proof (induction rows arbitrary: st)
  case (Cons r rows)
  have "set (grants_of (add_keys r st) scope) = row_grants scope [r] \<union> set (grants_of st scope)"
    by (cases r) (auto simp: add_keys_def grants_of_def row_grants_def split: option.splits)
  with Cons show ?case by (auto simp: row_grants_def)
qed (simp add: row_grants_def)

lemma fold_add_keys_distinct: "distinct (map fst st) \<Longrightarrow> distinct (map fst (fold add_keys rows st))"
  by (induction rows arbitrary: st) (auto simp: add_keys_def split: prod.split)

lemma grants_of_filter:
  assumes "distinct (map fst st)"
  shows "grants_of (filter (\<lambda>(scope, keys). keys \<noteq> []) st) scope = grants_of st scope"
  using assms by (induction st) (auto simp: grants_of_def split: option.splits dest!: map_of_SomeD, (metis fst_conv image_eqI)+)

lemma permission_state_grants: "set (grants_of (permission_state db) scope) = row_grants scope (state_rows db)"
  using fold_add_keys [of "state_rows db" "[]" scope] fold_add_keys_distinct [of "[]" "state_rows db"]
  by (simp add: permission_state_def grants_of_filter) (simp add: grants_of_def)

lemma distinct_filter_fst: "distinct (map fst xs) \<Longrightarrow> distinct (map fst (filter P xs))"
  by (induction xs) auto

lemma permission_state_distinct: "distinct (map fst (permission_state db))"
  unfolding permission_state_def by (intro distinct_filter_fst fold_add_keys_distinct) simp

definition owner_ok :: "owner_scope \<Rightarrow> bool" where
  "owner_ok scope \<longleftrightarrow> (\<exists>x. scope = staff_owner x) \<or> (fst scope \<noteq> ''STAFF_ACCESS'' \<and> length (snd scope) = length SCOPE_COLUMNS)"

lemma scope_for_ok [simp]: "owner_ok (scope_for row)" "owner_ok (staff_owner x)"
  by (auto simp: owner_ok_def scope_for_def)

lemma state_rows_ok: "(scope, keys) \<in> set (state_rows db) \<Longrightarrow> owner_ok scope"
  by (auto simp: state_rows_def screen_state_rows_def column_state_rows_def widget_state_rows_def app_state_rows_def
      config_state_rows_def split: option.splits)

lemma fold_add_keys_owners: "fst ` set (fold add_keys rows st) = fst ` set rows \<union> fst ` set st"
  by (induction rows arbitrary: st) (auto simp: add_keys_def split: prod.split)

lemma permission_state_ok: "scope \<in> fst ` set (permission_state db) \<Longrightarrow> owner_ok scope"
proof -
  assume "scope \<in> fst ` set (permission_state db)"
  then have "scope \<in> fst ` set (fold add_keys (state_rows db) [])" by (auto simp: permission_state_def)
  then show ?thesis by (auto simp: fold_add_keys_owners dest: state_rows_ok)
qed

section \<open>Reading the audit\<close>

text \<open>The serializer of the audit: the keys granted and revoked by a row. The owner of a row, from its columns.\<close>

definition granted :: "access_audit \<Rightarrow> grant_key list" where
  "granted r = (let old = snapshot_keys (aa_old_permissions r)
     in filter (\<lambda>k. k \<notin> set old) (snapshot_keys (aa_new_permissions r)))"

definition revoked :: "access_audit \<Rightarrow> grant_key list" where
  "revoked r = (let new = snapshot_keys (aa_new_permissions r)
     in filter (\<lambda>k. k \<notin> set new) (snapshot_keys (aa_old_permissions r)))"

definition audit_scope :: "access_audit \<Rightarrow> owner_scope" where
  "audit_scope r = (let column = (\<lambda>f. case map_of (aa_owner r) f of None \<Rightarrow> None | Some v \<Rightarrow> v)
     in if aa_source r = ''STAFF_ACCESS'' then staff_owner (column ''target_id'') else (aa_source r, map column SCOPE_COLUMNS))"

lemma audit_scope_row:
  assumes "owner_ok scope" and "audit_owner db actor http_method before after scope = Some r"
  shows "audit_scope r = scope"
proof -
  have r: "aa_source r = fst scope" "aa_owner r = scope_fields db scope"
    using assms(2) by (auto simp: audit_owner_def write_access_audit_def Let_def split: if_splits)
  from assms(1) show ?thesis
  proof (unfold owner_ok_def, elim disjE exE conjE)
    fix x assume x: "scope = staff_owner x"
    then have "map_of (scope_fields db scope) ''target_id'' = Some x" by (simp add: scope_fields_def staff_owner_def Let_def)
    then show ?thesis by (simp add: audit_scope_def r x staff_owner_def)
  next
    assume src: "fst scope \<noteq> ''STAFF_ACCESS''" and len: "length (snd scope) = length SCOPE_COLUMNS"
    have "map (\<lambda>f. case map_of (zip SCOPE_COLUMNS vs) f of None \<Rightarrow> None | Some v \<Rightarrow> v) SCOPE_COLUMNS = vs"
      if "length vs = length SCOPE_COLUMNS" for vs :: "string option list"
    proof (rule nth_equalityI)
      fix i assume "i < length (map (\<lambda>f. case map_of (zip SCOPE_COLUMNS vs) f of None \<Rightarrow> None | Some v \<Rightarrow> v) SCOPE_COLUMNS)"
      then have i: "i < length SCOPE_COLUMNS" by simp
      have "distinct SCOPE_COLUMNS" by (simp add: SCOPE_COLUMNS_def)
      from map_of_zip_nth [OF that [symmetric] this] i that
      show "map (\<lambda>f. case map_of (zip SCOPE_COLUMNS vs) f of None \<Rightarrow> None | Some v \<Rightarrow> v) SCOPE_COLUMNS ! i = vs ! i"
        by (simp del: map_of_zip_nth)
    qed (use that in simp)
    from this [OF len] src show ?thesis by (simp add: audit_scope_def r scope_fields_def Let_def prod_eq_iff)
  qed
qed

lemma same_keys_iff: "same_keys xs ys \<longleftrightarrow> set xs = set ys"
  by (auto simp: same_keys_def list_all_iff)

definition row_effect :: "access_audit \<Rightarrow> grant_key set \<Rightarrow> grant_key set" where
  "row_effect r K = (K - set (revoked r)) \<union> set (granted r)"

definition trail_grants :: "owner_scope \<Rightarrow> access_audit list \<Rightarrow> grant_key set \<Rightarrow> grant_key set" where
  "trail_grants scope rows K = fold (\<lambda>r K. if audit_scope r = scope then row_effect r K else K) rows K"

lemma trail_grants_append: "trail_grants scope (xs @ ys) K = trail_grants scope ys (trail_grants scope xs K)"
  by (simp add: trail_grants_def)

lemma trail_grants_Nil [simp]: "trail_grants scope [] K = K"
  by (simp add: trail_grants_def)

text \<open>
  What the audit records of an owner's grants, whatever the tables that name the ids: every app, widget, action and column,
  and a whole screen when nothing else is granted on it. Whole main screens are left out: whether a snapshot keeps one
  depends on the screens' main screens at the time.
\<close>

definition recorded :: "grant_key set \<Rightarrow> grant_key set" where
  "recorded K = {k \<in> K. case k of AppKey i \<Rightarrow> i \<noteq> [] | ModuleKey _ \<Rightarrow> False
     | ScreenKey s \<Rightarrow> \<not> (\<exists>k'\<in>K. key_screen k' = Some s \<and> k' \<noteq> ScreenKey s) | _ \<Rightarrow> True}"

lemma recorded_snapshot: "set (snapshot_keys (snapshot_from_keys nt keys)) - range ModuleKey = recorded (set keys)"
proof -
  have "k \<in> set (snapshot_keys (snapshot_from_keys nt keys)) - range ModuleKey \<longleftrightarrow> k \<in> recorded (set keys)" for k
    unfolding snapshot_back by (cases k) (auto simp: recorded_def shadowed_def)
  then show ?thesis by blast
qed

text \<open>One owner: a row for it, applied to what is recorded before, gives what is recorded after; without a row they are
  the same.\<close>

lemma audit_owner_effect:
  assumes "R - range ModuleKey = recorded (set (grants_of before scope))"
  shows "(case audit_owner db actor http_method before after scope of None \<Rightarrow> R | Some r \<Rightarrow> row_effect r R) - range ModuleKey
    = recorded (set (grants_of after scope))"
proof -
  let ?old = "set (snapshot_keys (snapshot_from_keys (gd_names db) (grants_of before scope)))"
  let ?new = "set (snapshot_keys (snapshot_from_keys (gd_names db) (grants_of after scope)))"
  note rec = recorded_snapshot [of "gd_names db"]
  have "(R - (?old - ?new)) \<union> (?new - ?old) - range ModuleKey = ?new - range ModuleKey"
    using assms unfolding rec [symmetric] by blast
  moreover have "set (grants_of before scope) = set (grants_of after scope) \<Longrightarrow> R - range ModuleKey = recorded (set (grants_of after scope))"
    and "?old = ?new \<Longrightarrow> R - range ModuleKey = recorded (set (grants_of after scope))"
    using assms rec [of "grants_of before scope"] rec [of "grants_of after scope"] by simp_all
  ultimately show ?thesis
    unfolding rec
    by (auto simp: audit_owner_def write_access_audit_def Let_def same_keys_iff row_effect_def granted_def revoked_def set_diff_eq [symmetric]
        simp del: Diff_iff Un_iff)
qed

lemma trail_one_request:
  assumes "distinct scopes" and "\<And>s r. s \<in> set scopes \<Longrightarrow> f s = Some r \<Longrightarrow> audit_scope r = s"
  shows "trail_grants scope (List.map_filter f scopes) K =
    (if scope \<in> set scopes then case f scope of None \<Rightarrow> K | Some r \<Rightarrow> row_effect r K else K)"
  using assms
proof (induction scopes arbitrary: K)
  case (Cons s ss)
  then have IH: "trail_grants scope (List.map_filter f ss) K' =
      (if scope \<in> set ss then case f scope of None \<Rightarrow> K' | Some r \<Rightarrow> row_effect r K' else K')" for K' by simp
  show ?case
  proof (cases "f s")
    case None
    with IH Cons.prems(1) show ?thesis by (auto simp: map_filter_simps)
  next
    case (Some r)
    with Cons.prems(2) [of s r] have "audit_scope r = s" by simp
    with Some IH Cons.prems(1) show ?thesis by (auto simp: map_filter_simps trail_grants_def)
  qed
qed (simp add: map_filter_simps trail_grants_def)

lemma grants_of_outside: "scope \<notin> fst ` set st \<Longrightarrow> grants_of st scope = []"
  by (simp add: grants_of_def map_of_eq_None_iff split: option.split) (metis map_of_eq_None_iff option.distinct(1))

lemma request_trail:
  assumes "http_method \<in> set AUDITED_METHODS" and "status < 400"
    and "R - range ModuleKey = recorded (set (grants_of (permission_state db) scope))"
  shows "trail_grants scope (audited_request actor http_method status db db') R - range ModuleKey
    = recorded (set (grants_of (permission_state db') scope))"
proof -
  let ?b = "permission_state db" and ?a = "permission_state db'"
  let ?f = "audit_owner db' actor (Some http_method) ?b ?a"
  have own: "audit_scope r = s" if "s \<in> set (owners ?b ?a)" and "?f s = Some r" for s r
  proof (rule audit_scope_row [OF _ that(2)])
    have "set (owners ?b ?a) = fst ` set ?b \<union> fst ` set ?a" by (simp add: owners_def)
    with that(1) show "owner_ok s" using permission_state_ok by blast
  qed
  have "audited_request actor http_method status db db' = List.map_filter ?f (owners ?b ?a)"
    using assms(1,2) by (simp add: audited_request_def write_permission_audits_def)
  moreover have "distinct (owners ?b ?a)" by (simp add: owners_def)
  ultimately have "trail_grants scope (audited_request actor http_method status db db') R =
      (if scope \<in> set (owners ?b ?a) then case ?f scope of None \<Rightarrow> R | Some r \<Rightarrow> row_effect r R else R)"
    using trail_one_request [OF _ own] by simp
  then show ?thesis
    using audit_owner_effect [OF assms(3), of db' actor "Some http_method" ?a] assms(3)
      grants_of_outside [of scope ?b] grants_of_outside [of scope ?a]
    by (cases "scope \<in> set (owners ?b ?a)") (simp_all add: owners_def)
qed

text \<open>A run of the permission screens: every request goes through the mixin, and one that fails, or only reads,
  leaves the grants as they were.\<close>

inductive audited_run :: "grant_db \<Rightarrow> access_audit list \<Rightarrow> grant_db \<Rightarrow> bool" for db0 where
  start: "audited_run db0 [] db0"
| request: "audited_run db0 rows db \<Longrightarrow>
    (http_method \<in> set AUDITED_METHODS \<and> status < 400) \<or> permission_state db' = permission_state db \<Longrightarrow>
    audited_run db0 (rows @ audited_request actor http_method status db db') db'"

lemma audited_request_same: "permission_state db' = permission_state db \<Longrightarrow> audited_request actor http_method status db db' = []"
  by (auto simp: audited_request_def write_permission_audits_def audit_owner_def same_keys_iff Let_def map_filter_def)

text \<open>C7: The audit trail is complete for what it records. Through any requests that go through the mixin (one that fails
  or only reads leaves the grants alone), what an owner's permission state recorded at first, changed row by row as the
  trail's rows for that owner say, is what it records now: every app, widget, action and column, and every whole screen
  beside which nothing is granted on the screen. Of whole main screens, and of a whole screen beside a narrower grant,
  the trail says nothing exact. The permission state counts the rows of every configuration that is not deleted, also
  of one that is not active.\<close>
theorem audit_trail_replays:
  assumes "audited_run db0 rows db"
  shows "trail_grants scope rows (recorded (set (grants_of (permission_state db0) scope))) - range ModuleKey
    = recorded (set (grants_of (permission_state db) scope))"
  using assms
proof (induction rule: audited_run.induct)
  case start
  show ?case by (auto simp: recorded_def)
next
  case (request rows db http_method status db' actor)
  from request.hyps(2) show ?case
  proof
    assume "http_method \<in> set AUDITED_METHODS \<and> status < 400"
    then show ?case using request_trail [OF _ _ request.IH] by (simp add: trail_grants_append)
  next
    assume "permission_state db' = permission_state db"
    then show ?case using request.IH by (simp add: trail_grants_append audited_request_same)
  qed
qed

text \<open>A whole-screen grant beside a grant inside the screen is invisible to the audit: its revocation leaves no row.\<close>

lemma whole_screen_change_unlogged:
  assumes "grants_of before scope = [ScreenKey s, ColumnKey s c st]" and "grants_of after scope = [ColumnKey s c st]"
  shows "audit_owner db actor http_method before after scope = None"
proof -
  have "set (snapshot_keys (snapshot_from_keys nt [ScreenKey s, ColumnKey s c st])) = {ColumnKey s c st}"
    "set (snapshot_keys (snapshot_from_keys nt [ColumnKey s c st])) = {ColumnKey s c st}" for nt
    unfolding snapshot_back by (auto simp: shadowed_def key_screen_def)
  then show ?thesis
    using assms by (simp add: audit_owner_def write_access_audit_def Let_def same_keys_iff action_type_of_def)
qed

section \<open>A customer's access\<close>

record customer_config =
  cc_customer_id :: ident
  cc_app_module_ids :: "ident list"
  cc_app_screen_ids :: "ident list"
  cc_is_deleted :: bool

definition customer_access_snapshot :: "name_tables \<Rightarrow> customer_config option \<Rightarrow> snapshot" where
  "customer_access_snapshot nt config = (case config of None \<Rightarrow> EMPTY_SNAPSHOT
     | Some c \<Rightarrow> if cc_is_deleted c then EMPTY_SNAPSHOT
        else \<lparr>sp_app_modules = app_modules nt (cc_app_module_ids c),
              sp_modules = build_modules nt [] [] (filter (\<lambda>s. s \<noteq> []) (cc_app_screen_ids c)) [],
              sp_widgets = []\<rparr>)"

text \<open>\<open>customer\<close>: the customer's row, when it is found.\<close>

definition write_customer_access_audit ::
  "ident option \<Rightarrow> string option \<Rightarrow> owner_columns option \<Rightarrow> customer_config \<Rightarrow> snapshot \<Rightarrow> snapshot \<Rightarrow> string \<Rightarrow> access_audit option" where
  "write_customer_access_audit actor http_method customer config before after action_type =
     write_access_audit ''CUSTOMER_ACCESS'' actor http_method before after action_type
       ((''target_id'', Some (cc_customer_id config)) # flat_geo customer)"

text \<open>The handlers of the form: the configuration found before, the one stored.\<close>

definition audit_customer_save ::
  "name_tables \<Rightarrow> ident option \<Rightarrow> string option \<Rightarrow> owner_columns option \<Rightarrow> customer_config option \<Rightarrow> customer_config \<Rightarrow> access_audit option" where
  "audit_customer_save nt actor http_method customer existing saved =
     write_customer_access_audit actor http_method customer saved (customer_access_snapshot nt existing)
       (customer_access_snapshot nt (Some saved)) (if existing = None then ''CREATED'' else ''UPDATED'')"

definition audit_customer_destroy ::
  "name_tables \<Rightarrow> ident option \<Rightarrow> string option \<Rightarrow> owner_columns option \<Rightarrow> customer_config \<Rightarrow> access_audit option" where
  "audit_customer_destroy nt actor http_method customer config =
     write_customer_access_audit actor http_method customer config (customer_access_snapshot nt (Some config)) EMPTY_SNAPSHOT ''DELETED''"

definition customer_keys :: "customer_config option \<Rightarrow> grant_key set" where
  "customer_keys config = (case config of None \<Rightarrow> {}
     | Some c \<Rightarrow> if cc_is_deleted c then {} else AppKey ` (set (cc_app_module_ids c) - {[]}) \<union> ScreenKey ` (set (cc_app_screen_ids c) - {[]}))"

lemma customer_snapshot_keys: "set (snapshot_keys (customer_access_snapshot nt config)) = customer_keys config"
proof (cases config)
  case (Some c)
  show ?thesis
    unfolding Some snapshot_keys_def customer_access_snapshot_def option.case
    by (simp add: EMPTY_SNAPSHOT_def build_modules_keys customer_keys_def app_modules_def image_image del: set_concat) blast
qed (simp add: customer_access_snapshot_def customer_keys_def EMPTY_SNAPSHOT_def snapshot_keys_def)

text \<open>C20: Saving a customer's access writes an audit row exactly when the customer's apps or screens change, and the row
  grants and revokes exactly those that do; deleting it always writes a row, of a deletion, that revokes all the
  customer had. Either row names the customer, and a first save is told from a later one.\<close>
theorem customer_audit_exact:
  "(case audit_customer_save nt actor http_method customer existing saved of
      None \<Rightarrow> customer_keys existing = customer_keys (Some saved)
    | Some r \<Rightarrow> customer_keys existing \<noteq> customer_keys (Some saved)
        \<and> set (granted r) = customer_keys (Some saved) - customer_keys existing
        \<and> set (revoked r) = customer_keys existing - customer_keys (Some saved)
        \<and> map_of (aa_owner r) ''target_id'' = Some (Some (cc_customer_id saved))
        \<and> aa_action_type r = (if existing = None then ''CREATED'' else ''UPDATED''))
   \<and> (case audit_customer_destroy nt actor http_method customer config of
      None \<Rightarrow> False
    | Some r \<Rightarrow> granted r = [] \<and> set (revoked r) = customer_keys (Some config)
        \<and> map_of (aa_owner r) ''target_id'' = Some (Some (cc_customer_id config))
        \<and> aa_action_type r = ''DELETED'' \<and> aa_is_deleted r \<and> \<not> aa_is_active r)"
proof -
  have none: "snapshot_keys EMPTY_SNAPSHOT = []" by (simp add: EMPTY_SNAPSHOT_def snapshot_keys_def)
  show ?thesis
    by (auto simp: audit_customer_save_def audit_customer_destroy_def write_customer_access_audit_def write_access_audit_def
        Let_def same_keys_iff customer_snapshot_keys granted_def revoked_def none)
qed

section \<open>Witnesses\<close>

definition no_names :: name_tables where
  "no_names = \<lparr>nt_screens = [], nt_mains = [], nt_actions = [], nt_columns = [], nt_app_modules = []\<rparr>"

definition no_grants :: grant_db where
  "no_grants = \<lparr>gd_names = no_names, gd_screens = [], gd_columns = [], gd_widgets = [], gd_configs = [],
     gd_config_grants = [], gd_staff = []\<rparr>"

definition one_grant :: grant_db where
  "one_grant = no_grants\<lparr>gd_configs := [\<lparr>ac_unique_id = ''C1'', ac_staff_id = ''S1'', ac_app_module_ids = [''APP''],
     ac_enforce_strict_permissions = False, ac_is_active = True,
     ac_is_deleted = False\<rparr>]\<rparr>"

theorem audit_trail_replays_witness:
  "trail_grants (staff_owner (Some ''S1'')) ([] @ audited_request None ''POST'' 201 no_grants one_grant)
     (recorded (set (grants_of (permission_state no_grants) (staff_owner (Some ''S1''))))) - range ModuleKey
   = {AppKey ''APP''}"
proof -
  have "audited_run no_grants ([] @ audited_request None ''POST'' 201 no_grants one_grant) one_grant"
    by (rule audited_run.request [OF audited_run.start]) (simp add: AUDITED_METHODS_def)
  moreover have "set (grants_of (permission_state one_grant) (staff_owner (Some ''S1''))) = {AppKey ''APP''}"
    by (simp add: permission_state_grants row_grants_def state_rows_def screen_state_rows_def column_state_rows_def
        widget_state_rows_def app_state_rows_def config_state_rows_def live_configs_def one_grant_def no_grants_def)
  moreover have "recorded {AppKey ''APP''} = {AppKey ''APP''}" by (auto simp: recorded_def)
  ultimately show ?thesis using audit_trail_replays by metis
qed

end
