(* ===== verification/Permission_Names.thy ===== *)
theory Permission_Names
  imports Permission_Catalog
begin

text \<open>
  The current names of modules and screens (\<open>normalize_permission_names\<close> of \<open>utils/permission_response.py\<close>): a map
  written before the catalog renamed them is read under the names of the catalog, a screen that moved under its
  present module. No current name is an old one, so the renaming is stable.
\<close>

definition SCREEN_MODULE :: "(string \<times> string) list" where
  "SCREEN_MODULE = fold (\<lambda>(s, m). AList.update s m)
     (concat (map (\<lambda>(m, screens). map (\<lambda>s. (s, m)) screens) (structure_of MODULES))) []"

definition renamed :: "(string \<times> string) list \<Rightarrow> string \<Rightarrow> string" where
  "renamed table name = (case map_of table name of None \<Rightarrow> name | Some n \<Rightarrow> n)"

definition LEGACY_MODULE_NAMES :: "(string \<times> string) list" where
  "LEGACY_MODULE_NAMES = legacy_module_names MODULES"

definition LEGACY_SCREEN_NAMES :: "(string \<times> string) list" where
  "LEGACY_SCREEN_NAMES = legacy_screen_names MODULES"

definition current_names :: "string \<times> string \<Rightarrow> string \<times> string" where
  "current_names = (\<lambda>(m, s). let s' = renamed LEGACY_SCREEN_NAMES s
     in (case map_of SCREEN_MODULE s' of None \<Rightarrow> renamed LEGACY_MODULE_NAMES m | Some owner \<Rightarrow> owner, s'))"

lemma module_names_current: "list_all (\<lambda>(old, name). map_of LEGACY_MODULE_NAMES name = None) LEGACY_MODULE_NAMES"
proof -
  have "let t = LEGACY_MODULE_NAMES in list_all (\<lambda>(old, name). map_of t name = None) t" by code_simp
  then show ?thesis by (simp add: Let_def)
qed

lemma set_fold_update: "set (fold (\<lambda>(k, v). AList.update k v) ps al) \<subseteq> set ps \<union> set al"
proof (induction ps arbitrary: al)
  case (Cons p ps)
  have "set (AList.update k v al) \<subseteq> insert (k, v) (set al)" for k v by (induction al) auto
  with Cons show ?case by (cases p) fastforce
qed simp

definition all_screens :: "screen_row list" where
  "all_screens = concat (map (mod_screens \<circ> snd) MODULES)"

lemma set_screens_of: "(name, s) \<in> set (screens_of MODULES) \<Longrightarrow> s \<in> set all_screens \<and> name = scr_name s"
  using set_fold_update [of "map (\<lambda>s. (scr_name s, s)) all_screens" "[]"]
  by (auto simp: screens_of_def all_screens_def fold_map comp_def)

lemma current_screen_names: "let olds = map rev (concat (map (\<lambda>s. scr_legacy s @ scr_absorbs s) all_screens))
   in list_all (\<lambda>s. rev (scr_name s) \<notin> set olds) all_screens"
  by code_simp

lemma legacy_screen_name:
  assumes "(old, name) \<in> set LEGACY_SCREEN_NAMES"
  shows "\<exists>s\<in>set all_screens. old \<in> set (scr_legacy s @ scr_absorbs s) \<and> name = scr_name s"
  using assms set_fold_update [of "concat (map (\<lambda>(name, s). map (\<lambda>old. (old, name)) (scr_legacy s @ scr_absorbs s)) (screens_of MODULES))" "[]"]
  by (fastforce simp: LEGACY_SCREEN_NAMES_def legacy_screen_names_def dest: set_screens_of)

lemma current_screen_name:
  assumes "s \<in> set all_screens" shows "map_of LEGACY_SCREEN_NAMES (scr_name s) = None"
proof (rule ccontr)
  assume "map_of LEGACY_SCREEN_NAMES (scr_name s) \<noteq> None"
  then obtain n where "(scr_name s, n) \<in> set LEGACY_SCREEN_NAMES" by (auto dest: map_of_SomeD)
  from legacy_screen_name [OF this] obtain t where "t \<in> set all_screens" "scr_name s \<in> set (scr_legacy t @ scr_absorbs t)" by blast
  with assms current_screen_names show False by (fastforce simp: Let_def list_all_iff)
qed

lemma screen_names_current: "list_all (\<lambda>(old, name). map_of LEGACY_SCREEN_NAMES name = None) LEGACY_SCREEN_NAMES"
  by (auto simp: list_all_iff dest!: legacy_screen_name intro: current_screen_name)

lemma renamed_current:
  assumes "list_all (\<lambda>(old, name). map_of table name = None) table"
  shows "renamed table (renamed table n) = renamed table n"
proof (cases "map_of table n")
  case (Some n')
  then have "map_of table n' = None" using assms by (auto simp: list_all_iff dest!: map_of_SomeD)
  with Some show ?thesis by (simp add: renamed_def)
qed (simp add: renamed_def)

lemma current_names_idem: "current_names (current_names ms) = current_names ms"
  by (cases ms) (auto simp: current_names_def Let_def renamed_current [OF screen_names_current]
      renamed_current [OF module_names_current] split: option.splits)

end
