(* ===== verification/Permission_Response.thy ===== *)
theory Permission_Response
  imports Module_Permission Access_Audit Permission_Names
begin

text \<open>
  What a user may do: \<open>utils/permission_response.py\<close>, the screens of the mobile apps (\<open>utils/app_feature_grants.py\<close>) and
  the lookup of the middleware that caches its answer for a minute. Stored rows become the permission map the
  middleware theory reads; a staff member's access configuration is layered on it; renamed modules and screens are
  brought to their current names.

  A permission map is a dict of dicts of lists, as in \<open>Module_Permission\<close>. The hash of the payload and the time
  it was made are left out.
\<close>

section \<open>Names\<close>

definition is_alnum :: "char \<Rightarrow> bool" where
  "is_alnum c \<longleftrightarrow> is_alpha c \<or> is_digit c"

text \<open>\<open>re.sub\<close>: each run of other characters becomes one dash.\<close>

fun dashed :: "bool \<Rightarrow> string \<Rightarrow> string" where
  "dashed inside [] = []"
| "dashed inside (c # cs) = (if is_alnum c then c # dashed False cs else if inside then dashed True cs else CHR ''-'' # dashed True cs)"

definition strip_dash :: "string \<Rightarrow> string" where
  "strip_dash s = rev (dropWhile (\<lambda>c. c = CHR ''-'') (rev (dropWhile (\<lambda>c. c = CHR ''-'') s)))"

definition permission_key :: "string option \<Rightarrow> string" where
  "permission_key v = strip_dash (dashed False (lower (py_strip (case v of None \<Rightarrow> [] | Some s \<Rightarrow> s))))"

definition ACTION_KEYS :: "string list" where
  "ACTION_KEYS = [''view'', ''add'', ''edit'', ''delete'', ''import'', ''export'']"

type_synonym action_map = "(string \<times> bool) list"

definition base_action_map :: action_map where
  "base_action_map = map (\<lambda>a. (a, False)) ACTION_KEYS"

definition permission_action_name :: "action_row option \<Rightarrow> string option" where
  "permission_action_name action = (case action of None \<Rightarrow> None
     | Some a \<Rightarrow> Some (if an_variable_name a \<noteq> [] then an_variable_name a else an_action_name a))"

definition action_row_of :: "name_tables \<Rightarrow> ident \<Rightarrow> action_row option" where
  "action_row_of nt i = (if i = [] then None else find (\<lambda>a. an_unique_id a = i) (nt_actions nt))"

definition screen_of :: "name_tables \<Rightarrow> ident \<Rightarrow> screen_name_row option" where
  "screen_of nt i = (if i = [] then None else user_screen_row nt i)"

definition mainscreen_name :: "name_tables \<Rightarrow> ident \<Rightarrow> string" where
  "mainscreen_name nt i = (case main_row nt (Some i) of None \<Rightarrow> [] | Some r \<Rightarrow> mn_mainscreen_name r)"

definition userscreen_name :: "name_tables \<Rightarrow> ident \<Rightarrow> string" where
  "userscreen_name nt i = (case screen_of nt i of None \<Rightarrow> [] | Some r \<Rightarrow> sn_userscreen_name r)"

definition grant_action_name :: "name_tables \<Rightarrow> ident \<Rightarrow> string option" where
  "grant_action_name nt i = permission_action_name (action_row_of nt i)"

section \<open>Permission maps\<close>

text \<open>\<open>if x not in xs: xs.append(x)\<close>.\<close>

definition append_new :: "'a \<Rightarrow> 'a list \<Rightarrow> 'a list" where
  "append_new x xs = (if x \<in> set xs then xs else xs @ [x])"

definition grant_action :: "string \<Rightarrow> string \<Rightarrow> string option \<Rightarrow> permissions \<Rightarrow> permissions" where
  "grant_action m s action = dict_alter m [] (dict_alter s []
     (\<lambda>actions. if truthy action then append_new (the action) actions else actions))"

definition build_action_permissions :: "name_tables \<Rightarrow> screen_grant list \<Rightarrow> permissions" where
  "build_action_permissions nt rows =
     fold (\<lambda>r. grant_action (mainscreen_name nt (sg_mainscreen_id r)) (userscreen_name nt (sg_userscreen_id r))
                 (grant_action_name nt (sg_userscreenaction_id r)))
       (sort_key sg_order_no rows) []"

definition merge_permission_maps :: "permissions \<Rightarrow> permissions \<Rightarrow> permissions" where
  "merge_permission_maps base extra =
     fold (\<lambda>(m, screens). dict_alter m [] (fold (\<lambda>(s, actions). dict_alter s [] (\<lambda>old. sort (remdups (old @ actions)))) screens))
       extra base"

definition APP_DEFAULTS :: permissions where
  "APP_DEFAULTS =
     [(''transport-masters'', [(''vehicle-creation'', [''view''])]),
      (''customer-masters'', [(''customer-creation'', [''view''])]),
      (''daily-operations'', [(''daily-trip-plan'', [''view'']), (''vehicle-breakdown'', [''view'', ''add'', ''edit'']),
         (''daily-trip-logs'', [''view''])])]"

definition SUPERVISOR_DEFAULTS :: permissions where
  "SUPERVISOR_DEFAULTS =
     [(''transport-masters'', [(''vehicle-creation'', [''view''])]),
      (''staff-management'', [(''staff-creation'', [''view''])]),
      (''customer-masters'', [(''customer-creation'', [''view''])]),
      (''schedule-setup'', [(''staff-template'', [''view'', ''add'', ''edit'']),
         (''alternative-staff-template'', [''view'', ''add'', ''edit'']), (''collection-point'', [''view'']), (''trip-plans'', [''view''])]),
      (''daily-operations'', [(''daily-trip-plan'', [''view'', ''edit'']), (''daily-trip-tracking'', [''view'']),
         (''household-collection-event'', [''view'']), (''secondary-bin-collection-event'', [''view'']),
         (''vehicle-breakdown'', [''view'', ''edit'']), (''daily-trip-logs'', [''view''])])]"

definition role_default_permissions :: "string option \<Rightarrow> permissions" where
  "role_default_permissions role_name =
     (let key = permission_key role_name
      in if key = [] then []
         else if suffix ''driver'' key \<or> suffix ''operator'' key then APP_DEFAULTS
         else if suffix ''supervisor'' key then SUPERVISOR_DEFAULTS else [])"

definition apply_role_default_permissions :: "permissions \<Rightarrow> string option \<Rightarrow> permissions" where
  "apply_role_default_permissions permissions role_name = merge_permission_maps permissions (role_default_permissions role_name)"

section \<open>Details, columns and widgets\<close>

record column_payload =
  cp_unique_id :: ident
  cp_main_screen_id :: ident
  cp_main_screen_name :: string
  cp_user_screen_id :: ident
  cp_user_screen_name :: string
  cp_screen_key :: string
  cp_column_id :: ident
  cp_field_name :: string
  cp_can_view :: bool
  cp_is_required :: bool
  cp_order_no :: int

record screen_detail =
  sd_main_screen_id :: ident
  sd_main_screen_name :: string
  sd_main_screen_key :: string
  sd_user_screen_id :: ident
  sd_screen_key :: string
  sd_order_no :: "int option"
  sd_permissions :: action_map
  sd_columns :: "column_payload list"

type_synonym details = "(string \<times> (string \<times> screen_detail) list) list"

definition screen_key :: "name_tables \<Rightarrow> ident \<Rightarrow> string" where
  "screen_key nt sid = permission_key (case screen_of nt sid of None \<Rightarrow> None
     | Some r \<Rightarrow> Some (if sn_folder_name r \<noteq> [] then sn_folder_name r else sn_userscreen_name r))"

definition empty_detail :: "name_tables \<Rightarrow> ident \<Rightarrow> ident \<Rightarrow> screen_detail" where
  "empty_detail nt main_id sid =
     \<lparr>sd_main_screen_id = main_id, sd_main_screen_name = mainscreen_name nt main_id,
      sd_main_screen_key = permission_key (Some (mainscreen_name nt main_id)), sd_user_screen_id = sid,
      sd_screen_key = screen_key nt sid, sd_order_no = map_option sn_order_no (screen_of nt sid),
      sd_permissions = base_action_map, sd_columns = []\<rparr>"

definition tick :: "string option \<Rightarrow> action_map \<Rightarrow> action_map" where
  "tick action m = (if truthy action then dict_alter (the action) True (\<lambda>_. True) m else m)"

definition detail_action :: "name_tables \<Rightarrow> screen_grant \<Rightarrow> details \<Rightarrow> details" where
  "detail_action nt r = dict_alter (mainscreen_name nt (sg_mainscreen_id r)) []
     (dict_alter (userscreen_name nt (sg_userscreen_id r)) (empty_detail nt (sg_mainscreen_id r) (sg_userscreen_id r))
       (\<lambda>d. d\<lparr>sd_permissions := tick (grant_action_name nt (sg_userscreenaction_id r)) (sd_permissions d)\<rparr>))"

definition screen_main_id :: "name_tables \<Rightarrow> ident \<Rightarrow> ident" where
  "screen_main_id nt sid = (case screen_of nt sid of None \<Rightarrow> [] | Some r \<Rightarrow> sn_mainscreen_id r)"

definition column_row_of :: "name_tables \<Rightarrow> ident \<Rightarrow> column_row option" where
  "column_row_of nt i = (if i = [] then None else find (\<lambda>c. un_unique_id c = i) (nt_columns nt))"

definition column_payload_of :: "name_tables \<Rightarrow> column_grant \<Rightarrow> column_payload" where
  "column_payload_of nt r =
     (let sid = cg_userscreen_id r; column = column_row_of nt (cg_column_id r)
      in \<lparr>cp_unique_id = cg_unique_id r,
          cp_main_screen_id = (case main_row nt (Some (screen_main_id nt sid)) of None \<Rightarrow> [] | Some m \<Rightarrow> mn_unique_id m),
          cp_main_screen_name = mainscreen_name nt (screen_main_id nt sid),
          cp_user_screen_id = (case screen_of nt sid of None \<Rightarrow> [] | Some r \<Rightarrow> sn_unique_id r),
          cp_user_screen_name = userscreen_name nt sid, cp_screen_key = screen_key nt sid,
          cp_column_id = (case column of None \<Rightarrow> [] | Some c \<Rightarrow> un_unique_id c),
          cp_field_name = (case column of None \<Rightarrow> [] | Some c \<Rightarrow> un_field_name c),
          cp_can_view = (cg_field_permission_state r \<noteq> ''HIDDEN''),
          cp_is_required = (case column of None \<Rightarrow> False | Some c \<Rightarrow> un_is_required c),
          cp_order_no = cg_order_no r\<rparr>)"

text \<open>The main screen and name under which the screens of the rows were entered: of a screen granted twice, the last.\<close>

definition screen_meta :: "name_tables \<Rightarrow> screen_grant list \<Rightarrow> (ident \<times> string \<times> string) list" where
  "screen_meta nt rows = fold (\<lambda>r. dict_alter (sg_userscreen_id r) ([], []) (\<lambda>_.
     (mainscreen_name nt (sg_mainscreen_id r), userscreen_name nt (sg_userscreen_id r)))) rows []"

text \<open>A column of a screen that has no row and no grant: \<open>userscreen.mainscreen\<close> of \<open>None\<close> raises, the result is \<open>None\<close>.\<close>

definition detail_column ::
  "name_tables \<Rightarrow> column_grant \<Rightarrow> ((ident \<times> string \<times> string) list \<times> details) option
     \<Rightarrow> ((ident \<times> string \<times> string) list \<times> details) option" where
  "detail_column nt r state = (case state of None \<Rightarrow> None | Some (meta, details) \<Rightarrow>
     (let sid = cg_userscreen_id r; main_id = screen_main_id nt sid;
          add = (\<lambda>names. dict_alter (fst names) [] (dict_alter (snd names) (empty_detail nt main_id sid)
                  (\<lambda>d. d\<lparr>sd_columns := sd_columns d @ [column_payload_of nt r]\<rparr>)))
      in case map_of meta sid of
           Some names \<Rightarrow> Some (meta, add names details)
         | None \<Rightarrow>
             if screen_of nt sid = None then None
             else let names = (mainscreen_name nt main_id, userscreen_name nt sid)
                  in Some (meta @ [(sid, names)], add names details)))"

definition build_permission_details :: "name_tables \<Rightarrow> screen_grant list \<Rightarrow> column_grant list \<Rightarrow> details option" where
  "build_permission_details nt rows columns =
     (let rows' = sort_key (\<lambda>r. (sg_mainscreen_id r, sg_userscreen_id r, sg_order_no r)) rows
      in map_option snd (fold (detail_column nt) (sort_key (\<lambda>r. (cg_userscreen_id r, cg_order_no r)) columns)
           (Some (screen_meta nt rows', fold (detail_action nt) rows' []))))"

definition build_column_permissions ::
  "name_tables \<Rightarrow> column_grant list \<Rightarrow> (string \<times> (string \<times> column_payload list) list) list \<times> column_payload list" where
  "build_column_permissions nt columns =
     (let rows = sort_key (\<lambda>r. (cg_userscreen_id r, cg_order_no r)) columns;
          named = filter (\<lambda>r. screen_of nt (cg_userscreen_id r) \<noteq> None
                     \<and> main_row nt (Some (screen_main_id nt (cg_userscreen_id r))) \<noteq> None) rows
      in (fold (\<lambda>r. let p = column_payload_of nt r
            in dict_alter (cp_main_screen_name p) [] (dict_alter (cp_user_screen_name p) [] (\<lambda>ps. ps @ [p]))) named [],
          map (column_payload_of nt) rows))"

definition build_dashboard_permissions :: "widget_grant list \<Rightarrow> (string \<times> bool) list" where
  "build_dashboard_permissions rows =
     fold (\<lambda>r. dict_alter (wg_widget_name r) True (\<lambda>_. wg_is_enabled r)) (sort_key wg_order_no rows) []"

section \<open>A staff member's own configuration\<close>

definition staff_access_config :: "grant_db \<Rightarrow> ident option \<Rightarrow> access_config option" where
  "staff_access_config db staff_id =
     (if \<not> truthy staff_id then None
      else find (\<lambda>c. Some (ac_staff_id c) = staff_id \<and> ac_is_active c \<and> \<not> ac_is_deleted c) (gd_configs db))"

definition configured_action :: "action_row \<Rightarrow> string" where
  "configured_action a = lower (if an_variable_name a \<noteq> [] then an_variable_name a else an_action_name a)"

definition configured_row :: "name_tables \<Rightarrow> access_config_grant \<Rightarrow> (string \<times> string \<times> string) option" where
  "configured_row nt g =
     (case (main_row nt (Some (ag_mainscreen_id g)), screen_of nt (ag_userscreen_id g), action_row_of nt (ag_userscreenaction_id g)) of
        (Some m, Some s, Some a) \<Rightarrow>
          if configured_action a = [] then None
          else Some (mn_mainscreen_name m, sn_userscreen_name s, configured_action a)
      | _ \<Rightarrow> None)"

definition staff_configured_permissions :: "grant_db \<Rightarrow> access_config option \<Rightarrow> permissions" where
  "staff_configured_permissions db config = (case config of None \<Rightarrow> []
     | Some c \<Rightarrow> fold (\<lambda>(m, s, a). grant_action m s (Some a))
         (List.map_filter (configured_row (gd_names db))
            (filter (\<lambda>g. ag_config_id g = ac_unique_id c \<and> ag_is_active g \<and> \<not> ag_is_deleted g) (gd_config_grants db))) [])"

definition file_actions :: "string \<Rightarrow> string \<times> string list \<Rightarrow> permissions \<Rightarrow> permissions" where
  "file_actions m = (\<lambda>(s, actions). let (owner, s') = current_names (m, s)
     in dict_alter owner [] (dict_alter s' [] (fold append_new actions)))"

definition normalize_permission_names :: "permissions \<Rightarrow> permissions" where
  "normalize_permission_names permissions = fold (\<lambda>(m, screens). fold (file_actions m) screens) permissions []"

definition apply_staff_access_configuration :: "grant_db \<Rightarrow> permissions \<Rightarrow> ident option \<Rightarrow> permissions" where
  "apply_staff_access_configuration db permissions staff_id =
     (case staff_access_config db staff_id of
        None \<Rightarrow> normalize_permission_names permissions
      | Some c \<Rightarrow>
          let configured = staff_configured_permissions db (Some c)
          in if ac_enforce_strict_permissions c then normalize_permission_names configured
             else if configured = [] then normalize_permission_names permissions
             else normalize_permission_names (merge_permission_maps permissions configured))"

definition staff_app_modules :: "grant_db \<Rightarrow> access_config option \<Rightarrow> string list" where
  "staff_app_modules db config = (case config of None \<Rightarrow> []
     | Some c \<Rightarrow> map am_surface_key (filter (\<lambda>m. am_unique_id m \<in> set (ac_app_module_ids c) \<and> am_is_active m \<and> \<not> am_is_deleted m)
         (nt_app_modules (gd_names db))))"

section \<open>The mobile apps\<close>

definition APP_SURFACE_KEYS :: "string list" where
  "APP_SURFACE_KEYS = [''citizen'', ''driver'', ''operator'', ''supervisor'']"

definition SCREEN_PERMISSIONS :: "(string \<times> (string \<times> string \<times> string) option) list" where
  "SCREEN_PERMISSIONS =
     [(''supervisor.dashboard'', Some (''daily-operations'', ''daily-trip-plan'', ''view'')),
      (''supervisor.trips'', Some (''daily-operations'', ''daily-trip-plan'', ''view'')),
      (''supervisor.crew'', Some (''schedule-setup'', ''staff-template'', ''view'')),
      (''supervisor.households'', Some (''customer-masters'', ''customer-creation'', ''view'')),
      (''supervisor.waste'', Some (''daily-operations'', ''household-collection-event'', ''view'')),
      (''supervisor.breakdowns'', Some (''daily-operations'', ''vehicle-breakdown'', ''view'')),
      (''supervisor.retrips'', Some (''daily-operations'', ''re-trip-requests'', ''view'')),
      (''supervisor.complaints'', Some (''complaint-management'', ''complaint-tickets'', ''view'')),
      (''supervisor.notifications'', Some (''daily-operations'', ''staff-notifications'', ''view'')),
      (''supervisor.livemap'', Some (''daily-operations'', ''daily-trip-tracking'', ''view'')),
      (''supervisor.vehicles'', Some (''transport-masters'', ''vehicle-creation'', ''view'')),
      (''supervisor.attendance'', None), (''supervisor.profile'', None),
      (''driver.trips'', Some (''daily-operations'', ''daily-trip-plan'', ''view'')),
      (''driver.households'', Some (''daily-operations'', ''household-collection-event'', ''view'')),
      (''driver.bins'', Some (''daily-operations'', ''secondary-bin-collection-event'', ''view'')),
      (''driver.delays'', Some (''daily-operations'', ''trip-delay-reports'', ''view'')),
      (''driver.breakdowns'', Some (''daily-operations'', ''vehicle-breakdown'', ''view'')),
      (''driver.retrips'', Some (''daily-operations'', ''re-trip-requests'', ''view'')),
      (''driver.notifications'', Some (''daily-operations'', ''staff-notifications'', ''view'')),
      (''driver.customers'', Some (''customer-masters'', ''customer-creation'', ''view'')),
      (''driver.attendance'', None), (''driver.profile'', None),
      (''operator.trips'', Some (''daily-operations'', ''daily-trip-plan'', ''view'')),
      (''operator.households'', Some (''daily-operations'', ''household-collection-event'', ''view'')),
      (''operator.bins'', Some (''daily-operations'', ''secondary-bin-collection-event'', ''view'')),
      (''operator.breakdowns'', Some (''daily-operations'', ''vehicle-breakdown'', ''view'')),
      (''operator.notifications'', Some (''daily-operations'', ''staff-notifications'', ''view'')),
      (''operator.attendance'', None), (''operator.profile'', None),
      (''citizen.complaints'', None), (''citizen.collections'', None), (''citizen.profile'', None)]"

text \<open>\<open>(permissions or {}).get(module, {}).get(screen)\<close>.\<close>

definition screen_actions :: "permissions \<Rightarrow> string \<Rightarrow> string \<Rightarrow> string list option" where
  "screen_actions permissions m s = (case map_of permissions m of None \<Rightarrow> None | Some screens \<Rightarrow> map_of screens s)"

definition after_dot :: "string \<Rightarrow> string" where
  "after_dot key = drop 1 (dropWhile (\<lambda>c. c \<noteq> CHR ''.'') key)"

definition screen_visible :: "permissions \<Rightarrow> string \<Rightarrow> string list option \<Rightarrow> string \<Rightarrow> (string \<times> string \<times> string) option \<Rightarrow> bool" where
  "screen_visible permissions surface citizen_screens key requirement =
     (case requirement of
        None \<Rightarrow> (case citizen_screens of None \<Rightarrow> True
          | Some names \<Rightarrow> surface \<noteq> ''citizen'' \<or> ''app-citizen-'' @ after_dot key \<in> set names)
      | Some (m, s, action) \<Rightarrow>
          let actions = (case screen_actions permissions m s of Some actions \<Rightarrow> Some actions
                | None \<Rightarrow> (case map_of MODULE_PERMISSION_ALIASES m of
                    None \<Rightarrow> None | Some alias \<Rightarrow> if alias = [] then None else screen_actions permissions alias s))
          in (case actions of None \<Rightarrow> False | Some actions \<Rightarrow> action \<in> set actions))"

definition visible_screens :: "permissions \<Rightarrow> string \<Rightarrow> string list option \<Rightarrow> string list" where
  "visible_screens permissions surface citizen_screens =
     map fst (filter (\<lambda>(key, requirement). prefix (surface @ ''.'') key
         \<and> screen_visible permissions surface citizen_screens key requirement) SCREEN_PERMISSIONS)"

definition surfaces_from_app_modules :: "string list option \<Rightarrow> string list" where
  "surfaces_from_app_modules modules = filter (\<lambda>s. case modules of None \<Rightarrow> False | Some ms \<Rightarrow> s \<in> set ms) APP_SURFACE_KEYS"

definition build_app_screens :: "permissions \<Rightarrow> string list \<Rightarrow> string list option \<Rightarrow> (string \<times> string list) list" where
  "build_app_screens permissions modules citizen_screens =
     fold (\<lambda>surface. dict_alter surface [] (\<lambda>_. visible_screens permissions surface citizen_screens)) modules []"

record app_surface =
  as_key :: string
  as_label :: string
  as_route :: string
  as_is_default :: bool

definition APP_SURFACE_CONFIG :: "(string \<times> string \<times> string) list" where
  "APP_SURFACE_CONFIG = [(''citizen'', ''Citizen'', ''/citizen/home''), (''operator'', ''Operator'', ''/operator/home''),
     (''driver'', ''Driver'', ''/driver/home''), (''supervisor'', ''Supervisor'', ''/supervisor/home''), (''admin'', ''Admin'', ''/admin/home'')]"

text \<open>The configured surfaces of a list of keys; the first key is the default one.\<close>

definition surface_entries :: "string list \<Rightarrow> app_surface list" where
  "surface_entries keys = List.map_filter (\<lambda>(i, key). case map_of APP_SURFACE_CONFIG key of None \<Rightarrow> None
     | Some (label, route) \<Rightarrow> Some \<lparr>as_key = key, as_label = label, as_route = route, as_is_default = (i = 0)\<rparr>)
     (zip [0..<length keys] keys)"

record screen_access =
  sx_screen_name :: string
  sx_screen_key :: string
  sx_permissions :: action_map

record module_access =
  ma_module_name :: string
  ma_module_key :: string
  ma_screens :: "screen_access list"

definition build_fallback_module_access :: "permissions \<Rightarrow> module_access list" where
  "build_fallback_module_access permissions =
     map (\<lambda>(m, screens). \<lparr>ma_module_name = m, ma_module_key = permission_key (Some m),
            ma_screens = map (\<lambda>(s, actions). \<lparr>sx_screen_name = s, sx_screen_key = permission_key (Some s),
              sx_permissions = fold (\<lambda>a. let key = permission_key (Some a) in tick (Some key)) actions base_action_map\<rparr>)
              (sort_key fst screens)\<rparr>)
       (sort_key fst permissions)"

definition ADMIN_MODULES :: "string list" where
  "ADMIN_MODULES = [''screen-management'', ''role-management'', ''staff-management'', ''transport-masters'', ''audits'',
     ''location-masters'', ''common-masters'', ''complaint-management'']"

definition OPERATOR_SCREENS :: "string list" where
  "OPERATOR_SCREENS = [''customer-creation'', ''trip_plan'', ''attendance-list'', ''alternative-stafftemplate'']"

definition infer_surface :: "module_access list \<Rightarrow> permissions \<Rightarrow> string option \<Rightarrow> string option \<Rightarrow> string list" where
  "infer_surface modules permissions role_name user_type =
     (let role = permission_key role_name; kind = permission_key user_type;
          module_keys = map ma_module_key modules;
          screen_keys = concat (map (map sx_screen_key \<circ> ma_screens) modules);
          keys = (if kind \<in> {''customer'', ''citizen''} \<or> role \<in> {''customer'', ''citizen''} then [''citizen'']
                  else if sublist ''driver'' role then [''driver'']
                  else if sublist ''operator'' role then [''operator'']
                  else if sublist ''supervisor'' role then [''supervisor'']
                  else if sublist ''admin'' role \<or> sublist ''superadmin'' role \<or> sublist ''platform'' role then [''admin'']
                  else if list_ex (\<lambda>k. k \<in> set ADMIN_MODULES) module_keys then [''admin'']
                  else if list_ex (\<lambda>k. k \<in> set OPERATOR_SCREENS) screen_keys
                    \<or> list_ex (\<lambda>k. k \<in> {''customer-masters'', ''process'', ''process-items''}) module_keys then [''operator'']
                  else [])
      in if keys = [] \<and> permissions \<noteq> [] then [''admin''] else keys)"

definition infer_app_surfaces :: "module_access list \<Rightarrow> permissions \<Rightarrow> string option \<Rightarrow> string option \<Rightarrow> app_surface list" where
  "infer_app_surfaces modules permissions role_name user_type =
     surface_entries (infer_surface modules permissions role_name user_type)"

text \<open>Surface, route, and the keys of the first module with screens and its first screen.\<close>

type_synonym landing = "string \<times> string \<times> string option \<times> string option"

definition build_landing :: "app_surface list \<Rightarrow> module_access list \<Rightarrow> landing option" where
  "build_landing surfaces modules = (case surfaces of [] \<Rightarrow> None
     | primary # _ \<Rightarrow>
         let first_module = find (\<lambda>m. ma_screens m \<noteq> []) modules;
             first_screen = (case first_module of None \<Rightarrow> None | Some m \<Rightarrow> find (\<lambda>s. sx_permissions s \<noteq> []) (ma_screens m))
         in Some (as_key primary, as_route primary, map_option ma_module_key first_module, map_option sx_screen_key first_screen))"

section \<open>The payload\<close>

text \<open>\<open>py_app_modules\<close> is \<open>None\<close> where the payload has no such key.\<close>

record payload =
  py_permissions :: permissions
  py_permission_details :: details
  py_column_permissions :: "(string \<times> (string \<times> column_payload list) list) list \<times> column_payload list"
  py_dashboard_permissions :: "(string \<times> bool) list"
  py_module_access :: "module_access list"
  py_app_modules :: "string list option"
  py_app_screens :: "(string \<times> string list) list"
  py_strict_permissions :: bool
  py_app_surfaces :: "app_surface list"
  py_landing :: "landing option"

definition preferred_first :: "string \<Rightarrow> string list \<Rightarrow> string list" where
  "preferred_first key keys = (if key \<in> set keys then key # remove1 key keys else keys)"

definition finalize_permission_payload ::
  "payload \<Rightarrow> permissions option \<Rightarrow> string option \<Rightarrow> string option \<Rightarrow> string option \<Rightarrow> string list option \<Rightarrow> payload" where
  "finalize_permission_payload payload permissions role_name user_type app_module ticked =
     (let effective = (case permissions of None \<Rightarrow> py_permissions payload | Some p \<Rightarrow> p);
          module_access = (if (permissions \<noteq> None \<and> effective \<noteq> py_permissions payload) \<or> py_module_access payload = []
                           then build_fallback_module_access effective else py_module_access payload);
          modules = (case ticked of None \<Rightarrow> py_app_modules payload | Some ms \<Rightarrow> Some ms);
          granted = surfaces_from_app_modules modules;
          surfaces = (if granted \<noteq> [] then surface_entries (preferred_first (permission_key app_module) granted)
                      else infer_app_surfaces module_access effective role_name user_type)
      in payload\<lparr>py_permissions := effective, py_module_access := module_access, py_app_surfaces := surfaces,
           py_landing := build_landing surfaces module_access\<rparr>)"

section \<open>The rows of an owner\<close>

record permission_filters =
  pf_usertype :: "ident option"
  pf_staffusertype :: "ident option"
  pf_contractorusertype :: "ident option"
  pf_governmentusertype :: "ident option"
  pf_state :: "ident option"
  pf_district :: "ident option"
  pf_area_type :: "ident option"
  pf_local_body_type :: "string option"
  pf_local_body_id :: "ident option"
  pf_owner_kind :: "string option"
  pf_staff_id :: "ident option"
  pf_include_all :: bool

definition no_filters :: permission_filters where
  "no_filters = \<lparr>pf_usertype = None, pf_staffusertype = None, pf_contractorusertype = None, pf_governmentusertype = None,
     pf_state = None, pf_district = None, pf_area_type = None, pf_local_body_type = None, pf_local_body_id = None,
     pf_owner_kind = None, pf_staff_id = None, pf_include_all = False\<rparr>"

text \<open>A filter that is given must be met; one that is not given is left out.\<close>

definition given :: "string option \<Rightarrow> string option \<Rightarrow> bool" where
  "given v column \<longleftrightarrow> (if truthy v then column = v else True)"

definition permission_querysets :: "permission_filters \<Rightarrow> owner_columns \<Rightarrow> bool" where
  "permission_querysets pf row =
     (let owner = given (pf_state pf) (row ''state_id'') \<and> given (pf_district pf) (row ''district_id'')
            \<and> given (pf_area_type pf) (row ''area_type_id'') \<and> given (pf_owner_kind pf) (row ''permission_owner_kind'')
            \<and> given (pf_staff_id pf) (row ''staff_id'')
      in if pf_include_all pf then True
         else if truthy (pf_local_body_type pf) \<and> truthy (pf_local_body_id pf) then
           row ''local_body_type'' = pf_local_body_type pf \<and> row ''local_body_id'' = pf_local_body_id pf \<and> owner
         else if truthy (pf_owner_kind pf) \<or> truthy (pf_staff_id pf) \<or> truthy (pf_state pf) \<or> truthy (pf_district pf)
             \<or> truthy (pf_area_type pf) then
           row ''local_body_type'' = None \<and> row ''local_body_id'' = None \<and> owner
         else if \<not> truthy (pf_usertype pf) then False
         else row ''usertype_id'' = pf_usertype pf
           \<and> (if truthy (pf_staffusertype pf) then row ''staffusertype_id'' = pf_staffusertype pf
              else if truthy (pf_contractorusertype pf) then row ''contractorusertype_id'' = pf_contractorusertype pf
              else if truthy (pf_governmentusertype pf) then row ''governmentusertype_id'' = pf_governmentusertype pf
              else row ''staffusertype_id'' = None \<and> row ''contractorusertype_id'' = None \<and> row ''governmentusertype_id'' = None))"

definition action_rows :: "grant_db \<Rightarrow> permission_filters \<Rightarrow> screen_grant list" where
  "action_rows db pf = filter (\<lambda>r. sg_is_active r \<and> \<not> sg_is_deleted r \<and> permission_querysets pf (sg_owner r)) (gd_screens db)"

definition column_rows :: "grant_db \<Rightarrow> permission_filters \<Rightarrow> column_grant list" where
  "column_rows db pf = filter (\<lambda>r. cg_is_active r \<and> \<not> cg_is_deleted r \<and> permission_querysets pf (cg_owner r)) (gd_columns db)"

definition dashboard_rows :: "grant_db \<Rightarrow> permission_filters \<Rightarrow> widget_grant list" where
  "dashboard_rows db pf = filter (\<lambda>r. wg_is_active r \<and> \<not> wg_is_deleted r \<and> permission_querysets pf (wg_owner r)) (gd_widgets db)"

text \<open>\<open>resolve_permission_payload\<close>, without \<open>app_modules\<close>, \<open>citizen_screens\<close> and \<open>app_module\<close>, which no caller passes.\<close>

definition resolve_permission_payload ::
  "grant_db \<Rightarrow> permission_filters \<Rightarrow> string option \<Rightarrow> string option \<Rightarrow> payload option" where
  "resolve_permission_payload db pf role_name user_type =
     (let nt = gd_names db; rows = action_rows db pf; columns = column_rows db pf;
          config = staff_access_config db (pf_staff_id pf);
          permissions = apply_staff_access_configuration db (build_action_permissions nt rows) (pf_staff_id pf);
          modules = staff_app_modules db config
      in map_option (\<lambda>details.
           finalize_permission_payload
             \<lparr>py_permissions = permissions, py_permission_details = details,
              py_column_permissions = build_column_permissions nt columns,
              py_dashboard_permissions = build_dashboard_permissions (dashboard_rows db pf),
              py_module_access = build_fallback_module_access permissions, py_app_modules = Some modules,
              py_app_screens = build_app_screens (apply_role_default_permissions permissions role_name) modules None,
              py_strict_permissions = (case config of None \<Rightarrow> False | Some c \<Rightarrow> ac_enforce_strict_permissions c),
              py_app_surfaces = [], py_landing = None\<rparr> None role_name user_type None (Some modules))
           (build_permission_details nt rows columns))"

text \<open>The actions of each screen that both maps grant; a screen, or module, without any is left out.\<close>

definition intersect_screens :: "grants \<Rightarrow> grants \<Rightarrow> grants" where
  "intersect_screens screens staff_screens = List.map_filter (\<lambda>(s, actions).
     case map_of staff_screens s of None \<Rightarrow> None
     | Some staff_actions \<Rightarrow> let common = filter (\<lambda>a. a \<in> set staff_actions) actions
         in if common = [] then None else Some (s, common)) screens"

definition intersect_action_permissions :: "permissions \<Rightarrow> permissions \<Rightarrow> permissions" where
  "intersect_action_permissions super_admin staff = List.map_filter (\<lambda>(m, screens).
     case map_of staff m of None \<Rightarrow> None
     | Some staff_screens \<Rightarrow> let common = intersect_screens screens staff_screens
         in if common = [] then None else Some (m, common)) super_admin"

definition intersect_dashboard_permissions :: "(string \<times> bool) list \<Rightarrow> (string \<times> bool) list \<Rightarrow> (string \<times> bool) list" where
  "intersect_dashboard_permissions super_admin staff =
     map (\<lambda>(w, enabled). (w, enabled \<and> map_of staff w = Some True)) super_admin"

definition survives :: "name_tables \<Rightarrow> permissions \<Rightarrow> screen_grant \<Rightarrow> bool" where
  "survives nt permissions r =
     (case screen_actions permissions (mainscreen_name nt (sg_mainscreen_id r)) (userscreen_name nt (sg_userscreen_id r)) of
        None \<Rightarrow> False
      | Some actions \<Rightarrow> (case grant_action_name nt (sg_userscreenaction_id r) of None \<Rightarrow> False | Some a \<Rightarrow> a \<in> set actions))"

text \<open>\<open>scope\<close>: the filters of the place.\<close>

definition resolve_intersected_permission_payload ::
  "grant_db \<Rightarrow> permission_filters \<Rightarrow> ident option \<Rightarrow> string option \<Rightarrow> string option \<Rightarrow> payload option" where
  "resolve_intersected_permission_payload db scope staff_id role_name user_type =
     (let nt = gd_names db;
          super_admin = scope\<lparr>pf_owner_kind := Some ''super_admin''\<rparr>;
          staff = scope\<lparr>pf_owner_kind := Some ''staff'', pf_staff_id := staff_id\<rparr>;
          rows = action_rows db super_admin;
          permissions = intersect_action_permissions (build_action_permissions nt rows)
                          (build_action_permissions nt (action_rows db staff));
          kept = filter (survives nt permissions) rows;
          screens = map sg_userscreen_id kept;
          columns = filter (\<lambda>r. cg_userscreen_id r \<in> set screens) (column_rows db super_admin)
      in map_option (\<lambda>details.
           finalize_permission_payload
             \<lparr>py_permissions = permissions, py_permission_details = details,
              py_column_permissions = build_column_permissions nt columns,
              py_dashboard_permissions = intersect_dashboard_permissions
                (build_dashboard_permissions (dashboard_rows db super_admin))
                (build_dashboard_permissions (dashboard_rows db staff)),
              py_module_access = build_fallback_module_access permissions, py_app_modules = None,
              py_app_screens = [], py_strict_permissions = False, py_app_surfaces = [], py_landing = None\<rparr>
             None role_name user_type None None)
           (build_permission_details nt kept columns))"

section \<open>The permissions of a request\<close>

text \<open>The account of a request, as the middleware reads it; \<open>pu_token_permissions\<close> is the entry of the token.\<close>

record permission_user =
  pu_requester :: requester
  pu_staff_unique_id :: "ident option"
  pu_unique_id :: ident
  pu_user_type_id :: "ident option"
  pu_staffusertype_id :: "ident option"
  pu_contractorusertype_id :: "ident option"
  pu_governmentusertype_id :: "ident option"
  pu_role_name :: "string option"
  pu_user_type_name :: "string option"
  pu_token_permissions :: permissions

definition local_body_type :: "scope_field \<Rightarrow> string" where
  "local_body_type f = (case f of CorporationId \<Rightarrow> ''corporation'' | MunicipalityId \<Rightarrow> ''municipality''
     | TownPanchayatId \<Rightarrow> ''town_panchayat'' | PanchayatUnionId \<Rightarrow> ''panchayat_union'' | PanchayatId \<Rightarrow> ''panchayat'' | _ \<Rightarrow> [])"

definition place_filters :: "ownership \<Rightarrow> permission_filters" where
  "place_filters ow = no_filters\<lparr>pf_state := ow_state ow, pf_district := ow_district ow, pf_area_type := ow_area_type ow,
     pf_local_body_type := map_option (local_body_type \<circ> fst) (ow_local_body ow),
     pf_local_body_id := map_option snd (ow_local_body ow)\<rparr>"

definition permission_filters_for_user :: "permission_user \<Rightarrow> permission_filters option" where
  "permission_filters_for_user u =
     (if \<not> truthy (pu_user_type_id u) then None
      else Some (no_filters\<lparr>pf_usertype := pu_user_type_id u, pf_staffusertype := blank_to_none (pu_staffusertype_id u),
        pf_contractorusertype := blank_to_none (pu_contractorusertype_id u),
        pf_governmentusertype := blank_to_none (pu_governmentusertype_id u)\<rparr>))"

text \<open>The three ways to resolve a request that brings no permissions: the key of its cache entry and what is stored there.\<close>

datatype grant_source = ByLocalBody ownership ident | ByPlace ownership ident | ByRole permission_filters | NoGrants

definition grant_source_of :: "scope_db \<Rightarrow> permission_user \<Rightarrow> grant_source" where
  "grant_source_of sx u =
     (let by_role = (case permission_filters_for_user u of None \<Rightarrow> NoGrants | Some pf \<Rightarrow> ByRole pf)
      in if \<not> truthy (pu_staff_unique_id u) then by_role
         else case local_body_scope_for_staff sx (Some (pu_requester u)) of
           None \<Rightarrow> by_role
         | Some ow \<Rightarrow>
             if truthy (map_option snd (ow_local_body ow)) then ByLocalBody ow (the (pu_staff_unique_id u))
             else if truthy (ow_state ow) then ByPlace ow (the (pu_staff_unique_id u)) else by_role)"

definition or_none :: "ident option \<Rightarrow> string" where
  "or_none v = (if truthy v then the v else ''none'')"

fun cache_key :: "permission_user \<Rightarrow> grant_source \<Rightarrow> string" where
  "cache_key u (ByLocalBody ow staff_id) = ''module-permissions:local-body:'' @ staff_id @ '':''
     @ (case ow_local_body ow of None \<Rightarrow> '':'' | Some (f, i) \<Rightarrow> local_body_type f @ '':'' @ i)"
| "cache_key u (ByPlace ow staff_id) = ''module-permissions:geo:'' @ staff_id @ '':'' @ or_none (ow_state ow) @ '':''
     @ or_none (ow_district ow) @ '':'' @ or_none (ow_area_type ow)"
| "cache_key u (ByRole pf) = ''module-permissions:''
     @ (if truthy (pu_staff_unique_id u) then the (pu_staff_unique_id u) else pu_unique_id u) @ '':''
     @ or_none (pf_usertype pf) @ '':'' @ or_none (pf_staffusertype pf) @ '':'' @ or_none (pf_contractorusertype pf)"
| "cache_key u NoGrants = []"

fun stored_permissions :: "grant_db \<Rightarrow> permission_user \<Rightarrow> grant_source \<Rightarrow> permissions option" where
  "stored_permissions db u (ByLocalBody ow staff_id) = map_option py_permissions
     (resolve_intersected_permission_payload db (place_filters ow) (Some staff_id) (pu_role_name u) (pu_user_type_name u))"
| "stored_permissions db u (ByPlace ow staff_id) = map_option py_permissions
     (resolve_permission_payload db (no_filters\<lparr>pf_owner_kind := Some ''staff'', pf_staff_id := Some staff_id,
        pf_state := ow_state ow, pf_district := ow_district ow, pf_area_type := ow_area_type ow\<rparr>)
        (pu_role_name u) (pu_user_type_name u))"
| "stored_permissions db u (ByRole pf) = map_option py_permissions
     (resolve_permission_payload db pf (pu_role_name u) (pu_user_type_name u))"
| "stored_permissions db u NoGrants = Some []"

text \<open>An entry of the cache: the permissions and the second at which it expires.\<close>

type_synonym permission_cache = "string \<Rightarrow> (permissions \<times> int) option"

definition PERMISSION_CACHE_SECONDS :: int where "PERMISSION_CACHE_SECONDS = 60"

definition permission_cache_get :: "int \<Rightarrow> string \<Rightarrow> permission_cache \<Rightarrow> permissions option" where
  "permission_cache_get now key cache = (case cache key of None \<Rightarrow> None | Some (p, expires) \<Rightarrow> if now < expires then Some p else None)"

definition resolve_base_permissions ::
  "grant_db \<Rightarrow> scope_db \<Rightarrow> int \<Rightarrow> permission_user \<Rightarrow> permission_cache \<Rightarrow> permissions option \<times> permission_cache" where
  "resolve_base_permissions db sx now u cache =
     (if pu_token_permissions u \<noteq> [] then (Some (pu_token_permissions u), cache)
      else let source = grant_source_of sx u; key = cache_key u source
      in if source = NoGrants then (Some [], cache)
         else case permission_cache_get now key cache of
           Some p \<Rightarrow> (Some p, cache)
         | None \<Rightarrow> (case stored_permissions db u source of
              None \<Rightarrow> (None, cache)
            | Some p \<Rightarrow> (Some p, cache(key := Some (p, now + PERMISSION_CACHE_SECONDS)))))"

definition resolve_permissions_for_request ::
  "grant_db \<Rightarrow> scope_db \<Rightarrow> int \<Rightarrow> permission_user \<Rightarrow> permission_cache \<Rightarrow> permissions option \<times> permission_cache" where
  "resolve_permissions_for_request db sx now u cache =
     (let (base, cache') = resolve_base_permissions db sx now u cache
      in (map_option (\<lambda>p. apply_staff_access_configuration db p (pu_staff_unique_id u)) base, cache'))"

section \<open>A permission map as a relation\<close>

text \<open>The pairs of a dict of collections: key and member.\<close>

definition pairs :: "('v \<Rightarrow> 'x set) \<Rightarrow> ('k \<times> 'v) list \<Rightarrow> ('k \<times> 'x) set" where
  "pairs g xs = {(k, x). \<exists>v. (k, v) \<in> set xs \<and> x \<in> g v}"

lemma pairs_Nil [simp]: "pairs g [] = {}"
  by (simp add: pairs_def)

lemma pairs_Cons [simp]: "pairs g ((k, v) # xs) = {k} \<times> g v \<union> pairs g xs"
  by (auto simp: pairs_def)

lemma pairs_dict_alter:
  assumes "\<And>v. g (f v) = g v \<union> N" and "g d = {}"
  shows "pairs g (dict_alter k d f xs) = pairs g xs \<union> {k} \<times> N"
proof (induction xs)
  case (Cons x xs)
  then show ?case by (cases x; cases "fst x = k") (auto simp: assms)
qed (simp add: assms)

abbreviation screen_pairs :: "grants \<Rightarrow> (string \<times> string) set" where
  "screen_pairs \<equiv> pairs set"

definition holds :: "permissions \<Rightarrow> (string \<times> string \<times> string) set" where
  "holds = pairs screen_pairs"

lemma holds_Nil [simp]: "holds [] = {}"
  by (simp add: holds_def)

lemma holds_Cons [simp]: "holds ((m, screens) # p) = {m} \<times> screen_pairs screens \<union> holds p"
  by (simp add: holds_def)

lemma set_append_new [simp]: "set (append_new x xs) = insert x (set xs)"
  by (auto simp: append_new_def)

lemma set_fold_append_new [simp]: "set (fold append_new xs ys) = set xs \<union> set ys"
  by (induction xs arbitrary: ys) auto

lemma holds_alter:
  assumes "\<And>v. set (f v) = set v \<union> N"
  shows "holds (dict_alter m [] (dict_alter s [] f) p) = holds p \<union> {m} \<times> {s} \<times> N"
  unfolding holds_def by (rule pairs_dict_alter) (simp_all add: pairs_dict_alter [where g = set and N = N, OF assms])

lemma holds_add:
  "holds (dict_alter m [] (dict_alter s [] (fold append_new actions)) p) = holds p \<union> {m} \<times> {s} \<times> set actions"
  by (rule holds_alter) auto

lemma holds_grant_action:
  "holds (grant_action m s action p) = holds p \<union> {m} \<times> {s} \<times> {a. action = Some a \<and> a \<noteq> []}"
  unfolding grant_action_def by (rule holds_alter) (cases action; auto)

text \<open>What the stored rows grant, by name.\<close>

definition row_triples :: "name_tables \<Rightarrow> screen_grant list \<Rightarrow> (string \<times> string \<times> string) set" where
  "row_triples nt rows = {(mainscreen_name nt (sg_mainscreen_id r), userscreen_name nt (sg_userscreen_id r), a) |r a.
     r \<in> set rows \<and> grant_action_name nt (sg_userscreenaction_id r) = Some a \<and> a \<noteq> []}"

lemma holds_build: "holds (build_action_permissions nt rows) = row_triples nt rows"
proof -
  have "holds (fold (\<lambda>r. grant_action (mainscreen_name nt (sg_mainscreen_id r)) (userscreen_name nt (sg_userscreen_id r))
      (grant_action_name nt (sg_userscreenaction_id r))) rs p) = row_triples nt rs \<union> holds p" for rs p
    by (induction rs arbitrary: p) (auto simp: row_triples_def holds_grant_action)
  then show ?thesis by (auto simp: build_action_permissions_def row_triples_def)
qed

lemma screen_pairs_fold:
  assumes "\<And>actions v. set (f actions v) = set v \<union> set actions"
  shows "screen_pairs (fold (\<lambda>(s, actions). dict_alter s [] (f actions)) screens v) = screen_pairs v \<union> screen_pairs screens"
proof (induction screens arbitrary: v)
  case (Cons x screens)
  have "screen_pairs (dict_alter (fst x) [] (f (snd x)) v) = screen_pairs v \<union> {fst x} \<times> set (snd x)"
    by (rule pairs_dict_alter) (simp_all add: assms)
  with Cons show ?case by (cases x) auto
qed simp

lemma holds_merge: "holds (merge_permission_maps base extra) = holds base \<union> holds extra"
  unfolding merge_permission_maps_def
proof (induction extra arbitrary: base)
  case (Cons x extra)
  let ?f = "\<lambda>(s, actions). dict_alter s [] (\<lambda>old. sort (remdups (old @ actions)))"
  have one: "screen_pairs (fold ?f screens v) = screen_pairs v \<union> screen_pairs screens" for screens v
    by (rule screen_pairs_fold) simp
  have "holds (dict_alter (fst x) [] (fold ?f (snd x)) base) = holds base \<union> {fst x} \<times> screen_pairs (snd x)"
    unfolding holds_def by (rule pairs_dict_alter) (simp_all add: one)
  with Cons show ?case by (cases x) auto
qed simp

section \<open>Renamed modules and screens\<close>

definition rename_triple :: "string \<times> string \<times> string \<Rightarrow> string \<times> string \<times> string" where
  "rename_triple = (\<lambda>(m, s, a). case current_names (m, s) of (m', s') \<Rightarrow> (m', s', a))"

lemma rename_triples:
  "current_names (m, s) = (m', s') \<Longrightarrow> rename_triple ` ({m} \<times> {s} \<times> A) = {m'} \<times> {s'} \<times> A"
  by (force simp: rename_triple_def)

lemma holds_file_actions: "holds (file_actions m x q) = holds q \<union> rename_triple ` ({m} \<times> {fst x} \<times> set (snd x))"
  by (cases x; cases "current_names (m, fst x)") (simp add: file_actions_def holds_add rename_triples)

lemma holds_file_screens: "holds (fold (file_actions m) screens q) = holds q \<union> rename_triple ` ({m} \<times> screen_pairs screens)"
proof (induction screens arbitrary: q)
  case (Cons x screens)
  then show ?case by (cases x) (auto simp: holds_file_actions)
qed simp

lemma holds_normalize: "holds (normalize_permission_names p) = rename_triple ` holds p"
proof -
  have "holds (fold (\<lambda>(m, screens). fold (file_actions m) screens) p q) = holds q \<union> rename_triple ` holds p" for q
  proof (induction p arbitrary: q)
    case (Cons x p)
    then show ?case by (cases x) (auto simp: holds_file_screens)
  qed simp
  then show ?thesis by (simp add: normalize_permission_names_def)
qed

text \<open>The current names of the catalog are stable: bringing a permission map to the current names again changes
  nothing of what it grants.\<close>
theorem normalize_names_stable:
  "holds (normalize_permission_names (normalize_permission_names p)) = holds (normalize_permission_names p)"
proof -
  have "rename_triple (rename_triple x) = rename_triple x" for x
    using current_names_idem [of "(fst x, fst (snd x))"] by (cases x) (auto simp: rename_triple_def split: prod.splits)
  then show ?thesis by (simp add: holds_normalize image_image)
qed

section \<open>The configuration of a staff member\<close>

definition strict_config :: "grant_db \<Rightarrow> ident option \<Rightarrow> bool" where
  "strict_config db staff_id = (case staff_access_config db staff_id of None \<Rightarrow> False | Some c \<Rightarrow> ac_enforce_strict_permissions c)"

text \<open>A live row of the live configuration grants the action.\<close>

definition configured :: "grant_db \<Rightarrow> ident option \<Rightarrow> string \<times> string \<times> string \<Rightarrow> bool" where
  "configured db staff_id t \<longleftrightarrow> (case staff_access_config db staff_id of None \<Rightarrow> False
     | Some c \<Rightarrow> list_ex (\<lambda>g. ag_config_id g = ac_unique_id c \<and> ag_is_active g \<and> \<not> ag_is_deleted g
         \<and> configured_row (gd_names db) g = Some t) (gd_config_grants db))"

lemma holds_fold_grants: "holds (fold (\<lambda>(m, s, a). grant_action m s (Some a)) ts p) = holds p \<union> {(m, s, a) \<in> set ts. a \<noteq> []}"
  by (induction ts arbitrary: p) (auto simp: holds_grant_action)

lemma set_map_filter: "set (List.map_filter f xs) = {y. \<exists>x\<in>set xs. f x = Some y}"
  by (induction xs) (auto simp: map_filter_simps split: option.splits)

lemma configured_row_action: "configured_row nt g = Some (m, s, a) \<Longrightarrow> a \<noteq> []"
  by (auto simp: configured_row_def split: option.splits if_splits)

lemma holds_configured: "holds (staff_configured_permissions db (staff_access_config db staff_id)) = Collect (configured db staff_id)"
  by (auto simp: staff_configured_permissions_def configured_def holds_fold_grants set_map_filter list_ex_iff
      dest: configured_row_action split: option.splits)

lemma holds_apply_config:
  "holds (apply_staff_access_configuration db p staff_id) =
     rename_triple ` ((if strict_config db staff_id then {} else holds p) \<union> Collect (configured db staff_id))"
  using holds_configured [of db staff_id]
  by (auto simp: apply_staff_access_configuration_def strict_config_def Let_def holds_normalize holds_merge
      staff_configured_permissions_def [of db None] split: option.split)

text \<open>C13: What a staff member may do, exactly: what the role and place grant, unless their configuration is strict, and
  what a live row of their live configuration grants; each under the current name of its module and screen.\<close>
theorem configuration_layers:
  "(m, s, a) \<in> holds (apply_staff_access_configuration db p staff_id) \<longleftrightarrow>
     (\<exists>m0 s0. current_names (m0, s0) = (m, s)
        \<and> ((m0, s0, a) \<in> (if strict_config db staff_id then {} else holds p) \<or> configured db staff_id (m0, s0, a)))"
proof -
  have "(m, s, a) \<in> rename_triple ` K \<longleftrightarrow> (\<exists>m0 s0. current_names (m0, s0) = (m, s) \<and> (m0, s0, a) \<in> K)" for K
  proof
    assume "\<exists>m0 s0. current_names (m0, s0) = (m, s) \<and> (m0, s0, a) \<in> K"
    then obtain m0 s0 where "current_names (m0, s0) = (m, s)" "(m0, s0, a) \<in> K" by blast
    then show "(m, s, a) \<in> rename_triple ` K" by (intro rev_image_eqI [of "(m0, s0, a)"]) (simp_all add: rename_triple_def)
  qed (fastforce simp: rename_triple_def split: prod.splits)
  then show ?thesis unfolding holds_apply_config by auto
qed

section \<open>The intersection\<close>

definition dict_ok :: "permissions \<Rightarrow> bool" where
  "dict_ok p \<longleftrightarrow> distinct (map fst p) \<and> (\<forall>(m, screens)\<in>set p. distinct (map fst screens))"

lemma set_dict_alter: "(k', v') \<in> set (dict_alter k d f xs) \<Longrightarrow> (k', v') \<in> set xs \<or> v' = f d \<or> (\<exists>v. (k, v) \<in> set xs \<and> v' = f v)"
proof (induction xs)
  case (Cons x xs)
  then show ?case by (cases x; cases "fst x = k") auto
qed simp

lemma dict_ok_grant [simp]: "dict_ok p \<Longrightarrow> dict_ok (grant_action m s action p)"
  unfolding dict_ok_def grant_action_def by (auto dest!: set_dict_alter)

lemma dict_ok_build: "dict_ok (build_action_permissions nt rows)"
proof -
  have "dict_ok p \<Longrightarrow> dict_ok (fold (\<lambda>r. grant_action (f r) (g r) (h r)) rs p)" for f g h and rs :: "screen_grant list" and p
    by (induction rs arbitrary: p) auto
  from this [of "[]"] show ?thesis by (simp only: build_action_permissions_def) (simp add: dict_ok_def)
qed


lemma screen_pairs_intersect:
  "distinct (map fst staff) \<Longrightarrow> screen_pairs (intersect_screens screens staff) = screen_pairs screens \<inter> screen_pairs staff"
proof -
  assume d: "distinct (map fst staff)"
  have "(k, a) \<in> screen_pairs (intersect_screens screens staff) \<longleftrightarrow> (k, a) \<in> screen_pairs screens \<and> (k, a) \<in> screen_pairs staff" for k a
  proof
    assume "(k, a) \<in> screen_pairs (intersect_screens screens staff)"
    then show "(k, a) \<in> screen_pairs screens \<and> (k, a) \<in> screen_pairs staff"
      by (auto simp: pairs_def intersect_screens_def set_map_filter Let_def split: option.splits if_splits)
        (blast dest: map_of_SomeD)+
  next
    assume "(k, a) \<in> screen_pairs screens \<and> (k, a) \<in> screen_pairs staff"
    then obtain xs ys where *: "(k, xs) \<in> set screens" "(k, ys) \<in> set staff" "a \<in> set xs" "a \<in> set ys"
      by (auto simp: pairs_def)
    have "(k, filter (\<lambda>a. a \<in> set ys) xs) \<in> set (intersect_screens screens staff)"
      using * map_of_is_SomeI [OF d *(2)]
      by (auto simp: intersect_screens_def set_map_filter Let_def filter_empty_conv intro!: bexI [of _ "(k, xs)"])
    with * show "(k, a) \<in> screen_pairs (intersect_screens screens staff)" by (auto simp: pairs_def)
  qed
  then show ?thesis by auto
qed

lemma holds_intersect:
  assumes "dict_ok staff" shows "holds (intersect_action_permissions super_admin staff) = holds super_admin \<inter> holds staff"
proof -
  have "(m, x) \<in> holds (intersect_action_permissions super_admin staff) \<longleftrightarrow> (m, x) \<in> holds super_admin \<and> (m, x) \<in> holds staff" for m x
  proof
    assume "(m, x) \<in> holds (intersect_action_permissions super_admin staff)"
    then obtain screens staff_screens where *: "(m, screens) \<in> set super_admin" "map_of staff m = Some staff_screens"
        "x \<in> screen_pairs (intersect_screens screens staff_screens)"
      by (auto simp: holds_def pairs_def [of screen_pairs] intersect_action_permissions_def set_map_filter Let_def
          split: option.splits if_splits)
    then have "distinct (map fst staff_screens)" using assms by (auto simp: dict_ok_def dest: map_of_SomeD)
    from screen_pairs_intersect [OF this] * show "(m, x) \<in> holds super_admin \<and> (m, x) \<in> holds staff"
      by (auto simp: holds_def pairs_def [of screen_pairs] dest: map_of_SomeD)
  next
    assume "(m, x) \<in> holds super_admin \<and> (m, x) \<in> holds staff"
    then obtain screens staff_screens where *: "(m, screens) \<in> set super_admin" "(m, staff_screens) \<in> set staff"
        "x \<in> screen_pairs screens" "x \<in> screen_pairs staff_screens"
      by (auto simp: holds_def pairs_def [of screen_pairs])
    then have d: "map_of staff m = Some staff_screens" "distinct (map fst staff_screens)" using assms by (auto simp: dict_ok_def)
    have "x \<in> screen_pairs (intersect_screens screens staff_screens)" using screen_pairs_intersect [OF d(2)] * by blast
    moreover from this have "intersect_screens screens staff_screens \<noteq> []" by auto
    ultimately have "(m, intersect_screens screens staff_screens) \<in> set (intersect_action_permissions super_admin staff)"
      using *(1) d by (auto simp: intersect_action_permissions_def set_map_filter Let_def intro!: bexI [of _ "(m, screens)"])
    with \<open>x \<in> screen_pairs (intersect_screens screens staff_screens)\<close> show "(m, x) \<in> holds (intersect_action_permissions super_admin staff)"
      by (auto simp: holds_def pairs_def [of screen_pairs])
  qed
  then show ?thesis by auto
qed



lemma intersected_permissions:
  assumes "resolve_intersected_permission_payload db scope staff_id role_name user_type = Some payload"
  shows "holds (py_permissions payload) =
      row_triples (gd_names db) (action_rows db (scope\<lparr>pf_owner_kind := Some ''super_admin''\<rparr>))
      \<inter> row_triples (gd_names db) (action_rows db (scope\<lparr>pf_owner_kind := Some ''staff'', pf_staff_id := staff_id\<rparr>))"
proof -
  have "py_permissions payload = intersect_action_permissions
      (build_action_permissions (gd_names db) (action_rows db (scope\<lparr>pf_owner_kind := Some ''super_admin''\<rparr>)))
      (build_action_permissions (gd_names db) (action_rows db (scope\<lparr>pf_owner_kind := Some ''staff'', pf_staff_id := staff_id\<rparr>)))"
    using assms by (auto simp: resolve_intersected_permission_payload_def finalize_permission_payload_def Let_def)
  then show ?thesis by (simp add: holds_intersect dict_ok_build holds_build)
qed

text \<open>C11: A member of staff of a local body may do what the administrator of the body gave the body and what was given
  to the member, both: exactly the actions that a live row of each side grants.\<close>
theorem intersection_needs_both:
  assumes "resolve_intersected_permission_payload db scope staff_id role_name user_type = Some payload"
  shows "(m, s, a) \<in> holds (py_permissions payload) \<longleftrightarrow>
     (m, s, a) \<in> row_triples (gd_names db) (action_rows db (scope\<lparr>pf_owner_kind := Some ''super_admin''\<rparr>))
     \<and> (m, s, a) \<in> row_triples (gd_names db) (action_rows db (scope\<lparr>pf_owner_kind := Some ''staff'', pf_staff_id := staff_id\<rparr>))"
  unfolding intersected_permissions [OF assms] by blast

section \<open>The details agree with the permissions\<close>

definition ticked :: "action_map \<Rightarrow> string set" where
  "ticked m = {a. (a, True) \<in> set m}"


lemma ticked_base [simp]: "ticked base_action_map = {}"
  by (auto simp: ticked_def base_action_map_def)


lemma empty_detail_permissions [simp]: "sd_permissions (empty_detail nt m s) = base_action_map"
  by (simp add: empty_detail_def)








section \<open>A change takes effect within a minute\<close>

text \<open>The requests answered so far, with their second, the tables and the user; the cache they leave.\<close>

type_synonym permission_request = "int \<times> grant_db \<times> scope_db \<times> permission_user"

inductive cache_run :: "permission_request list \<Rightarrow> permission_cache \<Rightarrow> bool" where
  start: "cache_run [] (\<lambda>_. None)"
| request: "cache_run log cache \<Longrightarrow> cache_run (log @ [(now, db, sx, u)]) (snd (resolve_base_permissions db sx now u cache))"

definition resolved_in :: "permission_request \<Rightarrow> string \<Rightarrow> permissions \<Rightarrow> bool" where
  "resolved_in req key p \<longleftrightarrow> (case req of (t, db, sx, u) \<Rightarrow>
     cache_key u (grant_source_of sx u) = key \<and> stored_permissions db u (grant_source_of sx u) = Some p)"

lemma resolve_base_cases:
  assumes "resolve_base_permissions db sx now u cache = (result, cache')"
  obtains (token) "pu_token_permissions u \<noteq> []" "result = Some (pu_token_permissions u)" "cache' = cache"
  | (none) "grant_source_of sx u = NoGrants" "result = Some []" "cache' = cache"
  | (hit) p expires where "cache (cache_key u (grant_source_of sx u)) = Some (p, expires)" "now < expires" "result = Some p" "cache' = cache"
  | (fails) "result = None" "cache' = cache"
  | (miss) p where "result = Some p" "resolved_in (now, db, sx, u) (cache_key u (grant_source_of sx u)) p"
      "cache' = cache(cache_key u (grant_source_of sx u) := Some (p, now + PERMISSION_CACHE_SECONDS))"
proof (cases "pu_token_permissions u \<noteq> []")
  case True
  with assms token show thesis by (simp add: resolve_base_permissions_def)
next
  case False
  show thesis
  proof (cases "grant_source_of sx u = NoGrants")
    case True
    with assms False none show thesis by (simp add: resolve_base_permissions_def)
  next
    case source: False
    let ?key = "cache_key u (grant_source_of sx u)"
    show thesis
    proof (cases "permission_cache_get now ?key cache")
      case (Some p)
      then obtain expires where e: "cache ?key = Some (p, expires)" "now < expires"
        by (auto simp: permission_cache_get_def split: option.splits if_splits)
      from Some False source assms have "result = Some p" "cache' = cache" by (simp_all add: resolve_base_permissions_def Let_def)
      with e show thesis by (rule hit)
    next
      case None
      show thesis
      proof (cases "stored_permissions db u (grant_source_of sx u)")
        case (Some p)
        with None False source assms miss [of p] show thesis by (simp add: resolve_base_permissions_def Let_def resolved_in_def)
      qed (use None False source assms fails in \<open>simp add: resolve_base_permissions_def Let_def\<close>)
    qed
  qed
qed

lemma cached_entry:
  assumes "cache_run log cache" and "cache key = Some (p, expires)"
  shows "\<exists>req\<in>set log. expires = fst req + PERMISSION_CACHE_SECONDS \<and> resolved_in req key p"
  using assms
proof (induction arbitrary: key p expires rule: cache_run.induct)
  case (request log cache now db sx u)
  obtain result cache' where r: "resolve_base_permissions db sx now u cache = (result, cache')" by fastforce
  from r show ?case
  proof (cases rule: resolve_base_cases)
    case (miss q)
    show ?thesis
    proof (cases "key = cache_key u (grant_source_of sx u)")
      case True
      with miss request.prems r show ?thesis by simp
    next
      case False
      with miss request r show ?thesis by fastforce
    qed
  qed (use request r in fastforce)+
qed simp

lemma base_fresh:
  assumes "cache_run log cache" and "resolve_base_permissions db sx now u cache = (Some p, cache')"
    and "pu_token_permissions u = []"
  shows "p = [] \<or> (\<exists>req\<in>set ((now, db, sx, u) # log). now - PERMISSION_CACHE_SECONDS < fst req
     \<and> resolved_in req (cache_key u (grant_source_of sx u)) p)"
  using assms(2)
proof (cases rule: resolve_base_cases)
  case (hit q expires)
  with cached_entry [OF assms(1) hit(1)] show ?thesis by fastforce
qed (use assms(3) in \<open>auto simp: PERMISSION_CACHE_SECONDS_def\<close>)

text \<open>C12: The permissions enforced on a request are at most a minute old: they are what the tables held at some request
  of the last sixty seconds under the same cache key, with the staff member's configuration as it is now.\<close>
theorem permissions_minute_fresh:
  assumes "cache_run log cache" and "pu_token_permissions u = []" and "grant_source_of sx u \<noteq> NoGrants"
    and "fst (resolve_permissions_for_request db sx now u cache) = Some p"
  shows "\<exists>base. p = apply_staff_access_configuration db base (pu_staff_unique_id u)
     \<and> (\<exists>req\<in>set ((now, db, sx, u) # log). now - 60 < fst req \<and> resolved_in req (cache_key u (grant_source_of sx u)) base)"
proof -
  obtain base cache' where b: "resolve_base_permissions db sx now u cache = (Some base, cache')"
      and p: "p = apply_staff_access_configuration db base (pu_staff_unique_id u)"
    using assms(4) by (auto simp: resolve_permissions_for_request_def split: prod.splits)
  from b have "\<exists>req\<in>set ((now, db, sx, u) # log). now - 60 < fst req \<and> resolved_in req (cache_key u (grant_source_of sx u)) base"
  proof (cases rule: resolve_base_cases)
    case (hit q expires)
    with cached_entry [OF assms(1) hit(1)] show ?thesis by (fastforce simp: PERMISSION_CACHE_SECONDS_def)
  qed (use assms(2,3) in auto)
  with p show ?thesis by blast
qed

section \<open>A write needs a stored grant\<close>

text \<open>What the tables must hold for a user to have a grant, column by column: a row at the place of the user's scope, of
  the administrator or of the member; a row of the user's role.\<close>

definition at_place :: "ownership \<Rightarrow> owner_columns \<Rightarrow> bool" where
  "at_place ow row \<longleftrightarrow> (truthy (ow_state ow) \<longrightarrow> row ''state_id'' = ow_state ow)
     \<and> (truthy (ow_district ow) \<longrightarrow> row ''district_id'' = ow_district ow)
     \<and> (truthy (ow_area_type ow) \<longrightarrow> row ''area_type_id'' = ow_area_type ow)
     \<and> row ''local_body_type'' = map_option (local_body_type \<circ> fst) (ow_local_body ow)
     \<and> row ''local_body_id'' = map_option snd (ow_local_body ow)"

definition of_member :: "permission_user \<Rightarrow> owner_columns \<Rightarrow> bool" where
  "of_member u row \<longleftrightarrow> row ''permission_owner_kind'' = Some ''staff'' \<and> row ''staff_id'' = pu_staff_unique_id u"

definition of_role :: "permission_user \<Rightarrow> owner_columns \<Rightarrow> bool" where
  "of_role u row \<longleftrightarrow> row ''usertype_id'' = pu_user_type_id u
     \<and> (if truthy (pu_staffusertype_id u) then row ''staffusertype_id'' = pu_staffusertype_id u
        else if truthy (pu_contractorusertype_id u) then row ''contractorusertype_id'' = pu_contractorusertype_id u
        else if truthy (pu_governmentusertype_id u) then row ''governmentusertype_id'' = pu_governmentusertype_id u
        else row ''staffusertype_id'' = None \<and> row ''contractorusertype_id'' = None \<and> row ''governmentusertype_id'' = None)"

text \<open>A live row of such an owner grants an action on a screen, by the names of the tables.\<close>

definition live_row_grants :: "grant_db \<Rightarrow> (owner_columns \<Rightarrow> bool) \<Rightarrow> string \<times> string \<times> string \<Rightarrow> bool" where
  "live_row_grants db P = (\<lambda>(m, s, a). \<exists>r\<in>set (gd_screens db). sg_is_active r \<and> \<not> sg_is_deleted r \<and> P (sg_owner r)
     \<and> mainscreen_name (gd_names db) (sg_mainscreen_id r) = m \<and> userscreen_name (gd_names db) (sg_userscreen_id r) = s
     \<and> grant_action_name (gd_names db) (sg_userscreenaction_id r) = Some a)"

text \<open>
  What the tables grant a user: in a single local body, what a row of the administrator of the body and a row of the
  member both grant; in a wider place, a row of the member at exactly that place, or the member's configuration;
  without a scope, a row of the user's role.
\<close>

definition tables_grant :: "grant_db \<Rightarrow> scope_db \<Rightarrow> permission_user \<Rightarrow> string \<times> string \<times> string \<Rightarrow> bool" where
  "tables_grant db sx u x =
     (case (if truthy (pu_staff_unique_id u) then local_body_scope_for_staff sx (Some (pu_requester u)) else None) of
        Some ow \<Rightarrow>
          if truthy (map_option snd (ow_local_body ow)) then
            live_row_grants db (\<lambda>row. at_place ow row \<and> row ''permission_owner_kind'' = Some ''super_admin'') x
            \<and> live_row_grants db (\<lambda>row. at_place ow row \<and> of_member u row) x
          else if truthy (ow_state ow) then
            live_row_grants db (\<lambda>row. at_place (ow\<lparr>ow_local_body := None\<rparr>) row \<and> of_member u row) x
            \<or> configured db (pu_staff_unique_id u) x
          else live_row_grants db (of_role u) x
      | None \<Rightarrow> live_row_grants db (of_role u) x)"

lemma row_triples_grant:
  assumes "(m, s, a) \<in> row_triples (gd_names db) (action_rows db pf)" and "\<And>row. permission_querysets pf row \<Longrightarrow> P row"
  shows "live_row_grants db P (m, s, a)"
  using assms by (auto simp: row_triples_def action_rows_def live_row_grants_def)

lemma single_body_level: "single_local_body sx s = Some (f, i) \<Longrightarrow> f \<in> set LOCAL_BODY_FIELDS"
proof -
  assume "single_local_body sx s = Some (f, i)"
  then have "(f, i) \<in> set (body_candidates sx s)" by (auto simp: single_local_body_def split: list.splits)
  then show ?thesis by (auto simp: body_candidates_def)
qed

lemma scope_body_level:
  "local_body_scope_for_staff sx u = Some ow \<Longrightarrow> ow_local_body ow = Some (f, i) \<Longrightarrow> truthy (Some (local_body_type f))"
  by (auto simp: local_body_scope_for_staff_def dest!: single_body_level) (auto simp: LOCAL_BODY_FIELDS_def local_body_type_def)

text \<open>The filters of the three ways to resolve a request ask for such rows.\<close>

lemma body_filters:
  assumes "local_body_scope_for_staff sx v = Some ow" and "truthy (map_option snd (ow_local_body ow))"
  shows "permission_querysets (place_filters ow\<lparr>pf_owner_kind := Some ''super_admin''\<rparr>) row \<Longrightarrow>
      at_place ow row \<and> row ''permission_owner_kind'' = Some ''super_admin''"
    and "truthy (pu_staff_unique_id u) \<Longrightarrow>
      permission_querysets (place_filters ow\<lparr>pf_owner_kind := Some ''staff'', pf_staff_id := pu_staff_unique_id u\<rparr>) row \<Longrightarrow>
      at_place ow row \<and> of_member u row"
proof -
  obtain f i where body: "ow_local_body ow = Some (f, i)" using assms(2) by (cases "ow_local_body ow") auto
  note level = scope_body_level [OF assms(1) body]
  have id: "truthy (Some i)" using assms(2) body by simp
  show "permission_querysets (place_filters ow\<lparr>pf_owner_kind := Some ''super_admin''\<rparr>) row \<Longrightarrow>
      at_place ow row \<and> row ''permission_owner_kind'' = Some ''super_admin''"
    using level id by (auto simp: permission_querysets_def place_filters_def no_filters_def given_def at_place_def body split: if_splits)
  show "truthy (pu_staff_unique_id u) \<Longrightarrow>
      permission_querysets (place_filters ow\<lparr>pf_owner_kind := Some ''staff'', pf_staff_id := pu_staff_unique_id u\<rparr>) row \<Longrightarrow>
      at_place ow row \<and> of_member u row"
    using level id by (auto simp: permission_querysets_def place_filters_def no_filters_def given_def at_place_def of_member_def body split: if_splits)
qed

lemma geo_filters:
  assumes "truthy (pu_staff_unique_id u)"
    and "permission_querysets (no_filters\<lparr>pf_owner_kind := Some ''staff'', pf_staff_id := pu_staff_unique_id u,
        pf_state := ow_state ow, pf_district := ow_district ow, pf_area_type := ow_area_type ow\<rparr>) row"
  shows "at_place (ow\<lparr>ow_local_body := None\<rparr>) row \<and> of_member u row"
  using assms by (auto simp: permission_querysets_def no_filters_def given_def at_place_def of_member_def split: if_splits)

lemma role_filters:
  assumes "permission_filters_for_user u = Some pf" and "permission_querysets pf row"
  shows "of_role u row"
proof -
  have "truthy (blank_to_none v) \<longleftrightarrow> truthy v" "truthy v \<Longrightarrow> blank_to_none v = v" for v by (auto simp: blank_to_none_def)
  with assms show ?thesis
    by (auto simp: permission_filters_for_user_def permission_querysets_def no_filters_def of_role_def split: if_splits)
qed

lemma resolved_permissions:
  "resolve_permission_payload db pf role_name user_type = Some payload \<Longrightarrow>
   py_permissions payload = apply_staff_access_configuration db (build_action_permissions (gd_names db) (action_rows db pf)) (pf_staff_id pf)"
  by (auto simp: resolve_permission_payload_def finalize_permission_payload_def Let_def)

lemma rename_again: "rename_triple (rename_triple x) = rename_triple x"
  using current_names_idem [of "(fst x, fst (snd x))"] by (cases x) (auto simp: rename_triple_def split: prod.splits)

lemma resolved_granted:
  assumes "resolve_permission_payload db pf role_name user_type = Some payload" and "x \<in> holds (py_permissions payload)"
  obtains y where "rename_triple y = x"
    and "y \<in> row_triples (gd_names db) (action_rows db pf) \<or> configured db (pf_staff_id pf) y"
  using assms(2) that unfolding resolved_permissions [OF assms(1)] holds_apply_config holds_build
  by (auto split: if_splits)

lemma unconfigured [simp]: "\<not> configured db None x"
  by (simp add: configured_def staff_access_config_def)

lemma role_rows:
  assumes "stored_permissions db u source = Some p" and "x \<in> holds p"
    and "source = (case permission_filters_for_user u of None \<Rightarrow> NoGrants | Some pf \<Rightarrow> ByRole pf)"
  shows "\<exists>y. rename_triple y = rename_triple x \<and> live_row_grants db (of_role u) y"
proof (cases "permission_filters_for_user u")
  case (Some pf)
  with assms(1,3) obtain payload where payload: "resolve_permission_payload db pf (pu_role_name u) (pu_user_type_name u) = Some payload"
    and p: "p = py_permissions payload" by auto
  have "pf_staff_id pf = None" using Some by (auto simp: permission_filters_for_user_def no_filters_def split: if_splits)
  then obtain y where y: "rename_triple y = x" "y \<in> row_triples (gd_names db) (action_rows db pf)"
    using resolved_granted [OF payload assms(2) [unfolded p]] by auto
  have "live_row_grants db (of_role u) y" using y(2) by (cases y) (auto intro: row_triples_grant role_filters [OF Some])
  with y(1) rename_again [of y] show ?thesis by metis
qed (use assms in simp)

lemma stored_granted:
  assumes "stored_permissions db u (grant_source_of sx u) = Some p" and "x \<in> holds p"
  obtains y where "rename_triple y = rename_triple x" and "tables_grant db sx u y"
proof (cases "if truthy (pu_staff_unique_id u) then local_body_scope_for_staff sx (Some (pu_requester u)) else None")
  case (Some ow)
  then have staff: "truthy (pu_staff_unique_id u)" and ow: "local_body_scope_for_staff sx (Some (pu_requester u)) = Some ow"
    by (auto split: if_splits)
  have id: "Some (the (pu_staff_unique_id u)) = pu_staff_unique_id u" using staff by (cases "pu_staff_unique_id u") auto
  consider (body) "truthy (map_option snd (ow_local_body ow))"
    | (place) "\<not> truthy (map_option snd (ow_local_body ow))" "truthy (ow_state ow)"
    | (role) "\<not> truthy (map_option snd (ow_local_body ow))" "\<not> truthy (ow_state ow)" by blast
  then show thesis
  proof cases
    case body
    with staff ow have "grant_source_of sx u = ByLocalBody ow (the (pu_staff_unique_id u))" by (simp add: grant_source_of_def)
    with assms(1) id obtain payload where payload: "resolve_intersected_permission_payload db (place_filters ow) (pu_staff_unique_id u)
        (pu_role_name u) (pu_user_type_name u) = Some payload" and p: "p = py_permissions payload"
      by auto
    have both: "x \<in> row_triples (gd_names db) (action_rows db (place_filters ow\<lparr>pf_owner_kind := Some ''super_admin''\<rparr>))"
      "x \<in> row_triples (gd_names db) (action_rows db (place_filters ow\<lparr>pf_owner_kind := Some ''staff'', pf_staff_id := pu_staff_unique_id u\<rparr>))"
      using assms(2) unfolding p intersected_permissions [OF payload] by blast+
    have "live_row_grants db (\<lambda>row. at_place ow row \<and> row ''permission_owner_kind'' = Some ''super_admin'') x"
      "live_row_grants db (\<lambda>row. at_place ow row \<and> of_member u row) x"
      using both by (cases x; auto intro: row_triples_grant dest: body_filters [OF ow body] body_filters(2) [OF ow body staff])+
    then have "tables_grant db sx u x" unfolding tables_grant_def Some option.case using body by simp
    then show thesis by (rule that [OF refl])
  next
    case place
    with staff ow have "grant_source_of sx u = ByPlace ow (the (pu_staff_unique_id u))" by (simp add: grant_source_of_def)
    with assms(1) id obtain payload where payload: "resolve_permission_payload db (no_filters\<lparr>pf_owner_kind := Some ''staff'',
        pf_staff_id := pu_staff_unique_id u, pf_state := ow_state ow, pf_district := ow_district ow, pf_area_type := ow_area_type ow\<rparr>)
        (pu_role_name u) (pu_user_type_name u) = Some payload" and p: "p = py_permissions payload"
      by auto
    obtain y where y: "rename_triple y = x" "y \<in> row_triples (gd_names db) (action_rows db (no_filters\<lparr>pf_owner_kind := Some ''staff'',
        pf_staff_id := pu_staff_unique_id u, pf_state := ow_state ow, pf_district := ow_district ow, pf_area_type := ow_area_type ow\<rparr>))
        \<or> configured db (pu_staff_unique_id u) y"
      by (rule resolved_granted [OF payload assms(2) [unfolded p]]) simp
    have "tables_grant db sx u y"
      unfolding tables_grant_def Some option.case using place y(2)
      by (cases y) (auto intro: row_triples_grant dest: geo_filters [OF staff])
    with y(1) rename_again [of y] that show thesis by metis
  next
    case role
    with staff ow have "grant_source_of sx u = (case permission_filters_for_user u of None \<Rightarrow> NoGrants | Some pf \<Rightarrow> ByRole pf)"
      by (simp add: grant_source_of_def)
    with assms have "\<exists>y. rename_triple y = rename_triple x \<and> live_row_grants db (of_role u) y" by (rule role_rows)
    moreover have "tables_grant db sx u y \<longleftrightarrow> live_row_grants db (of_role u) y" for y
      unfolding tables_grant_def Some option.case using role by simp
    ultimately show thesis using that by blast
  qed
next
  case None
  then have "grant_source_of sx u = (case permission_filters_for_user u of None \<Rightarrow> NoGrants | Some pf \<Rightarrow> ByRole pf)"
    by (auto simp: grant_source_of_def split: if_splits)
  with assms have "\<exists>y. rename_triple y = rename_triple x \<and> live_row_grants db (of_role u) y" by (rule role_rows)
  moreover have "tables_grant db sx u y \<longleftrightarrow> live_row_grants db (of_role u) y" for y
    unfolding tables_grant_def None by simp
  ultimately show thesis using that by blast
qed

text \<open>C6: From the request to the tables: a write that passes the middleware, made with a token that carries no
  permissions by a user who is no superuser (and is no complaint call of an oversight role, on no public, auth-only or
  exempt route), was granted by the tables on a screen that opens the route: by a live row of the configuration the
  user has now, or, unless that configuration is strict, by what the tables granted the owner of the same cache entry
  at some request of the last sixty seconds: in a single local body a row of the administrator of the body and a row of
  the member, in a wider place a row of the member at that place or of the member's configuration, otherwise a row of
  the user's role. Screens are compared under their current names.\<close>
theorem write_needs_stored_grant:
  assumes "process_view decode accounts resolve instant request view sessions = (None, sessions')"
    and "module_from_path (rq_path request) = Some m"
    and "authenticate_request decode accounts instant request sessions = (Inr user, sessions')"
    and "checked_request request view user"
    and "map_of HTTP_ACTION_MAP (rq_method request) = Some action" and "action \<noteq> ''view''"
    and "\<not> (is_oversight_role user \<and> m = ''complaint-ticket'')" and "a \<in> set (required_actions request action)"
    and "cache_run log cache" and "pu_token_permissions u = []"
    and "fst (resolve_permissions_for_request db sx now u cache) = Some (resolve user)"
  shows "\<exists>v key page m0 s0. view = Some v
    \<and> opens_route m (resource_of v) (route_resource_from_path (rq_path request) m) key page
    \<and> current_names (m0, s0) = (key, page)
    \<and> (configured db (pu_staff_unique_id u) (m0, s0, a)
       \<or> \<not> strict_config db (pu_staff_unique_id u)
         \<and> (\<exists>(t, db', sx', u')\<in>set ((now, db, sx, u) # log). now - 60 < t
              \<and> cache_key u' (grant_source_of sx' u') = cache_key u (grant_source_of sx u)
              \<and> tables_grant db' sx' u' (m0, s0, a)))"
proof -
  from passed_write_granted [OF assms(1-8)] obtain v key page where v: "view = Some v"
    and route: "opens_route m (resource_of v) (route_resource_from_path (rq_path request) m) key page"
    and granted: "(key, page, a) \<in> holds (resolve user)"
    unfolding granted_on_def holds_def pairs_def by blast
  obtain base cache' where b: "resolve_base_permissions db sx now u cache = (Some base, cache')"
      and p: "resolve user = apply_staff_access_configuration db base (pu_staff_unique_id u)"
    using assms(11) by (auto simp: resolve_permissions_for_request_def split: prod.splits)
  from granted obtain x where x: "rename_triple x = (key, page, a)"
    "configured db (pu_staff_unique_id u) x \<or> \<not> strict_config db (pu_staff_unique_id u) \<and> x \<in> holds base"
    unfolding p holds_apply_config by (auto split: if_splits)
  have names: "\<exists>m0 s0. y = (m0, s0, a) \<and> current_names (m0, s0) = (key, page)" if "rename_triple y = (key, page, a)" for y
    using that by (cases y) (auto simp: rename_triple_def split: prod.splits)
  show ?thesis
  proof (cases "configured db (pu_staff_unique_id u) x")
    case True
    with names [OF x(1)] v route show ?thesis by blast
  next
    case False
    with x(2) have s: "\<not> strict_config db (pu_staff_unique_id u)" "x \<in> holds base" by simp_all
    then have "base \<noteq> []" by auto
    with base_fresh [OF assms(9) b assms(10)] obtain t db' sx' u' where req: "(t, db', sx', u') \<in> set ((now, db, sx, u) # log)"
        "now - 60 < t" "cache_key u' (grant_source_of sx' u') = cache_key u (grant_source_of sx u)"
        "stored_permissions db' u' (grant_source_of sx' u') = Some base"
      unfolding PERMISSION_CACHE_SECONDS_def resolved_in_def by fastforce
    obtain y where y: "rename_triple y = rename_triple x" "tables_grant db' sx' u' y"
      by (rule stored_granted [OF req(4) s(2)])
    with names [of y] x(1) obtain m0 s0 where "y = (m0, s0, a)" "current_names (m0, s0) = (key, page)" by auto
    with y(2) req(1-3) s(1) v route show ?thesis by blast
  qed
qed

section \<open>The map a request sees\<close>

text \<open>A well-formed map: no module, screen of a module or action of a screen twice, and only names of the current catalog.\<close>

definition permissions_ok :: "permissions \<Rightarrow> bool" where
  "permissions_ok p \<longleftrightarrow> distinct (map fst p)
     \<and> list_all (\<lambda>(m, screens). distinct (map fst screens)
         \<and> list_all (\<lambda>(s, actions). distinct actions \<and> current_names (m, s) = (m, s)) screens) p"

lemma list_all_dict_alter:
  assumes "list_all (\<lambda>(k, v). P k v) xs" and "P k (f d)" and "\<And>v. P k v \<Longrightarrow> P k (f v)"
  shows "list_all (\<lambda>(k, v). P k v) (dict_alter k d f xs)"
  using assms(1)
proof (induction xs)
  case (Cons x xs)
  with assms(3) show ?case by (cases x; cases "fst x = k") auto
qed (simp add: assms(2))

lemma distinct_fold_append_new: "distinct ys \<Longrightarrow> distinct (fold append_new xs ys)"
  by (induction xs arbitrary: ys) (simp_all add: append_new_def)

lemma permissions_ok_file:
  assumes "permissions_ok p" shows "permissions_ok (file_actions m x p)"
proof -
  obtain s actions where x: "x = (s, actions)" by (cases x)
  obtain m' s' where names: "current_names (m, s) = (m', s')" by (cases "current_names (m, s)")
  then have current: "current_names (m', s') = (m', s')" using current_names_idem [of "(m, s)"] by simp
  let ?Q = "\<lambda>s actions. distinct actions \<and> current_names (m', s) = (m', s)"
  have inner: "distinct (map fst (dict_alter s' [] (fold append_new actions) screens))
      \<and> list_all (\<lambda>(s, actions). ?Q s actions) (dict_alter s' [] (fold append_new actions) screens)"
    if "distinct (map fst screens) \<and> list_all (\<lambda>(s, actions). ?Q s actions) screens" for screens
    using that list_all_dict_alter [of ?Q screens s' "fold append_new actions" "[]"] current
    by (simp add: distinct_fold_append_new)
  show ?thesis
    using assms inner x names unfolding permissions_ok_def file_actions_def
    by (auto simp: distinct_fold_append_new current intro!: list_all_dict_alter [where P = "\<lambda>m screens. distinct (map fst screens)
         \<and> list_all (\<lambda>(s, actions). distinct actions \<and> current_names (m, s) = (m, s)) screens"])
qed

lemma permissions_ok_normalize: "permissions_ok (normalize_permission_names p)"
proof -
  have screens: "permissions_ok q \<Longrightarrow> permissions_ok (fold (file_actions m) xs q)" for m xs q
    by (induction xs arbitrary: q) (simp_all add: permissions_ok_file)
  have "permissions_ok q \<Longrightarrow> permissions_ok (fold (\<lambda>(m, xs). fold (file_actions m) xs) ps q)" for ps q
    by (induction ps arbitrary: q) (auto simp: screens)
  then show ?thesis by (simp add: normalize_permission_names_def permissions_ok_def [of "[]"])
qed

text \<open>C15: Every permission map a request is checked against is well formed, wherever it came from, a token or the cache
  included: no module, screen or action twice, and only names of the current catalog.\<close>
theorem request_permissions_well_formed:
  assumes "fst (resolve_permissions_for_request db sx now u cache) = Some p" shows "permissions_ok p"
  using assms permissions_ok_normalize
  by (auto simp: resolve_permissions_for_request_def apply_staff_access_configuration_def Let_def
      split: prod.splits option.splits if_splits)

section \<open>Two oddities\<close>

lemma set_strip_dash: "set (strip_dash s) \<subseteq> set s"
proof -
  have "set (dropWhile P xs) \<subseteq> set xs" for P and xs :: string by (auto dest: set_dropWhileD)
  then show ?thesis unfolding strip_dash_def by (metis set_rev subset_trans)
qed

lemma permission_key_chars: "c \<in> set (permission_key v) \<Longrightarrow> is_alnum c \<or> c = CHR ''-''"
proof -
  have "c \<in> set (dashed b s) \<Longrightarrow> is_alnum c \<or> c = CHR ''-''" for b s
    by (induction b s rule: dashed.induct) (auto split: if_splits)
  then show "c \<in> set (permission_key v) \<Longrightarrow> is_alnum c \<or> c = CHR ''-''"
    using set_strip_dash by (fastforce simp: permission_key_def)
qed

text \<open>A key holds no underscore: the entry \<open>trip_plan\<close> of \<open>OPERATOR_SCREENS\<close> never matches a screen key.\<close>

lemma trip_plan_never_a_key: "permission_key v \<noteq> ''trip_plan''"
  using permission_key_chars [of "CHR ''_''" v] by (auto simp: is_alnum_def is_alpha_def is_digit_def)

lemma screen_meta_keys: "fst ` set (screen_meta nt rows) = sg_userscreen_id ` set rows"
proof -
  have "fst ` set (fold (\<lambda>r. dict_alter (sg_userscreen_id r) ([], []) (\<lambda>_. (f r, h r))) rs xs) = sg_userscreen_id ` set rs \<union> fst ` set xs"
    for f h and rs :: "screen_grant list" and xs :: "(ident \<times> string \<times> string) list"
    by (induction rs arbitrary: xs) auto
  from this [of "\<lambda>r. mainscreen_name nt (sg_mainscreen_id r)" "\<lambda>r. userscreen_name nt (sg_userscreen_id r)" rows "[]"]
  show ?thesis by (simp only: screen_meta_def) simp
qed

text \<open>One column grant of a screen that has no row and no grant fails the whole payload.\<close>

lemma column_of_missing_screen_fails:
  assumes "screen_of nt (cg_userscreen_id r) = None" and "\<forall>g\<in>set rows. sg_userscreen_id g \<noteq> cg_userscreen_id r"
  shows "build_permission_details nt rows [r] = None"
proof -
  have "map_of (screen_meta nt (sort_key k rows)) (cg_userscreen_id r) = None" for k :: "screen_grant \<Rightarrow> ident \<times> ident \<times> int"
    unfolding map_of_eq_None_iff screen_meta_keys using assms(2) by auto
  with assms(1) show ?thesis by (simp add: build_permission_details_def detail_column_def Let_def)
qed

section \<open>A ward clerk\<close>

definition demo_names :: name_tables where
  "demo_names = \<lparr>nt_screens = [\<lparr>sn_unique_id = ''S1'', sn_userscreen_name = ''ward'', sn_folder_name = [], sn_mainscreen_id = ''M1'', sn_order_no = 1\<rparr>],
     nt_mains = [\<lparr>mn_unique_id = ''M1'', mn_mainscreen_name = ''location-masters'', mn_order_no = 1\<rparr>],
     nt_actions = [\<lparr>an_unique_id = ''A1'', an_action_name = ''View'', an_variable_name = ''view''\<rparr>,
       \<lparr>an_unique_id = ''A2'', an_action_name = ''add'', an_variable_name = []\<rparr>,
       \<lparr>an_unique_id = ''A3'', an_action_name = ''Import'', an_variable_name = ''import''\<rparr>],
     nt_columns = [], nt_app_modules = []\<rparr>"

definition demo_grant :: "(string \<times> string) list \<Rightarrow> ident \<Rightarrow> int \<Rightarrow> screen_grant" where
  "demo_grant owner a order = \<lparr>sg_unique_id = a, sg_owner = map_of owner, sg_mainscreen_id = ''M1'', sg_userscreen_id = ''S1'',
     sg_userscreenaction_id = a, sg_order_no = order, sg_is_active = True, sg_is_deleted = False\<rparr>"

definition demo_db :: grant_db where
  "demo_db = \<lparr>gd_names = demo_names,
     gd_screens = map (\<lambda>(a, n). demo_grant [(''usertype_id'', ''UT1'')] a n) [(''A3'', 3), (''A1'', 1), (''A2'', 2)]
       @ map (\<lambda>a. demo_grant [(''local_body_type'', ''corporation''), (''local_body_id'', ''C1''), (''permission_owner_kind'', ''super_admin'')] a 1)
           [''A1'', ''A2'']
       @ map (\<lambda>a. demo_grant [(''local_body_type'', ''corporation''), (''local_body_id'', ''C1''), (''permission_owner_kind'', ''staff''), (''staff_id'', ''E1'')] a 1)
           [''A2'', ''A3''],
     gd_columns = [], gd_widgets = [], gd_configs = [], gd_config_grants = [], gd_staff = []\<rparr>"

definition demo_clerk :: permission_user where
  "demo_clerk = \<lparr>pu_requester = \<lparr>rq_is_authenticated = True, rq_is_superuser = False, rq_staff_unique_id = None, rq_linked_staff_id = None\<rparr>,
     pu_staff_unique_id = None, pu_unique_id = ''U1'', pu_user_type_id = Some ''UT1'', pu_staffusertype_id = None,
     pu_contractorusertype_id = None, pu_governmentusertype_id = None, pu_role_name = Some ''Clerk'', pu_user_type_name = Some ''staff'',
     pu_token_permissions = []\<rparr>"

definition demo_scopes :: scope_db where
  "demo_scopes = \<lparr>sx_scopes = [], sx_bodies = (\<lambda>_. []), sx_wards = []\<rparr>"

definition demo_place :: permission_filters where
  "demo_place = place_filters \<lparr>ow_state = None, ow_district = None, ow_area_type = None, ow_local_body = Some (CorporationId, ''C1'')\<rparr>"

definition clerk_permissions :: permissions where
  "clerk_permissions = [(''location-masters'', [(''ward'', [''view'', ''add'', ''import''])])]"

lemma map_of_fold_update: "map_of (fold (\<lambda>(k, v). AList.update k v) ps al) = map_of (rev ps @ al)"
  by (induction ps arbitrary: al) (auto simp: update_conv' map_add_def fun_eq_iff split: option.splits)

lemma ward_is_current: "current_names (''location-masters'', ''ward'') = (''location-masters'', ''ward'')"
proof -
  have "map_of LEGACY_SCREEN_NAMES ''ward'' = None"
  proof (rule ccontr)
    assume "map_of LEGACY_SCREEN_NAMES ''ward'' \<noteq> None"
    moreover have "list_ex (\<lambda>s. rev (scr_name s) = rev ''ward'') all_screens" by code_simp
    then have "\<exists>s\<in>set all_screens. scr_name s = ''ward''" by (simp only: list_ex_iff rev_is_rev_conv)
    ultimately show False using current_screen_name by metis
  qed
  moreover have "map_of (rev (concat (map (\<lambda>(m, screens). map (\<lambda>s. (s, m)) screens) (structure_of MODULES)))) ''ward''
      = Some ''location-masters''" by code_simp
  ultimately show ?thesis by (simp add: current_names_def renamed_def SCREEN_MODULE_def map_of_fold_update)
qed

lemma demo_clerk_source: "grant_source_of demo_scopes demo_clerk = ByRole (no_filters\<lparr>pf_usertype := Some ''UT1''\<rparr>)"
  by (simp add: grant_source_of_def demo_clerk_def permission_filters_for_user_def truthy_def blank_to_none_def no_filters_def)

lemma demo_clerk_base:
  "build_action_permissions (gd_names demo_db) (action_rows demo_db (no_filters\<lparr>pf_usertype := Some ''UT1''\<rparr>)) = clerk_permissions"
  by code_simp

lemma demo_clerk_details:
  "build_permission_details (gd_names demo_db) (action_rows demo_db (no_filters\<lparr>pf_usertype := Some ''UT1''\<rparr>))
     (column_rows demo_db (no_filters\<lparr>pf_usertype := Some ''UT1''\<rparr>)) \<noteq> None"
  by code_simp

lemma clerk_permissions_current: "normalize_permission_names clerk_permissions = clerk_permissions"
  by (simp add: normalize_permission_names_def clerk_permissions_def file_actions_def ward_is_current append_new_def)

lemma demo_clerk_resolved:
  "fst (resolve_permissions_for_request demo_db demo_scopes 0 demo_clerk (\<lambda>_. None)) = Some clerk_permissions"
proof -
  have config: "apply_staff_access_configuration demo_db clerk_permissions i = clerk_permissions" for i
    by (simp add: apply_staff_access_configuration_def staff_access_config_def demo_db_def clerk_permissions_current)
  obtain payload where p: "resolve_permission_payload demo_db (no_filters\<lparr>pf_usertype := Some ''UT1''\<rparr>)
      (pu_role_name demo_clerk) (pu_user_type_name demo_clerk) = Some payload"
    using demo_clerk_details by (auto simp: resolve_permission_payload_def Let_def)
  with resolved_permissions [OF p] have "py_permissions payload = clerk_permissions"
    by (simp add: demo_clerk_base config)
  moreover have "pu_token_permissions demo_clerk = []" by (simp add: demo_clerk_def)
  ultimately show ?thesis
    using p by (simp add: resolve_permissions_for_request_def resolve_base_permissions_def demo_clerk_source permission_cache_get_def config)
qed

lemma demo_source: "grant_source_of demo_scopes demo_clerk \<noteq> NoGrants" "pu_token_permissions demo_clerk = []"
  by (simp_all add: demo_clerk_source) (simp add: demo_clerk_def)

theorem request_permissions_well_formed_witness: "permissions_ok clerk_permissions"
  by (rule request_permissions_well_formed [OF demo_clerk_resolved])

theorem permissions_minute_fresh_witness:
  "\<exists>base. clerk_permissions = apply_staff_access_configuration demo_db base (pu_staff_unique_id demo_clerk)"
  using permissions_minute_fresh [OF cache_run.start demo_source(2,1) demo_clerk_resolved] by blast

definition demo_payload :: payload where
  "demo_payload = the (resolve_intersected_permission_payload demo_db demo_place (Some ''E1'') (Some ''Clerk'') (Some ''staff''))"

lemma demo_payload: "resolve_intersected_permission_payload demo_db demo_place (Some ''E1'') (Some ''Clerk'') (Some ''staff'') = Some demo_payload"
proof -
  have "resolve_intersected_permission_payload demo_db demo_place (Some ''E1'') (Some ''Clerk'') (Some ''staff'') \<noteq> None" by code_simp
  then show ?thesis by (simp add: demo_payload_def)
qed

lemma demo_payload_permissions: "py_permissions demo_payload = [(''location-masters'', [(''ward'', [''add''])])]"
  by code_simp

theorem intersection_needs_both_witness:
  "(''location-masters'', ''ward'', ''add'') \<in> row_triples demo_names
     (action_rows demo_db (demo_place\<lparr>pf_owner_kind := Some ''super_admin''\<rparr>))
   \<and> (''location-masters'', ''ward'', ''add'') \<in> row_triples demo_names
     (action_rows demo_db (demo_place\<lparr>pf_owner_kind := Some ''staff'', pf_staff_id := Some ''E1''\<rparr>))"
  using intersection_needs_both [OF demo_payload, of "''location-masters''" "''ward''" "''add''"]
  by (auto simp: demo_payload_permissions holds_def pairs_def demo_db_def)


lemma ward_owner: "route_owner_of (route_key_of ''masters'' (Some ''wards'')) = Some (''location-masters'', ''ward'')"
proof -
  have "ROUTE_OWNERS = route_claims MODULES"
    using route_owners_Inr [of MODULES "route_claims MODULES"] catalog_routes_distinct by (simp add: ROUTE_OWNERS_def)
  moreover have "map_of (route_claims MODULES) ''masters/wards'' = Some (''location-masters'', ''ward'')" by code_simp
  ultimately show ?thesis by (simp add: route_owner_of_def route_key_of_def)
qed

lemma clerk_upload_passes:
  "process_view (\<lambda>t. Payload ward_token) ward_accounts (\<lambda>u. clerk_permissions) 0 ward_upload
     (Some ward_view) sample_sessions
   = (None, snd (validate_session 0 (token_payload.truncate ward_token) sample_sessions))"
proof -
  have resource: "resource_of ward_view = ''Ward''" by code_simp
  have "''Ward'' \<in> set (get_list MODULE_RESOURCE_ALLOWLIST ''masters'')" by code_simp
  moreover have "''Ward'' \<in> set (resource_allowlist_candidates ''Ward'' (Some ''wards''))"
    by (simp add: resource_allowlist_candidates_def)
  ultimately have "resource_allowed ''masters'' ''Ward'' (Some ''wards'')"
    by (auto simp: resource_allowed_def Let_def list_ex_iff)
  moreover have "{''import'', ''add''} \<subseteq> set (allowed_actions clerk_permissions ''masters'' ''Ward'' (Some ''wards''))"
    unfolding allowed_actions_def Let_def set_remdups set_append ward_owner
    by (simp add: owner_actions_def lookup_module_permissions_def clerk_permissions_def)
  ultimately have "check_grants ward_upload ''masters'' ''Ward'' (Some ''wards'') ward_clerk clerk_permissions = None"
    using ward_paths(5)
    by (simp add: check_grants_def HTTP_ACTION_MAP_def required_actions_def ward_upload_def)
  then show ?thesis
    using ward_paths ward_authenticated ward_checked resource
    by (simp add: process_view_def checked_request_def)
qed

lemma demo_places: "local_body_scope_for_staff demo_scopes v = None"
  by (cases v) (simp_all add: local_body_scope_for_staff_def requester_scope_def demo_scopes_def Let_def)

theorem write_needs_stored_grant_witness:
  "\<exists>key page m0 s0. opens_route ''masters'' ''Ward'' (Some ''wards'') key page \<and> current_names (m0, s0) = (key, page)
     \<and> live_row_grants demo_db (of_role demo_clerk) (m0, s0, ''import'')"
proof -
  have "map_of HTTP_ACTION_MAP (rq_method ward_upload) = Some ''add''" by (simp add: ward_upload_def HTTP_ACTION_MAP_def)
  moreover have "''import'' \<in> set (required_actions ward_upload ''add'')"
    using ward_paths(5) by (simp add: required_actions_def) (simp add: ward_upload_def)
  ultimately obtain key page m0 s0 where
      "opens_route ''masters'' (resource_of ward_view) (Some ''wards'') key page" "current_names (m0, s0) = (key, page)"
      "configured demo_db (pu_staff_unique_id demo_clerk) (m0, s0, ''import'') \<or> tables_grant demo_db demo_scopes demo_clerk (m0, s0, ''import'')"
    using write_needs_stored_grant [OF clerk_upload_passes ward_paths(1) ward_authenticated ward_checked _ _ ward_no_oversight _
        cache_run.start demo_source(2) demo_clerk_resolved] ward_paths(2) by fastforce
  moreover have "\<not> configured demo_db i x" for i x by (simp add: configured_def staff_access_config_def demo_db_def)
  moreover have "resource_of ward_view = ''Ward''" by code_simp
  moreover have "tables_grant demo_db demo_scopes demo_clerk x \<longleftrightarrow> live_row_grants demo_db (of_role demo_clerk) x" for x
    by (simp add: tables_grant_def demo_places)
  ultimately show ?thesis by (intro exI [of _ key] exI [of _ page] exI [of _ m0] exI [of _ s0]) simp
qed

end
