(* ===== verification/Spec2Isabelle.thy ===== *)
theory Spec2Isabelle
  imports
    Scope_Resolution
    Business_Clock
    Ticket_Routing
    Escalation
    Login_Session
    Permission_Catalog
    Module_Permission
    Background_Jobs
    Cascade_Delete
    Trip_Stops
    Retrip_Carry
    Daily_Generation
    Geo_Payload
    Data_Scope
    Service_Desk
    Ticket_Desk
    Access_Audit
    Permission_Names
    Permission_Response
begin

text \<open>
  A model of the core logic of the IWMS government backend (a Django service under
  \<open>src/app\<close>), with the theorems that make it correct.

  The program keeps its state in database tables and runs in several processes. A web request
  passes the permission middleware, reaches a viewset and its serializer, which call the
  services; a Celery beat and its workers call the services on a timer. The model takes the
  parts in which a decision is made, one theory each:

  \<^item> \<open>Prelude\<close>: identifiers, records' columns as maps, the loop shapes shared by the components
    (\<open>ranked_choice\<close>: the last strict improvement of a fold; \<open>write_once\<close>: a value that no later
    event changes), lemmas on \<open>find\<close>, \<open>filter\<close> and association lists.
  \<^item> \<open>Scope_Resolution\<close>: \<open>utils/staff_hierarchy.py\<close> and the validation of \<open>StaffHierarchy\<close> writes in
    \<open>staffhierarchy_serializer.py\<close>. A place is a map from the scope columns to ids; a row applies
    where its columns agree with the place; the narrowest row wins; the reporting chain of a role
    is walked for cycles.
  \<^item> \<open>Business_Clock\<close>: \<open>_add_business_minutes\<close> of \<open>utils/complaint_ticket_routing.py\<close>, on seconds.
  \<^item> \<open>Ticket_Routing\<close>: the choice of routing rule and SLA rule of a ticket (same file).
  \<^item> \<open>Escalation\<close>: \<open>services/complaint_escalation.py\<close> and \<open>apply_routing_and_sla\<close>: role levels, the
    staff member of a level, first assignment, manual escalation, the overdue sweep, the restart
    and stop of the clock, who may still act on a ticket.
  \<^item> \<open>Login_Session\<close>: \<open>services/login_session.py\<close> with the logout, heartbeat and refresh handlers of
    the login viewsets: the audit row of a session, the one-minute cache, the sweep.
  \<^item> \<open>Permission_Catalog\<close>: \<open>utils/permission_catalog.py\<close> and \<open>utils/screen_dependencies.py\<close>, with their
    tables written out, and the checks they run at import time.
  \<^item> \<open>Module_Permission\<close>: \<open>middleware/module_permission_middleware.py\<close>, from the path of a request
    to the refusal or the view, on the two theories above.
  \<^item> \<open>Background_Jobs\<close>: \<open>services/background_jobs.py\<close>: claiming, running and finishing a job by
    several processes, the waiting request, the page-by-page export.
  \<^item> \<open>Graph_Walk\<close>: a depth-first walk with a visited list, over any successor function.
  \<^item> \<open>Cascade_Tables\<close>: the \<open>CASCADE_SOFT_DELETE\<close> tuples of the models, the properties that answer
    some of their names, and the registry of \<open>utils/cascade_delete.py\<close> that answers the others.
  \<^item> \<open>Cascade_Delete\<close>: \<open>cascade_soft_delete\<close> and \<open>collect_cascade_cache_scopes\<close> of the same file, and
    the delete reason of a request (\<open>utils/delete_reason.py\<close>, \<open>DeleteReasonMixin\<close>). The walk is
    \<open>Graph_Walk\<close> over the rows and over the model classes.
  \<^item> \<open>Trip_Stops\<close>: the daily trip assignment and its bin and household stops
    (\<open>models/core_modules/daily_operations\<close>), the status endpoint, and the copying of the plan's stops
    (\<open>signals/trip_plan_signals.py\<close>).
  \<^item> \<open>Retrip\<close>: the definitions of \<open>services/retrip_service.py\<close>, \<open>services/retrip_timeout_service.py\<close> and
    the handlers that call them; \<open>Retrip_Life\<close>: the life of a request over any sequence of calls and
    the sweep of its deadlines; \<open>Retrip_Carry\<close>: what an approval carries, and the other ways to open
    a continuation.
  \<^item> \<open>Service_Notice\<close>: \<open>services/daily_service_notice.py\<close>: a day of a plan without collection, declared,
    revoked and shown. \<open>Daily_Generation\<close>: \<open>services/daily_trip_generation.py\<close>, the night's run of
    \<open>management/commands/generate_daily_trips.py\<close>, the supervisor's cards and choice; notices and
    generation in any order.
  \<^item> \<open>Geo_Payload\<close>: the normalization of a geography payload, the check of its wards, copies and names
    (\<open>utils/hierarchy.py\<close>). \<open>Data_Scope\<close>: what a requester sees, by the same file: the scope of a staff
    member, the filters of querysets (interpretations of \<open>row_filter\<close>), the staff offered for a
    trip, the scope copied from a row.
  \<^item> \<open>Service_Desk\<close>: \<open>utils/roles.py\<close> and the handlers of \<open>daily_trip_assignment_viewset.py\<close> that act on
    a day's service, on the three theories above.
  \<^item> \<open>Ticket_Desk\<close>: \<open>ticket_viewset.py\<close> and \<open>services/complaint_cleanup.py\<close>: which tickets a user sees, every handler
    that writes a ticket with its histories, the citizen's cleanup report and its review, on \<open>Escalation\<close>. One
    step function takes a call of any of them; the properties are about any sequence of calls.
  \<^item> \<open>Access_Audit\<close>: \<open>utils/permission_snapshot.py\<close> and the audit of \<open>customer_access_configuration_viewset.py\<close>: the
    stored grants of each owner as keys, snapshots with names, one audit row per owner a request changes, and
    the trail replayed.
  \<^item> \<open>Permission_Names\<close>: the current names of the catalog's modules and screens. \<open>Permission_Response\<close>:
    \<open>utils/permission_response.py\<close> and \<open>utils/app_feature_grants.py\<close>: from the stored grants to the permission
    map, its details and the surfaces of the apps; staff configurations; the intersection for a local body; the
    middleware's lookup with its cache of a minute, composed with \<open>Module_Permission\<close>.

  Conventions. A table is a list of records in the order the query returns it (the default
  ordering of the model); a record has the columns the code reads or writes. \<open>None\<close> of a nullable
  column is \<open>None\<close>. Times are integers: seconds since a Monday midnight in \<open>Business_Clock\<close> and the
  ticket theories, seconds in \<open>Login_Session\<close>, milliseconds in \<open>Background_Jobs\<close>. The clock, the
  cache and the answers of other services are arguments. A raised exception is the left value of a
  sum, an early return a branch.

  Bounds and fuel. \<open>EXPORT_MAX_PAGES\<close> (100) is the code's own bound. The polling loop of a waiting
  request has fuel; \<open>wait_for_job_answers\<close> says how much is enough. The business clock recurses
  on the minutes left and is total. The cycle search of the reporting chain walks a list of
  visited roles and needs no fuel.

  The lemmas of a theory come in the order of its operations: what an operation returns on each
  branch, what it keeps, then the properties (each after a block of text that numbers it).

  \<open>Module_Permission\<close> takes the permission map of a user as an argument; \<open>Permission_Response\<close> supplies it.
  The rows of a payload keep the ids, names and flags the code decides on; labels, icons, the hash
  and the time of a payload are left out.

  Not modelled: viewsets other than the named handlers, dashboards and reports (aggregations by
  SQL), seeders and management commands (data), face recognition, push messages, e-mail, maps and
  other calls to third parties, file storage, the formatting of workbooks.
\<close>

end
